(* ===== verification/Nfs_Prelude.thy ===== *)
theory Nfs_Prelude
  imports Main "HOL-Library.Word"
begin

text \<open>
  Shared vocabulary of the development: the machine integers and the error codes of the
  client, the searches of the kernel's bitmap library, and the generic lemmas on lists and
  words that the component theories use.

  A function of the source that returns \<open>int\<close> returns \<open>int\<close> here, \<open>0\<close> or a negated code as in C;
  a function that returns a pointer or \<open>ERR_PTR(-E)\<close> returns a sum, \<open>Inl (- E)\<close> for the error. The
  codes are the numbers of the Linux errno table and of the NFSv4 protocol (RFC 7530, RFC 8881,
  RFC 7862); every proof uses only that they differ and that the protocol's own codes start
  above 10000, which is what the comparison with \<open>-1000\<close> in the source relies on.
\<close>

section \<open>Machine integers\<close>

type_synonym u32 = "32 word"
type_synonym u64 = "64 word"
type_synonym ulong = "64 word"

text \<open>The kernel's \<open>(s32)(a - b) > 0\<close>: \<open>a\<close> is ahead of \<open>b\<close> on the circle of 32-bit numbers.\<close>

definition s32_after :: "u32 \<Rightarrow> u32 \<Rightarrow> bool" where
  "s32_after a b \<longleftrightarrow> 0 < sint (a - b)"

text \<open>The comparisons of jiffies: \<open>time_before(a, b)\<close> is \<open>(long)(a - b) < 0\<close>.\<close>

definition time_before :: "ulong \<Rightarrow> ulong \<Rightarrow> bool" where
  "time_before a b \<longleftrightarrow> sint (a - b) < 0"

definition time_after :: "ulong \<Rightarrow> ulong \<Rightarrow> bool" where
  "time_after a b \<longleftrightarrow> time_before b a"

definition time_in_range :: "ulong \<Rightarrow> ulong \<Rightarrow> ulong \<Rightarrow> bool" where
  "time_in_range a b c \<longleftrightarrow> \<not> time_before a b \<and> \<not> time_before c a"

section \<open>Error codes\<close>

abbreviation EPERM :: int where
  "EPERM \<equiv> 1"

abbreviation ENOENT :: int where
  "ENOENT \<equiv> 2"

abbreviation EINTR :: int where
  "EINTR \<equiv> 4"

abbreviation EIO :: int where
  "EIO \<equiv> 5"

abbreviation E2BIG :: int where
  "E2BIG \<equiv> 7"

abbreviation EBADF :: int where
  "EBADF \<equiv> 9"

abbreviation EAGAIN :: int where
  "EAGAIN \<equiv> 11"

abbreviation ENOMEM :: int where
  "ENOMEM \<equiv> 12"

abbreviation EACCES :: int where
  "EACCES \<equiv> 13"

abbreviation EBUSY :: int where
  "EBUSY \<equiv> 16"

abbreviation ENODEV :: int where
  "ENODEV \<equiv> 19"

abbreviation EINVAL :: int where
  "EINVAL \<equiv> 22"

abbreviation ENOSPC :: int where
  "ENOSPC \<equiv> 28"

abbreviation EROFS :: int where
  "EROFS \<equiv> 30"

abbreviation ENOLCK :: int where
  "ENOLCK \<equiv> 37"

abbreviation EDEADLOCK :: int where
  "EDEADLOCK \<equiv> 35"

abbreviation EPROTONOSUPPORT :: int where
  "EPROTONOSUPPORT \<equiv> 93"

abbreviation EOPNOTSUPP :: int where
  "EOPNOTSUPP \<equiv> 95"

abbreviation ETIMEDOUT :: int where
  "ETIMEDOUT \<equiv> 110"

abbreviation ESTALE :: int where
  "ESTALE \<equiv> 116"

abbreviation EREMOTEIO :: int where
  "EREMOTEIO \<equiv> 121"

abbreviation ENOKEY :: int where
  "ENOKEY \<equiv> 126"

abbreviation EKEYEXPIRED :: int where
  "EKEYEXPIRED \<equiv> 127"

abbreviation ERESTARTSYS :: int where
  "ERESTARTSYS \<equiv> 512"

abbreviation ENOTSYNC :: int where
  "ENOTSYNC \<equiv> 522"

abbreviation ESERVERFAULT :: int where
  "ESERVERFAULT \<equiv> 526"

abbreviation NFS4ERR_IO :: int where
  "NFS4ERR_IO \<equiv> 5"

abbreviation NFS4ERR_NXIO :: int where
  "NFS4ERR_NXIO \<equiv> 6"

abbreviation NFS4ERR_NOENT :: int where
  "NFS4ERR_NOENT \<equiv> 2"

abbreviation NFS4ERR_BADHANDLE :: int where
  "NFS4ERR_BADHANDLE \<equiv> 10001"

abbreviation NFS4ERR_DELAY :: int where
  "NFS4ERR_DELAY \<equiv> 10008"

abbreviation NFS4ERR_DENIED :: int where
  "NFS4ERR_DENIED \<equiv> 10010"

abbreviation NFS4ERR_EXPIRED :: int where
  "NFS4ERR_EXPIRED \<equiv> 10011"

abbreviation NFS4ERR_GRACE :: int where
  "NFS4ERR_GRACE \<equiv> 10013"

abbreviation NFS4ERR_SHARE_DENIED :: int where
  "NFS4ERR_SHARE_DENIED \<equiv> 10015"

abbreviation NFS4ERR_WRONGSEC :: int where
  "NFS4ERR_WRONGSEC \<equiv> 10016"

abbreviation NFS4ERR_CLID_INUSE :: int where
  "NFS4ERR_CLID_INUSE \<equiv> 10017"

abbreviation NFS4ERR_RESOURCE :: int where
  "NFS4ERR_RESOURCE \<equiv> 10018"

abbreviation NFS4ERR_MOVED :: int where
  "NFS4ERR_MOVED \<equiv> 10019"

abbreviation NFS4ERR_NOFILEHANDLE :: int where
  "NFS4ERR_NOFILEHANDLE \<equiv> 10020"

abbreviation NFS4ERR_MINOR_VERS_MISMATCH :: int where
  "NFS4ERR_MINOR_VERS_MISMATCH \<equiv> 10021"

abbreviation NFS4ERR_STALE_CLIENTID :: int where
  "NFS4ERR_STALE_CLIENTID \<equiv> 10022"

abbreviation NFS4ERR_STALE_STATEID :: int where
  "NFS4ERR_STALE_STATEID \<equiv> 10023"

abbreviation NFS4ERR_OLD_STATEID :: int where
  "NFS4ERR_OLD_STATEID \<equiv> 10024"

abbreviation NFS4ERR_BAD_STATEID :: int where
  "NFS4ERR_BAD_STATEID \<equiv> 10025"

abbreviation NFS4ERR_BAD_SEQID :: int where
  "NFS4ERR_BAD_SEQID \<equiv> 10026"

abbreviation NFS4ERR_NOT_SAME :: int where
  "NFS4ERR_NOT_SAME \<equiv> 10027"

abbreviation NFS4ERR_LEASE_MOVED :: int where
  "NFS4ERR_LEASE_MOVED \<equiv> 10031"

abbreviation NFS4ERR_NO_GRACE :: int where
  "NFS4ERR_NO_GRACE \<equiv> 10033"

abbreviation NFS4ERR_RECLAIM_BAD :: int where
  "NFS4ERR_RECLAIM_BAD \<equiv> 10034"

abbreviation NFS4ERR_RECLAIM_CONFLICT :: int where
  "NFS4ERR_RECLAIM_CONFLICT \<equiv> 10035"

abbreviation NFS4ERR_BADXDR :: int where
  "NFS4ERR_BADXDR \<equiv> 10036"

abbreviation NFS4ERR_OPENMODE :: int where
  "NFS4ERR_OPENMODE \<equiv> 10038"

abbreviation NFS4ERR_BADOWNER :: int where
  "NFS4ERR_BADOWNER \<equiv> 10039"

abbreviation NFS4ERR_BADNAME :: int where
  "NFS4ERR_BADNAME \<equiv> 10041"

abbreviation NFS4ERR_FILE_OPEN :: int where
  "NFS4ERR_FILE_OPEN \<equiv> 10046"

abbreviation NFS4ERR_ADMIN_REVOKED :: int where
  "NFS4ERR_ADMIN_REVOKED \<equiv> 10047"

abbreviation NFS4ERR_CB_PATH_DOWN :: int where
  "NFS4ERR_CB_PATH_DOWN \<equiv> 10048"

abbreviation NFS4ERR_BADSESSION :: int where
  "NFS4ERR_BADSESSION \<equiv> 10052"

abbreviation NFS4ERR_BADSLOT :: int where
  "NFS4ERR_BADSLOT \<equiv> 10053"

abbreviation NFS4ERR_CONN_NOT_BOUND_TO_SESSION :: int where
  "NFS4ERR_CONN_NOT_BOUND_TO_SESSION \<equiv> 10055"

abbreviation NFS4ERR_BACK_CHAN_BUSY :: int where
  "NFS4ERR_BACK_CHAN_BUSY \<equiv> 10057"

abbreviation NFS4ERR_LAYOUTTRYLATER :: int where
  "NFS4ERR_LAYOUTTRYLATER \<equiv> 10058"

abbreviation NFS4ERR_NOMATCHING_LAYOUT :: int where
  "NFS4ERR_NOMATCHING_LAYOUT \<equiv> 10060"

abbreviation NFS4ERR_RECALLCONFLICT :: int where
  "NFS4ERR_RECALLCONFLICT \<equiv> 10061"

abbreviation NFS4ERR_SEQ_MISORDERED :: int where
  "NFS4ERR_SEQ_MISORDERED \<equiv> 10063"

abbreviation NFS4ERR_REP_TOO_BIG_TO_CACHE :: int where
  "NFS4ERR_REP_TOO_BIG_TO_CACHE \<equiv> 10067"

abbreviation NFS4ERR_RETRY_UNCACHED_REP :: int where
  "NFS4ERR_RETRY_UNCACHED_REP \<equiv> 10068"

abbreviation NFS4ERR_SEQ_FALSE_RETRY :: int where
  "NFS4ERR_SEQ_FALSE_RETRY \<equiv> 10076"

abbreviation NFS4ERR_BAD_HIGH_SLOT :: int where
  "NFS4ERR_BAD_HIGH_SLOT \<equiv> 10077"

abbreviation NFS4ERR_DEADSESSION :: int where
  "NFS4ERR_DEADSESSION \<equiv> 10078"

abbreviation NFS4ERR_WRONG_CRED :: int where
  "NFS4ERR_WRONG_CRED \<equiv> 10082"

abbreviation NFS4ERR_RETURNCONFLICT :: int where
  "NFS4ERR_RETURNCONFLICT \<equiv> 10086"

abbreviation NFS4ERR_DELEG_REVOKED :: int where
  "NFS4ERR_DELEG_REVOKED \<equiv> 10087"

abbreviation NFS4ERR_PARTNER_NO_AUTH :: int where
  "NFS4ERR_PARTNER_NO_AUTH \<equiv> 10089"

section \<open>Bitmaps\<close>

text \<open>
  A kernel bitmap is the set of its set bits. \<open>find_first_zero_bit\<close> and \<open>find_last_bit\<close> return the
  bitmap's size when they find nothing.
\<close>

definition find_first_zero_bit :: "u32 set \<Rightarrow> u32 \<Rightarrow> u32" where
  "find_first_zero_bit b n =
     (case List.find (\<lambda>i. of_nat i \<notin> b) [0..<unat n] of Some i \<Rightarrow> of_nat i | None \<Rightarrow> n)"

definition find_last_bit :: "u32 set \<Rightarrow> u32 \<Rightarrow> u32" where
  "find_last_bit b n =
     (case List.find (\<lambda>i. of_nat i \<in> b) (rev [0..<unat n]) of Some i \<Rightarrow> of_nat i | None \<Rightarrow> n)"

lemma u32_of_nat_unat: "(of_nat (unat x) :: u32) = x"
  by simp

lemma u32_unat_of_nat:
  assumes "m < unat (n :: u32)"
  shows "unat (of_nat m :: u32) = m"
proof -
  have "unat n < 2 ^ 32" using unsigned_less [of n] by simp
  then show ?thesis using assms by (simp add: unat_of_nat)
qed

lemma find_first_zero_bit_cases:
  assumes "find_first_zero_bit b n = i"
  shows "i < n \<and> i \<notin> b \<and> (\<forall>j < i. j \<in> b) \<or> i = n \<and> (\<forall>j < n. j \<in> b)"
proof (cases "List.find (\<lambda>i. of_nat i \<notin> b) [0..<unat n]")
  case None
  then have "\<forall>j < n. j \<in> b"
    by (auto simp: find_None_iff word_less_nat_alt)
  with None assms show ?thesis by (auto simp: find_first_zero_bit_def)
next
  case (Some k)
  then obtain m where m: "m < unat n" "k = m" "of_nat m \<notin> b" "\<forall>j < m. (of_nat j :: u32) \<in> b"
    by (auto simp: find_Some_iff)
  have k: "unat (of_nat m :: u32) = m"
    using m(1) by (rule u32_unat_of_nat)
  have "\<forall>j < (of_nat m :: u32). j \<in> b"
    using m(4) k by (auto simp: word_less_nat_alt)
  moreover have "(of_nat m :: u32) < n" using m(1) k by (simp add: word_less_nat_alt)
  ultimately show ?thesis using Some assms m by (auto simp: find_first_zero_bit_def)
qed

lemma find_last_bit_cases:
  assumes "find_last_bit b n = i"
  shows "i < n \<and> i \<in> b \<and> (\<forall>j. i < j \<and> j < n \<longrightarrow> j \<notin> b) \<or> i = n \<and> (\<forall>j < n. j \<notin> b)"
proof (cases "List.find (\<lambda>i. of_nat i \<in> b) (rev [0..<unat n])")
  case None
  then have "\<forall>j < n. j \<notin> b"
    by (auto simp: find_None_iff word_less_nat_alt)
  with None assms show ?thesis by (auto simp: find_last_bit_def)
next
  case (Some k)
  then obtain m where m: "m < unat n" "k = unat n - Suc m" "(of_nat k :: u32) \<in> b"
      "\<forall>j < m. (of_nat (unat n - Suc j) :: u32) \<notin> b"
    by (auto simp: find_Some_iff rev_nth)
  have k: "unat (of_nat k :: u32) = k" "k < unat n"
    using m(1,2) u32_unat_of_nat [of k n] by auto
  have "j \<notin> b" if "of_nat k < j" "j < n" for j :: u32
  proof -
    have "unat n - Suc (unat j) < m" "unat n - Suc (unat n - Suc (unat j)) = unat j"
      using that m(2) k by (auto simp: word_less_nat_alt)
    then show ?thesis using m(4) by (metis u32_of_nat_unat)
  qed
  then show ?thesis using Some assms m k by (auto simp: find_last_bit_def word_less_nat_alt)
qed

section \<open>Generic lemmas\<close>

lemma unat_succ_u32: "i < (n :: u32) \<Longrightarrow> unat (i + 1) = unat i + 1"
  by unat_arith

lemma u32_succ_le: "i < (n :: u32) \<Longrightarrow> i + 1 \<le> n"
  using unat_succ_u32 [of i n] by (simp add: word_le_nat_alt word_less_nat_alt)

lemma u32_le_succ: "i < (n :: u32) \<Longrightarrow> i \<le> i + 1"
  using unat_succ_u32 [of i n] by (simp add: word_le_nat_alt)

lemma u32_less_succ: "i < (n :: u32) \<Longrightarrow> i < i + 1"
  using unat_succ_u32 [of i n] by (simp add: word_less_nat_alt)

lemma u32_less_succ_iff: "i < (n :: u32) \<Longrightarrow> j < i + 1 \<longleftrightarrow> j \<le> i"
  using unat_succ_u32 [of i n] by (auto simp: word_le_nat_alt word_less_nat_alt)

lemma u32_pred_less: "m \<noteq> 0 \<Longrightarrow> m - 1 < (m :: u32)"
  by (simp add: word_less_nat_alt measure_unat)

text \<open>The signed reading of a 32-bit word, and the circular comparison in terms of it.\<close>

lemma sint_u32: "sint (x :: u32) = (if uint x < 2 ^ 31 then uint x else uint x - 2 ^ 32)"
proof -
  have b: "0 \<le> uint x" "uint x < 4294967296" using unsigned_less [of x] by simp_all
  have "sint x = (uint x + 2147483648) mod 4294967296 - 2147483648"
    using int_word_sint [of "uint x", where 'a = 32] by simp
  moreover have "(u + 2147483648) mod 4294967296 =
      (if u < 2147483648 then u + 2147483648 else u - 2147483648)"
    if "0 \<le> u" "u < 4294967296" for u :: int
  proof (cases "u < 2147483648")
    case False
    have "u + 2147483648 = (u - 2147483648) + 4294967296" by simp
    then have "(u + 2147483648) mod 4294967296 = (u - 2147483648) mod 4294967296"
      by (metis mod_add_self2)
    then show ?thesis using that False by simp
  qed (use that in simp)
  ultimately show ?thesis using b by simp
qed

lemma s32_after_iff: "s32_after a b \<longleftrightarrow> a \<noteq> b \<and> uint (a - b) < 2 ^ 31"
proof -
  have "uint (a - b) < 2 ^ 32" using unsigned_less [of "a - b"] by simp
  moreover have "0 < uint (a - b) \<longleftrightarrow> a \<noteq> b" 
    using uint_0_iff [of "a - b"] by (simp add: order_less_le)
  ultimately show ?thesis by (simp add: s32_after_def sint_u32)
qed

lemma s32_after_irrefl [simp]: "\<not> s32_after a a"
  by (simp add: s32_after_iff)

lemma uint_minus_u32:
  assumes "a \<noteq> b"
  shows "uint (b - a) = 2 ^ 32 - uint (a - (b :: u32))"
proof -
  have x: "0 < uint (a - b)" "uint (a - b) < 4294967296"
    using assms uint_0_iff [of "a - b"] unsigned_less [of "a - b"] by (simp_all add: order_less_le)
  have "uint (b - a) = uint (- (a - b))" by simp
  also have "\<dots> = (- uint (a - b)) mod 4294967296" by (subst uint_word_ariths) simp
  also have "\<dots> = 4294967296 - uint (a - b)" using x by (simp add: zmod_zminus1_eq_if)
  finally show ?thesis by simp
qed

lemma s32_after_asym: "s32_after a b \<Longrightarrow> \<not> s32_after b a"
  by (auto simp: s32_after_iff uint_minus_u32)

section \<open>Folds and differences\<close>

lemma fold_keeps: "(\<And>x c. g (f x c) = g c) \<Longrightarrow> g (fold f xs c) = g c"
  by (induction xs arbitrary: c) auto

lemma fold_preorder:
  assumes refl: "\<And>c. R c c" and trans: "\<And>a b c. R a b \<Longrightarrow> R b c \<Longrightarrow> R a c"
    and step: "\<And>x c. x \<in> set xs \<Longrightarrow> R c (f x c)"
  shows "R c (fold f xs c)"
  using step
proof (induction xs arbitrary: c)
  case (Cons x xs)
  have "R c (f x c)" using Cons.prems by simp
  moreover have "R (f x c) (fold f xs (f x c))" using Cons by simp
  ultimately show ?case using trans by simp
qed (simp add: refl)

lemma signed_take_bit_diff:
  fixes m n :: nat
  assumes "m < 2 ^ 62" "n < 2 ^ 62"
  shows "signed_take_bit 63 (int m - int n) = int m - int n"
  using assms by (intro signed_take_bit_int_eq_self) simp_all

lemma sint_small:
  fixes a :: ulong
  assumes "unat a < 2 ^ 62"
  shows "sint a = int (unat a)"
proof -
  have "sint a = signed_take_bit 63 (int (unat a) - int 0)" by (simp add: sint_uint)
  also have "\<dots> = int (unat a) - int 0" by (rule signed_take_bit_diff [OF assms]) simp
  finally show ?thesis by simp
qed

lemma sint_diff_small:
  fixes a d :: ulong
  assumes "unat a < 2 ^ 62" "unat d < 2 ^ 62"
  shows "sint (a - d) = int (unat a) - int (unat d)"
proof -
  have "sint (a - d) = signed_take_bit 63 (sint a - sint d)" by (simp add: sint_word_ariths)
  also have "\<dots> = signed_take_bit 63 (int (unat a) - int (unat d))"
    using assms by (simp only: sint_small)
  also have "\<dots> = int (unat a) - int (unat d)" by (rule signed_take_bit_diff [OF assms])
  finally show ?thesis .
qed

end
