(* ===== verification/Nfs4_Slot_Table.thy ===== *)
theory Nfs4_Slot_Table
  imports Nfs_Prelude
begin

text \<open>
  The session slot tables of \<open>src/mynfs/nfs4session.c\<close> and \<open>nfs4session.h\<close>: allocation, release
  and wake-up of slots, growing, shrinking and resetting a table, and the dynamic resizing that
  the server drives through the results of SEQUENCE.

  A \<open>struct nfs4_slot *\<close> is the number of the slot it points to, and the linked list of slots is a
  list. The bitmap \<open>used_slots\<close> is a set. What the kernel and the RPC layer decide is a parameter,
  the record \<open>slot_env\<close>: whether the allocation of slot \<open>n\<close> succeeds, which sleeping task the RPC
  wait queue regards as its first, and the time. \<open>rpc_wake_up_first(queue, func, data)\<close> offers that
  task to \<open>func\<close> and takes it off the queue when \<open>func\<close> accepts it. Tasks that were handed a slot
  in this way are appended to \<open>woken\<close>. Trace points and log messages are left out.
\<close>

section \<open>Data\<close>

abbreviation NFS4_MAX_SLOT_TABLE :: u32 where
  "NFS4_MAX_SLOT_TABLE \<equiv> 1024"

abbreviation NFS4_MAX_SLOTID :: u32 where
  "NFS4_MAX_SLOTID \<equiv> 1023"

abbreviation NFS4_NO_SLOT :: u32 where
  "NFS4_NO_SLOT \<equiv> 0xFFFFFFFF"

record nfs4_slot =
  slot_generation :: ulong
  slot_nr :: u32
  seq_nr :: u32
  seq_nr_last_acked :: u32
  seq_nr_highest_sent :: u32
  privileged :: bool
  seq_done :: bool

text \<open>
  The RPC task of a compound, with the fields of its SEQUENCE arguments and results
  (\<open>nfs4_sequence_args\<close>, \<open>nfs4_sequence_res\<close>) that the client uses. A slot pointer is an
  optional slot number.
\<close>

record seq_task =
  task_id :: nat
  sa_cache_this :: bool
  sa_privileged :: bool
  sa_slot :: "u32 option"
  sr_slot :: "u32 option"
  sr_timestamp :: ulong
  sr_status :: int
  sr_status_flags :: u32
  sr_highest_slotid :: u32
  sr_target_highest_slotid :: u32

record nfs4_slot_table =
  slots :: "nfs4_slot list"
  used_slots :: "u32 set"
  slot_tbl_waitq :: "seq_task list"
  woken :: "seq_task list"
  max_slots :: u32
  max_slotid :: u32
  highest_used_slotid :: u32
  target_highest_slotid :: u32
  server_highest_slotid :: u32
  d_target_highest_slotid :: u32
  d2_target_highest_slotid :: u32
  generation :: ulong
  complete_done :: nat
  slot_tbl_draining :: bool

record slot_env =
  kzalloc_ok :: "u32 \<Rightarrow> bool"
  rpc_first :: "seq_task list \<Rightarrow> nat option"
  jiffies :: ulong

section \<open>Allocating and releasing slots\<close>

definition nfs4_slot_tbl_draining :: "nfs4_slot_table \<Rightarrow> bool" where
  "nfs4_slot_tbl_draining tbl = slot_tbl_draining tbl"

definition nfs4_test_locked_slot :: "nfs4_slot_table \<Rightarrow> u32 \<Rightarrow> bool" where
  "nfs4_test_locked_slot tbl slotid \<longleftrightarrow> slotid \<in> used_slots tbl"

definition nfs4_init_slot_table :: "nfs4_slot_table \<Rightarrow> nfs4_slot_table" where
  "nfs4_init_slot_table tbl =
     tbl\<lparr>highest_used_slotid := NFS4_NO_SLOT, slot_tbl_waitq := [], complete_done := 0\<rparr>"

definition nfs4_shrink_slot_table :: "nfs4_slot_table \<Rightarrow> u32 \<Rightarrow> nfs4_slot_table" where
  "nfs4_shrink_slot_table tbl newsize =
     (if max_slots tbl \<le> newsize then tbl
      else tbl\<lparr>slots := take (unat newsize) (slots tbl),
               max_slots := max_slots tbl - of_nat (length (drop (unat newsize) (slots tbl)))\<rparr>)"

definition nfs4_slot_tbl_drain_complete :: "nfs4_slot_table \<Rightarrow> nfs4_slot_table" where
  "nfs4_slot_tbl_drain_complete tbl =
     (if nfs4_slot_tbl_draining tbl then tbl\<lparr>complete_done := complete_done tbl + 1\<rparr> else tbl)"

definition nfs4_free_slot :: "nfs4_slot_table \<Rightarrow> u32 \<Rightarrow> nfs4_slot_table" where
  "nfs4_free_slot tbl slotid =
     (let tbl = tbl\<lparr>used_slots := used_slots tbl - {slotid}\<rparr> in
      if slotid = highest_used_slotid tbl
      then let new_max = find_last_bit (used_slots tbl) slotid in
           if new_max < slotid then tbl\<lparr>highest_used_slotid := new_max\<rparr>
           else nfs4_slot_tbl_drain_complete (tbl\<lparr>highest_used_slotid := NFS4_NO_SLOT\<rparr>)
      else tbl)"

definition nfs4_new_slot :: "slot_env \<Rightarrow> u32 \<Rightarrow> u32 \<Rightarrow> nfs4_slot option" where
  "nfs4_new_slot e slotid seq_init =
     (if kzalloc_ok e slotid
      then Some \<lparr>slot_generation = 0, slot_nr = slotid, seq_nr = seq_init,
                 seq_nr_last_acked = seq_init - 1, seq_nr_highest_sent = seq_init,
                 privileged = False, seq_done = False\<rparr>
      else None)"

text \<open>
  The loop of \<open>nfs4_find_or_create_slot\<close> first walks the slots the table has; once it is at the
  end of the list every further round appends a slot numbered \<open>max_slots\<close>. On a failed
  allocation the slots appended so far stay in the table.
\<close>

function nfs4_create_slots ::
  "slot_env \<Rightarrow> nfs4_slot_table \<Rightarrow> u32 \<Rightarrow> u32 \<Rightarrow> nfs4_slot_table \<times> (int + u32)" where
  "nfs4_create_slots e tbl slotid seq_init =
     (case nfs4_new_slot e (max_slots tbl) seq_init of
        None \<Rightarrow> (tbl, Inl (- ENOMEM))
      | Some slot \<Rightarrow>
          let tbl' = tbl\<lparr>slots := slots tbl @ [slot], max_slots := max_slots tbl + 1\<rparr> in
          if slot_nr slot = slotid then (tbl', Inr slotid)
          else nfs4_create_slots e tbl' slotid seq_init)"
  by pat_completeness auto
termination
proof (relation "measure (\<lambda>(e, tbl, slotid, seq_init). unat (slotid - max_slots tbl))", simp)
  fix e tbl slotid seq_init slot tbl'
  assume a: "nfs4_new_slot e (max_slots tbl) seq_init = Some slot"
    "tbl' = tbl\<lparr>slots := slots tbl @ [slot], max_slots := max_slots tbl + 1\<rparr>"
    "slot_nr slot \<noteq> slotid"
  have "slot_nr slot = max_slots tbl"
    using a(1) by (auto simp: nfs4_new_slot_def split: if_splits)
  then have "slotid - max_slots tbl \<noteq> 0" using a(3) by simp
  then have "unat (slotid - max_slots tbl - 1) < unat (slotid - max_slots tbl)"
    by (metis measure_unat)
  then show "((e, tbl', slotid, seq_init), e, tbl, slotid, seq_init)
      \<in> measure (\<lambda>(e, tbl, slotid, seq_init). unat (slotid - max_slots tbl))"
    using a(2) by (simp add: diff_diff_eq)
qed

declare nfs4_create_slots.simps [simp del]

definition nfs4_find_or_create_slot ::
  "slot_env \<Rightarrow> nfs4_slot_table \<Rightarrow> u32 \<Rightarrow> u32 \<Rightarrow> nfs4_slot_table \<times> (int + u32)" where
  "nfs4_find_or_create_slot e tbl slotid seq_init =
     (case List.find (\<lambda>s. slot_nr s = slotid) (slots tbl) of
        Some slot \<Rightarrow> (tbl, Inr (slot_nr slot))
      | None \<Rightarrow> nfs4_create_slots e tbl slotid seq_init)"

text \<open>Writing a field through a slot pointer.\<close>

definition upd_slot :: "u32 \<Rightarrow> (nfs4_slot \<Rightarrow> nfs4_slot) \<Rightarrow> nfs4_slot_table \<Rightarrow> nfs4_slot_table" where
  "upd_slot n f tbl = tbl\<lparr>slots := map (\<lambda>s. if slot_nr s = n then f s else s) (slots tbl)\<rparr>"

definition get_slot :: "nfs4_slot_table \<Rightarrow> u32 \<Rightarrow> nfs4_slot option" where
  "get_slot tbl n = List.find (\<lambda>s. slot_nr s = n) (slots tbl)"

definition nfs4_lock_slot :: "nfs4_slot_table \<Rightarrow> u32 \<Rightarrow> nfs4_slot_table" where
  "nfs4_lock_slot tbl slotid =
     (let tbl = tbl\<lparr>used_slots := insert slotid (used_slots tbl)\<rparr>;
          tbl = (if slotid > highest_used_slotid tbl \<or> highest_used_slotid tbl = NFS4_NO_SLOT
                 then tbl\<lparr>highest_used_slotid := slotid\<rparr> else tbl)
      in upd_slot slotid (\<lambda>s. s\<lparr>slot_generation := generation tbl\<rparr>) tbl)"

definition nfs4_try_to_lock_slot :: "nfs4_slot_table \<Rightarrow> u32 \<Rightarrow> nfs4_slot_table \<times> bool" where
  "nfs4_try_to_lock_slot tbl slotid =
     (if nfs4_test_locked_slot tbl slotid then (tbl, False)
      else (nfs4_lock_slot tbl slotid, True))"

definition nfs4_lookup_slot ::
  "slot_env \<Rightarrow> nfs4_slot_table \<Rightarrow> u32 \<Rightarrow> nfs4_slot_table \<times> (int + u32)" where
  "nfs4_lookup_slot e tbl slotid =
     (if slotid \<le> max_slotid tbl then nfs4_find_or_create_slot e tbl slotid 0
      else (tbl, Inl (- E2BIG)))"

definition nfs4_slot_get_seqid ::
  "slot_env \<Rightarrow> nfs4_slot_table \<Rightarrow> u32 \<Rightarrow> nfs4_slot_table \<times> (int + u32)" where
  "nfs4_slot_get_seqid e tbl slotid =
     (case nfs4_lookup_slot e tbl slotid of
        (tbl, Inl err) \<Rightarrow> (tbl, Inl err)
      | (tbl, Inr n) \<Rightarrow> (tbl, Inr (case get_slot tbl n of Some s \<Rightarrow> seq_nr s | None \<Rightarrow> 0)))"

definition nfs4_slot_seqid_in_use ::
  "slot_env \<Rightarrow> nfs4_slot_table \<Rightarrow> u32 \<Rightarrow> u32 \<Rightarrow> nfs4_slot_table \<times> bool" where
  "nfs4_slot_seqid_in_use e tbl slotid seq =
     (case nfs4_slot_get_seqid e tbl slotid of
        (tbl, Inl err) \<Rightarrow> (tbl, False)
      | (tbl, Inr cur_seq) \<Rightarrow> (tbl, cur_seq = seq \<and> slotid \<in> used_slots tbl))"

definition nfs4_alloc_slot :: "slot_env \<Rightarrow> nfs4_slot_table \<Rightarrow> nfs4_slot_table \<times> (int + u32)" where
  "nfs4_alloc_slot e tbl =
     (let slotid = find_first_zero_bit (used_slots tbl) (max_slotid tbl + 1) in
      if slotid \<le> max_slotid tbl
      then case nfs4_find_or_create_slot e tbl slotid 1 of
             (tbl, Inl err) \<Rightarrow> (tbl, Inl err)
           | (tbl, Inr n) \<Rightarrow> (nfs4_lock_slot tbl n, Inr n)
      else (tbl, Inl (- EBUSY)))"

section \<open>Growing and resetting a table\<close>

definition nfs4_grow_slot_table ::
  "slot_env \<Rightarrow> nfs4_slot_table \<Rightarrow> u32 \<Rightarrow> u32 \<Rightarrow> nfs4_slot_table \<times> int" where
  "nfs4_grow_slot_table e tbl max_reqs ivalue =
     (if max_reqs \<le> max_slots tbl then (tbl, 0)
      else case nfs4_find_or_create_slot e tbl (max_reqs - 1) ivalue of
             (tbl, Inr _) \<Rightarrow> (tbl, 0)
           | (tbl, Inl _) \<Rightarrow> (tbl, - ENOMEM))"

definition nfs4_reset_slot_table :: "nfs4_slot_table \<Rightarrow> u32 \<Rightarrow> u32 \<Rightarrow> nfs4_slot_table" where
  "nfs4_reset_slot_table tbl server_highest ivalue =
     (let tbl = nfs4_shrink_slot_table tbl (server_highest + 1) in
      tbl\<lparr>slots := map (\<lambda>s. s\<lparr>seq_nr := ivalue, seq_nr_highest_sent := ivalue,
                              seq_nr_last_acked := ivalue - 1\<rparr>) (slots tbl),
          highest_used_slotid := NFS4_NO_SLOT,
          target_highest_slotid := server_highest,
          server_highest_slotid := server_highest,
          d_target_highest_slotid := 0,
          d2_target_highest_slotid := 0,
          max_slotid := server_highest\<rparr>)"

definition nfs4_realloc_slot_table ::
  "slot_env \<Rightarrow> nfs4_slot_table \<Rightarrow> u32 \<Rightarrow> u32 \<Rightarrow> nfs4_slot_table \<times> int" where
  "nfs4_realloc_slot_table e tbl max_reqs ivalue =
     (let max_reqs = (if max_reqs > NFS4_MAX_SLOT_TABLE then NFS4_MAX_SLOT_TABLE else max_reqs) in
      case nfs4_grow_slot_table e tbl max_reqs ivalue of
        (tbl, ret) \<Rightarrow>
          if ret \<noteq> 0 then (tbl, ret)
          else (nfs4_reset_slot_table tbl (max_reqs - 1) ivalue, ret))"

definition nfs4_release_slot_table :: "nfs4_slot_table \<Rightarrow> nfs4_slot_table" where
  "nfs4_release_slot_table tbl = nfs4_shrink_slot_table tbl 0"

definition nfs4_shutdown_slot_table :: "nfs4_slot_table \<Rightarrow> nfs4_slot_table" where
  "nfs4_shutdown_slot_table tbl = nfs4_release_slot_table tbl"
  \<comment> \<open>followed by \<open>rpc_destroy_wait_queue\<close>, which only stops the queue's timer\<close>

definition nfs4_setup_slot_table ::
  "slot_env \<Rightarrow> nfs4_slot_table \<Rightarrow> u32 \<Rightarrow> nfs4_slot_table \<times> int" where
  "nfs4_setup_slot_table e tbl max_reqs =
     nfs4_realloc_slot_table e (nfs4_init_slot_table tbl) max_reqs 0"

section \<open>Handing a slot to a waiting task\<close>

text \<open>
  \<open>nfs41_assign_slot\<close> is the callback of \<open>rpc_wake_up_first\<close>: it refuses, or fills in the task's
  arguments and results. It returns the task as it leaves the queue and the slot's update.
\<close>

definition nfs41_assign_slot ::
  "slot_env \<Rightarrow> nfs4_slot_table \<Rightarrow> u32 \<Rightarrow> seq_task \<Rightarrow> (nfs4_slot_table \<times> seq_task) option" where
  "nfs41_assign_slot e tbl n t =
     (if nfs4_slot_tbl_draining tbl \<and> \<not> sa_privileged t then None
      else Some (upd_slot n (\<lambda>s. s\<lparr>slot_generation := generation tbl\<rparr>) tbl,
                 t\<lparr>sa_slot := Some n, sr_timestamp := jiffies e, sr_slot := Some n,
                   sr_status_flags := 0, sr_status := 1\<rparr>))"

definition nfs41_wake_and_assign_slot_unchecked ::
  "slot_env \<Rightarrow> nfs4_slot_table \<Rightarrow> u32 \<Rightarrow> nfs4_slot_table \<times> bool" where
  "nfs41_wake_and_assign_slot_unchecked e tbl n =
     (let q = slot_tbl_waitq tbl in
      case rpc_first e q of
        None \<Rightarrow> (tbl, False)
      | Some i \<Rightarrow>
          if i < length q
          then case nfs41_assign_slot e tbl n (q ! i) of
                 None \<Rightarrow> (tbl, False)
               | Some (tbl, t) \<Rightarrow>
                   (tbl\<lparr>slot_tbl_waitq := take i q @ drop (Suc i) q, woken := woken tbl @ [t]\<rparr>, True)
          else (tbl, False))"

definition nfs41_wake_and_assign_slot ::
  "slot_env \<Rightarrow> nfs4_slot_table \<Rightarrow> u32 \<Rightarrow> nfs4_slot_table \<times> bool" where
  "nfs41_wake_and_assign_slot e tbl n =
     (if n > max_slotid tbl then (tbl, False) else nfs41_wake_and_assign_slot_unchecked e tbl n)"

definition nfs41_try_wake_next_slot_table_entry ::
  "slot_env \<Rightarrow> nfs4_slot_table \<Rightarrow> nfs4_slot_table \<times> bool" where
  "nfs41_try_wake_next_slot_table_entry e tbl =
     (case nfs4_alloc_slot e tbl of
        (tbl, Inl _) \<Rightarrow> (tbl, False)
      | (tbl, Inr n) \<Rightarrow>
          (case nfs41_wake_and_assign_slot_unchecked e tbl n of
             (tbl, ret) \<Rightarrow> if ret then (tbl, ret) else (nfs4_free_slot tbl n, False)))"

lemma waitq_simps [simp]:
  "slot_tbl_waitq (upd_slot n f tbl) = slot_tbl_waitq tbl"
  "slot_tbl_waitq (nfs4_lock_slot tbl n) = slot_tbl_waitq tbl"
  "slot_tbl_waitq (nfs4_free_slot tbl n) = slot_tbl_waitq tbl"
  "slot_tbl_waitq (nfs4_shrink_slot_table tbl m) = slot_tbl_waitq tbl"
  by (simp_all add: upd_slot_def nfs4_lock_slot_def nfs4_free_slot_def nfs4_shrink_slot_table_def
      nfs4_slot_tbl_drain_complete_def Let_def)

lemma nfs4_create_slots_waitq:
  "slot_tbl_waitq (fst (nfs4_create_slots e tbl n i)) = slot_tbl_waitq tbl"
proof (induction e tbl n i rule: nfs4_create_slots.induct)
  case (1 e tbl n i)
  show ?case
    by (subst nfs4_create_slots.simps) (auto simp: Let_def "1.IH" split: option.split)
qed

lemma nfs4_alloc_slot_waitq [simp]:
  "slot_tbl_waitq (fst (nfs4_alloc_slot e tbl)) = slot_tbl_waitq tbl"
  using nfs4_create_slots_waitq
  by (auto simp: nfs4_alloc_slot_def nfs4_find_or_create_slot_def Let_def
      split: prod.split sum.split option.split) (metis fst_conv)+

lemma nfs41_try_wake_shortens_queue:
  assumes "nfs41_try_wake_next_slot_table_entry e tbl = (tbl', True)"
  shows "length (slot_tbl_waitq tbl') < length (slot_tbl_waitq tbl)"
proof -
  obtain tbl1 r where a: "nfs4_alloc_slot e tbl = (tbl1, r)" by fastforce
  then have "slot_tbl_waitq tbl1 = slot_tbl_waitq tbl" by (metis nfs4_alloc_slot_waitq fst_conv)
  with a assms show ?thesis
    by (auto simp: nfs41_try_wake_next_slot_table_entry_def nfs41_wake_and_assign_slot_unchecked_def
        nfs41_assign_slot_def Let_def split: sum.splits option.splits if_splits prod.splits)
qed

text \<open>
  The wake-up loop ends because every round that continues takes a task off the queue.
\<close>

function nfs41_wake_slot_table :: "slot_env \<Rightarrow> nfs4_slot_table \<Rightarrow> nfs4_slot_table" where
  "nfs41_wake_slot_table e tbl =
     (case nfs41_try_wake_next_slot_table_entry e tbl of
        (tbl', ret) \<Rightarrow> if ret then nfs41_wake_slot_table e tbl' else tbl')"
  by pat_completeness auto
termination
  by (relation "measure (\<lambda>(e, tbl). length (slot_tbl_waitq tbl))")
     (auto dest: nfs41_try_wake_shortens_queue [OF sym])

declare nfs41_wake_slot_table.simps [simp del]

section \<open>Resizing driven by the server\<close>

definition nfs41_set_max_slotid_locked ::
  "slot_env \<Rightarrow> nfs4_slot_table \<Rightarrow> u32 \<Rightarrow> nfs4_slot_table" where
  "nfs41_set_max_slotid_locked e tbl target =
     (let m = min (NFS4_MAX_SLOT_TABLE - 1) target;
          m = (if m > server_highest_slotid tbl then server_highest_slotid tbl else m);
          m = (if m > target_highest_slotid tbl then target_highest_slotid tbl else m)
      in nfs41_wake_slot_table e (tbl\<lparr>max_slotid := m\<rparr>))"

definition nfs41_set_target_slotid_locked :: "nfs4_slot_table \<Rightarrow> u32 \<Rightarrow> nfs4_slot_table" where
  "nfs41_set_target_slotid_locked tbl target =
     (if target_highest_slotid tbl = target then tbl
      else tbl\<lparr>target_highest_slotid := target, generation := generation tbl + 1\<rparr>)"

definition nfs41_set_target_slotid :: "slot_env \<Rightarrow> nfs4_slot_table \<Rightarrow> u32 \<Rightarrow> nfs4_slot_table" where
  "nfs41_set_target_slotid e tbl target =
     nfs41_set_max_slotid_locked e
       ((nfs41_set_target_slotid_locked tbl target)
          \<lparr>d_target_highest_slotid := 0, d2_target_highest_slotid := 0\<rparr>) target"

definition nfs41_set_server_slotid_locked :: "nfs4_slot_table \<Rightarrow> u32 \<Rightarrow> nfs4_slot_table" where
  "nfs41_set_server_slotid_locked tbl highest_slotid =
     (if server_highest_slotid tbl = highest_slotid then tbl
      else if highest_used_slotid tbl > highest_slotid then tbl
      else (nfs4_shrink_slot_table tbl (highest_slotid + 1))
             \<lparr>server_highest_slotid := highest_slotid\<rparr>)"

text \<open>
  The derivatives are \<open>s32\<close> values, kept as 32-bit words and read with \<open>sint\<close>; the right shift
  of a negative value is arithmetic.
\<close>

definition nfs41_derivative_target_slotid :: "u32 \<Rightarrow> u32 \<Rightarrow> u32" where
  "nfs41_derivative_target_slotid s1 s2 =
     (let d = s1 - s2 in
      if d = 0 then 0
      else if sint d < 0 then signed_drop_bit 1 (d - 1)
      else signed_drop_bit 1 (d + 1))"

definition nfs41_sign_s32 :: "u32 \<Rightarrow> int" where
  "nfs41_sign_s32 s1 = (if sint s1 > 0 then 1 else if sint s1 < 0 then -1 else 0)"

definition nfs41_same_sign_or_zero_s32 :: "u32 \<Rightarrow> u32 \<Rightarrow> bool" where
  "nfs41_same_sign_or_zero_s32 s1 s2 \<longleftrightarrow>
     s1 = 0 \<or> s2 = 0 \<or> nfs41_sign_s32 s1 = nfs41_sign_s32 s2"

definition nfs41_is_outlier_target_slotid ::
  "nfs4_slot_table \<Rightarrow> u32 \<Rightarrow> nfs4_slot_table \<times> bool" where
  "nfs41_is_outlier_target_slotid tbl new_target =
     (let d_target = nfs41_derivative_target_slotid new_target (target_highest_slotid tbl);
          d2_target = nfs41_derivative_target_slotid d_target (d_target_highest_slotid tbl);
          ret = True;
          ret = (if nfs41_same_sign_or_zero_s32 d_target (d_target_highest_slotid tbl)
                 then False else ret);
          ret = (if nfs41_same_sign_or_zero_s32 d2_target (d2_target_highest_slotid tbl)
                 then False else ret)
      in (tbl\<lparr>d_target_highest_slotid := d_target, d2_target_highest_slotid := d2_target\<rparr>, ret))"

text \<open>\<open>slot\<close> is the slot the reply came on; \<open>t\<close> carries the results of its SEQUENCE.\<close>

definition nfs41_update_target_slotid ::
  "slot_env \<Rightarrow> nfs4_slot_table \<Rightarrow> nfs4_slot \<Rightarrow> seq_task \<Rightarrow> nfs4_slot_table" where
  "nfs41_update_target_slotid e tbl slot t =
     (let target = min (sr_target_highest_slotid t) NFS4_MAX_SLOTID;
          highest = min (sr_highest_slotid t) NFS4_MAX_SLOTID in
      case nfs41_is_outlier_target_slotid tbl target of
        (tbl, outlier) \<Rightarrow>
          let tbl = (if \<not> outlier then nfs41_set_target_slotid_locked tbl target else tbl);
              tbl = (if generation tbl = slot_generation slot
                     then nfs41_set_server_slotid_locked tbl highest else tbl)
          in nfs41_set_max_slotid_locked e tbl target)"

section \<open>Sessions\<close>

datatype nfs4_session_state = NFS4_SESSION_INITING | NFS4_SESSION_ESTABLISHED

text \<open>
  \<open>back_chan\<close> and \<open>persist\<close> are the bits \<open>SESSION4_BACK_CHAN\<close> and \<open>SESSION4_PERSIST\<close> of
  \<open>flags\<close>; of the channel attributes the tables only use \<open>max_reqs\<close>.
\<close>

record nfs4_session =
  back_chan :: bool
  persist :: bool
  session_state :: "nfs4_session_state set"
  fc_max_reqs :: u32
  fc_slot_table :: nfs4_slot_table
  bc_max_reqs :: u32
  bc_slot_table :: nfs4_slot_table

definition nfs4_release_session_slot_tables :: "nfs4_session \<Rightarrow> nfs4_session" where
  "nfs4_release_session_slot_tables ses =
     ses\<lparr>fc_slot_table := nfs4_release_slot_table (fc_slot_table ses),
         bc_slot_table := nfs4_release_slot_table (bc_slot_table ses)\<rparr>"

definition nfs4_setup_session_slot_tables ::
  "slot_env \<Rightarrow> nfs4_session \<Rightarrow> nfs4_session \<times> int" where
  "nfs4_setup_session_slot_tables e ses =
     (case nfs4_realloc_slot_table e (fc_slot_table ses) (fc_max_reqs ses) 1 of
        (fc, status) \<Rightarrow>
          let ses = ses\<lparr>fc_slot_table := fc\<rparr> in
          if status \<noteq> 0 \<or> \<not> back_chan ses then (ses, status)
          else case nfs4_realloc_slot_table e (bc_slot_table ses) (bc_max_reqs ses) 0 of
                 (bc, status) \<Rightarrow>
                   let ses = ses\<lparr>bc_slot_table := bc\<rparr> in
                   if status \<noteq> 0 \<and> slots bc = []
                   then (nfs4_release_session_slot_tables ses, status)
                   else (ses, status))"

text \<open>The table as \<open>kzalloc\<close> leaves it.\<close>

definition zero_slot_table :: nfs4_slot_table where
  "zero_slot_table =
     \<lparr>slots = [], used_slots = {}, slot_tbl_waitq = [], woken = [], max_slots = 0, max_slotid = 0,
      highest_used_slotid = 0, target_highest_slotid = 0, server_highest_slotid = 0,
      d_target_highest_slotid = 0, d2_target_highest_slotid = 0, generation = 0,
      complete_done = 0, slot_tbl_draining = False\<rparr>"

definition nfs4_alloc_session :: "bool \<Rightarrow> nfs4_session option" where
  "nfs4_alloc_session alloc_ok =
     (if alloc_ok
      then Some \<lparr>back_chan = False, persist = False, session_state = {NFS4_SESSION_INITING},
                 fc_max_reqs = 0, fc_slot_table = nfs4_init_slot_table zero_slot_table,
                 bc_max_reqs = 0, bc_slot_table = nfs4_init_slot_table zero_slot_table\<rparr>
      else None)"

definition nfs4_destroy_session_slot_tables :: "nfs4_session \<Rightarrow> nfs4_session" where
  "nfs4_destroy_session_slot_tables ses =
     ses\<lparr>fc_slot_table := nfs4_shutdown_slot_table (fc_slot_table ses),
         bc_slot_table := nfs4_shutdown_slot_table (bc_slot_table ses)\<rparr>"

section \<open>The invariant of a slot table\<close>

text \<open>
  The slots are numbered by their place in the list, at most 1024 of them; every used slot
  exists; \<open>highest_used_slotid\<close> is the greatest used slot, or \<open>NFS4_NO_SLOT\<close> when none is used;
  the limits stay below 1024.
\<close>

definition highest_ok :: "nfs4_slot_table \<Rightarrow> bool" where
  "highest_ok tbl \<longleftrightarrow>
     (used_slots tbl = {} \<longrightarrow> highest_used_slotid tbl = NFS4_NO_SLOT) \<and>
     (used_slots tbl \<noteq> {} \<longrightarrow> highest_used_slotid tbl \<in> used_slots tbl) \<and>
     (\<forall>j \<in> used_slots tbl. j \<le> highest_used_slotid tbl)"

definition slot_tbl_ok :: "nfs4_slot_table \<Rightarrow> bool" where
  "slot_tbl_ok tbl \<longleftrightarrow>
     map slot_nr (slots tbl) = map of_nat [0..<unat (max_slots tbl)] \<and>
     max_slots tbl \<le> NFS4_MAX_SLOT_TABLE \<and>
     (\<forall>j \<in> used_slots tbl. j < max_slots tbl) \<and>
     highest_ok tbl \<and>
     max_slotid tbl \<le> NFS4_MAX_SLOTID \<and>
     server_highest_slotid tbl \<le> NFS4_MAX_SLOTID \<and>
     target_highest_slotid tbl \<le> NFS4_MAX_SLOTID"

lemma slot_tbl_ok_length: "slot_tbl_ok tbl \<Longrightarrow> length (slots tbl) = unat (max_slots tbl)"
  unfolding slot_tbl_ok_def by (metis length_map length_upt diff_zero)

lemma slot_nr_nth:
  assumes "slot_tbl_ok tbl" "i < length (slots tbl)"
  shows "slot_nr (slots tbl ! i) = of_nat i"
proof -
  have "map slot_nr (slots tbl) ! i = map of_nat [0..<unat (max_slots tbl)] ! i"
    using assms(1) by (simp add: slot_tbl_ok_def)
  then show ?thesis using assms slot_tbl_ok_length by simp
qed

text \<open>Under the invariant a slot is found iff its number is below \<open>max_slots\<close>.\<close>

lemma find_slot_iff:
  assumes ok: "slot_tbl_ok tbl"
  shows "(\<exists>s \<in> set (slots tbl). slot_nr s = n) \<longleftrightarrow> n < max_slots tbl"
proof
  assume "\<exists>s \<in> set (slots tbl). slot_nr s = n"
  then have "n \<in> set (map of_nat [0..<unat (max_slots tbl)])"
    using ok unfolding slot_tbl_ok_def by (metis image_eqI set_map)
  then show "n < max_slots tbl"
    by (auto simp: word_less_nat_alt u32_unat_of_nat)
next
  assume "n < max_slots tbl"
  then have "n \<in> set (map of_nat [0..<unat (max_slots tbl)])"
    by (force simp: word_less_nat_alt image_iff intro: bexI [of _ "unat n"])
  then show "\<exists>s \<in> set (slots tbl). slot_nr s = n"
    using ok unfolding slot_tbl_ok_def by (metis (no_types, lifting) image_iff set_map)
qed

lemma get_slot_Some:
  assumes "slot_tbl_ok tbl" "n < max_slots tbl"
  shows "\<exists>s. get_slot tbl n = Some s \<and> slot_nr s = n"
proof (cases "get_slot tbl n")
  case None
  then show ?thesis using find_slot_iff [OF assms(1), of n] assms(2)
    by (auto simp: get_slot_def find_None_iff)
next
  case (Some s)
  then show ?thesis by (auto simp: get_slot_def find_Some_iff)
qed

lemma upd_slot_fields [simp]:
  "used_slots (upd_slot n f tbl) = used_slots tbl"
  "max_slots (upd_slot n f tbl) = max_slots tbl"
  "max_slotid (upd_slot n f tbl) = max_slotid tbl"
  "highest_used_slotid (upd_slot n f tbl) = highest_used_slotid tbl"
  "woken (upd_slot n f tbl) = woken tbl"
  "slot_tbl_draining (upd_slot n f tbl) = slot_tbl_draining tbl"
  "complete_done (upd_slot n f tbl) = complete_done tbl"
  "target_highest_slotid (upd_slot n f tbl) = target_highest_slotid tbl"
  "server_highest_slotid (upd_slot n f tbl) = server_highest_slotid tbl"
  "generation (upd_slot n f tbl) = generation tbl"
  by (simp_all add: upd_slot_def)

lemma upd_slot_ok [simp]:
  assumes "\<And>s. slot_nr (f s) = slot_nr s"
  shows "slot_tbl_ok (upd_slot n f tbl) = slot_tbl_ok tbl"
proof -
  have "map slot_nr (slots (upd_slot n f tbl)) = map slot_nr (slots tbl)"
    by (simp add: upd_slot_def assms)
  then show ?thesis by (simp only: slot_tbl_ok_def highest_ok_def upd_slot_fields)
qed

lemma append_slot_ok:
  assumes ok: "slot_tbl_ok tbl" and s: "slot_nr s = max_slots tbl"
    and m: "max_slots tbl < NFS4_MAX_SLOT_TABLE"
  shows "slot_tbl_ok (tbl\<lparr>slots := slots tbl @ [s], max_slots := max_slots tbl + 1\<rparr>)"
proof -
  have u: "unat (max_slots tbl + 1) = unat (max_slots tbl) + 1" using m by (rule unat_succ_u32)
  have "\<forall>j \<in> used_slots tbl. j < max_slots tbl + 1"
    using ok u by (auto simp: slot_tbl_ok_def word_less_nat_alt less_SucI)
  moreover have "max_slots tbl + 1 \<le> NFS4_MAX_SLOT_TABLE" using m by unat_arith
  ultimately show ?thesis using ok s u by (simp add: slot_tbl_ok_def highest_ok_def)
qed

text \<open>
  Creating slots up to a number below 1024: the invariant survives every outcome, only the slot
  list changes, and the loop fails only where an allocation failed.
\<close>

lemma nfs4_create_slots_frame:
  "nfs4_create_slots e tbl n i = (tbl', r) \<Longrightarrow>
     tbl' = tbl\<lparr>slots := slots tbl', max_slots := max_slots tbl'\<rparr>"
proof (induction e tbl n i rule: nfs4_create_slots.induct)
  case (1 e tbl n i)
  from "1.prems" show ?case
    by (subst (asm) nfs4_create_slots.simps)
       (fastforce simp: Let_def dest: "1.IH" split: option.splits if_splits)
qed

lemma nfs4_create_slots_ok:
  assumes "nfs4_create_slots e tbl n i = (tbl', r)" "slot_tbl_ok tbl"
    "max_slots tbl \<le> n" "n \<le> NFS4_MAX_SLOTID"
  shows "slot_tbl_ok tbl' \<and>
     (r = Inr n \<and> n < max_slots tbl' \<or>
      r = Inl (- ENOMEM) \<and> (\<exists>m \<le> n. max_slots tbl \<le> m \<and> \<not> kzalloc_ok e m))"
  using assms
proof (induction e tbl n i rule: nfs4_create_slots.induct)
  case (1 e tbl n i)
  show ?case
  proof (cases "nfs4_new_slot e (max_slots tbl) i")
    case None
    then have "\<not> kzalloc_ok e (max_slots tbl)" by (simp add: nfs4_new_slot_def split: if_splits)
    then show ?thesis using "1.prems" None by (subst (asm) nfs4_create_slots.simps) auto
  next
    case (Some s)
    then have s: "slot_nr s = max_slots tbl"
      by (auto simp: nfs4_new_slot_def split: if_splits)
    let ?t = "tbl\<lparr>slots := slots tbl @ [s], max_slots := max_slots tbl + 1\<rparr>"
    have m: "max_slots tbl < NFS4_MAX_SLOT_TABLE" using "1.prems"(3,4) by unat_arith
    have ok: "slot_tbl_ok ?t" using append_slot_ok [OF "1.prems"(2) s m] .
    show ?thesis
    proof (cases "max_slots tbl = n")
      case True
      then have "n < max_slots tbl + 1"
        using unat_succ_u32 [OF m] by (auto simp: word_less_nat_alt)
      then show ?thesis using "1.prems"(1) Some s True ok
        by (subst (asm) nfs4_create_slots.simps) (auto simp: Let_def)
    next
      case False
      then have "max_slots tbl < n" using "1.prems"(3) by simp
      then have le: "max_slots ?t \<le> n" "max_slots tbl \<le> max_slots tbl + 1"
        by (simp_all add: u32_succ_le u32_le_succ)
      have "nfs4_create_slots e ?t n i = (tbl', r)"
        using "1.prems"(1) Some s False
        by (subst (asm) nfs4_create_slots.simps) (simp add: Let_def)
      from "1.IH" [OF Some refl _ this ok le(1) "1.prems"(4)] False s le(2) show ?thesis
        by (fastforce intro: order_trans)
    qed
  qed
qed

lemma nfs4_find_or_create_slot_frame:
  "nfs4_find_or_create_slot e tbl n i = (tbl', r) \<Longrightarrow>
     tbl' = tbl\<lparr>slots := slots tbl', max_slots := max_slots tbl'\<rparr>"
  by (auto simp: nfs4_find_or_create_slot_def dest: nfs4_create_slots_frame split: option.splits)

lemma nfs4_find_or_create_slot_ok:
  assumes f: "nfs4_find_or_create_slot e tbl n i = (tbl', r)" and ok: "slot_tbl_ok tbl"
    and n: "n \<le> NFS4_MAX_SLOTID"
  shows "slot_tbl_ok tbl' \<and>
     (r = Inr n \<and> n < max_slots tbl' \<or>
      r = Inl (- ENOMEM) \<and> (\<exists>m \<le> n. max_slots tbl \<le> m \<and> \<not> kzalloc_ok e m))"
proof (cases "List.find (\<lambda>s. slot_nr s = n) (slots tbl)")
  case None
  then have "max_slots tbl \<le> n"
    using find_slot_iff [OF ok, of n] by (auto simp: find_None_iff)
  then show ?thesis using nfs4_create_slots_ok [of e tbl n i tbl' r] None f ok n
    by (simp add: nfs4_find_or_create_slot_def)
next
  case (Some s)
  then have "s \<in> set (slots tbl)" "slot_nr s = n" by (auto simp: find_Some_iff)
  then show ?thesis using find_slot_iff [OF ok, of n] Some f ok
    by (auto simp: nfs4_find_or_create_slot_def)
qed

section \<open>Locking, allocating and freeing keep the invariant\<close>

lemma nfs4_lock_slot_fields [simp]:
  "used_slots (nfs4_lock_slot tbl n) = insert n (used_slots tbl)"
  "max_slots (nfs4_lock_slot tbl n) = max_slots tbl"
  "max_slotid (nfs4_lock_slot tbl n) = max_slotid tbl"
  "woken (nfs4_lock_slot tbl n) = woken tbl"
  "slot_tbl_draining (nfs4_lock_slot tbl n) = slot_tbl_draining tbl"
  "complete_done (nfs4_lock_slot tbl n) = complete_done tbl"
  "target_highest_slotid (nfs4_lock_slot tbl n) = target_highest_slotid tbl"
  "server_highest_slotid (nfs4_lock_slot tbl n) = server_highest_slotid tbl"
  by (simp_all add: nfs4_lock_slot_def Let_def)

lemma used_not_no_slot: "slot_tbl_ok tbl \<Longrightarrow> j \<in> used_slots tbl \<Longrightarrow> j \<noteq> NFS4_NO_SLOT"
proof
  assume a: "slot_tbl_ok tbl" "j \<in> used_slots tbl" "j = NFS4_NO_SLOT"
  then have "NFS4_NO_SLOT < max_slots tbl" "max_slots tbl \<le> NFS4_MAX_SLOT_TABLE"
    by (auto simp: slot_tbl_ok_def)
  then have "NFS4_NO_SLOT < NFS4_MAX_SLOT_TABLE" by (rule less_le_trans)
  then show False by simp
qed

lemma used_le_highest:
  "slot_tbl_ok tbl \<Longrightarrow> j \<in> used_slots tbl \<Longrightarrow> j \<le> highest_used_slotid tbl"
  by (auto simp: slot_tbl_ok_def highest_ok_def split: if_splits)

lemma nfs4_lock_slot_ok:
  assumes ok: "slot_tbl_ok tbl" and n: "n < max_slots tbl"
  shows "slot_tbl_ok (nfs4_lock_slot tbl n)"
proof -
  let ?t = "if n > highest_used_slotid tbl \<or> highest_used_slotid tbl = NFS4_NO_SLOT
            then tbl\<lparr>used_slots := insert n (used_slots tbl), highest_used_slotid := n\<rparr>
            else tbl\<lparr>used_slots := insert n (used_slots tbl)\<rparr>"
  have "highest_ok tbl" using ok by (simp add: slot_tbl_ok_def)
  then have "highest_ok ?t"
    using used_not_no_slot [OF ok] by (fastforce simp: highest_ok_def split: if_splits)
  then have "slot_tbl_ok ?t" using ok n by (auto simp: slot_tbl_ok_def)
  moreover have "nfs4_lock_slot tbl n =
      upd_slot n (\<lambda>s. s\<lparr>slot_generation := generation tbl\<rparr>) ?t"
    by (simp add: nfs4_lock_slot_def Let_def)
  ultimately show ?thesis by simp
qed

lemma nfs4_free_slot_fields [simp]:
  "used_slots (nfs4_free_slot tbl n) = used_slots tbl - {n}"
  "slots (nfs4_free_slot tbl n) = slots tbl"
  "max_slots (nfs4_free_slot tbl n) = max_slots tbl"
  "max_slotid (nfs4_free_slot tbl n) = max_slotid tbl"
  "woken (nfs4_free_slot tbl n) = woken tbl"
  "slot_tbl_draining (nfs4_free_slot tbl n) = slot_tbl_draining tbl"
  "target_highest_slotid (nfs4_free_slot tbl n) = target_highest_slotid tbl"
  "server_highest_slotid (nfs4_free_slot tbl n) = server_highest_slotid tbl"
  by (simp_all add: nfs4_free_slot_def nfs4_slot_tbl_drain_complete_def Let_def)

lemma nfs4_free_slot_highest:
  assumes ok: "slot_tbl_ok tbl" and n: "n \<in> used_slots tbl"
  shows "highest_ok (nfs4_free_slot tbl n)"
proof (cases "n = highest_used_slotid tbl")
  case True
  have le: "\<forall>j \<in> used_slots tbl. j \<le> n" using used_le_highest [OF ok] True by simp
  from find_last_bit_cases [OF refl, of "used_slots tbl - {n}" n] show ?thesis
  proof
    let ?m = "find_last_bit (used_slots tbl - {n}) n"
    assume m: "?m < n \<and> ?m \<in> used_slots tbl - {n} \<and>
      (\<forall>j. ?m < j \<and> j < n \<longrightarrow> j \<notin> used_slots tbl - {n})"
    then have "\<forall>j \<in> used_slots tbl - {n}. j \<le> ?m"
      using le by (metis DiffD1 DiffD2 insertI1 leI order_neq_le_trans)
    with m show ?thesis using True n by (auto simp: nfs4_free_slot_def highest_ok_def)
  next
    let ?m = "find_last_bit (used_slots tbl - {n}) n"
    assume m: "?m = n \<and> (\<forall>j < n. j \<notin> used_slots tbl - {n})"
    then have "used_slots tbl - {n} = {}" using le by (auto simp: order_le_less)
    with m show ?thesis using True
      by (auto simp: nfs4_free_slot_def highest_ok_def nfs4_slot_tbl_drain_complete_def Let_def)
  qed
next
  case False
  have "highest_used_slotid (nfs4_free_slot tbl n) = highest_used_slotid tbl"
    using False by (simp add: nfs4_free_slot_def)
  then show ?thesis using ok n False
    by (auto simp: slot_tbl_ok_def highest_ok_def split: if_splits)
qed

lemma nfs4_free_slot_ok:
  "slot_tbl_ok tbl \<Longrightarrow> n \<in> used_slots tbl \<Longrightarrow> slot_tbl_ok (nfs4_free_slot tbl n)"
  using nfs4_free_slot_highest [of tbl n] by (simp add: slot_tbl_ok_def)

text \<open>The completion is signalled by the free that empties a draining table, and by no other.\<close>

lemma nfs4_free_slot_complete:
  assumes ok: "slot_tbl_ok tbl" and n: "n \<in> used_slots tbl"
  shows "complete_done (nfs4_free_slot tbl n) =
     complete_done tbl + (if slot_tbl_draining tbl \<and> used_slots tbl = {n} then 1 else 0)"
proof (cases "n = highest_used_slotid tbl")
  case True
  have le: "\<forall>j \<in> used_slots tbl. j \<le> n" using used_le_highest [OF ok] True by simp
  have "find_last_bit (used_slots tbl - {n}) n < n \<longleftrightarrow> used_slots tbl \<noteq> {n}"
    using find_last_bit_cases [OF refl, of "used_slots tbl - {n}" n] le n
    by (auto simp: order_le_less)
  then show ?thesis using True
    by (auto simp: nfs4_free_slot_def nfs4_slot_tbl_drain_complete_def nfs4_slot_tbl_draining_def Let_def)
next
  case False
  then have "used_slots tbl \<noteq> {n}"
    using ok n by (auto simp: slot_tbl_ok_def highest_ok_def)
  then show ?thesis using False by (simp add: nfs4_free_slot_def)
qed

lemma max_slotid_succ:
  assumes "slot_tbl_ok tbl"
  shows "i < max_slotid tbl + 1 \<longleftrightarrow> i \<le> max_slotid tbl"
proof -
  have "max_slotid tbl \<le> NFS4_MAX_SLOTID" using assms by (simp add: slot_tbl_ok_def)
  then have "max_slotid tbl < NFS4_MAX_SLOT_TABLE" by (rule order_le_less_trans) simp
  then show ?thesis by (rule u32_less_succ_iff)
qed

text \<open>
  What \<open>nfs4_alloc_slot\<close> does under the invariant: it hands out the lowest free slot and marks
  it, or reports that all slots up to \<open>max_slotid\<close> are taken, or that memory ran out.
\<close>

definition alloc_slot_post ::
  "slot_env \<Rightarrow> nfs4_slot_table \<Rightarrow> nfs4_slot_table \<Rightarrow> int + u32 \<Rightarrow> bool" where
  "alloc_slot_post e tbl tbl' r \<longleftrightarrow>
     (case r of
        Inr n \<Rightarrow> n \<notin> used_slots tbl \<and> n \<le> max_slotid tbl \<and> (\<forall>j < n. j \<in> used_slots tbl) \<and>
                 n < max_slots tbl' \<and> used_slots tbl' = insert n (used_slots tbl)
      | Inl err \<Rightarrow> used_slots tbl' = used_slots tbl \<and>
                 (err = - EBUSY \<and> (\<forall>j \<le> max_slotid tbl. j \<in> used_slots tbl) \<or>
                  err = - ENOMEM \<and> (\<exists>m \<le> max_slotid tbl. \<not> kzalloc_ok e m)))"

lemma nfs4_alloc_slot_spec:
  assumes ok: "slot_tbl_ok tbl" and a: "nfs4_alloc_slot e tbl = (tbl', r)"
  shows "slot_tbl_ok tbl' \<and> alloc_slot_post e tbl tbl' r"
proof -
  let ?n = "find_first_zero_bit (used_slots tbl) (max_slotid tbl + 1)"
  note n = find_first_zero_bit_cases [OF refl, of "used_slots tbl" "max_slotid tbl + 1"]
  have max: "max_slotid tbl \<le> NFS4_MAX_SLOTID" using ok by (simp add: slot_tbl_ok_def)
  show ?thesis
  proof (cases "?n \<le> max_slotid tbl")
    case False
    then have "\<forall>j \<le> max_slotid tbl. j \<in> used_slots tbl"
      using n max_slotid_succ [OF ok] by blast
    then show ?thesis using False a ok by (auto simp: nfs4_alloc_slot_def alloc_slot_post_def Let_def)
  next
    case True
    then have lt: "?n < max_slotid tbl + 1" using max_slotid_succ [OF ok] by simp
    then have free: "?n \<notin> used_slots tbl" "\<forall>j < ?n. j \<in> used_slots tbl" using n by auto
    obtain tbl1 r1 where f: "nfs4_find_or_create_slot e tbl ?n 1 = (tbl1, r1)" by fastforce
    have u: "used_slots tbl1 = used_slots tbl"
      by (subst nfs4_find_or_create_slot_frame [OF f]) simp
    have "?n \<le> NFS4_MAX_SLOTID" using True max by (rule order_trans)
    from nfs4_find_or_create_slot_ok [OF f ok this] show ?thesis
    proof (elim conjE disjE)
      assume "slot_tbl_ok tbl1" "r1 = Inr ?n" "?n < max_slots tbl1"
      then show ?thesis using a True f free u
        by (auto simp: nfs4_alloc_slot_def alloc_slot_post_def Let_def intro: nfs4_lock_slot_ok)
    next
      assume "slot_tbl_ok tbl1" "r1 = Inl (- ENOMEM)"
        "\<exists>m \<le> ?n. max_slots tbl \<le> m \<and> \<not> kzalloc_ok e m"
      then show ?thesis using a True f u
        by (auto simp: nfs4_alloc_slot_def alloc_slot_post_def Let_def) (blast intro: order_trans)
    qed
  qed
qed

lemma nfs4_alloc_slot_frame:
  assumes a: "nfs4_alloc_slot e tbl = (tbl', r)"
  shows "woken tbl' = woken tbl" "slot_tbl_draining tbl' = slot_tbl_draining tbl"
    "max_slotid tbl' = max_slotid tbl" "complete_done tbl' = complete_done tbl"
    "target_highest_slotid tbl' = target_highest_slotid tbl"
    "server_highest_slotid tbl' = server_highest_slotid tbl"
    "slot_tbl_waitq tbl' = slot_tbl_waitq tbl"
proof -
  obtain tbl1 r1 where
    f: "nfs4_find_or_create_slot e tbl (find_first_zero_bit (used_slots tbl) (max_slotid tbl + 1)) 1
        = (tbl1, r1)" by fastforce
  obtain sl m where t: "tbl1 = tbl\<lparr>slots := sl, max_slots := m\<rparr>"
    using nfs4_find_or_create_slot_frame [OF f] by blast
  have "tbl' = tbl \<or> tbl' = tbl1 \<or> (\<exists>n. tbl' = nfs4_lock_slot tbl1 n)"
    using a f by (auto simp: nfs4_alloc_slot_def Let_def split: if_splits sum.splits)
  then show "woken tbl' = woken tbl" "slot_tbl_draining tbl' = slot_tbl_draining tbl"
    "max_slotid tbl' = max_slotid tbl" "complete_done tbl' = complete_done tbl"
    "target_highest_slotid tbl' = target_highest_slotid tbl"
    "server_highest_slotid tbl' = server_highest_slotid tbl"
    "slot_tbl_waitq tbl' = slot_tbl_waitq tbl"
    using t by auto
qed

lemma nfs4_lookup_slot_ok:
  assumes ok: "slot_tbl_ok tbl" and l: "nfs4_lookup_slot e tbl n = (tbl', r)"
  shows "slot_tbl_ok tbl' \<and>
     (r = Inr n \<and> n \<le> max_slotid tbl \<and> n < max_slots tbl' \<or>
      r = Inl (- E2BIG) \<and> max_slotid tbl < n \<and> tbl' = tbl \<or>
      r = Inl (- ENOMEM) \<and> (\<exists>m \<le> n. \<not> kzalloc_ok e m))"
proof (cases "n \<le> max_slotid tbl")
  case True
  then have "n \<le> NFS4_MAX_SLOTID" using ok by (auto simp: slot_tbl_ok_def intro: order_trans)
  then show ?thesis using nfs4_find_or_create_slot_ok [OF _ ok] l True
    by (fastforce simp: nfs4_lookup_slot_def)
next
  case False
  then show ?thesis using ok l by (auto simp: nfs4_lookup_slot_def)
qed

section \<open>Waking tasks\<close>

text \<open>
  \<open>slots_handed tbl tbl'\<close>: the tasks woken between the two tables were given pairwise different
  slots that nobody used before, exactly those slots became used, and none of the tasks is an
  ordinary one while the table is being drained.
\<close>

definition slot_of :: "seq_task \<Rightarrow> u32" where
  "slot_of t = (case sr_slot t of Some n \<Rightarrow> n | None \<Rightarrow> NFS4_NO_SLOT)"

definition slots_handed :: "nfs4_slot_table \<Rightarrow> nfs4_slot_table \<Rightarrow> bool" where
  "slots_handed tbl tbl' \<longleftrightarrow>
     (\<exists>ts. woken tbl' = woken tbl @ ts \<and> distinct (map slot_of ts) \<and>
           (\<forall>t \<in> set ts. sr_slot t = Some (slot_of t) \<and> sa_slot t = sr_slot t \<and>
              (slot_tbl_draining tbl \<longrightarrow> sa_privileged t)) \<and>
           used_slots tbl \<inter> slot_of ` set ts = {} \<and>
           used_slots tbl' = used_slots tbl \<union> slot_of ` set ts)"

lemma slots_handed_refl: "woken tbl' = woken tbl \<Longrightarrow> used_slots tbl' = used_slots tbl \<Longrightarrow> slots_handed tbl tbl'"
  unfolding slots_handed_def by (intro exI [of _ "[]"]) simp

lemma slots_handed_mono: "slots_handed tbl tbl' \<Longrightarrow> used_slots tbl \<subseteq> used_slots tbl'"
  by (auto simp: slots_handed_def)

lemma slots_handed_trans:
  assumes "slots_handed a b" "slots_handed b c" "slot_tbl_draining b = slot_tbl_draining a"
  shows "slots_handed a c"
proof -
  obtain ts us where
    t: "woken b = woken a @ ts" "distinct (map slot_of ts)"
       "\<forall>t \<in> set ts. sr_slot t = Some (slot_of t) \<and> sa_slot t = sr_slot t \<and>
          (slot_tbl_draining a \<longrightarrow> sa_privileged t)"
       "used_slots a \<inter> slot_of ` set ts = {}" "used_slots b = used_slots a \<union> slot_of ` set ts" and
    u: "woken c = woken b @ us" "distinct (map slot_of us)"
       "\<forall>t \<in> set us. sr_slot t = Some (slot_of t) \<and> sa_slot t = sr_slot t \<and>
          (slot_tbl_draining b \<longrightarrow> sa_privileged t)"
       "used_slots b \<inter> slot_of ` set us = {}" "used_slots c = used_slots b \<union> slot_of ` set us"
    using assms(1,2) by (auto simp: slots_handed_def)
  have "distinct (map slot_of (ts @ us))" using t u by auto
  then show ?thesis unfolding slots_handed_def
    using t u assms(3) by (intro exI [of _ "ts @ us"]) auto
qed

lemma nfs41_wake_and_assign_slot_unchecked_spec:
  assumes "nfs41_wake_and_assign_slot_unchecked e tbl n = (tbl', b)"
  shows "slot_tbl_ok tbl' = slot_tbl_ok tbl" "used_slots tbl' = used_slots tbl"
    "slot_tbl_draining tbl' = slot_tbl_draining tbl" "max_slotid tbl' = max_slotid tbl"
    "complete_done tbl' = complete_done tbl" "max_slots tbl' = max_slots tbl"
    "highest_used_slotid tbl' = highest_used_slotid tbl"
    "\<not> b \<Longrightarrow> tbl' = tbl"
    "b \<Longrightarrow> \<exists>t. woken tbl' = woken tbl @ [t] \<and> sr_slot t = Some n \<and> sa_slot t = Some n \<and>
          (slot_tbl_draining tbl \<longrightarrow> sa_privileged t)"
    "target_highest_slotid tbl' = target_highest_slotid tbl"
    "server_highest_slotid tbl' = server_highest_slotid tbl"
proof -
  have "slot_tbl_ok (tbl\<lparr>slot_tbl_waitq := q, woken := w\<rparr>) = slot_tbl_ok tbl" for tbl q w
    by (simp add: slot_tbl_ok_def highest_ok_def)
  then show "slot_tbl_ok tbl' = slot_tbl_ok tbl" "used_slots tbl' = used_slots tbl"
    "slot_tbl_draining tbl' = slot_tbl_draining tbl" "max_slotid tbl' = max_slotid tbl"
    "complete_done tbl' = complete_done tbl" "max_slots tbl' = max_slots tbl"
    "highest_used_slotid tbl' = highest_used_slotid tbl"
    "\<not> b \<Longrightarrow> tbl' = tbl"
    "b \<Longrightarrow> \<exists>t. woken tbl' = woken tbl @ [t] \<and> sr_slot t = Some n \<and> sa_slot t = Some n \<and>
          (slot_tbl_draining tbl \<longrightarrow> sa_privileged t)"
    "target_highest_slotid tbl' = target_highest_slotid tbl"
    "server_highest_slotid tbl' = server_highest_slotid tbl"
    using assms
    by (auto simp: nfs41_wake_and_assign_slot_unchecked_def nfs41_assign_slot_def Let_def
        nfs4_slot_tbl_draining_def split: option.splits if_splits)
qed

lemma nfs41_try_wake_spec:
  assumes ok: "slot_tbl_ok tbl" and w: "nfs41_try_wake_next_slot_table_entry e tbl = (tbl', b)"
  shows "slot_tbl_ok tbl' \<and> slots_handed tbl tbl' \<and>
    slot_tbl_draining tbl' = slot_tbl_draining tbl \<and> max_slotid tbl' = max_slotid tbl \<and>
    target_highest_slotid tbl' = target_highest_slotid tbl \<and>
    server_highest_slotid tbl' = server_highest_slotid tbl"
proof -
  obtain tbl1 r where a: "nfs4_alloc_slot e tbl = (tbl1, r)" by fastforce
  note sp = nfs4_alloc_slot_spec [OF ok a] and fr = nfs4_alloc_slot_frame [OF a]
  show ?thesis
  proof (cases r)
    case (Inl err)
    then show ?thesis using sp fr a w
      by (auto simp: nfs41_try_wake_next_slot_table_entry_def alloc_slot_post_def
          intro: slots_handed_refl)
  next
    case (Inr n)
    then have n: "n \<notin> used_slots tbl" "used_slots tbl1 = insert n (used_slots tbl)"
      using sp by (auto simp: alloc_slot_post_def)
    obtain tbl2 c where w2: "nfs41_wake_and_assign_slot_unchecked e tbl1 n = (tbl2, c)" by fastforce
    note wsp = nfs41_wake_and_assign_slot_unchecked_spec [OF w2]
    show ?thesis
    proof (cases c)
      case True
      then obtain t where t: "woken tbl2 = woken tbl1 @ [t]" "sr_slot t = Some n" "sa_slot t = Some n"
        "slot_tbl_draining tbl1 \<longrightarrow> sa_privileged t" using wsp(9) by blast
      then have "slots_handed tbl tbl2" unfolding slots_handed_def
        using n wsp fr by (intro exI [of _ "[t]"]) (auto simp: slot_of_def)
      then show ?thesis using True Inr a w w2 sp wsp fr
        by (auto simp: nfs41_try_wake_next_slot_table_entry_def)
    next
      case False
      then have "tbl' = nfs4_free_slot tbl1 n"
        using Inr a w w2 wsp(8) by (auto simp: nfs41_try_wake_next_slot_table_entry_def)
      then show ?thesis using sp n fr
        by (auto intro: nfs4_free_slot_ok slots_handed_refl)
    qed
  qed
qed

lemma nfs41_wake_slot_table_spec:
  assumes "slot_tbl_ok tbl"
  shows "slot_tbl_ok (nfs41_wake_slot_table e tbl) \<and> slots_handed tbl (nfs41_wake_slot_table e tbl) \<and>
    slot_tbl_draining (nfs41_wake_slot_table e tbl) = slot_tbl_draining tbl \<and>
    max_slotid (nfs41_wake_slot_table e tbl) = max_slotid tbl \<and>
    target_highest_slotid (nfs41_wake_slot_table e tbl) = target_highest_slotid tbl \<and>
    server_highest_slotid (nfs41_wake_slot_table e tbl) = server_highest_slotid tbl"
  using assms
proof (induction e tbl rule: nfs41_wake_slot_table.induct)
  case (1 e tbl)
  obtain tbl1 b where w: "nfs41_try_wake_next_slot_table_entry e tbl = (tbl1, b)" by fastforce
  note sp = nfs41_try_wake_spec [OF "1.prems" w]
  show ?case
  proof (cases b)
    case True
    then show ?thesis using "1.IH" [OF w [symmetric] True] sp w
      by (auto simp: nfs41_wake_slot_table.simps [of e tbl] intro: slots_handed_trans)
  next
    case False
    then show ?thesis using sp w by (simp add: nfs41_wake_slot_table.simps [of e tbl])
  qed
qed

section \<open>Resizing\<close>

lemma nfs4_shrink_slot_table_fields [simp]:
  "used_slots (nfs4_shrink_slot_table tbl m) = used_slots tbl"
  "woken (nfs4_shrink_slot_table tbl m) = woken tbl"
  "max_slotid (nfs4_shrink_slot_table tbl m) = max_slotid tbl"
  "highest_used_slotid (nfs4_shrink_slot_table tbl m) = highest_used_slotid tbl"
  "server_highest_slotid (nfs4_shrink_slot_table tbl m) = server_highest_slotid tbl"
  "target_highest_slotid (nfs4_shrink_slot_table tbl m) = target_highest_slotid tbl"
  "slot_tbl_draining (nfs4_shrink_slot_table tbl m) = slot_tbl_draining tbl"
  "generation (nfs4_shrink_slot_table tbl m) = generation tbl"
  by (simp_all add: nfs4_shrink_slot_table_def)

lemma nfs4_shrink_slot_table_size:
  assumes ok: "slot_tbl_ok tbl"
  shows "max_slots (nfs4_shrink_slot_table tbl m) = min (max_slots tbl) m"
    and "map slot_nr (slots (nfs4_shrink_slot_table tbl m)) =
         map of_nat [0..<unat (min (max_slots tbl) m)]"
proof -
  have len: "length (slots tbl) = unat (max_slots tbl)" using ok by (rule slot_tbl_ok_length)
  have nr: "map slot_nr (slots tbl) = map of_nat [0..<unat (max_slots tbl)]"
    using ok by (simp add: slot_tbl_ok_def)
  have "max_slots tbl - of_nat (unat (max_slots tbl) - unat m) = m" if "m < max_slots tbl"
    using that by (simp add: word_less_nat_alt of_nat_diff)
  then show "max_slots (nfs4_shrink_slot_table tbl m) = min (max_slots tbl) m"
    using len by (auto simp: nfs4_shrink_slot_table_def min_def)
  have "map slot_nr (take (unat m) (slots tbl)) = map of_nat [0..<unat m]" if "m < max_slots tbl"
  proof -
    have "unat m < unat (max_slots tbl)" using that by (simp add: word_less_nat_alt)
    then show ?thesis using nr by (simp add: take_map [symmetric]) (simp add: take_map min_def)
  qed
  then show "map slot_nr (slots (nfs4_shrink_slot_table tbl m)) =
         map of_nat [0..<unat (min (max_slots tbl) m)]"
    using nr by (auto simp: nfs4_shrink_slot_table_def min_def)
qed

lemma nfs4_shrink_slot_table_ok:
  assumes ok: "slot_tbl_ok tbl" and u: "\<forall>j \<in> used_slots tbl. j < m"
  shows "slot_tbl_ok (nfs4_shrink_slot_table tbl m)"
proof -
  have "highest_ok (nfs4_shrink_slot_table tbl m) = highest_ok tbl" by (simp add: highest_ok_def)
  moreover have "min (max_slots tbl) m \<le> NFS4_MAX_SLOT_TABLE"
    using ok by (auto simp: slot_tbl_ok_def min_def)
  ultimately show ?thesis using ok u nfs4_shrink_slot_table_size [OF ok, of m]
    by (simp add: slot_tbl_ok_def)
qed

lemma nfs41_set_server_slotid_locked_fields [simp]:
  "used_slots (nfs41_set_server_slotid_locked tbl h) = used_slots tbl"
  "woken (nfs41_set_server_slotid_locked tbl h) = woken tbl"
  "slot_tbl_draining (nfs41_set_server_slotid_locked tbl h) = slot_tbl_draining tbl"
  by (simp_all add: nfs41_set_server_slotid_locked_def)

text \<open>
  Lowering the server's limit frees the slots above it. The test of \<open>highest_used_slotid\<close>
  protects the slots in use, so no task is left with a pointer to a freed slot.
\<close>

lemma nfs41_set_server_slotid_locked_ok:
  assumes ok: "slot_tbl_ok tbl" and h: "h \<le> NFS4_MAX_SLOTID"
  shows "slot_tbl_ok (nfs41_set_server_slotid_locked tbl h)"
proof (cases "server_highest_slotid tbl = h \<or> h < highest_used_slotid tbl")
  case True
  then show ?thesis using ok by (auto simp: nfs41_set_server_slotid_locked_def)
next
  case False
  have "h < NFS4_MAX_SLOT_TABLE" using h by (rule order_le_less_trans) simp
  then have succ: "j < h + 1 \<longleftrightarrow> j \<le> h" for j by (rule u32_less_succ_iff)
  have "\<forall>j \<in> used_slots tbl. j < h + 1"
    using used_le_highest [OF ok] False by (meson succ le_less_trans not_less)
  then have "slot_tbl_ok (nfs4_shrink_slot_table tbl (h + 1))"
    using ok by (intro nfs4_shrink_slot_table_ok)
  then show ?thesis using h False
    by (simp add: nfs41_set_server_slotid_locked_def slot_tbl_ok_def highest_ok_def)
qed

lemma nfs41_set_target_slotid_locked_fields [simp]:
  "used_slots (nfs41_set_target_slotid_locked tbl t) = used_slots tbl"
  "woken (nfs41_set_target_slotid_locked tbl t) = woken tbl"
  "slot_tbl_draining (nfs41_set_target_slotid_locked tbl t) = slot_tbl_draining tbl"
  by (simp_all add: nfs41_set_target_slotid_locked_def)

lemma nfs41_set_target_slotid_locked_ok:
  "slot_tbl_ok tbl \<Longrightarrow> t \<le> NFS4_MAX_SLOTID \<Longrightarrow> slot_tbl_ok (nfs41_set_target_slotid_locked tbl t)"
  by (simp add: nfs41_set_target_slotid_locked_def slot_tbl_ok_def highest_ok_def)

lemma nfs41_set_max_slotid_locked_spec:
  assumes ok: "slot_tbl_ok tbl"
    and tbl'_def: "tbl' = nfs41_set_max_slotid_locked e tbl t"
  shows "slot_tbl_ok tbl' \<and> slots_handed tbl tbl' \<and> slot_tbl_draining tbl' = slot_tbl_draining tbl \<and>
    max_slotid tbl' = min (min NFS4_MAX_SLOTID t) (min (server_highest_slotid tbl) (target_highest_slotid tbl)) \<and>
    target_highest_slotid tbl' = target_highest_slotid tbl \<and>
    server_highest_slotid tbl' = server_highest_slotid tbl"
proof -
  let ?m = "min (min NFS4_MAX_SLOTID t) (min (server_highest_slotid tbl) (target_highest_slotid tbl))"
  have eq: "tbl' = nfs41_wake_slot_table e (tbl\<lparr>max_slotid := ?m\<rparr>)"
    by (auto simp: tbl'_def nfs41_set_max_slotid_locked_def Let_def min_def)
  have ok': "slot_tbl_ok (tbl\<lparr>max_slotid := ?m\<rparr>)"
    using ok by (simp add: slot_tbl_ok_def highest_ok_def min.coboundedI1)
  have "slots_handed tbl tbl'" if "slots_handed (tbl\<lparr>max_slotid := ?m\<rparr>) tbl'"
    using that by (simp add: slots_handed_def)
  then show ?thesis using nfs41_wake_slot_table_spec [OF ok', of e] eq by simp
qed

lemma nfs41_update_target_slotid_spec:
  assumes ok: "slot_tbl_ok tbl"
    and tbl'_def: "tbl' = nfs41_update_target_slotid e tbl s t"
  shows "slot_tbl_ok tbl' \<and> slots_handed tbl tbl' \<and> slot_tbl_draining tbl' = slot_tbl_draining tbl \<and>
    max_slotid tbl' = min (min (sr_target_highest_slotid t) NFS4_MAX_SLOTID)
      (min (server_highest_slotid tbl') (target_highest_slotid tbl'))"
proof -
  let ?t = "min (sr_target_highest_slotid t) NFS4_MAX_SLOTID"
  let ?h = "min (sr_highest_slotid t) NFS4_MAX_SLOTID"
  obtain tbl1 o1 where o: "nfs41_is_outlier_target_slotid tbl ?t = (tbl1, o1)" by fastforce
  then obtain d d2 where
    t1: "tbl1 = tbl\<lparr>d_target_highest_slotid := d, d2_target_highest_slotid := d2\<rparr>"
    by (auto simp: nfs41_is_outlier_target_slotid_def Let_def)
  then have ok1: "slot_tbl_ok tbl1" using ok by (simp add: slot_tbl_ok_def highest_ok_def)
  define tbl2 where "tbl2 = (if \<not> o1 then nfs41_set_target_slotid_locked tbl1 ?t else tbl1)"
  define tbl3 where
    "tbl3 = (if generation tbl2 = slot_generation s
             then nfs41_set_server_slotid_locked tbl2 ?h else tbl2)"
  have ok2: "slot_tbl_ok tbl2" unfolding tbl2_def
    using ok1 nfs41_set_target_slotid_locked_ok [OF ok1, of ?t] by simp
  have ok3: "slot_tbl_ok tbl3" unfolding tbl3_def
    using ok2 nfs41_set_server_slotid_locked_ok [OF ok2, of ?h] by simp
  have same: "used_slots tbl3 = used_slots tbl" "woken tbl3 = woken tbl"
    "slot_tbl_draining tbl3 = slot_tbl_draining tbl"
    by (simp_all add: tbl2_def tbl3_def t1)
  have "tbl' = nfs41_set_max_slotid_locked e tbl3 ?t"
    by (simp add: tbl'_def nfs41_update_target_slotid_def Let_def o tbl2_def tbl3_def)
  moreover have "slots_handed tbl x" if "slots_handed tbl3 x" for x
    using that same by (simp add: slots_handed_def)
  ultimately show ?thesis using nfs41_set_max_slotid_locked_spec [OF ok3 refl, of e ?t] same
    by (simp add: min.commute min.left_commute)
qed

section \<open>Setting a table up\<close>

lemma nfs4_init_slot_table_ok: "slot_tbl_ok (nfs4_init_slot_table zero_slot_table)"
  by (simp add: slot_tbl_ok_def highest_ok_def nfs4_init_slot_table_def zero_slot_table_def)

lemma nfs4_init_slot_table_used: "used_slots (nfs4_init_slot_table zero_slot_table) = {}"
  by (simp add: nfs4_init_slot_table_def zero_slot_table_def)

lemma nfs4_reset_slot_table_ok:
  assumes ok: "slot_tbl_ok tbl" and u: "used_slots tbl = {}" and h: "h \<le> NFS4_MAX_SLOTID"
  shows "slot_tbl_ok (nfs4_reset_slot_table tbl h i)"
    and "max_slots (nfs4_reset_slot_table tbl h i) = min (max_slots tbl) (h + 1)"
    and "max_slotid (nfs4_reset_slot_table tbl h i) = h"
    and "used_slots (nfs4_reset_slot_table tbl h i) = {}"
    and "\<forall>s \<in> set (slots (nfs4_reset_slot_table tbl h i)).
           seq_nr s = i \<and> seq_nr_highest_sent s = i \<and> seq_nr_last_acked s = i - 1"
proof -
  have "slot_tbl_ok (nfs4_shrink_slot_table tbl (h + 1))"
    using ok u by (intro nfs4_shrink_slot_table_ok) simp_all
  then show "slot_tbl_ok (nfs4_reset_slot_table tbl h i)"
    using h u by (simp add: nfs4_reset_slot_table_def slot_tbl_ok_def highest_ok_def Let_def comp_def)
  show "max_slots (nfs4_reset_slot_table tbl h i) = min (max_slots tbl) (h + 1)"
    using nfs4_shrink_slot_table_size(1) [OF ok] by (simp add: nfs4_reset_slot_table_def Let_def)
qed (use u in \<open>auto simp: nfs4_reset_slot_table_def Let_def\<close>)

lemma less_max_slot_table: "i < NFS4_MAX_SLOT_TABLE \<Longrightarrow> i \<le> NFS4_MAX_SLOTID"
  by (simp add: word_less_nat_alt word_le_nat_alt)

lemma nfs4_realloc_slot_table_ok:
  assumes ok: "slot_tbl_ok tbl" and u: "used_slots tbl = {}" and nz: "max_reqs \<noteq> 0"
    and r: "nfs4_realloc_slot_table e tbl max_reqs i = (tbl', ret)"
  shows "slot_tbl_ok tbl' \<and> used_slots tbl' = {} \<and>
     (ret = 0 \<and> max_slots tbl' = min max_reqs NFS4_MAX_SLOT_TABLE \<and>
        max_slotid tbl' = min max_reqs NFS4_MAX_SLOT_TABLE - 1 \<and>
        (\<forall>s \<in> set (slots tbl'). seq_nr s = i \<and> seq_nr_highest_sent s = i \<and> seq_nr_last_acked s = i - 1) \<or>
      ret = - ENOMEM \<and> (\<exists>k < max_reqs. \<not> kzalloc_ok e k))"
proof -
  define m where "m = min max_reqs NFS4_MAX_SLOT_TABLE"
  have pre: "m - 1 < m" using nz by (intro u32_pred_less) (simp add: m_def min_def)
  have bnd: "m \<le> max_reqs" "m \<le> NFS4_MAX_SLOT_TABLE" by (simp_all add: m_def)
  have le: "m - 1 \<le> NFS4_MAX_SLOTID"
    using less_le_trans [OF pre bnd(2)] by (rule less_max_slot_table)
  obtain t1 r1 where g: "nfs4_grow_slot_table e tbl m i = (t1, r1)" by fastforce
  have res: "(tbl', ret) = (if r1 \<noteq> 0 then (t1, r1) else (nfs4_reset_slot_table t1 (m - 1) i, r1))"
    using r g by (auto simp: nfs4_realloc_slot_table_def Let_def m_def min_def split: if_splits)
  have t1: "slot_tbl_ok t1 \<and> used_slots t1 = {} \<and>
     (r1 = 0 \<and> m \<le> max_slots t1 \<or> r1 = - ENOMEM \<and> (\<exists>k \<le> m - 1. \<not> kzalloc_ok e k))"
  proof (cases "m \<le> max_slots tbl")
    case True
    then show ?thesis using g ok u by (simp add: nfs4_grow_slot_table_def)
  next
    case False
    obtain t r where f: "nfs4_find_or_create_slot e tbl (m - 1) i = (t, r)" by fastforce
    have "used_slots t = {}" by (subst nfs4_find_or_create_slot_frame [OF f]) (simp add: u)
    moreover have "m - 1 < k \<Longrightarrow> m \<le> k" for k using u32_succ_le [of "m - 1" k] by simp
    ultimately show ?thesis using nfs4_find_or_create_slot_ok [OF f ok le] False f g
      by (auto simp: nfs4_grow_slot_table_def)
  qed
  show ?thesis
  proof (cases "r1 = 0")
    case True
    then show ?thesis using res t1 nfs4_reset_slot_table_ok [of t1 "m - 1" i] le bnd pre
      by (auto simp: m_def [symmetric] min_absorb2)
  next
    case False
    then obtain k where "k \<le> m - 1" "\<not> kzalloc_ok e k" using t1 by auto
    then have "k < max_reqs" using pre bnd(1) by (metis le_less_trans less_le_trans)
    then show ?thesis using False res t1 \<open>\<not> kzalloc_ok e k\<close> by auto
  qed
qed

section \<open>Exclusive use of slots\<close>

text \<open>
  What the rest of the client relies on: allocation hands out a slot that nobody holds, a failed
  allocation changes nothing that is held, and a release gives back exactly the slot it names.
  A client that acquires slots for its requests and releases them when the replies are in then
  never has two requests on one slot.
\<close>

datatype 'c slot_op = Acquire 'c | Release 'c

fun slot_client ::
  "('t \<Rightarrow> 't \<times> ('e + 's)) \<Rightarrow> ('t \<Rightarrow> 's \<Rightarrow> 't) \<Rightarrow> 'c slot_op list \<Rightarrow> 't \<times> ('c \<Rightarrow> 's option) \<Rightarrow>
   't \<times> ('c \<Rightarrow> 's option)" where
  "slot_client alloc free [] (t, h) = (t, h)"
| "slot_client alloc free (Acquire c # ops) (t, h) =
     slot_client alloc free ops
       (case h c of
          Some _ \<Rightarrow> (t, h)
        | None \<Rightarrow> (case alloc t of (t', Inl _) \<Rightarrow> (t', h) | (t', Inr n) \<Rightarrow> (t', h(c \<mapsto> n))))"
| "slot_client alloc free (Release c # ops) (t, h) =
     slot_client alloc free ops
       (case h c of Some n \<Rightarrow> (free t n, h(c := None)) | None \<Rightarrow> (t, h))"

locale slot_allocator =
  fixes ok :: "'t \<Rightarrow> bool"
    and used :: "'t \<Rightarrow> 's set"
    and alloc :: "'t \<Rightarrow> 't \<times> ('e + 's)"
    and free :: "'t \<Rightarrow> 's \<Rightarrow> 't"
  assumes alloc_fresh:
      "ok t \<Longrightarrow> alloc t = (t', Inr n) \<Longrightarrow> ok t' \<and> n \<notin> used t \<and> used t' = insert n (used t)"
    and alloc_fail: "ok t \<Longrightarrow> alloc t = (t', Inl err) \<Longrightarrow> ok t' \<and> used t' = used t"
    and free_used: "ok t \<Longrightarrow> n \<in> used t \<Longrightarrow> ok (free t n) \<and> used (free t n) = used t - {n}"
begin

definition held :: "'t \<times> ('c \<Rightarrow> 's option) \<Rightarrow> bool" where
  "held s \<longleftrightarrow> ok (fst s) \<and> inj_on (snd s) (dom (snd s)) \<and> used (fst s) = ran (snd s)"

lemma held_acquire:
  assumes "held (t, h)" "h c = None" "alloc t = (t', r)"
  shows "held (case r of Inl _ \<Rightarrow> (t', h) | Inr n \<Rightarrow> (t', h(c \<mapsto> n)))"
proof (cases r)
  case (Inl err)
  then show ?thesis using assms alloc_fail [of t t' err] by (simp add: held_def)
next
  case (Inr n)
  then have n: "ok t'" "n \<notin> ran h" "used t' = insert n (ran h)"
    using assms alloc_fresh [of t t' n] by (auto simp: held_def)
  have "inj_on h (dom h)" using assms(1) by (simp add: held_def)
  then have "inj_on (h(c \<mapsto> n)) (dom (h(c \<mapsto> n)))"
    using n(2) assms(2) by (auto simp: inj_on_def dom_def ran_def split: if_splits)
  then show ?thesis using n Inr assms(2) by (simp add: held_def ran_map_upd)
qed

lemma held_release:
  assumes "held (t, h)" "h c = Some n"
  shows "held (free t n, h(c := None))"
proof -
  have "ok (free t n) \<and> used (free t n) = ran h - {n}"
    using assms free_used [of t n] by (auto simp: held_def ran_def)
  moreover have "ran (h(c := None)) = ran h - {n}"
    using assms by (fastforce simp: held_def ran_def inj_on_def dom_def split: if_splits)
  moreover have "inj_on (h(c := None)) (dom (h(c := None)))"
    using assms(1) by (auto simp: held_def inj_on_def dom_def split: if_splits)
  ultimately show ?thesis by (simp add: held_def)
qed

lemma slot_client_held: "held s \<Longrightarrow> held (slot_client alloc free ops s)"
proof (induction ops arbitrary: s)
  case Nil
  then show ?case by (cases s) simp
next
  case (Cons op ops)
  obtain t h where s: "s = (t, h)" by (cases s)
  have h: "held (t, h)" using Cons.prems s by simp
  show ?case
  proof (cases op)
    case (Acquire c)
    obtain t' r where a: "alloc t = (t', r)" by fastforce
    show ?thesis
    proof (cases "h c")
      case None
      then show ?thesis
        using Cons.IH [OF held_acquire [OF h None a]] Acquire s a by (simp split: sum.splits)
    next
      case (Some n)
      then show ?thesis using Cons.IH [OF h] Acquire s by simp
    qed
  next
    case (Release c)
    show ?thesis
    proof (cases "h c")
      case None
      then show ?thesis using Cons.IH [OF h] Release s by simp
    next
      case (Some n)
      then show ?thesis using Cons.IH [OF held_release [OF h Some]] Release s by simp
    qed
  qed
qed

end

lemma slot_table_alloc_fresh:
  "slot_tbl_ok t \<Longrightarrow> nfs4_alloc_slot e t = (t', Inr n) \<Longrightarrow>
     slot_tbl_ok t' \<and> n \<notin> used_slots t \<and> used_slots t' = insert n (used_slots t)"
  by (drule (1) nfs4_alloc_slot_spec) (simp add: alloc_slot_post_def)

lemma slot_table_alloc_fail:
  "slot_tbl_ok t \<Longrightarrow> nfs4_alloc_slot e t = (t', Inl err) \<Longrightarrow>
     slot_tbl_ok t' \<and> used_slots t' = used_slots t"
  by (drule (1) nfs4_alloc_slot_spec) (simp add: alloc_slot_post_def)

interpretation slot_table: slot_allocator slot_tbl_ok used_slots "nfs4_alloc_slot e" nfs4_free_slot
  for e
  by unfold_locales (auto dest: slot_table_alloc_fresh slot_table_alloc_fail intro: nfs4_free_slot_ok)

section \<open>Properties\<close>

text \<open>A table of two slots, the first in use, to evaluate the properties on.\<close>

definition ex_slot :: "u32 \<Rightarrow> nfs4_slot" where
  "ex_slot n = \<lparr>slot_generation = 0, slot_nr = n, seq_nr = 1, seq_nr_last_acked = 0,
                seq_nr_highest_sent = 1, privileged = False, seq_done = False\<rparr>"

definition ex_env :: slot_env where
  "ex_env = \<lparr>kzalloc_ok = (\<lambda>_. True), rpc_first = (\<lambda>q. if q = [] then None else Some 0),
             jiffies = 0\<rparr>"

definition ex_task :: "nat \<Rightarrow> bool \<Rightarrow> seq_task" where
  "ex_task i p = \<lparr>task_id = i, sa_cache_this = False, sa_privileged = p, sa_slot = None,
     sr_slot = None, sr_timestamp = 0, sr_status = 0, sr_status_flags = 0,
     sr_highest_slotid = 1, sr_target_highest_slotid = 1\<rparr>"

definition ex_table :: nfs4_slot_table where
  "ex_table = zero_slot_table
     \<lparr>slots := [ex_slot 0, ex_slot 1], used_slots := {0}, max_slots := 2, max_slotid := 1,
      highest_used_slotid := 0, target_highest_slotid := 1, server_highest_slotid := 1,
      slot_tbl_draining := True\<rparr>"

lemma ex_table_ok: "slot_tbl_ok ex_table"
proof -
  have "[0..<2] = [0, 1 :: nat]" by (simp add: upt_conv_Cons)
  then show ?thesis
    by (simp add: slot_tbl_ok_def highest_ok_def ex_table_def ex_slot_def zero_slot_table_def)
qed

text \<open>
  C10: \<open>nfs4_alloc_slot\<close> on a well-formed table keeps it well-formed, and either returns the
  lowest slot number that is not in use and marks exactly that slot as used, or fails with
  \<open>-EBUSY\<close> only when every slot up to \<open>max_slotid\<close> is taken, or with \<open>-ENOMEM\<close> only when the
  allocation of a missing slot failed; on failure nothing becomes used.
\<close>

theorem nfs4_alloc_slot_lowest_free:
  assumes "slot_tbl_ok tbl" "nfs4_alloc_slot e tbl = (tbl', r)"
  shows "slot_tbl_ok tbl' \<and>
    (case r of
       Inr n \<Rightarrow> n \<notin> used_slots tbl \<and> n \<le> max_slotid tbl \<and> (\<forall>j < n. j \<in> used_slots tbl) \<and>
                n < max_slots tbl' \<and> used_slots tbl' = insert n (used_slots tbl)
     | Inl err \<Rightarrow> used_slots tbl' = used_slots tbl \<and>
                (err = - EBUSY \<and> (\<forall>j \<le> max_slotid tbl. j \<in> used_slots tbl) \<or>
                 err = - ENOMEM \<and> (\<exists>m \<le> max_slotid tbl. \<not> kzalloc_ok e m)))"
  using nfs4_alloc_slot_spec [OF assms] by (simp only: alloc_slot_post_def)

theorem nfs4_alloc_slot_lowest_free_witness:
  "slot_tbl_ok (fst (nfs4_alloc_slot ex_env ex_table))"
  using nfs4_alloc_slot_lowest_free [OF ex_table_ok prod.collapse [symmetric], of ex_env]
  by (rule conjunct1)

text \<open>
  C21: \<open>nfs4_free_slot\<close> of a used slot keeps the table well-formed (so \<open>highest_used_slotid\<close> is again
  the greatest used slot), releases exactly that slot, and signals the drain completion exactly
  when the table is draining and this was the last slot in use.
\<close>

theorem nfs4_free_slot_correct:
  assumes "slot_tbl_ok tbl" "n \<in> used_slots tbl"
  shows "slot_tbl_ok (nfs4_free_slot tbl n) \<and>
    used_slots (nfs4_free_slot tbl n) = used_slots tbl - {n} \<and>
    complete_done (nfs4_free_slot tbl n) =
      complete_done tbl + (if nfs4_slot_tbl_draining tbl \<and> used_slots tbl = {n} then 1 else 0)"
  using nfs4_free_slot_ok [OF assms] nfs4_free_slot_complete [OF assms]
  by (simp add: nfs4_slot_tbl_draining_def)

theorem nfs4_free_slot_correct_witness:
  "0 \<in> used_slots ex_table \<and> complete_done (nfs4_free_slot ex_table 0) = 1"
  using nfs4_free_slot_correct [OF ex_table_ok, of 0]
  by (simp add: ex_table_def zero_slot_table_def nfs4_slot_tbl_draining_def)

text \<open>
  C3: Exclusive slots. Start from a well-formed table with no slot in use and let any number of
  requests acquire slots with \<open>nfs4_alloc_slot\<close> and release them with \<open>nfs4_free_slot\<close>, in any
  order. Then no two requests ever hold the same slot, and the used slots are exactly the held
  ones: none leaks and none is freed while it is held.
\<close>

theorem slots_exclusive:
  assumes "slot_tbl_ok tbl" "used_slots tbl = {}"
    and "slot_client (nfs4_alloc_slot e) nfs4_free_slot ops (tbl, Map.empty) = (tbl', h)"
  shows "slot_tbl_ok tbl' \<and> inj_on h (dom h) \<and> used_slots tbl' = ran h"
proof -
  have "slot_table.held (tbl, Map.empty)" using assms by (simp add: slot_table.held_def)
  from slot_table.slot_client_held [OF this, of e ops] assms(3) show ?thesis
    by (simp add: slot_table.held_def)
qed

theorem slots_exclusive_witness:
  "slot_tbl_ok (fst (slot_client (nfs4_alloc_slot ex_env) nfs4_free_slot
      [Acquire (1 :: nat), Acquire 2, Release 1]
      (nfs4_init_slot_table zero_slot_table, Map.empty)))"
  using slots_exclusive [OF nfs4_init_slot_table_ok, of ex_env
      "[Acquire (1 :: nat), Acquire 2, Release 1]"]
  by (metis nfs4_init_slot_table_used prod.collapse)

text \<open>
  Waking. \<open>nfs41_wake_slot_table\<close> returns (its loop ends), keeps the table well-formed, and
  the tasks it wakes hold pairwise different slots none of which was in use before; exactly
  these slots become used, and a draining table wakes privileged tasks only.
\<close>

lemma nfs41_wake_slot_table_exclusive:
  assumes "slot_tbl_ok tbl"
  shows "slot_tbl_ok (nfs41_wake_slot_table e tbl) \<and>
    (\<exists>ts. woken (nfs41_wake_slot_table e tbl) = woken tbl @ ts \<and> distinct (map slot_of ts) \<and>
       (\<forall>t \<in> set ts. sr_slot t = Some (slot_of t) \<and> sa_slot t = sr_slot t \<and>
          (slot_tbl_draining tbl \<longrightarrow> sa_privileged t)) \<and>
       used_slots tbl \<inter> slot_of ` set ts = {} \<and>
       used_slots (nfs41_wake_slot_table e tbl) = used_slots tbl \<union> slot_of ` set ts)"
  using nfs41_wake_slot_table_spec [OF assms, of e] by (simp add: slots_handed_def)

text \<open>
  C15: Resizing by the server. Whatever highest and target slot numbers a reply of SEQUENCE
  carries, \<open>nfs41_update_target_slotid\<close> keeps the table well-formed: it never drops a slot that
  is in use, and \<open>max_slotid\<close> becomes the least of the reply's target, 1023 and the two limits the
  table keeps. The tasks it wakes are given fresh slots as in the previous property.
\<close>

theorem nfs41_update_target_slotid_safe:
  assumes "slot_tbl_ok tbl"
  shows "let tbl' = nfs41_update_target_slotid e tbl s t in
    slot_tbl_ok tbl' \<and> slots_handed tbl tbl' \<and> used_slots tbl \<subseteq> used_slots tbl' \<and>
    max_slotid tbl' = min (min (sr_target_highest_slotid t) NFS4_MAX_SLOTID)
      (min (server_highest_slotid tbl') (target_highest_slotid tbl'))"
  using nfs41_update_target_slotid_spec [OF assms refl, of e s t] slots_handed_mono [of tbl]
  by (simp add: Let_def)

theorem nfs41_update_target_slotid_safe_witness:
  "slot_tbl_ok (nfs41_update_target_slotid ex_env ex_table (ex_slot 0) (ex_task 1 False))"
  using nfs41_update_target_slotid_safe [OF ex_table_ok, of ex_env "ex_slot 0" "ex_task 1 False"]
  by (simp add: Let_def)

text \<open>
  C26: \<open>nfs4_realloc_slot_table\<close> on a table without used slots gives, for any positive request
  count, exactly \<open>min max_reqs 1024\<close> slots whose sequence numbers all start at \<open>ivalue\<close>, or
  \<open>-ENOMEM\<close> with a table that is still well-formed.
\<close>

lemma nfs4_realloc_slot_table_correct:
  assumes "slot_tbl_ok tbl" "used_slots tbl = {}" "max_reqs \<noteq> 0"
    and "nfs4_realloc_slot_table e tbl max_reqs ivalue = (tbl', ret)"
  shows "slot_tbl_ok tbl' \<and> used_slots tbl' = {} \<and>
     (ret = 0 \<and> length (slots tbl') = unat (min max_reqs NFS4_MAX_SLOT_TABLE) \<and>
        max_slotid tbl' = min max_reqs NFS4_MAX_SLOT_TABLE - 1 \<and>
        (\<forall>s \<in> set (slots tbl'). seq_nr s = ivalue \<and> seq_nr_highest_sent s = ivalue \<and>
           seq_nr_last_acked s = ivalue - 1) \<or>
      ret = - ENOMEM \<and> (\<exists>k < max_reqs. \<not> kzalloc_ok e k))"
  using nfs4_realloc_slot_table_ok [OF assms] slot_tbl_ok_length [of tbl'] by auto

end
