(* ===== verification/Nfs4_Client_Flags.thy ===== *)
theory Nfs4_Client_Flags
  imports Nfs_Prelude
begin

text \<open>
  The recovery flags of an \<open>nfs_client\<close> (\<open>enum nfs4_client_state\<close> in \<open>src/mynfs/nfs4_fs.h\<close>) and
  the functions of \<open>nfs4state.c\<close> that raise them and start the state manager thread. The record
  holds the part of the client that every recovery path touches; later theories extend it.

  \<open>kthread_run\<close> is a parameter: the code it returns, \<open>0\<close> for a thread that started. Started
  threads are counted in \<open>cl_managers\<close>.
\<close>

section \<open>Data\<close>

datatype (plugins only: code) nfs4_client_state =
    NFS4CLNT_MANAGER_RUNNING | NFS4CLNT_CHECK_LEASE | NFS4CLNT_LEASE_EXPIRED
  | NFS4CLNT_RECLAIM_REBOOT | NFS4CLNT_RECLAIM_NOGRACE | NFS4CLNT_DELEGRETURN
  | NFS4CLNT_SESSION_RESET | NFS4CLNT_LEASE_CONFIRM | NFS4CLNT_SERVER_SCOPE_MISMATCH
  | NFS4CLNT_PURGE_STATE | NFS4CLNT_BIND_CONN_TO_SESSION | NFS4CLNT_MOVED
  | NFS4CLNT_LEASE_MOVED | NFS4CLNT_DELEGATION_EXPIRED | NFS4CLNT_RUN_MANAGER
  | NFS4CLNT_MANAGER_AVAILABLE | NFS4CLNT_RECALL_RUNNING | NFS4CLNT_RECALL_ANY_LAYOUT_READ
  | NFS4CLNT_RECALL_ANY_LAYOUT_RW | NFS4CLNT_DELEGRETURN_DELAYED

abbreviation NFS_CS_READY :: int where
  "NFS_CS_READY \<equiv> 0"

abbreviation NFS_CS_SESSION_INITING :: int where
  "NFS_CS_SESSION_INITING \<equiv> 2"

record nfs_client =
  cl_state :: "nfs4_client_state set"
  cl_shutdown :: bool
  cl_swapper :: bool
  cl_count :: nat
  cl_cons_state :: int
  cl_managers :: nat

definition set_cl :: "nfs4_client_state \<Rightarrow> 'a nfs_client_scheme \<Rightarrow> 'a nfs_client_scheme" where
  "set_cl f clp = clp\<lparr>cl_state := insert f (cl_state clp)\<rparr>"

definition clear_cl :: "nfs4_client_state \<Rightarrow> 'a nfs_client_scheme \<Rightarrow> 'a nfs_client_scheme" where
  "clear_cl f clp = clp\<lparr>cl_state := cl_state clp - {f}\<rparr>"

lemma set_clear_cl_simps [simp]:
  "cl_state (set_cl f clp) = insert f (cl_state clp)"
  "cl_state (clear_cl f clp) = cl_state clp - {f}"
  "cl_shutdown (set_cl f clp) = cl_shutdown clp" "cl_shutdown (clear_cl f clp) = cl_shutdown clp"
  "cl_swapper (set_cl f clp) = cl_swapper clp" "cl_swapper (clear_cl f clp) = cl_swapper clp"
  "cl_count (set_cl f clp) = cl_count clp" "cl_count (clear_cl f clp) = cl_count clp"
  "cl_cons_state (set_cl f clp) = cl_cons_state clp"
  "cl_cons_state (clear_cl f clp) = cl_cons_state clp"
  "cl_managers (set_cl f clp) = cl_managers clp" "cl_managers (clear_cl f clp) = cl_managers clp"
  "nfs_client.more (set_cl f clp) = nfs_client.more clp"
  "nfs_client.more (clear_cl f clp) = nfs_client.more clp"
  by (simp_all add: set_cl_def clear_cl_def)

section \<open>The client's initialisation state\<close>

definition mynfs_mark_client_ready :: "int \<Rightarrow> 'a nfs_client_scheme \<Rightarrow> 'a nfs_client_scheme" where
  "mynfs_mark_client_ready s clp = clp\<lparr>cl_cons_state := s\<rparr>"

definition mynfs_client_init_is_complete :: "'a nfs_client_scheme \<Rightarrow> bool" where
  "mynfs_client_init_is_complete clp \<longleftrightarrow> cl_cons_state clp \<le> NFS_CS_READY"

definition mynfs_client_init_status :: "'a nfs_client_scheme \<Rightarrow> int" where
  "mynfs_client_init_status clp =
     (if cl_cons_state clp > NFS_CS_READY then - EINVAL else cl_cons_state clp)"

section \<open>Starting the state manager\<close>

definition nfs4_clear_state_manager_bit :: "'a nfs_client_scheme \<Rightarrow> 'a nfs_client_scheme" where
  "nfs4_clear_state_manager_bit clp = clear_cl NFS4CLNT_MANAGER_RUNNING clp"

definition nfs4_schedule_state_manager ::
  "int \<Rightarrow> 'a nfs_client_scheme \<Rightarrow> 'a nfs_client_scheme" where
  "nfs4_schedule_state_manager kthread_run clp =
     (if cl_shutdown clp then clp
      else
        let clp = set_cl NFS4CLNT_RUN_MANAGER clp;
            avail = NFS4CLNT_MANAGER_AVAILABLE \<in> cl_state clp;
            swapon = cl_swapper clp \<and> \<not> avail;
            clp = (if cl_swapper clp then set_cl NFS4CLNT_MANAGER_AVAILABLE clp else clp) in
        if cl_swapper clp \<and> \<not> swapon then clp
        else if NFS4CLNT_MANAGER_RUNNING \<in> cl_state clp then clp
        else
          let clp = set_cl NFS4CLNT_MANAGER_RUNNING clp;
              clp = clp\<lparr>cl_count := cl_count clp + 1\<rparr> in
          if kthread_run = 0 then clp\<lparr>cl_managers := cl_managers clp + 1\<rparr>
          else
            let clp = (if \<not> mynfs_client_init_is_complete clp
                       then mynfs_mark_client_ready kthread_run clp else clp);
                clp = (if swapon then clear_cl NFS4CLNT_MANAGER_AVAILABLE clp else clp);
                clp = nfs4_clear_state_manager_bit clp
            in clp\<lparr>cl_count := cl_count clp - 1\<rparr>)"

definition mynfs4_schedule_lease_recovery ::
  "int \<Rightarrow> 'a nfs_client_scheme option \<Rightarrow> 'a nfs_client_scheme option" where
  "mynfs4_schedule_lease_recovery k clp =
     (case clp of
        None \<Rightarrow> None
      | Some clp \<Rightarrow>
          let clp = (if NFS4CLNT_LEASE_EXPIRED \<notin> cl_state clp
                     then set_cl NFS4CLNT_CHECK_LEASE clp else clp)
          in Some (nfs4_schedule_state_manager k clp))"

text \<open>
  The file system that migrates: whether its file handles persist, and the bits
  \<open>NFS_MIG_FAILED\<close> and \<open>NFS_MIG_IN_TRANSITION\<close> of \<open>mig_status\<close>.
\<close>

record mig_server =
  fh_persistent :: bool
  mig_failed :: bool
  mig_in_transition :: bool

definition mynfs4_schedule_migration_recovery ::
  "int \<Rightarrow> mig_server \<Rightarrow> 'a nfs_client_scheme \<Rightarrow> mig_server \<times> 'a nfs_client_scheme \<times> int" where
  "mynfs4_schedule_migration_recovery k server clp =
     (if \<not> fh_persistent server then (server, clp, - NFS4ERR_IO)
      else if mig_failed server then (server, clp, - NFS4ERR_IO)
      else (server\<lparr>mig_in_transition := True\<rparr>,
            nfs4_schedule_state_manager k (set_cl NFS4CLNT_MOVED clp), 0))"

definition mynfs4_schedule_lease_moved_recovery ::
  "int \<Rightarrow> 'a nfs_client_scheme \<Rightarrow> 'a nfs_client_scheme" where
  "mynfs4_schedule_lease_moved_recovery k clp =
     nfs4_schedule_state_manager k (set_cl NFS4CLNT_LEASE_MOVED clp)"

definition mynfs4_schedule_session_recovery ::
  "int \<Rightarrow> 'a nfs_client_scheme \<Rightarrow> int \<Rightarrow> 'a nfs_client_scheme" where
  "mynfs4_schedule_session_recovery k clp err =
     nfs4_schedule_state_manager k
       (if err = - NFS4ERR_CONN_NOT_BOUND_TO_SESSION
        then set_cl NFS4CLNT_BIND_CONN_TO_SESSION clp
        else set_cl NFS4CLNT_SESSION_RESET clp)"

definition nfs41_notify_server :: "int \<Rightarrow> 'a nfs_client_scheme \<Rightarrow> 'a nfs_client_scheme" where
  "nfs41_notify_server k clp = nfs4_schedule_state_manager k (set_cl NFS4CLNT_CHECK_LEASE clp)"

definition nfs41_handle_backchannel_fault ::
  "int \<Rightarrow> 'a nfs_client_scheme \<Rightarrow> 'a nfs_client_scheme" where
  "nfs41_handle_backchannel_fault k clp =
     nfs4_schedule_state_manager k (set_cl NFS4CLNT_SESSION_RESET clp)"

definition nfs41_handle_cb_path_down ::
  "int \<Rightarrow> 'a nfs_client_scheme \<Rightarrow> 'a nfs_client_scheme" where
  "nfs41_handle_cb_path_down k clp =
     (let was_set = NFS4CLNT_BIND_CONN_TO_SESSION \<in> cl_state clp;
          clp = set_cl NFS4CLNT_BIND_CONN_TO_SESSION clp
      in if \<not> was_set then nfs4_schedule_state_manager k clp else clp)"

section \<open>Lemmas\<close>

lemma nfs4_schedule_state_manager_flags:
  "cl_state (nfs4_schedule_state_manager k clp) =
     (if cl_shutdown clp then cl_state clp
      else insert NFS4CLNT_RUN_MANAGER (cl_state clp) \<union>
           (if cl_swapper clp \<and>
               (NFS4CLNT_MANAGER_AVAILABLE \<in> cl_state clp \<or>
                NFS4CLNT_MANAGER_RUNNING \<in> cl_state clp \<or> k = 0)
            then {NFS4CLNT_MANAGER_AVAILABLE} else {}) \<union>
           (if k = 0 \<and> \<not> (cl_swapper clp \<and> NFS4CLNT_MANAGER_AVAILABLE \<in> cl_state clp)
            then {NFS4CLNT_MANAGER_RUNNING} else {}))"
  by (auto simp: nfs4_schedule_state_manager_def Let_def mynfs_mark_client_ready_def
      nfs4_clear_state_manager_bit_def)

lemma nfs4_schedule_state_manager_other [simp]:
  "cl_shutdown (nfs4_schedule_state_manager k clp) = cl_shutdown clp"
  "cl_swapper (nfs4_schedule_state_manager k clp) = cl_swapper clp"
  "nfs_client.more (nfs4_schedule_state_manager k clp) = nfs_client.more clp"
  by (simp_all add: nfs4_schedule_state_manager_def Let_def mynfs_mark_client_ready_def
      nfs4_clear_state_manager_bit_def)

text \<open>
  The thread holds a reference, so threads and references grow together, and a thread is only
  started by the caller that finds the running bit clear.
\<close>

lemma nfs4_schedule_state_manager_single:
  "cl_managers (nfs4_schedule_state_manager k clp) =
     cl_managers clp +
       (if \<not> cl_shutdown clp \<and> k = 0 \<and> NFS4CLNT_MANAGER_RUNNING \<notin> cl_state clp \<and>
           \<not> (cl_swapper clp \<and> NFS4CLNT_MANAGER_AVAILABLE \<in> cl_state clp) then 1 else 0)"
  "cl_count (nfs4_schedule_state_manager k clp) + cl_managers clp =
     cl_count clp + cl_managers (nfs4_schedule_state_manager k clp)"
  by (simp_all add: nfs4_schedule_state_manager_def Let_def mynfs_mark_client_ready_def
      nfs4_clear_state_manager_bit_def)

end
