(* ===== verification/Nfs4_Stateid.thy ===== *)
theory Nfs4_Stateid
  imports Nfs_Prelude
begin

text \<open>
  State identifiers and their comparisons, the inline functions of \<open>src/mynfs/nfs4_fs.h\<close>, and the
  special stateids of \<open>nfs4state.c\<close>. The wire holds the sequence number big-endian and next to the
  twelve opaque bytes \<open>other\<close>; the model keeps the number in host order, which the source reaches
  through \<open>be32_to_cpu\<close> and \<open>cpu_to_be32\<close>, and the bytes as one 96-bit value, which is what
  \<open>memcmp\<close> compares.
\<close>

section \<open>Data\<close>

datatype (plugins only: code) stateid_type =
    NFS4_INVALID_STATEID_TYPE | NFS4_SPECIAL_STATEID_TYPE | NFS4_OPEN_STATEID_TYPE
  | NFS4_LOCK_STATEID_TYPE | NFS4_DELEGATION_STATEID_TYPE | NFS4_LAYOUT_STATEID_TYPE
  | NFS4_PNFS_DS_STATEID_TYPE | NFS4_REVOKED_STATEID_TYPE | NFS4_FREED_STATEID_TYPE

record nfs4_stateid =
  seqid :: u32
  other :: "96 word"
  sid_type :: stateid_type

definition zero_stateid :: nfs4_stateid where
  "zero_stateid = \<lparr>seqid = 0, other = 0, sid_type = NFS4_SPECIAL_STATEID_TYPE\<rparr>"

definition invalid_stateid :: nfs4_stateid where
  "invalid_stateid = \<lparr>seqid = 0xFFFFFFFF, other = 0, sid_type = NFS4_INVALID_STATEID_TYPE\<rparr>"

definition current_stateid :: nfs4_stateid where
  "current_stateid = \<lparr>seqid = 1, other = 0, sid_type = NFS4_SPECIAL_STATEID_TYPE\<rparr>"

section \<open>Comparisons\<close>

definition nfs4_stateid_match :: "nfs4_stateid \<Rightarrow> nfs4_stateid \<Rightarrow> bool" where
  "nfs4_stateid_match dst src \<longleftrightarrow>
     (if sid_type dst \<noteq> sid_type src then False
      else seqid dst = seqid src \<and> other dst = other src)"

definition nfs4_stateid_match_other :: "nfs4_stateid \<Rightarrow> nfs4_stateid \<Rightarrow> bool" where
  "nfs4_stateid_match_other dst src \<longleftrightarrow> other dst = other src"

definition nfs4_stateid_is_newer :: "nfs4_stateid \<Rightarrow> nfs4_stateid \<Rightarrow> bool" where
  "nfs4_stateid_is_newer s1 s2 \<longleftrightarrow> s32_after (seqid s1) (seqid s2)"

definition nfs4_stateid_is_next :: "nfs4_stateid \<Rightarrow> nfs4_stateid \<Rightarrow> bool" where
  "nfs4_stateid_is_next s1 s2 \<longleftrightarrow>
     seqid s2 = seqid s1 + 1 \<or> seqid s2 = 1 \<and> seqid s1 = 0xFFFFFFFF"

definition nfs4_stateid_match_or_older :: "nfs4_stateid \<Rightarrow> nfs4_stateid \<Rightarrow> bool" where
  "nfs4_stateid_match_or_older dst src \<longleftrightarrow>
     nfs4_stateid_match_other dst src \<and>
     \<not> (seqid src \<noteq> 0 \<and> nfs4_stateid_is_newer dst src)"

definition nfs4_stateid_seqid_inc :: "nfs4_stateid \<Rightarrow> nfs4_stateid" where
  "nfs4_stateid_seqid_inc s1 =
     (let q = seqid s1 + 1 in s1\<lparr>seqid := (if q = 0 then q + 1 else q)\<rparr>)"

section \<open>Lemmas\<close>

lemma nfs4_stateid_match_iff: "nfs4_stateid_match a b \<longleftrightarrow> a = b"
  by (cases a; cases b) (auto simp: nfs4_stateid_match_def)

end
