(* ===== verification/Nfs4_Seqid.thy ===== *)
theory Nfs4_Seqid
  imports Nfs_Prelude
begin

text \<open>
  The sequence counters of NFSv4.0 open and lock owners (\<open>struct nfs_seqid_counter\<close> and
  \<open>struct nfs_seqid\<close> of \<open>src/mynfs/nfs4_fs.h\<close>) and their operations in \<open>nfs4state.c\<close>. The requests
  of one owner queue on \<open>sc_list\<close>; the request at its head may be sent, the others sleep.

  A \<open>nfs_seqid\<close> is on at most one list, that of its own counter, so the counter holds the queued
  seqids as a list of identifiers, and the sleeping RPC tasks as \<open>sc_wait\<close>. \<open>sq_task\<close> gives the task
  of a seqid. Tasks that were woken are appended to \<open>sc_woken\<close>.
\<close>

section \<open>Data\<close>

record nfs_seqid_counter =
  create_time :: int
  owner_id :: int
  seqid_confirmed :: bool
  sc_counter :: u32
  sc_list :: "nat list"
  sq_task :: "nat \<Rightarrow> nat option"
  sc_wait :: "nat list"
  sc_woken :: "nat list"

definition zero_seqid_counter :: nfs_seqid_counter where
  "zero_seqid_counter =
     \<lparr>create_time = 0, owner_id = 0, seqid_confirmed = False, sc_counter = 0, sc_list = [],
      sq_task = (\<lambda>_. None), sc_wait = [], sc_woken = []\<rparr>"

section \<open>Operations\<close>

definition nfs4_init_seqid_counter :: "int \<Rightarrow> nfs_seqid_counter \<Rightarrow> nfs_seqid_counter" where
  "nfs4_init_seqid_counter now sc =
     sc\<lparr>create_time := now, seqid_confirmed := False, sc_counter := 0, sc_list := [], sc_wait := []\<rparr>"

text \<open>\<open>seqid_mutating_err\<close> is a parameter: the table of the kernel header \<open>linux/nfs4.h\<close>.\<close>

definition nfs_confirm_seqid ::
  "(int \<Rightarrow> bool) \<Rightarrow> nfs_seqid_counter \<Rightarrow> int \<Rightarrow> nfs_seqid_counter" where
  "nfs_confirm_seqid seqid_mutating_err sc status =
     (if seqid_mutating_err (- status) then sc\<lparr>seqid_confirmed := True\<rparr> else sc)"

definition nfs_alloc_seqid ::
  "bool \<Rightarrow> nat \<Rightarrow> nfs_seqid_counter \<Rightarrow> nfs_seqid_counter \<times> (int + nat)" where
  "nfs_alloc_seqid kmalloc_ok new sc =
     (if \<not> kmalloc_ok then (sc, Inl (- ENOMEM))
      else (sc\<lparr>sq_task := (sq_task sc)(new := None)\<rparr>, Inr new))"

text \<open>\<open>rpc_wake_up_queued_task\<close> wakes the task if it sleeps on the queue.\<close>

definition rpc_wake_up_queued_task :: "nat option \<Rightarrow> nfs_seqid_counter \<Rightarrow> nfs_seqid_counter" where
  "rpc_wake_up_queued_task t sc =
     (case t of
        None \<Rightarrow> sc
      | Some t \<Rightarrow> if t \<in> set (sc_wait sc)
                 then sc\<lparr>sc_wait := removeAll t (sc_wait sc), sc_woken := sc_woken sc @ [t]\<rparr> else sc)"

definition nfs_release_seqid :: "nat option \<Rightarrow> nfs_seqid_counter \<Rightarrow> nfs_seqid_counter" where
  "nfs_release_seqid seqid sc =
     (case seqid of
        None \<Rightarrow> sc
      | Some q \<Rightarrow>
          if q \<notin> set (sc_list sc) then sc
          else let sc = sc\<lparr>sc_list := remove1 q (sc_list sc)\<rparr> in
               case sc_list sc of
                 [] \<Rightarrow> sc
               | next # _ \<Rightarrow> rpc_wake_up_queued_task (sq_task sc next) sc)"

definition nfs_increment_seqid :: "int \<Rightarrow> nfs_seqid_counter \<Rightarrow> nfs_seqid_counter" where
  "nfs_increment_seqid status sc =
     (if status = - NFS4ERR_BAD_SEQID then sc
      else if status \<in> {- NFS4ERR_STALE_CLIENTID, - NFS4ERR_STALE_STATEID, - NFS4ERR_BAD_STATEID,
          - NFS4ERR_BADXDR, - NFS4ERR_RESOURCE, - NFS4ERR_NOFILEHANDLE, - NFS4ERR_MOVED}
      then sc
      else sc\<lparr>sc_counter := sc_counter sc + 1\<rparr>)"

definition nfs4_reset_state_owner_seqid :: "int \<Rightarrow> nfs_seqid_counter \<Rightarrow> nfs_seqid_counter" where
  "nfs4_reset_state_owner_seqid now sc = sc\<lparr>create_time := now\<rparr>"

definition nfs_increment_open_seqid ::
  "int \<Rightarrow> bool \<Rightarrow> int \<Rightarrow> nat option \<Rightarrow> nfs_seqid_counter \<Rightarrow> nfs_seqid_counter" where
  "nfs_increment_open_seqid now has_session status seqid sc =
     (case seqid of
        None \<Rightarrow> sc
      | Some _ \<Rightarrow>
          let sc = (if status = - NFS4ERR_BAD_SEQID then nfs4_reset_state_owner_seqid now sc else sc)
          in if \<not> has_session then nfs_increment_seqid status sc else sc)"

definition nfs_increment_lock_seqid ::
  "int \<Rightarrow> nat option \<Rightarrow> nfs_seqid_counter \<Rightarrow> nfs_seqid_counter" where
  "nfs_increment_lock_seqid status seqid sc =
     (case seqid of None \<Rightarrow> sc | Some _ \<Rightarrow> nfs_increment_seqid status sc)"

definition nfs_wait_on_sequence ::
  "nat option \<Rightarrow> nat \<Rightarrow> nfs_seqid_counter \<Rightarrow> nfs_seqid_counter \<times> int" where
  "nfs_wait_on_sequence seqid task sc =
     (case seqid of
        None \<Rightarrow> (sc, 0)
      | Some q \<Rightarrow>
          let sc = sc\<lparr>sq_task := (sq_task sc)(q := Some task)\<rparr>;
              sc = (if q \<notin> set (sc_list sc) then sc\<lparr>sc_list := sc_list sc @ [q]\<rparr> else sc) in
          if hd (sc_list sc) = q then (sc, 0)
          else (sc\<lparr>sc_wait := sc_wait sc @ [task]\<rparr>, - EAGAIN))"

section \<open>Invariant\<close>

text \<open>
  The queue holds each seqid once, every queued seqid knows its task, tasks of different queued
  seqids differ, and a task sleeps only if its seqid is queued behind another one.
\<close>

definition seqid_ok :: "nfs_seqid_counter \<Rightarrow> bool" where
  "seqid_ok sc \<longleftrightarrow>
     distinct (sc_list sc) \<and>
     (\<forall>q \<in> set (sc_list sc). sq_task sc q \<noteq> None) \<and>
     inj_on (sq_task sc) (set (sc_list sc)) \<and>
     set (sc_wait sc) \<subseteq> {t. \<exists>q \<in> set (tl (sc_list sc)). sq_task sc q = Some t}"

lemma seqid_ok_init: "seqid_ok (nfs4_init_seqid_counter now sc)"
  by (simp add: seqid_ok_def nfs4_init_seqid_counter_def)

text \<open>The operations that only count keep the queue as it is.\<close>

lemma seqid_ok_increment:
  "seqid_ok (nfs_increment_open_seqid now s status q sc) = seqid_ok sc"
  "seqid_ok (nfs_increment_lock_seqid status q sc) = seqid_ok sc"
  "seqid_ok (nfs_confirm_seqid f sc status) = seqid_ok sc"
  by (simp_all add: seqid_ok_def nfs_increment_open_seqid_def nfs_increment_lock_seqid_def
      nfs_increment_seqid_def nfs4_reset_state_owner_seqid_def nfs_confirm_seqid_def Let_def
      split: option.split)

text \<open>
  A request joins the queue with a task that no other queued request uses and that does not
  sleep on the queue, or it is queued already and calls again with its own task after it was woken.
\<close>

definition seqid_caller :: "nfs_seqid_counter \<Rightarrow> nat \<Rightarrow> nat \<Rightarrow> bool" where
  "seqid_caller sc q t \<longleftrightarrow>
     (\<forall>p \<in> set (sc_list sc). sq_task sc p = Some t \<longrightarrow> p = q) \<and>
     (q \<in> set (sc_list sc) \<longrightarrow> sq_task sc q = Some t)"

lemma nfs_wait_on_sequence_ok:
  assumes ok: "seqid_ok sc" and c: "seqid_caller sc q t"
    and w: "nfs_wait_on_sequence (Some q) t sc = (sc', status)"
  shows "seqid_ok sc'"
    and "q \<in> set (sc_list sc')"
    and "status = 0 \<longleftrightarrow> hd (sc_list sc') = q"
    and "status = 0 \<or> status = - EAGAIN \<and> t \<in> set (sc_wait sc')"
proof -
  obtain sc1 where s1: "sc1 = sc\<lparr>sq_task := (sq_task sc)(q := Some t)\<rparr>" by simp
  obtain sc2 where
    s2: "sc2 = (if q \<notin> set (sc_list sc1) then sc1\<lparr>sc_list := sc_list sc1 @ [q]\<rparr> else sc1)" by simp
  have eq: "(sc', status) = (if hd (sc_list sc2) = q then (sc2, 0)
      else (sc2\<lparr>sc_wait := sc_wait sc2 @ [t]\<rparr>, - EAGAIN))"
    using w unfolding nfs_wait_on_sequence_def Let_def s1 s2 option.case by (rule sym)
  have sub: "set (tl (sc_list sc)) \<subseteq> set (sc_list sc)"
    by (cases "sc_list sc") auto
  have ok2: "seqid_ok sc2"
  proof (cases "q \<in> set (sc_list sc)")
    case True
    then have "sq_task sc q = Some t" using c unfolding seqid_caller_def by blast
    then have "(sq_task sc)(q := Some t) = sq_task sc" by (rule fun_upd_idem)
    then have "sc1 = sc" by (simp add: s1)
    then show ?thesis using ok s2 True by simp
  next
    case False
    have fresh: "\<forall>p \<in> set (sc_list sc). p \<noteq> q \<and> sq_task sc p \<noteq> Some t"
      using c False unfolding seqid_caller_def by blast
    have s: "sc2 = sc\<lparr>sq_task := (sq_task sc)(q := Some t), sc_list := sc_list sc @ [q]\<rparr>"
      using False by (simp add: s1 s2)
    have same: "((sq_task sc)(q := Some t)) p = sq_task sc p" if "p \<in> set (sc_list sc)" for p
      using fresh that by simp
    have inj: "inj_on ((sq_task sc)(q := Some t)) (insert q (set (sc_list sc)))"
      using ok fresh unfolding seqid_ok_def inj_on_def by (metis fun_upd_apply insert_iff)
    have wt: "\<exists>p \<in> set (tl (sc_list sc @ [q])). ((sq_task sc)(q := Some t)) p = Some u"
      if "u \<in> set (sc_wait sc)" for u
    proof -
      have "\<exists>p \<in> set (tl (sc_list sc)). sq_task sc p = Some u"
        using ok that by (auto simp: seqid_ok_def)
      then show ?thesis using same sub by (cases "sc_list sc") auto
    qed
    have "\<forall>p \<in> set (sc_list sc @ [q]). ((sq_task sc)(q := Some t)) p \<noteq> None"
      using ok same by (auto simp: seqid_ok_def)
    moreover have "distinct (sc_list sc @ [q])" using ok False by (simp add: seqid_ok_def)
    ultimately show ?thesis using inj wt unfolding s seqid_ok_def by (simp add: subset_iff)
  qed
  have q2: "q \<in> set (sc_list sc2)" "sq_task sc2 q = Some t" by (simp_all add: s1 s2)
  show "q \<in> set (sc_list sc')" using eq q2 by (simp split: if_splits)
  show "status = 0 \<longleftrightarrow> hd (sc_list sc') = q" using eq by (auto split: if_splits)
  show "status = 0 \<or> status = - EAGAIN \<and> t \<in> set (sc_wait sc')" using eq by (auto split: if_splits)
  show "seqid_ok sc'"
  proof (cases "hd (sc_list sc2) = q")
    case True
    then show ?thesis using eq ok2 by simp
  next
    case False
    then have "q \<in> set (tl (sc_list sc2))" using q2 by (cases "sc_list sc2") auto
    then show ?thesis using eq ok2 False q2 by (auto simp: seqid_ok_def)
  qed
qed

text \<open>The head's task never sleeps: its turn cannot be lost.\<close>

lemma seqid_ok_head_awake:
  assumes ok: "seqid_ok sc" and h: "sc_list sc = h # l" "sq_task sc h = Some t"
  shows "t \<notin> set (sc_wait sc)"
proof
  assume "t \<in> set (sc_wait sc)"
  then obtain q where q: "q \<in> set l" "sq_task sc q = Some t"
    using ok h(1) by (auto simp: seqid_ok_def)
  then have "q = h" using ok h by (auto simp: seqid_ok_def inj_on_def)
  then show False using q ok h by (simp add: seqid_ok_def)
qed

lemma seqid_ok_remove:
  assumes ok: "seqid_ok sc" and aw: "sq_task sc q = Some t" "t \<notin> set (sc_wait sc)"
    and q: "sc_list sc = h # l" "q \<in> set (h # l)"
  shows "q \<noteq> h \<Longrightarrow> seqid_ok (sc\<lparr>sc_list := h # remove1 q l\<rparr>)"
    and "q = h \<Longrightarrow> l = n # rest \<Longrightarrow> sq_task sc n = Some u \<Longrightarrow>
           seqid_ok (sc\<lparr>sc_list := l, sc_wait := removeAll u (sc_wait sc)\<rparr>)"
proof -
  have w: "\<exists>p \<in> set l - {q}. sq_task sc p = Some v" if v: "v \<in> set (sc_wait sc)" for v
  proof -
    obtain p where "p \<in> set l" "sq_task sc p = Some v"
      using ok v q(1) by (auto simp: seqid_ok_def)
    moreover have "p \<noteq> q" using calculation aw v by auto
    ultimately show ?thesis by blast
  qed
  show "seqid_ok (sc\<lparr>sc_list := h # remove1 q l\<rparr>)" if "q \<noteq> h"
    using ok w q that by (fastforce simp: seqid_ok_def inj_on_def)
  show "seqid_ok (sc\<lparr>sc_list := l, sc_wait := removeAll u (sc_wait sc)\<rparr>)"
    if "q = h" "l = n # rest" "sq_task sc n = Some u"
    using ok w q that by (fastforce simp: seqid_ok_def inj_on_def)
qed

lemma nfs_release_seqid_ok:
  assumes ok: "seqid_ok sc" and aw: "sq_task sc q = Some t" "t \<notin> set (sc_wait sc)"
  shows "seqid_ok (nfs_release_seqid (Some q) sc)"
    and "sc_list (nfs_release_seqid (Some q) sc) = remove1 q (sc_list sc)"
proof -
  show "sc_list (nfs_release_seqid (Some q) sc) = remove1 q (sc_list sc)"
    by (auto simp: nfs_release_seqid_def rpc_wake_up_queued_task_def remove1_idem Let_def
        split: list.split option.split)
  show "seqid_ok (nfs_release_seqid (Some q) sc)"
  proof (cases "q \<in> set (sc_list sc)")
    case False
    then show ?thesis using ok by (simp add: nfs_release_seqid_def)
  next
    case True
    then obtain h l where l: "sc_list sc = h # l" by (cases "sc_list sc") auto
    note rm = seqid_ok_remove [OF ok aw l True [unfolded l]]
    show ?thesis
    proof (cases "q = h")
      case False
      obtain v where v: "sq_task sc h = Some v" using ok l by (auto simp: seqid_ok_def)
      then have "v \<notin> set (sc_wait sc)" using seqid_ok_head_awake ok l by blast
      then show ?thesis using rm(1) [OF False] True False l v
        by (simp add: nfs_release_seqid_def rpc_wake_up_queued_task_def)
    next
      case q: True
      show ?thesis
      proof (cases l)
        case Nil
        then have "sc_wait sc = []" using ok l by (auto simp: seqid_ok_def)
        then show ?thesis using l Nil q by (simp add: nfs_release_seqid_def seqid_ok_def)
      next
        case (Cons n rest)
        obtain u where u: "sq_task sc n = Some u" using ok l Cons by (auto simp: seqid_ok_def)
        have nx: "seqid_ok (sc\<lparr>sc_list := l, sc_wait := removeAll u (sc_wait sc)\<rparr>)"
          by (rule rm(2) [OF q Cons u])
        then have "seqid_ok (sc\<lparr>sc_list := l, sc_wait := removeAll u (sc_wait sc),
            sc_woken := w\<rparr>)" for w by (simp add: seqid_ok_def)
        moreover have "sc\<lparr>sc_list := l, sc_wait := removeAll u (sc_wait sc)\<rparr> = sc\<lparr>sc_list := l\<rparr>"
          if "u \<notin> set (sc_wait sc)" using that by simp
        ultimately show ?thesis using l q u True Cons nx
          by (auto simp: nfs_release_seqid_def rpc_wake_up_queued_task_def Let_def)
      qed
    qed
  qed
qed

section \<open>The life of a sequence\<close>

text \<open>
  Requests of one owner, in any interleaving: a running request joins the queue (or asks again
  after it was woken), a running request leaves it, and the request at the head accounts for
  the reply it received.
\<close>

inductive seqid_reach :: "nfs_seqid_counter \<Rightarrow> bool" where
  seqid_init: "seqid_reach (nfs4_init_seqid_counter now sc)"
| seqid_wait: "seqid_reach sc \<Longrightarrow> seqid_caller sc q t \<Longrightarrow>
    seqid_reach (fst (nfs_wait_on_sequence (Some q) t sc))"
| seqid_release: "seqid_reach sc \<Longrightarrow> sq_task sc q = Some t \<Longrightarrow> t \<notin> set (sc_wait sc) \<Longrightarrow>
    seqid_reach (nfs_release_seqid (Some q) sc)"
| seqid_open_reply: "seqid_reach sc \<Longrightarrow> sc_list sc = q # l \<Longrightarrow>
    seqid_reach (nfs_increment_open_seqid now has_session status (Some q) sc)"
| seqid_lock_reply: "seqid_reach sc \<Longrightarrow> sc_list sc = q # l \<Longrightarrow>
    seqid_reach (nfs_increment_lock_seqid status (Some q) sc)"

lemma seqid_reach_ok: "seqid_reach sc \<Longrightarrow> seqid_ok sc"
proof (induction rule: seqid_reach.induct)
  case (seqid_wait sc q t)
  then show ?case
    using nfs_wait_on_sequence_ok(1) [OF _ _ prod.collapse [symmetric]] by blast
qed (auto simp: seqid_ok_init seqid_ok_increment intro: nfs_release_seqid_ok)

text \<open>
  C28: Whatever the interleaving of requests on a sequence counter, the queue holds every
  request at most once, a request that asks is let through exactly when it is at the head of the
  queue, and the task of the request at the head is never asleep, so releasing a seqid never
  loses the wake-up of the next one.
\<close>

theorem seqid_turns:
  assumes "seqid_reach sc" "sc_list sc = h # l"
  shows "distinct (h # l) \<and>
    (\<exists>t. sq_task sc h = Some t \<and> t \<notin> set (sc_wait sc) \<and>
         snd (nfs_wait_on_sequence (Some h) t sc) = 0) \<and>
    (\<forall>q t. q \<noteq> h \<and> seqid_caller sc q t \<longrightarrow> snd (nfs_wait_on_sequence (Some q) t sc) = - EAGAIN)"
proof -
  have ok: "seqid_ok sc" using assms(1) by (rule seqid_reach_ok)
  then obtain t where t: "sq_task sc h = Some t" using assms(2) by (auto simp: seqid_ok_def)
  moreover have "t \<notin> set (sc_wait sc)" using seqid_ok_head_awake ok assms(2) t by blast
  moreover have "distinct (h # l)" using ok assms(2) by (simp add: seqid_ok_def)
  ultimately show ?thesis using assms(2)
    by (auto simp: nfs_wait_on_sequence_def Let_def)
qed

lemma seqid_reach_two:
  "seqid_reach (fst (nfs_wait_on_sequence (Some 8) 2
     (fst (nfs_wait_on_sequence (Some 7) 1 (nfs4_init_seqid_counter 0 zero_seqid_counter)))))"
  by (intro seqid_reach.intros)
    (auto simp: seqid_caller_def nfs_wait_on_sequence_def nfs4_init_seqid_counter_def
      zero_seqid_counter_def Let_def)

theorem seqid_turns_witness:
  "snd (nfs_wait_on_sequence (Some 9) 3 (fst (nfs_wait_on_sequence (Some 8) 2
     (fst (nfs_wait_on_sequence (Some 7) 1 (nfs4_init_seqid_counter 0 zero_seqid_counter))))))
   = - EAGAIN"
proof -
  let ?sc = "fst (nfs_wait_on_sequence (Some 8) 2
     (fst (nfs_wait_on_sequence (Some 7) 1 (nfs4_init_seqid_counter 0 zero_seqid_counter))))"
  have "sc_list ?sc = [7, 8]" "seqid_caller ?sc 9 3"
    by (auto simp: seqid_caller_def nfs_wait_on_sequence_def nfs4_init_seqid_counter_def
      zero_seqid_counter_def Let_def)
  then show ?thesis using seqid_turns [OF seqid_reach_two, of 7 "[8]"] by simp
qed

end
