(* ===== verification/Nfs4_Store.thy ===== *)
theory Nfs4_Store
  imports Nfs4_Client_Flags Nfs4_Stateid Nfs4_Seqid Nfs4_Slot_Table "HOL-Library.Tree"
begin

text \<open>
  The objects of one NFSv4 client and how they refer to each other: open states, open owners,
  lock states, delegations, inodes, open contexts and mounted servers (\<open>struct nfs4_state\<close>,
  \<open>nfs4_state_owner\<close>, \<open>nfs4_lock_state\<close> in \<open>src/mynfs/nfs4_fs.h\<close>, \<open>nfs_delegation\<close> in \<open>delegation.h\<close>;
  of the kernel's \<open>nfs_inode\<close>, \<open>nfs_open_context\<close> and \<open>nfs_server\<close> the fields that the modelled code
  uses). A pointer is a number, and the record \<open>nfs4_clnt\<close>, which extends the flags of the
  client, maps the numbers of each kind to the objects. A linked list of objects is a list of
  numbers. Freed objects are remembered in \<open>freed_states\<close> and so on; the memory of a freed object
  is never used again. The slot tables of the client are \<open>cl_slot_tbl\<close> for minor version 0 and those
  of \<open>cl_session\<close>, which counts when \<open>cl_has_session\<close> holds.

  \<open>unsigned int\<close> counters are 32-bit words. A \<open>fmode_t\<close> is a set of the bits \<open>FMODE_READ\<close>,
  \<open>FMODE_WRITE\<close> and \<open>FMODE_EXEC\<close>.
\<close>

section \<open>Open modes\<close>

datatype (plugins only: code) fmode_bit = FMODE_READ | FMODE_WRITE | FMODE_EXEC

type_synonym fmode = "fmode_bit set"

abbreviation FMODE_RW :: fmode where
  "FMODE_RW \<equiv> {FMODE_READ, FMODE_WRITE}"

section \<open>Open states and their owners\<close>

datatype (plugins only: code) nfs4_state_flag =
    LK_STATE_IN_USE | NFS_DELEGATED_STATE | NFS_OPEN_STATE | NFS_O_RDONLY_STATE
  | NFS_O_WRONLY_STATE | NFS_O_RDWR_STATE | NFS_STATE_RECLAIM_REBOOT
  | NFS_STATE_RECLAIM_NOGRACE | NFS_STATE_POSIX_LOCKS | NFS_STATE_RECOVERY_FAILED
  | NFS_STATE_MAY_NOTIFY_LOCK | NFS_STATE_CHANGE_WAIT | NFS_CLNT_DST_SSC_COPY_STATE
  | NFS_CLNT_SRC_SSC_COPY_STATE | NFS_SRV_SSC_COPY_STATE

datatype (plugins only: code) nfs4_lock_flag =
  NFS_LOCK_INITIALIZED | NFS_LOCK_LOST | NFS_LOCK_UNLOCKING

record nfs4_lock_state =
  ls_state :: nat
  ls_flags :: "nfs4_lock_flag set"
  ls_seqid :: nfs_seqid_counter
  ls_stateid :: nfs4_stateid
  ls_count :: nat
  ls_owner :: nat

record nfs4_state =
  lock_states :: "nat list"
  st_owner :: nat
  st_inode :: nat
  st_flags :: "nfs4_state_flag set"
  st_stateid :: nfs4_stateid
  st_open_stateid :: nfs4_stateid
  n_rdonly :: u32
  n_wronly :: u32
  n_rdwr :: u32
  st_state :: fmode
  st_count :: nat

datatype (plugins only: code) nfs_owner_flag =
  NFS_OWNER_RECLAIM_REBOOT | NFS_OWNER_RECLAIM_NOGRACE

record nfs4_state_owner =
  so_server :: nat
  so_expires :: ulong
  so_cred :: nat
  so_count :: nat
  so_flags :: "nfs_owner_flag set"
  so_states :: "nat list"
  so_seqid :: nfs_seqid_counter

section \<open>Delegations\<close>

datatype (plugins only: code) nfs_delegation_flag =
    NFS_DELEGATION_NEED_RECLAIM | NFS_DELEGATION_RETURN | NFS_DELEGATION_RETURN_IF_CLOSED
  | NFS_DELEGATION_REFERENCED | NFS_DELEGATION_RETURNING | NFS_DELEGATION_REVOKED
  | NFS_DELEGATION_TEST_EXPIRED | NFS_DELEGATION_INODE_FREEING
  | NFS_DELEGATION_RETURN_DELAYED | NFS_DELEGATION_DELEGTIME

record nfs_delegation =
  dl_cred :: nat
  dl_inode :: "nat option"
  dl_stateid :: nfs4_stateid
  dl_type :: fmode
  pagemod_limit :: ulong
  dl_change_attr :: u64
  test_gen :: ulong
  dl_flags :: "nfs_delegation_flag set"
  dl_refcount :: nat

section \<open>Inodes, open contexts, servers\<close>

text \<open>
  A file lock is its number, the open state of the file it was taken through and the lock state
  that represents it; \<open>i_flc\<close> holds the POSIX locks and the flock locks of an inode, if it ever had
  any.
\<close>

record file_lock =
  fl_id :: nat
  fl_state :: nat
  fl_owner :: "nat option"

record nfs_inode =
  i_server :: nat
  i_flc :: "(file_lock list \<times> file_lock list) option"
  i_have_writebacks :: bool
  i_mtime_updated :: bool
  i_open_states :: "nat list"
  i_open_files :: "nat list"
  i_delegation :: "nat option"
  i_nrequests :: ulong
  i_iversion :: u64
  i_invalid_change :: bool
  i_cache_dropped :: bool
  i_verifier_delegated :: bool
  i_fh :: nat

record nfs_open_context =
  ctx_state :: "nat option"
  ctx_bad :: bool
  ctx_flock_owner :: nat

datatype (plugins only: code) nfs_server_dflag =
  NFS4SERV_DELEGRETURN | NFS4SERV_DELEGATION_EXPIRED | NFS4SERV_DELEGRETURN_DELAYED

text \<open>
  The open owners of a server are the nodes of a red-black tree; \<open>sv_ss_copies\<close> and
  \<open>sv_ss_src_copies\<close> are its server-side copies.
\<close>

record nfs4_copy_state =
  copy_flags :: int
  parent_dst_state :: nat
  parent_src_state :: nat
  copy_completed :: nat

record nfs_server =
  sv_owners :: "nat tree"
  sv_owners_lru :: "nat list"
  sv_delegations :: "nat list"
  sv_delegation_flags :: "nfs_server_dflag set"
  sv_delegation_gen :: ulong
  sv_openowner_ids :: "int set"
  sv_lockowner_ids :: "int set"
  sv_cap_stateid_nfsv41 :: bool
  sv_ss_copies :: "nat list"
  sv_ss_src_copies :: "nat list"
  sv_mig :: mig_server
  sv_mig_gen :: ulong

section \<open>The client's store\<close>

text \<open>
  \<open>cl_renewd\<close> is the delay with which the renewal work was last queued. \<open>cl_rpcs\<close> counts the calls the
  server has answered: the functions that stand for a call may let their answer depend on it, so
  that a server may answer equal calls differently. \<open>sent_delegreturns\<close>, \<open>tested_stateids\<close> and
  \<open>tried_migrations\<close> record, in their order, the stateids of DELEGRETURN and of the tests of expired
  delegations and the servers whose migration was tried; the code keeps no such record and nothing
  depends on it.
\<close>

datatype (plugins only: code) nfs_cs_flag = NFS_CS_RENEWD | NFS_CS_STOP_RENEW | NFS_CS_CHECK_LEASE_TIME

record nfs4_clnt = nfs_client +
  cl_superblocks :: "nat list"
  cl_has_session :: bool
  cl_lease_time :: ulong
  nfs_active_delegations :: int
  nfs_delegation_watermark :: int
  st_heap :: "nat \<Rightarrow> nfs4_state"
  so_heap :: "nat \<Rightarrow> nfs4_state_owner"
  lk_heap :: "nat \<Rightarrow> nfs4_lock_state"
  dl_heap :: "nat \<Rightarrow> nfs_delegation"
  ino_heap :: "nat \<Rightarrow> nfs_inode"
  ctx_heap :: "nat \<Rightarrow> nfs_open_context"
  sv_heap :: "nat \<Rightarrow> nfs_server"
  sent_delegreturns :: "nfs4_stateid list"
  tested_stateids :: "nfs4_stateid list"
  tried_migrations :: "nat list"
  freed_states :: "nat set"
  freed_owners :: "nat set"
  freed_locks :: "nat set"
  freed_delegs :: "nat set"
  cl_slot_tbl :: "nfs4_slot_table option"
  cl_session :: nfs4_session
  cl_mig_gen :: ulong
  cl_exchange_confirmed :: bool
  cl_machine_cred :: "nat option"
  cp_heap :: "nat \<Rightarrow> nfs4_copy_state"
  cl_clientid :: u64
  cl_confirm :: u64
  cl_last_renewal :: ulong
  cl_res_state :: "nfs_cs_flag set"
  cl_renewd :: "int option"
  cl_tsm_possible :: bool
  cl_rpcs :: nat

definition upd_st :: "nat \<Rightarrow> (nfs4_state \<Rightarrow> nfs4_state) \<Rightarrow> nfs4_clnt \<Rightarrow> nfs4_clnt" where
  "upd_st i f c = c\<lparr>st_heap := (st_heap c)(i := f (st_heap c i))\<rparr>"

definition upd_so :: "nat \<Rightarrow> (nfs4_state_owner \<Rightarrow> nfs4_state_owner) \<Rightarrow> nfs4_clnt \<Rightarrow> nfs4_clnt" where
  "upd_so i f c = c\<lparr>so_heap := (so_heap c)(i := f (so_heap c i))\<rparr>"

definition upd_lk :: "nat \<Rightarrow> (nfs4_lock_state \<Rightarrow> nfs4_lock_state) \<Rightarrow> nfs4_clnt \<Rightarrow> nfs4_clnt" where
  "upd_lk i f c = c\<lparr>lk_heap := (lk_heap c)(i := f (lk_heap c i))\<rparr>"

definition upd_dl :: "nat \<Rightarrow> (nfs_delegation \<Rightarrow> nfs_delegation) \<Rightarrow> nfs4_clnt \<Rightarrow> nfs4_clnt" where
  "upd_dl i f c = c\<lparr>dl_heap := (dl_heap c)(i := f (dl_heap c i))\<rparr>"

definition upd_ino :: "nat \<Rightarrow> (nfs_inode \<Rightarrow> nfs_inode) \<Rightarrow> nfs4_clnt \<Rightarrow> nfs4_clnt" where
  "upd_ino i f c = c\<lparr>ino_heap := (ino_heap c)(i := f (ino_heap c i))\<rparr>"

definition upd_sv :: "nat \<Rightarrow> (nfs_server \<Rightarrow> nfs_server) \<Rightarrow> nfs4_clnt \<Rightarrow> nfs4_clnt" where
  "upd_sv i f c = c\<lparr>sv_heap := (sv_heap c)(i := f (sv_heap c i))\<rparr>"

named_theorems upd_defs

lemmas upd_unfold [upd_defs] =
  upd_st_def upd_so_def upd_lk_def upd_dl_def upd_ino_def upd_sv_def

lemma upd_st_simps [simp]:
  "st_heap (upd_st i f c) = (st_heap c)(i := f (st_heap c i))"
  "so_heap (upd_st i f c) = so_heap c"
  "lk_heap (upd_st i f c) = lk_heap c"
  "dl_heap (upd_st i f c) = dl_heap c"
  "ino_heap (upd_st i f c) = ino_heap c"
  "sv_heap (upd_st i f c) = sv_heap c"
  "ctx_heap (upd_st i f c) = ctx_heap c"
  "cl_state (upd_st i f c) = cl_state c"
  "cl_superblocks (upd_st i f c) = cl_superblocks c"
  "cl_has_session (upd_st i f c) = cl_has_session c"
  "cl_lease_time (upd_st i f c) = cl_lease_time c"
  "nfs_active_delegations (upd_st i f c) = nfs_active_delegations c"
  "nfs_delegation_watermark (upd_st i f c) = nfs_delegation_watermark c"
  "sent_delegreturns (upd_st i f c) = sent_delegreturns c"
  "tested_stateids (upd_st i f c) = tested_stateids c"
  "tried_migrations (upd_st i f c) = tried_migrations c"
  "freed_states (upd_st i f c) = freed_states c"
  "freed_owners (upd_st i f c) = freed_owners c"
  "freed_locks (upd_st i f c) = freed_locks c"
  "freed_delegs (upd_st i f c) = freed_delegs c"
  "cl_shutdown (upd_st i f c) = cl_shutdown c"
  "cl_managers (upd_st i f c) = cl_managers c"
  "cl_count (upd_st i f c) = cl_count c"
  "cl_slot_tbl (upd_st i f c) = cl_slot_tbl c"
  "cl_session (upd_st i f c) = cl_session c"
  "cl_mig_gen (upd_st i f c) = cl_mig_gen c"
  "cl_exchange_confirmed (upd_st i f c) = cl_exchange_confirmed c"
  "cl_machine_cred (upd_st i f c) = cl_machine_cred c"
  "cp_heap (upd_st i f c) = cp_heap c"
  by (simp_all add: upd_st_def)

lemma upd_so_simps [simp]:
  "st_heap (upd_so i f c) = st_heap c"
  "so_heap (upd_so i f c) = (so_heap c)(i := f (so_heap c i))"
  "lk_heap (upd_so i f c) = lk_heap c"
  "dl_heap (upd_so i f c) = dl_heap c"
  "ino_heap (upd_so i f c) = ino_heap c"
  "sv_heap (upd_so i f c) = sv_heap c"
  "ctx_heap (upd_so i f c) = ctx_heap c"
  "cl_state (upd_so i f c) = cl_state c"
  "cl_superblocks (upd_so i f c) = cl_superblocks c"
  "cl_has_session (upd_so i f c) = cl_has_session c"
  "cl_lease_time (upd_so i f c) = cl_lease_time c"
  "nfs_active_delegations (upd_so i f c) = nfs_active_delegations c"
  "nfs_delegation_watermark (upd_so i f c) = nfs_delegation_watermark c"
  "sent_delegreturns (upd_so i f c) = sent_delegreturns c"
  "tested_stateids (upd_so i f c) = tested_stateids c"
  "tried_migrations (upd_so i f c) = tried_migrations c"
  "freed_states (upd_so i f c) = freed_states c"
  "freed_owners (upd_so i f c) = freed_owners c"
  "freed_locks (upd_so i f c) = freed_locks c"
  "freed_delegs (upd_so i f c) = freed_delegs c"
  "cl_shutdown (upd_so i f c) = cl_shutdown c"
  "cl_managers (upd_so i f c) = cl_managers c"
  "cl_count (upd_so i f c) = cl_count c"
  "cl_slot_tbl (upd_so i f c) = cl_slot_tbl c"
  "cl_session (upd_so i f c) = cl_session c"
  "cl_mig_gen (upd_so i f c) = cl_mig_gen c"
  "cl_exchange_confirmed (upd_so i f c) = cl_exchange_confirmed c"
  "cl_machine_cred (upd_so i f c) = cl_machine_cred c"
  "cp_heap (upd_so i f c) = cp_heap c"
  by (simp_all add: upd_so_def)

lemma upd_lk_simps [simp]:
  "st_heap (upd_lk i f c) = st_heap c"
  "so_heap (upd_lk i f c) = so_heap c"
  "lk_heap (upd_lk i f c) = (lk_heap c)(i := f (lk_heap c i))"
  "dl_heap (upd_lk i f c) = dl_heap c"
  "ino_heap (upd_lk i f c) = ino_heap c"
  "sv_heap (upd_lk i f c) = sv_heap c"
  "ctx_heap (upd_lk i f c) = ctx_heap c"
  "cl_state (upd_lk i f c) = cl_state c"
  "cl_superblocks (upd_lk i f c) = cl_superblocks c"
  "cl_has_session (upd_lk i f c) = cl_has_session c"
  "cl_lease_time (upd_lk i f c) = cl_lease_time c"
  "nfs_active_delegations (upd_lk i f c) = nfs_active_delegations c"
  "nfs_delegation_watermark (upd_lk i f c) = nfs_delegation_watermark c"
  "sent_delegreturns (upd_lk i f c) = sent_delegreturns c"
  "tested_stateids (upd_lk i f c) = tested_stateids c"
  "tried_migrations (upd_lk i f c) = tried_migrations c"
  "freed_states (upd_lk i f c) = freed_states c"
  "freed_owners (upd_lk i f c) = freed_owners c"
  "freed_locks (upd_lk i f c) = freed_locks c"
  "freed_delegs (upd_lk i f c) = freed_delegs c"
  "cl_shutdown (upd_lk i f c) = cl_shutdown c"
  "cl_managers (upd_lk i f c) = cl_managers c"
  "cl_count (upd_lk i f c) = cl_count c"
  "cl_slot_tbl (upd_lk i f c) = cl_slot_tbl c"
  "cl_session (upd_lk i f c) = cl_session c"
  "cl_mig_gen (upd_lk i f c) = cl_mig_gen c"
  "cl_exchange_confirmed (upd_lk i f c) = cl_exchange_confirmed c"
  "cl_machine_cred (upd_lk i f c) = cl_machine_cred c"
  "cp_heap (upd_lk i f c) = cp_heap c"
  by (simp_all add: upd_lk_def)

lemma upd_dl_simps [simp]:
  "st_heap (upd_dl i f c) = st_heap c"
  "so_heap (upd_dl i f c) = so_heap c"
  "lk_heap (upd_dl i f c) = lk_heap c"
  "dl_heap (upd_dl i f c) = (dl_heap c)(i := f (dl_heap c i))"
  "ino_heap (upd_dl i f c) = ino_heap c"
  "sv_heap (upd_dl i f c) = sv_heap c"
  "ctx_heap (upd_dl i f c) = ctx_heap c"
  "cl_state (upd_dl i f c) = cl_state c"
  "cl_superblocks (upd_dl i f c) = cl_superblocks c"
  "cl_has_session (upd_dl i f c) = cl_has_session c"
  "cl_lease_time (upd_dl i f c) = cl_lease_time c"
  "nfs_active_delegations (upd_dl i f c) = nfs_active_delegations c"
  "nfs_delegation_watermark (upd_dl i f c) = nfs_delegation_watermark c"
  "sent_delegreturns (upd_dl i f c) = sent_delegreturns c"
  "tested_stateids (upd_dl i f c) = tested_stateids c"
  "tried_migrations (upd_dl i f c) = tried_migrations c"
  "freed_states (upd_dl i f c) = freed_states c"
  "freed_owners (upd_dl i f c) = freed_owners c"
  "freed_locks (upd_dl i f c) = freed_locks c"
  "freed_delegs (upd_dl i f c) = freed_delegs c"
  "cl_shutdown (upd_dl i f c) = cl_shutdown c"
  "cl_managers (upd_dl i f c) = cl_managers c"
  "cl_count (upd_dl i f c) = cl_count c"
  "cl_slot_tbl (upd_dl i f c) = cl_slot_tbl c"
  "cl_session (upd_dl i f c) = cl_session c"
  "cl_mig_gen (upd_dl i f c) = cl_mig_gen c"
  "cl_exchange_confirmed (upd_dl i f c) = cl_exchange_confirmed c"
  "cl_machine_cred (upd_dl i f c) = cl_machine_cred c"
  "cp_heap (upd_dl i f c) = cp_heap c"
  by (simp_all add: upd_dl_def)

lemma upd_ino_simps [simp]:
  "st_heap (upd_ino i f c) = st_heap c"
  "so_heap (upd_ino i f c) = so_heap c"
  "lk_heap (upd_ino i f c) = lk_heap c"
  "dl_heap (upd_ino i f c) = dl_heap c"
  "ino_heap (upd_ino i f c) = (ino_heap c)(i := f (ino_heap c i))"
  "sv_heap (upd_ino i f c) = sv_heap c"
  "ctx_heap (upd_ino i f c) = ctx_heap c"
  "cl_state (upd_ino i f c) = cl_state c"
  "cl_superblocks (upd_ino i f c) = cl_superblocks c"
  "cl_has_session (upd_ino i f c) = cl_has_session c"
  "cl_lease_time (upd_ino i f c) = cl_lease_time c"
  "nfs_active_delegations (upd_ino i f c) = nfs_active_delegations c"
  "nfs_delegation_watermark (upd_ino i f c) = nfs_delegation_watermark c"
  "sent_delegreturns (upd_ino i f c) = sent_delegreturns c"
  "tested_stateids (upd_ino i f c) = tested_stateids c"
  "tried_migrations (upd_ino i f c) = tried_migrations c"
  "freed_states (upd_ino i f c) = freed_states c"
  "freed_owners (upd_ino i f c) = freed_owners c"
  "freed_locks (upd_ino i f c) = freed_locks c"
  "freed_delegs (upd_ino i f c) = freed_delegs c"
  "cl_shutdown (upd_ino i f c) = cl_shutdown c"
  "cl_managers (upd_ino i f c) = cl_managers c"
  "cl_count (upd_ino i f c) = cl_count c"
  "cl_slot_tbl (upd_ino i f c) = cl_slot_tbl c"
  "cl_session (upd_ino i f c) = cl_session c"
  "cl_mig_gen (upd_ino i f c) = cl_mig_gen c"
  "cl_exchange_confirmed (upd_ino i f c) = cl_exchange_confirmed c"
  "cl_machine_cred (upd_ino i f c) = cl_machine_cred c"
  "cp_heap (upd_ino i f c) = cp_heap c"
  by (simp_all add: upd_ino_def)

lemma upd_sv_simps [simp]:
  "st_heap (upd_sv i f c) = st_heap c"
  "so_heap (upd_sv i f c) = so_heap c"
  "lk_heap (upd_sv i f c) = lk_heap c"
  "dl_heap (upd_sv i f c) = dl_heap c"
  "ino_heap (upd_sv i f c) = ino_heap c"
  "sv_heap (upd_sv i f c) = (sv_heap c)(i := f (sv_heap c i))"
  "ctx_heap (upd_sv i f c) = ctx_heap c"
  "cl_state (upd_sv i f c) = cl_state c"
  "cl_superblocks (upd_sv i f c) = cl_superblocks c"
  "cl_has_session (upd_sv i f c) = cl_has_session c"
  "cl_lease_time (upd_sv i f c) = cl_lease_time c"
  "nfs_active_delegations (upd_sv i f c) = nfs_active_delegations c"
  "nfs_delegation_watermark (upd_sv i f c) = nfs_delegation_watermark c"
  "sent_delegreturns (upd_sv i f c) = sent_delegreturns c"
  "tested_stateids (upd_sv i f c) = tested_stateids c"
  "tried_migrations (upd_sv i f c) = tried_migrations c"
  "freed_states (upd_sv i f c) = freed_states c"
  "freed_owners (upd_sv i f c) = freed_owners c"
  "freed_locks (upd_sv i f c) = freed_locks c"
  "freed_delegs (upd_sv i f c) = freed_delegs c"
  "cl_shutdown (upd_sv i f c) = cl_shutdown c"
  "cl_managers (upd_sv i f c) = cl_managers c"
  "cl_count (upd_sv i f c) = cl_count c"
  "cl_slot_tbl (upd_sv i f c) = cl_slot_tbl c"
  "cl_session (upd_sv i f c) = cl_session c"
  "cl_mig_gen (upd_sv i f c) = cl_mig_gen c"
  "cl_exchange_confirmed (upd_sv i f c) = cl_exchange_confirmed c"
  "cl_machine_cred (upd_sv i f c) = cl_machine_cred c"
  "cp_heap (upd_sv i f c) = cp_heap c"
  by (simp_all add: upd_sv_def)

text \<open>\<open>set_bit\<close> and \<open>clear_bit\<close> on the flag words of the objects.\<close>

definition set_st :: "nfs4_state_flag \<Rightarrow> nfs4_state \<Rightarrow> nfs4_state" where
  "set_st f st = st\<lparr>st_flags := insert f (st_flags st)\<rparr>"

definition clear_st :: "nfs4_state_flag \<Rightarrow> nfs4_state \<Rightarrow> nfs4_state" where
  "clear_st f st = st\<lparr>st_flags := st_flags st - {f}\<rparr>"

definition set_dl :: "nfs_delegation_flag \<Rightarrow> nfs_delegation \<Rightarrow> nfs_delegation" where
  "set_dl f d = d\<lparr>dl_flags := insert f (dl_flags d)\<rparr>"

definition clear_dl :: "nfs_delegation_flag \<Rightarrow> nfs_delegation \<Rightarrow> nfs_delegation" where
  "clear_dl f d = d\<lparr>dl_flags := dl_flags d - {f}\<rparr>"

definition set_sv :: "nfs_server_dflag \<Rightarrow> nfs_server \<Rightarrow> nfs_server" where
  "set_sv f s = s\<lparr>sv_delegation_flags := insert f (sv_delegation_flags s)\<rparr>"

definition clear_sv :: "nfs_server_dflag \<Rightarrow> nfs_server \<Rightarrow> nfs_server" where
  "clear_sv f s = s\<lparr>sv_delegation_flags := sv_delegation_flags s - {f}\<rparr>"

lemmas bit_defs [upd_defs] = set_st_def clear_st_def set_dl_def clear_dl_def set_sv_def clear_sv_def

lemma set_clear_cl_clnt [simp]:
  "cl_superblocks (set_cl f c) = cl_superblocks c" "cl_superblocks (clear_cl f c) = cl_superblocks c"
  "cl_has_session (set_cl f c) = cl_has_session c" "cl_has_session (clear_cl f c) = cl_has_session c"
  "st_heap (set_cl f c) = st_heap c" "st_heap (clear_cl f c) = st_heap c"
  "so_heap (set_cl f c) = so_heap c" "so_heap (clear_cl f c) = so_heap c"
  "lk_heap (set_cl f c) = lk_heap c" "lk_heap (clear_cl f c) = lk_heap c"
  "dl_heap (set_cl f c) = dl_heap c" "dl_heap (clear_cl f c) = dl_heap c"
  "ino_heap (set_cl f c) = ino_heap c" "ino_heap (clear_cl f c) = ino_heap c"
  "ctx_heap (set_cl f c) = ctx_heap c" "ctx_heap (clear_cl f c) = ctx_heap c"
  "sv_heap (set_cl f c) = sv_heap c" "sv_heap (clear_cl f c) = sv_heap c"
  "nfs_active_delegations (set_cl f c) = nfs_active_delegations c"
  "nfs_active_delegations (clear_cl f c) = nfs_active_delegations c"
  "sent_delegreturns (set_cl f c) = sent_delegreturns c"
  "tested_stateids (set_cl f c) = tested_stateids c"
  "tried_migrations (set_cl f c) = tried_migrations c"
  "sent_delegreturns (clear_cl f c) = sent_delegreturns c"
  "tested_stateids (clear_cl f c) = tested_stateids c"
  "tried_migrations (clear_cl f c) = tried_migrations c"
  "freed_states (set_cl f c) = freed_states c" "freed_states (clear_cl f c) = freed_states c"
  "freed_owners (set_cl f c) = freed_owners c" "freed_owners (clear_cl f c) = freed_owners c"
  "freed_locks (set_cl f c) = freed_locks c" "freed_locks (clear_cl f c) = freed_locks c"
  "freed_delegs (set_cl f c) = freed_delegs c" "freed_delegs (clear_cl f c) = freed_delegs c"
  "cl_lease_time (set_cl f c) = cl_lease_time c" "cl_lease_time (clear_cl f c) = cl_lease_time c"
  "nfs_delegation_watermark (set_cl f c) = nfs_delegation_watermark c" "nfs_delegation_watermark (clear_cl f c) = nfs_delegation_watermark c"
  "cl_slot_tbl (set_cl f c) = cl_slot_tbl c" "cl_slot_tbl (clear_cl f c) = cl_slot_tbl c"
  "cl_session (set_cl f c) = cl_session c" "cl_session (clear_cl f c) = cl_session c"
  "cl_mig_gen (set_cl f c) = cl_mig_gen c" "cl_mig_gen (clear_cl f c) = cl_mig_gen c"
  "cl_exchange_confirmed (set_cl f c) = cl_exchange_confirmed c" "cl_exchange_confirmed (clear_cl f c) = cl_exchange_confirmed c"
  "cl_machine_cred (set_cl f c) = cl_machine_cred c" "cl_machine_cred (clear_cl f c) = cl_machine_cred c"
  "cp_heap (set_cl f c) = cp_heap c" "cp_heap (clear_cl f c) = cp_heap c"
  by (simp_all add: set_cl_def clear_cl_def)

lemma schedule_state_manager_clnt [simp]:
  "cl_superblocks (nfs4_schedule_state_manager k c) = cl_superblocks c"
  "cl_has_session (nfs4_schedule_state_manager k c) = cl_has_session c"
  "st_heap (nfs4_schedule_state_manager k c) = st_heap c"
  "so_heap (nfs4_schedule_state_manager k c) = so_heap c"
  "lk_heap (nfs4_schedule_state_manager k c) = lk_heap c"
  "dl_heap (nfs4_schedule_state_manager k c) = dl_heap c"
  "ino_heap (nfs4_schedule_state_manager k c) = ino_heap c"
  "ctx_heap (nfs4_schedule_state_manager k c) = ctx_heap c"
  "sv_heap (nfs4_schedule_state_manager k c) = sv_heap c"
  "nfs_active_delegations (nfs4_schedule_state_manager k c) = nfs_active_delegations c"
  "sent_delegreturns (nfs4_schedule_state_manager k c) = sent_delegreturns c"
  "tested_stateids (nfs4_schedule_state_manager k c) = tested_stateids c"
  "tried_migrations (nfs4_schedule_state_manager k c) = tried_migrations c"
  "freed_states (nfs4_schedule_state_manager k c) = freed_states c"
  "freed_owners (nfs4_schedule_state_manager k c) = freed_owners c"
  "freed_locks (nfs4_schedule_state_manager k c) = freed_locks c"
  "freed_delegs (nfs4_schedule_state_manager k c) = freed_delegs c"
  "cl_lease_time (nfs4_schedule_state_manager k c) = cl_lease_time c"
  "nfs_delegation_watermark (nfs4_schedule_state_manager k c) = nfs_delegation_watermark c"
  "cl_slot_tbl (nfs4_schedule_state_manager k c) = cl_slot_tbl c"
  "cl_session (nfs4_schedule_state_manager k c) = cl_session c"
  "cl_mig_gen (nfs4_schedule_state_manager k c) = cl_mig_gen c"
  "cl_exchange_confirmed (nfs4_schedule_state_manager k c) = cl_exchange_confirmed c"
  "cl_machine_cred (nfs4_schedule_state_manager k c) = cl_machine_cred c"
  "cp_heap (nfs4_schedule_state_manager k c) = cp_heap c"
  by (simp_all add: nfs4_schedule_state_manager_def Let_def mynfs_mark_client_ready_def
      nfs4_clear_state_manager_bit_def)

section \<open>Zeroed objects\<close>

text \<open>The objects as \<open>kzalloc\<close> returns them.\<close>

definition zero_sid :: nfs4_stateid where
  "zero_sid = \<lparr>seqid = 0, other = 0, sid_type = NFS4_INVALID_STATEID_TYPE\<rparr>"

definition zero_state :: nfs4_state where
  "zero_state =
     \<lparr>lock_states = [], st_owner = 0, st_inode = 0, st_flags = {}, st_stateid = zero_sid,
      st_open_stateid = zero_sid, n_rdonly = 0, n_wronly = 0, n_rdwr = 0, st_state = {},
      st_count = 0\<rparr>"

definition zero_owner :: nfs4_state_owner where
  "zero_owner =
     \<lparr>so_server = 0, so_expires = 0, so_cred = 0, so_count = 0, so_flags = {}, so_states = [],
      so_seqid = zero_seqid_counter\<rparr>"

definition zero_lock :: nfs4_lock_state where
  "zero_lock =
     \<lparr>ls_state = 0, ls_flags = {}, ls_seqid = zero_seqid_counter, ls_stateid = zero_sid,
      ls_count = 0, ls_owner = 0\<rparr>"

definition zero_deleg :: nfs_delegation where
  "zero_deleg =
     \<lparr>dl_cred = 0, dl_inode = None, dl_stateid = zero_sid, dl_type = {}, pagemod_limit = 0,
      dl_change_attr = 0, test_gen = 0, dl_flags = {}, dl_refcount = 0\<rparr>"

definition zero_inode :: nfs_inode where
  "zero_inode =
     \<lparr>i_server = 0, i_flc = None, i_have_writebacks = False, i_mtime_updated = False,
      i_open_states = [], i_open_files = [], i_delegation = None, i_nrequests = 0,
      i_iversion = 0, i_invalid_change = False, i_cache_dropped = False,
      i_verifier_delegated = False, i_fh = 0\<rparr>"

definition zero_ctx :: nfs_open_context where
  "zero_ctx = \<lparr>ctx_state = None, ctx_bad = False, ctx_flock_owner = 0\<rparr>"

definition zero_server :: nfs_server where
  "zero_server =
     \<lparr>sv_owners = Leaf, sv_owners_lru = [], sv_delegations = [], sv_delegation_flags = {},
      sv_delegation_gen = 0, sv_openowner_ids = {}, sv_lockowner_ids = {},
      sv_cap_stateid_nfsv41 = False, sv_ss_copies = [], sv_ss_src_copies = [],
      sv_mig = \<lparr>fh_persistent = True, mig_failed = False, mig_in_transition = False\<rparr>, sv_mig_gen = 0\<rparr>"

text \<open>A client with one mounted server and nothing open, for evaluating the theorems.\<close>

definition zero_clnt :: nfs4_clnt where
  "zero_clnt =
     \<lparr>cl_state = {}, cl_shutdown = False, cl_swapper = False, cl_count = 1, cl_cons_state = 0,
      cl_managers = 0, cl_superblocks = [0], cl_has_session = True, cl_lease_time = 90000,
      nfs_active_delegations = 0, nfs_delegation_watermark = 5000, st_heap = (\<lambda>_. zero_state),
      so_heap = (\<lambda>_. zero_owner), lk_heap = (\<lambda>_. zero_lock), dl_heap = (\<lambda>_. zero_deleg),
      ino_heap = (\<lambda>_. zero_inode), ctx_heap = (\<lambda>_. zero_ctx), sv_heap = (\<lambda>_. zero_server),
      sent_delegreturns = [], tested_stateids = [], tried_migrations = [], freed_states = {}, freed_owners = {}, freed_locks = {}, freed_delegs = {},
      cl_slot_tbl = None,
      cl_session = \<lparr>back_chan = True, persist = False, session_state = {NFS4_SESSION_ESTABLISHED},
        fc_max_reqs = 1, fc_slot_table = nfs4_init_slot_table zero_slot_table, bc_max_reqs = 1,
        bc_slot_table = nfs4_init_slot_table zero_slot_table\<rparr>,
      cl_mig_gen = 0, cl_exchange_confirmed = False, cl_machine_cred = Some 0,
      cp_heap = (\<lambda>_. \<lparr>copy_flags = 0, parent_dst_state = 0, parent_src_state = 0, copy_completed = 0\<rparr>),
      cl_clientid = 0, cl_confirm = 0, cl_last_renewal = 0, cl_res_state = {}, cl_renewd = None,
      cl_tsm_possible = False, cl_rpcs = 0\<rparr>"

lemmas zero_defs = zero_sid_def zero_state_def zero_owner_def zero_lock_def zero_deleg_def
  zero_inode_def zero_ctx_def zero_server_def zero_clnt_def

end
