(* ===== verification/Nfs4_Open_State.thy ===== *)
theory Nfs4_Open_State
  imports Nfs4_Store
begin

text \<open>
  The open state of a file: its share counters and mode, its stateids, and the marks that start
  its recovery (\<open>src/mynfs/nfs4proc.c\<close> from \<open>nfs4_mode_match_open_stateid\<close> to
  \<open>nfs_state_clear_delegation\<close>, \<open>nfs4_sync_open_stateid\<close>, \<open>nfs4_refresh_open_old_stateid\<close>, and the
  corresponding functions of \<open>nfs4state.c\<close>).

  A loop that drops its locks and sleeps takes the list of what happens at each sleep: how the
  sleep ended and what the other threads did to the store meanwhile, an arbitrary function. The
  result is \<open>None\<close> when the list ends while the loop still waits.
\<close>

section \<open>Share modes\<close>

definition nfs4_valid_open_stateid :: "nfs4_state \<Rightarrow> bool" where
  "nfs4_valid_open_stateid st \<longleftrightarrow> NFS_STATE_RECOVERY_FAILED \<notin> st_flags st"

definition nfs4_state_match_open_stateid_other :: "nfs4_state \<Rightarrow> nfs4_stateid \<Rightarrow> bool" where
  "nfs4_state_match_open_stateid_other st sid \<longleftrightarrow>
     NFS_OPEN_STATE \<in> st_flags st \<and> nfs4_stateid_match_other (st_open_stateid st) sid"

definition nfs4_mode_match_open_stateid :: "nfs4_state \<Rightarrow> fmode \<Rightarrow> bool" where
  "nfs4_mode_match_open_stateid st fmode =
     (let m = fmode \<inter> FMODE_RW in
      if m = FMODE_RW then n_rdwr st \<noteq> 0
      else if m = {FMODE_WRITE} then n_wronly st \<noteq> 0
      else if m = {FMODE_READ} then n_rdonly st \<noteq> 0
      else False)"

datatype (plugins only: code) open_claim_type4 =
    NFS4_OPEN_CLAIM_NULL | NFS4_OPEN_CLAIM_PREVIOUS | NFS4_OPEN_CLAIM_DELEGATE_CUR
  | NFS4_OPEN_CLAIM_DELEGATE_PREV | NFS4_OPEN_CLAIM_FH | NFS4_OPEN_CLAIM_DELEG_CUR_FH
  | NFS4_OPEN_CLAIM_DELEG_PREV_FH

text \<open>\<open>excl_or_trunc\<close> says whether the open flags contain \<open>O_EXCL\<close> or \<open>O_TRUNC\<close>.\<close>

definition can_open_cached :: "nfs4_state \<Rightarrow> fmode \<Rightarrow> bool \<Rightarrow> open_claim_type4 \<Rightarrow> bool" where
  "can_open_cached st fmode excl_or_trunc claim =
     (if excl_or_trunc then False
      else if claim = NFS4_OPEN_CLAIM_NULL \<or> claim = NFS4_OPEN_CLAIM_FH then False
      else let m = fmode \<inter> FMODE_RW in
           if m = {FMODE_READ} then NFS_O_RDONLY_STATE \<in> st_flags st \<and> n_rdonly st \<noteq> 0
           else if m = {FMODE_WRITE} then NFS_O_WRONLY_STATE \<in> st_flags st \<and> n_wronly st \<noteq> 0
           else if m = FMODE_RW then NFS_O_RDWR_STATE \<in> st_flags st \<and> n_rdwr st \<noteq> 0
           else False)"

text \<open>The state moves to the front of its owner's list when it gains write access, to the end
  when it loses it.\<close>

definition list_move :: "nat \<Rightarrow> nat list \<Rightarrow> nat list" where
  "list_move x xs = x # remove1 x xs"

definition list_move_tail :: "nat \<Rightarrow> nat list \<Rightarrow> nat list" where
  "list_move_tail x xs = remove1 x xs @ [x]"

definition nfs4_state_set_mode_locked :: "nat \<Rightarrow> fmode \<Rightarrow> nfs4_clnt \<Rightarrow> nfs4_clnt" where
  "nfs4_state_set_mode_locked i fmode c =
     (let st = st_heap c i in
      if st_state st = fmode then c
      else
        let c = (if (FMODE_WRITE \<in> fmode) \<noteq> (FMODE_WRITE \<in> st_state st)
                 then if FMODE_WRITE \<in> fmode
                      then upd_so (st_owner st) (\<lambda>so. so\<lparr>so_states := list_move i (so_states so)\<rparr>) c
                      else upd_so (st_owner st) (\<lambda>so. so\<lparr>so_states := list_move_tail i (so_states so)\<rparr>) c
                 else c)
        in upd_st i (\<lambda>st. st\<lparr>st_state := fmode\<rparr>) c)"

definition update_open_stateflags :: "nat \<Rightarrow> fmode \<Rightarrow> nfs4_clnt \<Rightarrow> nfs4_clnt" where
  "update_open_stateflags i fmode c =
     (let c = (if fmode = {FMODE_WRITE} then upd_st i (\<lambda>st. st\<lparr>n_wronly := n_wronly st + 1\<rparr>) c
               else if fmode = {FMODE_READ} then upd_st i (\<lambda>st. st\<lparr>n_rdonly := n_rdonly st + 1\<rparr>) c
               else if fmode = FMODE_RW then upd_st i (\<lambda>st. st\<lparr>n_rdwr := n_rdwr st + 1\<rparr>) c
               else c)
      in nfs4_state_set_mode_locked i (st_state (st_heap c i) \<union> fmode) c)"

definition nfs_open_stateid_recover_openmode :: "nfs4_state \<Rightarrow> bool" where
  "nfs_open_stateid_recover_openmode st \<longleftrightarrow>
     (if n_rdonly st \<noteq> 0 \<and> NFS_O_RDONLY_STATE \<notin> st_flags st then True
      else if n_wronly st \<noteq> 0 \<and> NFS_O_WRONLY_STATE \<notin> st_flags st then True
      else if n_rdwr st \<noteq> 0 \<and> NFS_O_RDWR_STATE \<notin> st_flags st then True
      else False)"

section \<open>Marking states for recovery\<close>

definition nfs4_state_mark_reclaim_reboot :: "nat \<Rightarrow> nfs4_clnt \<Rightarrow> nfs4_clnt \<times> bool" where
  "nfs4_state_mark_reclaim_reboot i c =
     (if \<not> nfs4_valid_open_stateid (st_heap c i) then (c, False)
      else
        let c = upd_st i (set_st NFS_STATE_RECLAIM_REBOOT) c in
        if NFS_STATE_RECLAIM_NOGRACE \<in> st_flags (st_heap c i)
        then (upd_st i (clear_st NFS_STATE_RECLAIM_REBOOT) c, False)
        else
          let c = upd_so (st_owner (st_heap c i))
                    (\<lambda>so. so\<lparr>so_flags := insert NFS_OWNER_RECLAIM_REBOOT (so_flags so)\<rparr>) c
          in (set_cl NFS4CLNT_RECLAIM_REBOOT c, True))"

definition nfs4_state_mark_reclaim_nograce :: "nat \<Rightarrow> nfs4_clnt \<Rightarrow> nfs4_clnt \<times> bool" where
  "nfs4_state_mark_reclaim_nograce i c =
     (if \<not> nfs4_valid_open_stateid (st_heap c i) then (c, False)
      else
        let c = upd_st i (set_st NFS_STATE_RECLAIM_NOGRACE) c;
            c = upd_st i (clear_st NFS_STATE_RECLAIM_REBOOT) c;
            c = upd_so (st_owner (st_heap c i))
                  (\<lambda>so. so\<lparr>so_flags := insert NFS_OWNER_RECLAIM_NOGRACE (so_flags so)\<rparr>) c
        in (set_cl NFS4CLNT_RECLAIM_NOGRACE c, True))"

definition nfs4_state_mark_open_context_bad :: "nat \<Rightarrow> nfs4_clnt \<Rightarrow> nfs4_clnt" where
  "nfs4_state_mark_open_context_bad i c =
     fold (\<lambda>x c. if ctx_state (ctx_heap c x) = Some i
                 then c\<lparr>ctx_heap := (ctx_heap c)(x := (ctx_heap c x)\<lparr>ctx_bad := True\<rparr>)\<rparr> else c)
       (i_open_files (ino_heap c (st_inode (st_heap c i)))) c"

definition nfs4_state_mark_recovery_failed :: "nat \<Rightarrow> nfs4_clnt \<Rightarrow> nfs4_clnt" where
  "nfs4_state_mark_recovery_failed i c =
     nfs4_state_mark_open_context_bad i (upd_st i (set_st NFS_STATE_RECOVERY_FAILED) c)"

section \<open>The open stateid\<close>

definition nfs_state_log_update_open_stateid :: "nfs4_state \<Rightarrow> nfs4_state" where
  "nfs_state_log_update_open_stateid st = clear_st NFS_STATE_CHANGE_WAIT st"
  \<comment> \<open>and \<open>wake_up_all\<close> when the bit was set\<close>

definition nfs_test_and_clear_all_open_stateid :: "nat \<Rightarrow> nfs4_clnt \<Rightarrow> nfs4_clnt" where
  "nfs_test_and_clear_all_open_stateid i c =
     (let st = st_heap c i;
          need_recover =
            NFS_O_RDONLY_STATE \<in> st_flags st \<and> n_rdonly st \<noteq> 0 \<or>
            NFS_O_WRONLY_STATE \<in> st_flags st \<and> n_wronly st \<noteq> 0 \<or>
            NFS_O_RDWR_STATE \<in> st_flags st \<and> n_rdwr st \<noteq> 0;
          c = upd_st i (\<lambda>st. clear_st NFS_O_RDWR_STATE (clear_st NFS_O_WRONLY_STATE
                                (clear_st NFS_O_RDONLY_STATE st))) c
      in if need_recover then fst (nfs4_state_mark_reclaim_nograce i c) else c)"

definition nfs_stateid_is_sequential :: "nfs4_state \<Rightarrow> nfs4_stateid \<Rightarrow> bool" where
  "nfs_stateid_is_sequential st sid =
     (if NFS_OPEN_STATE \<in> st_flags st \<and> nfs4_stateid_match_other sid (st_open_stateid st)
      then nfs4_stateid_is_next (st_open_stateid st) sid
      else seqid sid = 1)"

definition nfs_resync_open_stateid_locked :: "nfs4_state \<Rightarrow> nfs4_state" where
  "nfs_resync_open_stateid_locked st =
     (if \<not> (n_wronly st \<noteq> 0 \<or> n_rdonly st \<noteq> 0 \<or> n_rdwr st \<noteq> 0) then st
      else
        let st = (if n_wronly st \<noteq> 0 then set_st NFS_O_WRONLY_STATE st else st);
            st = (if n_rdonly st \<noteq> 0 then set_st NFS_O_RDONLY_STATE st else st);
            st = (if n_rdwr st \<noteq> 0 then set_st NFS_O_RDWR_STATE st else st)
        in set_st NFS_OPEN_STATE st)"

definition nfs_clear_share_flags :: "fmode \<Rightarrow> nfs4_state \<Rightarrow> nfs4_state" where
  "nfs_clear_share_flags fmode st =
     (let st = clear_st NFS_O_RDWR_STATE st;
          m = fmode \<inter> FMODE_RW in
      if m = {FMODE_WRITE} then clear_st NFS_O_RDONLY_STATE st
      else if m = {FMODE_READ} then clear_st NFS_O_WRONLY_STATE st
      else if m = {}
      then clear_st NFS_OPEN_STATE (clear_st NFS_O_WRONLY_STATE (clear_st NFS_O_RDONLY_STATE st))
      else st)"

definition nfs_clear_open_stateid_locked ::
  "nfs4_stateid option \<Rightarrow> fmode \<Rightarrow> nfs4_state \<Rightarrow> nfs4_state" where
  "nfs_clear_open_stateid_locked sid fmode st =
     (let st = nfs_clear_share_flags fmode st in
      case sid of
        None \<Rightarrow> st
      | Some sid \<Rightarrow>
          if nfs4_stateid_match_other sid (st_open_stateid st) \<and>
             \<not> nfs4_stateid_is_newer sid (st_open_stateid st)
          then nfs_state_log_update_open_stateid (nfs_resync_open_stateid_locked st)
          else
            let st = (if NFS_DELEGATED_STATE \<notin> st_flags st then st\<lparr>st_stateid := sid\<rparr> else st);
                st = st\<lparr>st_open_stateid := sid\<rparr>
            in nfs_state_log_update_open_stateid st)"

definition nfs_clear_open_stateid ::
  "int \<Rightarrow> nat \<Rightarrow> nfs4_stateid \<Rightarrow> nfs4_stateid option \<Rightarrow> fmode \<Rightarrow> nfs4_clnt \<Rightarrow> nfs4_clnt" where
  "nfs_clear_open_stateid k i arg_stateid sid fmode c =
     (let c = (if nfs4_state_match_open_stateid_other (st_heap c i) arg_stateid
               then upd_st i (nfs_clear_open_stateid_locked sid fmode) c else c)
      in if NFS_STATE_RECLAIM_NOGRACE \<in> st_flags (st_heap c i)
         then nfs4_schedule_state_manager k c else c)"

text \<open>How a sleep of at most five seconds ends.\<close>

datatype (plugins only: code) sleep_result = Timed_Out | Woken_Up | Fatal_Signal

type_synonym waits = "(sleep_result \<times> (nfs4_clnt \<Rightarrow> nfs4_clnt)) list"

text \<open>
  The loop of \<open>nfs_set_open_stateid_locked\<close>. It ends with the store at that moment and whether
  the update is to be made; the sleeps that were not used are returned too.
\<close>

fun nfs_set_open_stateid_loop ::
  "nat \<Rightarrow> nfs4_stateid \<Rightarrow> int \<Rightarrow> waits \<Rightarrow> nfs4_clnt \<Rightarrow> (nfs4_clnt \<times> bool \<times> waits) option" where
  "nfs_set_open_stateid_loop i sid status ws c =
     (let st = st_heap c i in
      if nfs_stateid_is_sequential st sid then Some (c, True, ws)
      else if status \<noteq> 0
      then Some (c, \<not> (nfs4_stateid_match_other sid (st_open_stateid st) \<and>
                       \<not> nfs4_stateid_is_newer sid (st_open_stateid st)), ws)
      else if \<not> cl_has_session c then Some (c, True, ws)
      else
        let c = upd_st i (set_st NFS_STATE_CHANGE_WAIT) c in
        case ws of
          [] \<Rightarrow> None
        | (r, others) # ws \<Rightarrow>
            nfs_set_open_stateid_loop i sid
              (case r of Timed_Out \<Rightarrow> - EAGAIN | Woken_Up \<Rightarrow> 0 | Fatal_Signal \<Rightarrow> - EINTR)
              ws (others c))"

declare nfs_set_open_stateid_loop.simps [simp del]

definition nfs_set_open_stateid_update ::
  "nat \<Rightarrow> nfs4_stateid \<Rightarrow> nfs4_clnt \<Rightarrow> nfs4_clnt \<times> nfs4_stateid option" where
  "nfs_set_open_stateid_update i sid c =
     (let st = st_heap c i;
          new_stateid = NFS_OPEN_STATE \<in> st_flags st \<and>
                        \<not> nfs4_stateid_match_other sid (st_open_stateid st);
          freeme = (if new_stateid then Some (st_open_stateid st) else None);
          c = (if new_stateid then nfs_test_and_clear_all_open_stateid i c else c);
          c = (if NFS_DELEGATED_STATE \<notin> st_flags (st_heap c i)
               then upd_st i (\<lambda>st. st\<lparr>st_stateid := sid\<rparr>) c else c);
          c = upd_st i (\<lambda>st. st\<lparr>st_open_stateid := sid\<rparr>) c
      in (upd_st i nfs_state_log_update_open_stateid c, freeme))"

definition nfs_set_open_stateid_locked ::
  "nat \<Rightarrow> nfs4_stateid \<Rightarrow> waits \<Rightarrow> nfs4_clnt \<Rightarrow> (nfs4_clnt \<times> nfs4_stateid option) option" where
  "nfs_set_open_stateid_locked i sid ws c =
     (case nfs_set_open_stateid_loop i sid 0 ws c of
        None \<Rightarrow> None
      | Some (c, update, _) \<Rightarrow>
          Some (if update then nfs_set_open_stateid_update i sid c else (c, None)))"

definition nfs_state_set_open_stateid ::
  "nat \<Rightarrow> nfs4_stateid \<Rightarrow> fmode \<Rightarrow> waits \<Rightarrow> nfs4_clnt \<Rightarrow> (nfs4_clnt \<times> nfs4_stateid option) option" where
  "nfs_state_set_open_stateid i sid fmode ws c =
     (case nfs_set_open_stateid_locked i sid ws c of
        None \<Rightarrow> None
      | Some (c, freeme) \<Rightarrow>
          let c = (if fmode = {FMODE_READ} then upd_st i (set_st NFS_O_RDONLY_STATE) c
                   else if fmode = {FMODE_WRITE} then upd_st i (set_st NFS_O_WRONLY_STATE) c
                   else if fmode = FMODE_RW then upd_st i (set_st NFS_O_RDWR_STATE) c
                   else c)
          in Some (upd_st i (set_st NFS_OPEN_STATE) c, freeme))"

definition nfs_state_clear_open_state_flags :: "nfs4_state \<Rightarrow> nfs4_state" where
  "nfs_state_clear_open_state_flags st =
     clear_st NFS_OPEN_STATE (clear_st NFS_O_RDONLY_STATE (clear_st NFS_O_WRONLY_STATE
       (clear_st NFS_O_RDWR_STATE st)))"

definition nfs_state_set_delegation :: "nfs4_stateid \<Rightarrow> nfs4_state \<Rightarrow> nfs4_state" where
  "nfs_state_set_delegation sid st = set_st NFS_DELEGATED_STATE (st\<lparr>st_stateid := sid\<rparr>)"

definition nfs_state_clear_delegation :: "nfs4_state \<Rightarrow> nfs4_state" where
  "nfs_state_clear_delegation st =
     clear_st NFS_DELEGATED_STATE (st\<lparr>st_stateid := st_open_stateid st\<rparr>)"

section \<open>Refreshing a caller's stateid\<close>

text \<open>
  A reader of the seqlock retries until it read a consistent state; the functions below see
  that state.
\<close>

definition nfs4_copy_open_stateid :: "nfs4_state \<Rightarrow> nfs4_stateid \<times> bool" where
  "nfs4_copy_open_stateid st =
     (if NFS_OPEN_STATE \<in> st_flags st then (st_open_stateid st, True) else (zero_stateid, False))"

definition nfs4_sync_open_stateid :: "nfs4_stateid \<Rightarrow> nfs4_state \<Rightarrow> nfs4_stateid" where
  "nfs4_sync_open_stateid dst st =
     (if \<not> nfs4_valid_open_stateid st then dst
      else if \<not> nfs4_state_match_open_stateid_other st dst then st_open_stateid st
      else if sint (seqid dst - seqid (st_open_stateid st)) < 0
      then dst\<lparr>seqid := seqid (st_open_stateid st)\<rparr>
      else dst)"

text \<open>The variable \<open>status\<close> lives across the rounds of the loop, as in the source.\<close>

fun nfs4_refresh_open_old_stateid_loop ::
  "nat \<Rightarrow> nfs4_stateid \<Rightarrow> int \<Rightarrow> waits \<Rightarrow> nfs4_clnt \<Rightarrow> (nfs4_clnt \<times> nfs4_stateid \<times> bool) option" where
  "nfs4_refresh_open_old_stateid_loop i dst status ws c =
     (let st = st_heap c i in
      if \<not> nfs4_valid_open_stateid st then Some (c, dst, False)
      else if \<not> nfs4_state_match_open_stateid_other st dst then Some (c, dst, False)
      else if s32_after (seqid (st_open_stateid st)) (seqid dst)
      then Some (c, dst\<lparr>seqid := seqid (st_open_stateid st)\<rparr>, True)
      else
        let c = upd_st i (set_st NFS_STATE_CHANGE_WAIT) c in
        case ws of
          [] \<Rightarrow> None
        | (r, others) # ws \<Rightarrow>
            let status = (case r of Fatal_Signal \<Rightarrow> - EINTR | Woken_Up \<Rightarrow> 0 | Timed_Out \<Rightarrow> status);
                c = others c in
            if status = 0 then nfs4_refresh_open_old_stateid_loop i dst status ws c
            else if status = - EINTR then Some (c, dst, False)
            else Some (c, dst\<lparr>seqid := seqid dst + 1\<rparr>, True))"

declare nfs4_refresh_open_old_stateid_loop.simps [simp del]

definition nfs4_refresh_open_old_stateid ::
  "nat \<Rightarrow> nfs4_stateid \<Rightarrow> waits \<Rightarrow> nfs4_clnt \<Rightarrow> (nfs4_clnt \<times> nfs4_stateid \<times> bool) option" where
  "nfs4_refresh_open_old_stateid i dst ws c =
     nfs4_refresh_open_old_stateid_loop i dst (- EAGAIN) ws c"

definition nfs4_update_lock_stateid :: "nfs4_stateid \<Rightarrow> nfs4_lock_state \<Rightarrow> nfs4_lock_state \<times> bool" where
  "nfs4_update_lock_stateid sid lsp =
     (if \<not> nfs4_stateid_match_other sid (ls_stateid lsp) then (lsp, False)
      else if \<not> nfs4_stateid_is_newer sid (ls_stateid lsp) then (lsp, False)
      else (lsp\<lparr>ls_stateid := sid\<rparr>, True))"

section \<open>Closing: what to keep open on the server\<close>

text \<open>
  The first half of \<open>__nfs4_close\<close>, under the owner's lock: give the share back, recompute the
  mode, and find out whether the server has to be told.
\<close>

definition nfs4_close_put_share :: "nat \<Rightarrow> fmode \<Rightarrow> nfs4_clnt \<Rightarrow> nfs4_clnt" where
  "nfs4_close_put_share i fmode c =
     (let m = fmode \<inter> FMODE_RW in
      if m = {FMODE_READ} then upd_st i (\<lambda>st. st\<lparr>n_rdonly := n_rdonly st - 1\<rparr>) c
      else if m = {FMODE_WRITE} then upd_st i (\<lambda>st. st\<lparr>n_wronly := n_wronly st - 1\<rparr>) c
      else if m = FMODE_RW then upd_st i (\<lambda>st. st\<lparr>n_rdwr := n_rdwr st - 1\<rparr>) c
      else c)"

definition nfs4_close_newstate :: "nfs4_state \<Rightarrow> fmode" where
  "nfs4_close_newstate st =
     (let newstate = FMODE_RW in
      if n_rdwr st = 0
      then let newstate = (if n_rdonly st = 0 then newstate - {FMODE_READ} else newstate)
           in (if n_wronly st = 0 then newstate - {FMODE_WRITE} else newstate)
      else newstate)"

definition nfs4_close_call_close :: "nfs4_state \<Rightarrow> bool" where
  "nfs4_close_call_close st \<longleftrightarrow>
     n_rdwr st = 0 \<and>
     (n_rdonly st = 0 \<and> (NFS_O_RDONLY_STATE \<in> st_flags st \<or> NFS_O_RDWR_STATE \<in> st_flags st) \<or>
      n_wronly st = 0 \<and> (NFS_O_WRONLY_STATE \<in> st_flags st \<or> NFS_O_RDWR_STATE \<in> st_flags st))"

definition nfs4_close_locked :: "nat \<Rightarrow> fmode \<Rightarrow> nfs4_clnt \<Rightarrow> nfs4_clnt \<times> bool" where
  "nfs4_close_locked i fmode c =
     (let c = nfs4_close_put_share i fmode c;
          newstate = nfs4_close_newstate (st_heap c i);
          call_close = nfs4_close_call_close (st_heap c i);
          c = (if newstate = {} then upd_st i (clear_st NFS_DELEGATED_STATE) c else c)
      in (nfs4_state_set_mode_locked i newstate c, call_close))"

text \<open>
  The share mode that \<open>nfs4_close_prepare\<close> leaves open on the server and whether it sends
  OPEN_DOWNGRADE or CLOSE at all.
\<close>

definition nfs4_close_prepare_mode :: "nfs4_state \<Rightarrow> fmode \<times> bool" where
  "nfs4_close_prepare_mode st =
     (let is_rdwr = NFS_O_RDWR_STATE \<in> st_flags st;
          is_rdonly = NFS_O_RDONLY_STATE \<in> st_flags st;
          is_wronly = NFS_O_WRONLY_STATE \<in> st_flags st;
          fmode = (if n_rdwr st = 0
                   then (if n_rdonly st \<noteq> 0 \<and> is_rdonly then {FMODE_READ} else {}) \<union>
                        (if n_wronly st \<noteq> 0 \<and> is_wronly then {FMODE_WRITE} else {})
                   else if is_rdwr then FMODE_RW else {});
          call_close = n_rdwr st = 0 \<and>
            (n_rdonly st = 0 \<and> is_rdonly \<or> n_wronly st = 0 \<and> is_wronly \<or>
             fmode \<noteq> FMODE_RW \<and> is_rdwr)
      in (fmode, call_close \<and> nfs4_valid_open_stateid st))"

section \<open>Lemmas on modes and on the order of an owner's states\<close>

text \<open>The mode of a state is what its share counters say.\<close>

definition mode_ok :: "nfs4_state \<Rightarrow> bool" where
  "mode_ok st \<longleftrightarrow>
     st_state st \<subseteq> FMODE_RW \<and>
     (FMODE_READ \<in> st_state st \<longleftrightarrow> n_rdonly st \<noteq> 0 \<or> n_rdwr st \<noteq> 0) \<and>
     (FMODE_WRITE \<in> st_state st \<longleftrightarrow> n_wronly st \<noteq> 0 \<or> n_rdwr st \<noteq> 0)"

text \<open>
  The states of an owner are its own, listed once, those with write access first. Recovery
  walks this list and relies on the order.
\<close>

definition state_writes :: "nfs4_clnt \<Rightarrow> nat \<Rightarrow> bool" where
  "state_writes c i \<longleftrightarrow> FMODE_WRITE \<in> st_state (st_heap c i)"

definition owner_ok :: "nfs4_clnt \<Rightarrow> nat \<Rightarrow> bool" where
  "owner_ok c so \<longleftrightarrow>
     distinct (so_states (so_heap c so)) \<and>
     (\<forall>i \<in> set (so_states (so_heap c so)). st_owner (st_heap c i) = so) \<and>
     sorted_wrt (\<lambda>i j. state_writes c j \<longrightarrow> state_writes c i) (so_states (so_heap c so))"

lemma sorted_wrt_remove1: "sorted_wrt P xs \<Longrightarrow> sorted_wrt P (remove1 x xs)"
  by (induction xs) (auto dest: notin_set_remove1)

lemma sorted_wrt_cong_on:
  "(\<And>x y. x \<in> set xs \<Longrightarrow> y \<in> set xs \<Longrightarrow> P x y = Q x y) \<Longrightarrow> sorted_wrt P xs = sorted_wrt Q xs"
  by (induction xs) auto

lemma set_mode_heaps:
  "st_heap (nfs4_state_set_mode_locked i m c) =
     (st_heap c)(i := (st_heap c i)\<lparr>st_state := m\<rparr>)"
  by (auto simp: nfs4_state_set_mode_locked_def Let_def upd_defs fun_eq_iff)

lemma set_mode_states:
  "so_states (so_heap (nfs4_state_set_mode_locked i m c) so) =
     (if so \<noteq> st_owner (st_heap c i) \<or> (FMODE_WRITE \<in> m) = state_writes c i
      then so_states (so_heap c so)
      else if FMODE_WRITE \<in> m then list_move i (so_states (so_heap c so))
      else list_move_tail i (so_states (so_heap c so)))"
  by (auto simp: nfs4_state_set_mode_locked_def state_writes_def Let_def upd_defs)

lemma sorted_writers_move:
  assumes d: "distinct xs" and s: "sorted_wrt (\<lambda>i j. W j \<longrightarrow> W i) xs"
    and W: "\<And>j. j \<noteq> i \<Longrightarrow> W' j = W j"
  shows "W' i \<Longrightarrow> sorted_wrt (\<lambda>i j. W' j \<longrightarrow> W' i) (list_move i xs)"
    and "\<not> W' i \<Longrightarrow> sorted_wrt (\<lambda>i j. W' j \<longrightarrow> W' i) (list_move_tail i xs)"
proof -
  have "i \<notin> set (remove1 i xs)" using d by simp
  then have "sorted_wrt (\<lambda>i j. W' j \<longrightarrow> W' i) (remove1 i xs) = sorted_wrt (\<lambda>i j. W j \<longrightarrow> W i) (remove1 i xs)"
    by (intro sorted_wrt_cong_on) (metis W)
  then have "sorted_wrt (\<lambda>i j. W' j \<longrightarrow> W' i) (remove1 i xs)"
    using sorted_wrt_remove1 [OF s] by simp
  then show "W' i \<Longrightarrow> sorted_wrt (\<lambda>i j. W' j \<longrightarrow> W' i) (list_move i xs)"
    and "\<not> W' i \<Longrightarrow> sorted_wrt (\<lambda>i j. W' j \<longrightarrow> W' i) (list_move_tail i xs)"
    by (simp_all add: list_move_def list_move_tail_def sorted_wrt_append)
qed

lemma owner_ok_set_mode:
  assumes ok: "owner_ok c so"
    and i: "st_owner (st_heap c i) = so \<Longrightarrow> i \<in> set (so_states (so_heap c so))"
  shows "owner_ok (nfs4_state_set_mode_locked i m c) so"
proof -
  let ?c = "nfs4_state_set_mode_locked i m c"
  let ?xs = "so_states (so_heap c so)"
  have W: "state_writes ?c j = (if j = i then FMODE_WRITE \<in> m else state_writes c j)" for j
    by (simp add: state_writes_def set_mode_heaps)
  have owner: "st_owner (st_heap ?c j) = st_owner (st_heap c j)" for j
    by (simp add: set_mode_heaps)
  have d: "distinct ?xs" "\<forall>j \<in> set ?xs. st_owner (st_heap c j) = so"
    "sorted_wrt (\<lambda>i j. state_writes c j \<longrightarrow> state_writes c i) ?xs"
    using ok by (simp_all add: owner_ok_def)
  show ?thesis
  proof (cases "st_owner (st_heap c i) = so \<and> (FMODE_WRITE \<in> m) \<noteq> state_writes c i")
    case False
    then have same: "so_states (so_heap ?c so) = ?xs" by (auto simp: set_mode_states)
    have "state_writes ?c j = state_writes c j" if "j \<in> set ?xs" for j
      using that False d(2) by (auto simp: W)
    then have "sorted_wrt (\<lambda>i j. state_writes ?c j \<longrightarrow> state_writes ?c i) ?xs"
      using d(3) sorted_wrt_cong_on [of ?xs "\<lambda>i j. state_writes ?c j \<longrightarrow> state_writes ?c i"
          "\<lambda>i j. state_writes c j \<longrightarrow> state_writes c i"] by simp
    then show ?thesis using d same owner by (simp add: owner_ok_def)
  next
    case True
    then have mem: "i \<in> set ?xs" using i by simp
    have W': "j \<noteq> i \<Longrightarrow> state_writes ?c j = state_writes c j" for j by (simp add: W)
    note mv = sorted_writers_move [OF d(1) d(3) W']
    have lists: "distinct (list_move i ?xs)" "set (list_move i ?xs) = set ?xs"
      "distinct (list_move_tail i ?xs)" "set (list_move_tail i ?xs) = set ?xs"
      using d(1) mem by (auto simp: list_move_def list_move_tail_def)
    show ?thesis
    proof (cases "FMODE_WRITE \<in> m")
      case m: True
      then have "so_states (so_heap ?c so) = list_move i ?xs" using True by (auto simp: set_mode_states)
      then show ?thesis using mv(1) lists d(2) owner m by (simp add: owner_ok_def W)
    next
      case m: False
      then have "so_states (so_heap ?c so) = list_move_tail i ?xs"
        using True by (auto simp: set_mode_states)
      then show ?thesis using mv(2) lists d(2) owner m by (simp add: owner_ok_def W)
    qed
  qed
qed

text \<open>Updates that leave the mode and the owner of a state alone keep its owner's list in order.\<close>

lemma owner_ok_cong:
  assumes "\<And>i. st_state (st_heap c' i) = st_state (st_heap c i)"
    and "\<And>i. st_owner (st_heap c' i) = st_owner (st_heap c i)"
    and "so_states (so_heap c' so) = so_states (so_heap c so)"
  shows "owner_ok c' so = owner_ok c so"
  using assms by (simp add: owner_ok_def state_writes_def)

lemma owner_ok_upd_st:
  assumes "\<And>st. st_state (f st) = st_state st" "\<And>st. st_owner (f st) = st_owner st"
  shows "owner_ok (upd_st i f c) so = owner_ok c so"
  by (rule owner_ok_cong) (simp_all add: upd_defs assms)

lemma fmode_cases:
  obtains "m \<inter> FMODE_RW = {}" | "m \<inter> FMODE_RW = {FMODE_READ}"
    | "m \<inter> FMODE_RW = {FMODE_WRITE}" | "m \<inter> FMODE_RW = FMODE_RW"
  by (cases "FMODE_READ \<in> m"; cases "FMODE_WRITE \<in> m") auto

lemma fmode_distinct [simp]:
  "{FMODE_READ} \<noteq> {FMODE_WRITE}" "{FMODE_WRITE} \<noteq> {FMODE_READ}"
  "{FMODE_READ} \<noteq> FMODE_RW" "FMODE_RW \<noteq> {FMODE_READ}"
  "{FMODE_WRITE} \<noteq> FMODE_RW" "FMODE_RW \<noteq> {FMODE_WRITE}"
  by auto

text \<open>The state as it is after an open of mode \<open>m\<close> was counted.\<close>

definition count_open :: "fmode \<Rightarrow> nfs4_state \<Rightarrow> nfs4_state" where
  "count_open m st = st
     \<lparr>n_rdonly := n_rdonly st + (if m = {FMODE_READ} then 1 else 0),
      n_wronly := n_wronly st + (if m = {FMODE_WRITE} then 1 else 0),
      n_rdwr := n_rdwr st + (if m = FMODE_RW then 1 else 0)\<rparr>"

definition count_close :: "fmode \<Rightarrow> nfs4_state \<Rightarrow> nfs4_state" where
  "count_close m st = st
     \<lparr>n_rdonly := n_rdonly st - (if m = {FMODE_READ} then 1 else 0),
      n_wronly := n_wronly st - (if m = {FMODE_WRITE} then 1 else 0),
      n_rdwr := n_rdwr st - (if m = FMODE_RW then 1 else 0)\<rparr>"

lemma update_open_stateflags_eq:
  "update_open_stateflags i m c =
     nfs4_state_set_mode_locked i (st_state (st_heap c i) \<union> m) (upd_st i (count_open m) c)"
  by (auto simp: update_open_stateflags_def count_open_def upd_defs Let_def)

lemma owner_ok_update_open_stateflags:
  assumes "owner_ok c so" "st_owner (st_heap c i) = so \<Longrightarrow> i \<in> set (so_states (so_heap c so))"
  shows "owner_ok (update_open_stateflags i m c) so"
  unfolding update_open_stateflags_eq
  by (intro owner_ok_set_mode) (use assms in \<open>simp_all add: owner_ok_upd_st count_open_def\<close>)

lemma nfs4_close_put_share_eq:
  "nfs4_close_put_share i m c = upd_st i (count_close (m \<inter> FMODE_RW)) c"
  by (cases m rule: fmode_cases) (simp_all add: nfs4_close_put_share_def count_close_def upd_st_def)

lemma nfs4_close_newstate_iff:
  "FMODE_READ \<in> nfs4_close_newstate st \<longleftrightarrow> n_rdonly st \<noteq> 0 \<or> n_rdwr st \<noteq> 0"
  "FMODE_WRITE \<in> nfs4_close_newstate st \<longleftrightarrow> n_wronly st \<noteq> 0 \<or> n_rdwr st \<noteq> 0"
  "nfs4_close_newstate st \<subseteq> FMODE_RW"
  by (auto simp: nfs4_close_newstate_def Let_def)

lemma nfs4_close_locked_state:
  fixes i m c
  defines "st \<equiv> count_close (m \<inter> FMODE_RW) (st_heap c i)"
  shows "st_heap (fst (nfs4_close_locked i m c)) i =
     (if nfs4_close_newstate st = {} then clear_st NFS_DELEGATED_STATE st else st)
       \<lparr>st_state := nfs4_close_newstate st\<rparr>"
    and "snd (nfs4_close_locked i m c) = nfs4_close_call_close st"
  unfolding nfs4_close_locked_def nfs4_close_put_share_eq st_def Let_def
  by (simp_all add: set_mode_heaps)

lemma nfs4_close_locked_counts:
  assumes "st' = st_heap (fst (nfs4_close_locked i m c)) i"
  shows "n_rdonly st' = n_rdonly (count_close (m \<inter> FMODE_RW) (st_heap c i))"
    and "n_wronly st' = n_wronly (count_close (m \<inter> FMODE_RW) (st_heap c i))"
    and "n_rdwr st' = n_rdwr (count_close (m \<inter> FMODE_RW) (st_heap c i))"
    and "mode_ok st'"
  unfolding assms nfs4_close_locked_state mode_ok_def
  using nfs4_close_newstate_iff by (simp_all add: clear_st_def)

lemma owner_ok_close_locked:
  assumes "owner_ok c so" "st_owner (st_heap c i) = so \<Longrightarrow> i \<in> set (so_states (so_heap c so))"
  shows "owner_ok (fst (nfs4_close_locked i m c)) so"
  unfolding nfs4_close_locked_def nfs4_close_put_share_eq Let_def fst_conv
  by (intro owner_ok_set_mode)
    (use assms in \<open>simp_all add: owner_ok_upd_st clear_st_def count_close_def split: if_splits\<close>)

section \<open>Lemmas on stateids\<close>

lemma s32_after_succ: "s32_after (x + 1) x"
  by (simp add: s32_after_def)

lemma nfs4_stateid_is_next_not_older:
  assumes "nfs4_stateid_is_next s1 s2"
  shows "\<not> nfs4_stateid_is_newer s1 s2"
proof (cases "seqid s2 = seqid s1 + 1")
  case True
  then have "s32_after (seqid s2) (seqid s1)" using s32_after_succ by simp
  then show ?thesis using s32_after_asym by (simp add: nfs4_stateid_is_newer_def)
next
  case False
  then have "seqid s2 = 1" "seqid s1 = 0xFFFFFFFF" using assms by (simp_all add: nfs4_stateid_is_next_def)
  then show ?thesis by (simp add: nfs4_stateid_is_newer_def s32_after_def)
qed

text \<open>
  What the waiting loop guarantees of the store at the moment it decides, whatever the other
  threads did during the sleeps.
\<close>

lemma nfs_set_open_stateid_loop_decides:
  assumes "nfs_set_open_stateid_loop i sid status ws c = Some (c', update, ws')"
  shows "if update
         then nfs_stateid_is_sequential (st_heap c' i) sid \<or> \<not> cl_has_session c' \<or>
              \<not> nfs4_stateid_match_other sid (st_open_stateid (st_heap c' i)) \<or>
              nfs4_stateid_is_newer sid (st_open_stateid (st_heap c' i))
         else nfs4_stateid_match_other sid (st_open_stateid (st_heap c' i)) \<and>
              \<not> nfs4_stateid_is_newer sid (st_open_stateid (st_heap c' i))"
  using assms
proof (induction ws arbitrary: status c)
  case Nil
  then show ?case
    by (auto simp: nfs_set_open_stateid_loop.simps [of i sid status "[]" c] Let_def split: if_splits)
next
  case (Cons w ws)
  obtain r others where w: "w = (r, others)" by (cases w)
  note eq = nfs_set_open_stateid_loop.simps [of i sid status "w # ws" c]
  show ?case
  proof (cases "\<not> nfs_stateid_is_sequential (st_heap c i) sid \<and> status = 0 \<and> cl_has_session c")
    case True
    then have "nfs_set_open_stateid_loop i sid
        (case r of Timed_Out \<Rightarrow> - EAGAIN | Woken_Up \<Rightarrow> 0 | Fatal_Signal \<Rightarrow> - EINTR) ws
        (others (upd_st i (set_st NFS_STATE_CHANGE_WAIT) c)) = Some (c', update, ws')"
      using Cons.prems [unfolded eq] by (simp add: w Let_def)
    then show ?thesis by (rule Cons.IH)
  next
    case False
    then show ?thesis using Cons.prems unfolding eq by (auto simp: Let_def split: if_splits)
  qed
qed

lemma nfs_set_open_stateid_update_stateid:
  "st_open_stateid (st_heap (fst (nfs_set_open_stateid_update i sid c)) i) = sid"
  unfolding nfs_set_open_stateid_update_def Let_def fst_conv upd_st_simps fun_upd_same
    nfs_state_log_update_open_stateid_def clear_st_def
  by simp

section \<open>Properties\<close>

text \<open>The access the server grants according to the share flags of the state.\<close>

definition server_access :: "nfs4_state \<Rightarrow> fmode" where
  "server_access st =
     (if NFS_O_RDONLY_STATE \<in> st_flags st then {FMODE_READ} else {}) \<union>
     (if NFS_O_WRONLY_STATE \<in> st_flags st then {FMODE_WRITE} else {}) \<union>
     (if NFS_O_RDWR_STATE \<in> st_flags st then FMODE_RW else {})"

lemma server_access_cong:
  "(\<And>f. f \<noteq> NFS_DELEGATED_STATE \<Longrightarrow> f \<in> st_flags a \<longleftrightarrow> f \<in> st_flags b) \<Longrightarrow>
     server_access a = server_access b"
  by (simp add: server_access_def)

lemma nfs4_close_call_close_iff:
  "nfs4_close_call_close st \<longleftrightarrow> \<not> server_access st \<subseteq> nfs4_close_newstate st"
  using nfs4_close_newstate_iff [of st]
  by (auto simp: nfs4_close_call_close_def server_access_def)

lemma mode_ok_newstate:
  assumes "mode_ok st"
  shows "nfs4_close_newstate st = st_state st"
proof (rule set_eqI)
  fix b
  show "b \<in> nfs4_close_newstate st \<longleftrightarrow> b \<in> st_state st"
    using assms nfs4_close_newstate_iff [of st] by (cases b) (auto simp: mode_ok_def)
qed

text \<open>
  Counting an open. \<open>update_open_stateflags\<close> adds the open to the counter of its mode, keeps the
  mode of the state equal to what the three counters say, and keeps the owner's list of states
  ordered with the writable states first, the order state recovery relies on.
\<close>

lemma update_open_stateflags_modes:
  assumes "mode_ok (st_heap c i)" "m \<in> {{FMODE_READ}, {FMODE_WRITE}, FMODE_RW}"
    and "n_rdonly (st_heap c i) + 1 \<noteq> 0" "n_wronly (st_heap c i) + 1 \<noteq> 0"
      "n_rdwr (st_heap c i) + 1 \<noteq> 0"
    and "owner_ok c (st_owner (st_heap c i))"
      "i \<in> set (so_states (so_heap c (st_owner (st_heap c i))))"
  shows "let c' = update_open_stateflags i m c in
    mode_ok (st_heap c' i) \<and> owner_ok c' (st_owner (st_heap c i)) \<and>
    st_heap c' i = (count_open m (st_heap c i))\<lparr>st_state := st_state (st_heap c i) \<union> m\<rparr>"
proof -
  let ?c = "update_open_stateflags i m c"
  have st: "st_heap ?c i = (count_open m (st_heap c i))\<lparr>st_state := st_state (st_heap c i) \<union> m\<rparr>"
    by (simp add: update_open_stateflags_eq set_mode_heaps)
  have "mode_ok (st_heap ?c i)"
    using assms(1-5) unfolding st by (auto simp: mode_ok_def count_open_def)
  moreover have "owner_ok ?c (st_owner (st_heap c i))"
    using assms by (intro owner_ok_update_open_stateflags) simp_all
  ultimately show ?thesis using st by (simp add: Let_def)
qed

text \<open>A client whose owner 1 has the states 5 and 6, state 6 open for reading.\<close>

definition ex_open :: nfs4_clnt where
  "ex_open = zero_clnt
     \<lparr>st_heap := (\<lambda>i. zero_state\<lparr>st_owner := 1, n_rdonly := (if i = 6 then 1 else 0),
                              st_state := (if i = 6 then {FMODE_READ} else {}),
                              st_flags := (if i = 6 then {NFS_OPEN_STATE, NFS_O_RDONLY_STATE} else {}),
                              st_open_stateid := zero_sid\<lparr>seqid := 1\<rparr>\<rparr>),
      so_heap := (\<lambda>_. zero_owner\<lparr>so_states := [5, 6]\<rparr>)\<rparr>"

lemma ex_open_simps [simp]:
  "st_owner (st_heap ex_open i) = 1" "n_wronly (st_heap ex_open i) = 0"
  "n_rdwr (st_heap ex_open i) = 0" "n_rdonly (st_heap ex_open i) = (if i = 6 then 1 else 0)"
  "st_state (st_heap ex_open i) = (if i = 6 then {FMODE_READ} else {})"
  "st_flags (st_heap ex_open i) = (if i = 6 then {NFS_OPEN_STATE, NFS_O_RDONLY_STATE} else {})"
  "st_open_stateid (st_heap ex_open i) = zero_sid\<lparr>seqid := 1\<rparr>"
  "so_states (so_heap ex_open j) = [5, 6]" "cl_has_session ex_open"
  by (simp_all add: ex_open_def zero_clnt_def zero_state_def)

lemma ex_open_ok: "owner_ok ex_open 1" "mode_ok (st_heap ex_open i)"
  by (auto simp: owner_ok_def mode_ok_def state_writes_def)

text \<open>
  C29: Giving a share back. The locked part of \<open>__nfs4_close\<close> takes the share off its counter, makes
  the mode again what the counters say, keeps the owner's list in order, and asks for a CLOSE
  or OPEN_DOWNGRADE exactly when the server still grants an access that no open needs.
\<close>

theorem nfs4_close_locked_modes:
  assumes "owner_ok c (st_owner (st_heap c i))"
    "i \<in> set (so_states (so_heap c (st_owner (st_heap c i))))"
    and "nfs4_close_locked i m c = (c', call_close)"
  shows "mode_ok (st_heap c' i) \<and> owner_ok c' (st_owner (st_heap c i)) \<and>
    (n_rdonly (st_heap c' i), n_wronly (st_heap c' i), n_rdwr (st_heap c' i)) =
      (let st = count_close (m \<inter> FMODE_RW) (st_heap c i) in (n_rdonly st, n_wronly st, n_rdwr st)) \<and>
    (call_close \<longleftrightarrow> \<not> server_access (st_heap c' i) \<subseteq> st_state (st_heap c' i))"
proof -
  let ?st = "count_close (m \<inter> FMODE_RW) (st_heap c i)"
  note counts = nfs4_close_locked_counts [OF refl, of i m c]
  have st: "st_heap c' i =
      (if nfs4_close_newstate ?st = {} then clear_st NFS_DELEGATED_STATE ?st else ?st)
       \<lparr>st_state := nfs4_close_newstate ?st\<rparr>" "call_close = nfs4_close_call_close ?st"
    using nfs4_close_locked_state [of i m c] assms(3) by simp_all
  have "server_access (st_heap c' i) = server_access ?st"
    unfolding st by (rule server_access_cong) (auto simp: clear_st_def)
  moreover have "st_state (st_heap c' i) = nfs4_close_newstate ?st" unfolding st by simp
  ultimately have "call_close \<longleftrightarrow> \<not> server_access (st_heap c' i) \<subseteq> st_state (st_heap c' i)"
    using st(2) by (simp add: nfs4_close_call_close_iff)
  moreover have "owner_ok c' (st_owner (st_heap c i))"
    using owner_ok_close_locked [of c _ i m] assms by simp
  ultimately show ?thesis using counts assms(3) by (simp add: Let_def)
qed

theorem nfs4_close_locked_modes_witness:
  "snd (nfs4_close_locked 6 {FMODE_READ} ex_open) \<and>
   mode_ok (st_heap (fst (nfs4_close_locked 6 {FMODE_READ} ex_open)) 6)"
proof -
  have "snd (nfs4_close_locked 6 {FMODE_READ} ex_open)"
    by (simp add: nfs4_close_locked_state nfs4_close_call_close_def count_close_def)
  then show ?thesis
    using nfs4_close_locked_modes [OF _ _ prod.collapse [symmetric], of ex_open 6 "{FMODE_READ}"]
      ex_open_ok(1) by simp
qed

text \<open>
  C31: A completed CLOSE or OPEN_DOWNGRADE. \<open>nfs4_close_prepare\<close> looks at the state \<open>before\<close> and decides to
  send one; the reply finds the state \<open>st\<close>, which other threads may have changed in between. A reply
  with a newer or another stateid installs it and leaves exactly the shares of \<open>st\<close> that were both
  open on the server and in use when the call was prepared: none that was in use is lost and none
  without a user stays. A reply that an OPEN has overtaken keeps the open stateid, and then every
  share that has a user now is marked open again.
\<close>

theorem close_keeps_used_shares:
  assumes "nfs4_close_prepare_mode before = (fmode, True)"
  shows "let st' = nfs_clear_open_stateid_locked (Some sid) fmode st;
      read = (NFS_O_RDONLY_STATE \<in> st_flags before \<and> n_rdonly before \<noteq> 0);
      write = (NFS_O_WRONLY_STATE \<in> st_flags before \<and> n_wronly before \<noteq> 0);
      overtaken = (nfs4_stateid_match_other sid (st_open_stateid st) \<and>
                   \<not> nfs4_stateid_is_newer sid (st_open_stateid st)) in
    n_rdwr before = 0 \<and>
    st_open_stateid st' = (if overtaken then st_open_stateid st else sid) \<and>
    (NFS_O_RDWR_STATE \<in> st_flags st' \<longleftrightarrow> overtaken \<and> n_rdwr st \<noteq> 0) \<and>
    (NFS_O_RDONLY_STATE \<in> st_flags st' \<longleftrightarrow>
       NFS_O_RDONLY_STATE \<in> st_flags st \<and> read \<or> overtaken \<and> n_rdonly st \<noteq> 0) \<and>
    (NFS_O_WRONLY_STATE \<in> st_flags st' \<longleftrightarrow>
       NFS_O_WRONLY_STATE \<in> st_flags st \<and> write \<or> overtaken \<and> n_wronly st \<noteq> 0)"
proof -
  have m: "n_rdwr before = 0"
    "fmode = (if n_rdonly before \<noteq> 0 \<and> NFS_O_RDONLY_STATE \<in> st_flags before then {FMODE_READ} else {}) \<union>
             (if n_wronly before \<noteq> 0 \<and> NFS_O_WRONLY_STATE \<in> st_flags before then {FMODE_WRITE} else {})"
    using assms by (auto simp: nfs4_close_prepare_mode_def Let_def split: if_splits)
  let ?c = "nfs_clear_share_flags fmode st" and ?st' = "nfs_clear_open_stateid_locked (Some sid) fmode st"
  let ?old = "nfs4_stateid_match_other sid (st_open_stateid st) \<and> \<not> nfs4_stateid_is_newer sid (st_open_stateid st)"
  have c: "st_open_stateid ?c = st_open_stateid st" "n_rdonly ?c = n_rdonly st" "n_wronly ?c = n_wronly st"
    "n_rdwr ?c = n_rdwr st" by (simp_all add: nfs_clear_share_flags_def clear_st_def Let_def)
  have flags: "NFS_O_RDWR_STATE \<notin> st_flags ?c"
    "NFS_O_RDONLY_STATE \<in> st_flags ?c \<longleftrightarrow> NFS_O_RDONLY_STATE \<in> st_flags st \<and> FMODE_READ \<in> fmode"
    "NFS_O_WRONLY_STATE \<in> st_flags ?c \<longleftrightarrow> NFS_O_WRONLY_STATE \<in> st_flags st \<and> FMODE_WRITE \<in> fmode"
    unfolding m(2) by (auto simp: nfs_clear_share_flags_def clear_st_def Let_def split: if_splits)
  show ?thesis
  proof (cases ?old)
    case True
    then have "?st' = nfs_state_log_update_open_stateid (nfs_resync_open_stateid_locked ?c)"
      by (simp add: nfs_clear_open_stateid_locked_def Let_def c)
    then show ?thesis using True m flags c
      by (auto simp: nfs_resync_open_stateid_locked_def nfs_state_log_update_open_stateid_def Let_def
          set_st_def clear_st_def split: if_splits)
  next
    case False
    then have st': "st_flags ?st' = st_flags ?c - {NFS_STATE_CHANGE_WAIT}" "st_open_stateid ?st' = sid"
      by (auto simp: nfs_clear_open_stateid_locked_def Let_def clear_st_def
          nfs_state_log_update_open_stateid_def c)
    show ?thesis using False m flags unfolding Let_def st' by auto
  qed
qed

theorem close_keeps_used_shares_witness:
  "let opened = zero_state\<lparr>st_flags := {NFS_O_RDONLY_STATE}, n_rdonly := 1,
        st_open_stateid := zero_sid\<lparr>seqid := 2\<rparr>\<rparr> in
   NFS_O_RDONLY_STATE \<in> st_flags (nfs_clear_open_stateid_locked (Some (zero_sid\<lparr>seqid := 1\<rparr>)) {} opened) \<and>
   NFS_O_RDONLY_STATE \<notin> st_flags (nfs_clear_open_stateid_locked (Some (zero_sid\<lparr>seqid := 3\<rparr>)) {} opened)"
proof -
  let ?opened = "zero_state\<lparr>st_flags := {NFS_O_RDONLY_STATE}, n_rdonly := 1,
        st_open_stateid := zero_sid\<lparr>seqid := 2\<rparr>\<rparr>"
  have p: "nfs4_close_prepare_mode (zero_state\<lparr>st_flags := {NFS_O_RDONLY_STATE}\<rparr>) = ({}, True)"
    by (simp add: nfs4_close_prepare_mode_def zero_state_def Let_def nfs4_valid_open_stateid_def)
  show ?thesis
    using close_keeps_used_shares [OF p, of "zero_sid\<lparr>seqid := 1\<rparr>" ?opened]
      close_keeps_used_shares [OF p, of "zero_sid\<lparr>seqid := 3\<rparr>" ?opened]
    by (simp add: Let_def zero_state_def zero_sid_def nfs4_stateid_is_newer_def s32_after_def
        nfs4_stateid_match_other_def)
qed



lemma nfs4_refresh_loop_forward:
  "nfs4_refresh_open_old_stateid_loop i dst status ws c = Some (c', dst', True) \<Longrightarrow>
     other dst' = other dst \<and> s32_after (seqid dst') (seqid dst)"
proof (induction ws arbitrary: status c)
  case Nil
  then show ?case
    by (auto simp: nfs4_refresh_open_old_stateid_loop.simps [of i dst status "[]" c] Let_def
        split: if_splits)
next
  case (Cons w ws)
  obtain r others where w: "w = (r, others)" by (cases w)
  let ?status = "case r of Fatal_Signal \<Rightarrow> - EINTR | Woken_Up \<Rightarrow> 0 | Timed_Out \<Rightarrow> status"
  note eq = nfs4_refresh_open_old_stateid_loop.simps [of i dst status "w # ws" c]
  show ?case
  proof (cases "?status = 0")
    case True
    then show ?thesis using Cons.prems [unfolded eq] Cons.IH
      by (auto simp: w Let_def split: if_splits)
  next
    case False
    then show ?thesis using Cons.prems [unfolded eq] s32_after_succ
      by (auto simp: w Let_def split: if_splits)
  qed
qed

text \<open>
  When \<open>nfs4_refresh_open_old_stateid\<close> asks its caller to retry, the caller's stateid has
  moved strictly forward: same \<open>other\<close>, and a sequence number that is ahead of the old one in
  the circular order. A retry therefore never repeats the request that the server refused.
\<close>

lemma nfs4_refresh_open_old_stateid_forward:
  assumes "nfs4_refresh_open_old_stateid i dst ws c = Some (c', dst', True)"
  shows "other dst' = other dst \<and> s32_after (seqid dst') (seqid dst)"
  using assms unfolding nfs4_refresh_open_old_stateid_def by (rule nfs4_refresh_loop_forward)

text \<open>
  C40: A wait that lost its time limit. The loop gives up after five seconds without news, but
  the variable that records how the sleep ended is only initialised once: after one wake-up
  that did not bring the update, every later sleep that runs into the time limit is taken for a
  wake-up as well, and the function keeps waiting for any number of time-outs.
\<close>

theorem nfs4_refresh_open_old_stateid_no_timeout:
  assumes "nfs4_valid_open_stateid (st_heap c i)"
    "nfs4_state_match_open_stateid_other (st_heap c i) dst"
    "\<not> s32_after (seqid (st_open_stateid (st_heap c i))) (seqid dst)"
  shows "nfs4_refresh_open_old_stateid i dst ((Woken_Up, id) # replicate n (Timed_Out, id)) c = None"
proof -
  have same: "nfs4_valid_open_stateid (st_heap (upd_st i (set_st NFS_STATE_CHANGE_WAIT) c) i) =
        nfs4_valid_open_stateid (st_heap c i)"
    "nfs4_state_match_open_stateid_other (st_heap (upd_st i (set_st NFS_STATE_CHANGE_WAIT) c) i) dst =
        nfs4_state_match_open_stateid_other (st_heap c i) dst"
    "st_open_stateid (st_heap (upd_st i (set_st NFS_STATE_CHANGE_WAIT) c) i) =
        st_open_stateid (st_heap c i)" for c
    by (simp_all add: set_st_def nfs4_valid_open_stateid_def nfs4_state_match_open_stateid_other_def)
  have rest: "nfs4_refresh_open_old_stateid_loop i dst 0 (replicate n (Timed_Out, id)) c = None"
    if "nfs4_valid_open_stateid (st_heap c i)"
      "nfs4_state_match_open_stateid_other (st_heap c i) dst"
      "\<not> s32_after (seqid (st_open_stateid (st_heap c i))) (seqid dst)" for c
    using that
  proof (induction n arbitrary: c)
    case (Suc n)
    have "nfs4_refresh_open_old_stateid_loop i dst 0 (replicate n (Timed_Out, id))
        (upd_st i (set_st NFS_STATE_CHANGE_WAIT) c) = None"
      by (rule Suc.IH) (use Suc.prems in \<open>simp_all only: same not_False_eq_True\<close>)
    then show ?case using Suc.prems
      by (subst nfs4_refresh_open_old_stateid_loop.simps) (simp add: Let_def)
  qed (simp add: nfs4_refresh_open_old_stateid_loop.simps Let_def)
  have "nfs4_refresh_open_old_stateid_loop i dst 0 (replicate n (Timed_Out, id))
      (upd_st i (set_st NFS_STATE_CHANGE_WAIT) c) = None"
    by (rule rest) (use assms in \<open>simp_all only: same not_False_eq_True\<close>)
  then show ?thesis using assms unfolding nfs4_refresh_open_old_stateid_def
    by (subst nfs4_refresh_open_old_stateid_loop.simps) (simp add: Let_def)
qed

theorem nfs4_refresh_open_old_stateid_no_timeout_witness:
  "nfs4_refresh_open_old_stateid 6 (zero_sid\<lparr>seqid := 1\<rparr>)
     [(Woken_Up, id), (Timed_Out, id), (Timed_Out, id)] ex_open = None \<and>
   nfs4_refresh_open_old_stateid 6 (zero_sid\<lparr>seqid := 1\<rparr>) [(Timed_Out, id)] ex_open \<noteq> None"
proof -
  have ok: "nfs4_valid_open_stateid (st_heap ex_open 6)"
    "nfs4_state_match_open_stateid_other (st_heap ex_open 6) (zero_sid\<lparr>seqid := 1\<rparr>)"
    "\<not> s32_after (seqid (st_open_stateid (st_heap ex_open 6))) (seqid (zero_sid\<lparr>seqid := 1\<rparr>))"
    by (simp_all add: nfs4_valid_open_stateid_def nfs4_state_match_open_stateid_other_def
        nfs4_stateid_match_other_def)
  have "nfs4_refresh_open_old_stateid 6 (zero_sid\<lparr>seqid := 1\<rparr>) [(Timed_Out, id)] ex_open \<noteq> None"
    using ok by (simp add: nfs4_refresh_open_old_stateid_def Let_def
        nfs4_refresh_open_old_stateid_loop.simps)
  then show ?thesis using nfs4_refresh_open_old_stateid_no_timeout [OF ok, of 2]
    by (simp add: numeral_2_eq_2)
qed

end
