(* ===== verification/Nfs4_Delegation.thy ===== *)
theory Nfs4_Delegation
  imports Nfs4_Open_State
begin

text \<open>
  File delegations, \<open>src/mynfs/delegation.c\<close>: granting, updating, revoking and detaching a delegation,
  the marks that ask for its return, and the walks of the state manager over the delegations of
  a client.

  What the kernel and the server decide is the record \<open>deleg_env\<close>: whether memory and inode
  references can be had, how the credentials compare, the result of \<open>break_lease\<close>, the status of a
  DELEGRETURN call and of the test of an expired stateid, which may also give the stateid another
  type and may find out that the server rebooted, and then raises flags of the client. A
  DELEGRETURN that is sent is appended to \<open>sent_delegreturns\<close>, a tested stateid to \<open>tested_stateids\<close>; the
  completion of a DELEGRETURN is \<open>nfs_delegation_mark_returned\<close>. The \<open>rcu\<close> read sections and
  spin locks make each of the functions below see a consistent store.
\<close>

section \<open>Parameters\<close>

record deleg_env =
  de_kthread :: int
  de_kmalloc :: "nat option"
  de_igrab :: "nat \<Rightarrow> bool"
  de_sb_active :: "nat \<Rightarrow> bool"
  de_ctx_get :: "nat \<Rightarrow> bool"
  de_get_cred :: "nat \<Rightarrow> bool"
  de_cred_fscmp :: "nat \<Rightarrow> nat \<Rightarrow> int"
  de_break_lease :: int
  de_delegreturn :: "nat \<Rightarrow> int"
  de_test_free :: "nfs4_stateid \<Rightarrow> nfs4_stateid \<times> int \<times> nfs4_client_state set"
  de_compare_fh :: "nat \<Rightarrow> nat \<Rightarrow> bool"

datatype (plugins only: code) open_delegation_type =
    NFS4_OPEN_DELEGATE_NONE | NFS4_OPEN_DELEGATE_READ | NFS4_OPEN_DELEGATE_WRITE
  | NFS4_OPEN_DELEGATE_NONE_EXT | NFS4_OPEN_DELEGATE_READ_ATTRS_DELEG
  | NFS4_OPEN_DELEGATE_WRITE_ATTRS_DELEG

definition attrs_deleg :: "open_delegation_type \<Rightarrow> bool" where
  "attrs_deleg t \<longleftrightarrow> t = NFS4_OPEN_DELEGATE_READ_ATTRS_DELEG \<or> t = NFS4_OPEN_DELEGATE_WRITE_ATTRS_DELEG"

section \<open>References and marks\<close>

definition free_delegation_struct :: "nat \<Rightarrow> nfs4_clnt \<Rightarrow> nfs4_clnt" where
  "free_delegation_struct d c = c\<lparr>freed_delegs := insert d (freed_delegs c)\<rparr>"

definition nfs_clear_verifier_delegated :: "nat option \<Rightarrow> nfs4_clnt \<Rightarrow> nfs4_clnt" where
  "nfs_clear_verifier_delegated ino c =
     (case ino of None \<Rightarrow> c | Some i \<Rightarrow> upd_ino i (\<lambda>x. x\<lparr>i_verifier_delegated := False\<rparr>) c)"

definition nfs_mark_delegation_revoked :: "nat \<Rightarrow> nfs4_clnt \<Rightarrow> nfs4_clnt" where
  "nfs_mark_delegation_revoked d c =
     (if NFS_DELEGATION_REVOKED \<in> dl_flags (dl_heap c d) then c
      else
        let c = upd_dl d (set_dl NFS_DELEGATION_REVOKED) c;
            c = upd_dl d (\<lambda>x. x\<lparr>dl_stateid := (dl_stateid x)\<lparr>sid_type := NFS4_INVALID_STATEID_TYPE\<rparr>\<rparr>) c;
            c = c\<lparr>nfs_active_delegations := nfs_active_delegations c - 1\<rparr>
        in if NFS_DELEGATION_RETURNING \<notin> dl_flags (dl_heap c d)
           then nfs_clear_verifier_delegated (dl_inode (dl_heap c d)) c else c)"

definition nfs_get_delegation :: "nat \<Rightarrow> nfs4_clnt \<Rightarrow> nfs4_clnt" where
  "nfs_get_delegation d c = upd_dl d (\<lambda>x. x\<lparr>dl_refcount := dl_refcount x + 1\<rparr>) c"

definition nfs_put_delegation :: "nat \<Rightarrow> nfs4_clnt \<Rightarrow> nfs4_clnt" where
  "nfs_put_delegation d c =
     (let c = upd_dl d (\<lambda>x. x\<lparr>dl_refcount := dl_refcount x - 1\<rparr>) c
      in if dl_refcount (dl_heap c d) = 0 then free_delegation_struct d c else c)"

definition nfs_free_delegation :: "nat \<Rightarrow> nfs4_clnt \<Rightarrow> nfs4_clnt" where
  "nfs_free_delegation d c = nfs_put_delegation d (nfs_mark_delegation_revoked d c)"

definition nfs_mark_delegation_referenced :: "nat \<Rightarrow> nfs4_clnt \<Rightarrow> nfs4_clnt" where
  "nfs_mark_delegation_referenced d c = upd_dl d (set_dl NFS_DELEGATION_REFERENCED) c"

definition nfs_mark_return_delegation :: "nat \<Rightarrow> nat \<Rightarrow> nfs4_clnt \<Rightarrow> nfs4_clnt" where
  "nfs_mark_return_delegation s d c =
     set_cl NFS4CLNT_DELEGRETURN
       (upd_sv s (set_sv NFS4SERV_DELEGRETURN) (upd_dl d (set_dl NFS_DELEGATION_RETURN) c))"

definition nfs4_is_valid_delegation :: "nfs_delegation \<Rightarrow> fmode \<Rightarrow> bool" where
  "nfs4_is_valid_delegation x type \<longleftrightarrow>
     dl_type x \<inter> type = type \<and> NFS_DELEGATION_REVOKED \<notin> dl_flags x \<and>
     NFS_DELEGATION_RETURNING \<notin> dl_flags x"

definition nfs4_get_valid_delegation :: "nat \<Rightarrow> nfs4_clnt \<Rightarrow> nat option" where
  "nfs4_get_valid_delegation i c =
     (case i_delegation (ino_heap c i) of
        None \<Rightarrow> None
      | Some d \<Rightarrow> if nfs4_is_valid_delegation (dl_heap c d) {} then Some d else None)"

definition nfs4_do_check_delegation ::
  "nat \<Rightarrow> fmode \<Rightarrow> bool \<Rightarrow> bool \<Rightarrow> nfs4_clnt \<Rightarrow> nfs4_clnt \<times> bool" where
  "nfs4_do_check_delegation i type flag_time mark c =
     (let type = type \<inter> FMODE_RW in
      case i_delegation (ino_heap c i) of
        None \<Rightarrow> (c, False)
      | Some d \<Rightarrow>
          if nfs4_is_valid_delegation (dl_heap c d) type
          then (if mark then nfs_mark_delegation_referenced d c else c,
                \<not> (flag_time \<and> NFS_DELEGATION_DELEGTIME \<notin> dl_flags (dl_heap c d)))
          else (c, False))"

definition nfs4_have_delegation :: "nat \<Rightarrow> fmode \<Rightarrow> bool \<Rightarrow> nfs4_clnt \<Rightarrow> nfs4_clnt \<times> bool" where
  "nfs4_have_delegation i type flag_time c = nfs4_do_check_delegation i type flag_time True c"

definition nfs4_check_delegation :: "nat \<Rightarrow> fmode \<Rightarrow> nfs4_clnt \<Rightarrow> nfs4_clnt \<times> bool" where
  "nfs4_check_delegation i type c = nfs4_do_check_delegation i type False False c"

definition can_open_delegated ::
  "nat option \<Rightarrow> fmode \<Rightarrow> open_claim_type4 \<Rightarrow> nfs4_clnt \<Rightarrow> nfs4_clnt \<times> bool" where
  "can_open_delegated deleg fmode claim c =
     (case deleg of
        None \<Rightarrow> (c, False)
      | Some d \<Rightarrow>
          if dl_type (dl_heap c d) \<inter> fmode \<noteq> fmode then (c, False)
          else if claim = NFS4_OPEN_CLAIM_NULL \<or> claim = NFS4_OPEN_CLAIM_FH \<or>
                  claim = NFS4_OPEN_CLAIM_PREVIOUS \<and>
                  NFS_DELEGATION_NEED_RECLAIM \<notin> dl_flags (dl_heap c d)
          then (nfs_mark_delegation_referenced d c, True)
          else (c, False))"

section \<open>Detaching\<close>

definition nfs_detach_delegation_locked ::
  "nat \<Rightarrow> nat \<Rightarrow> nfs4_clnt \<Rightarrow> nfs4_clnt \<times> nat option" where
  "nfs_detach_delegation_locked i d c =
     (if i_delegation (ino_heap c i) \<noteq> Some d then (c, None)
      else if dl_inode (dl_heap c d) = None then (c, None)
      else
        let s = i_server (ino_heap c i);
            c = upd_sv s (\<lambda>x. x\<lparr>sv_delegations := remove1 d (sv_delegations x)\<rparr>) c;
            c = upd_dl d (\<lambda>x. x\<lparr>dl_inode := None\<rparr>) c;
            c = upd_ino i (\<lambda>x. x\<lparr>i_delegation := None\<rparr>) c
        in (c, Some d))"

definition nfs_detach_delegation :: "nat \<Rightarrow> nat \<Rightarrow> nfs4_clnt \<Rightarrow> nfs4_clnt \<times> nat option" where
  "nfs_detach_delegation i d c = nfs_detach_delegation_locked i d c"

definition nfs_inode_detach_delegation :: "nat \<Rightarrow> nfs4_clnt \<Rightarrow> nfs4_clnt \<times> nat option" where
  "nfs_inode_detach_delegation i c =
     (case i_delegation (ino_heap c i) of
        None \<Rightarrow> (c, None)
      | Some d \<Rightarrow> nfs_detach_delegation i d c)"

definition nfs_update_delegation_cred :: "deleg_env \<Rightarrow> nat \<Rightarrow> nfs_delegation \<Rightarrow> nfs_delegation" where
  "nfs_update_delegation_cred e cred x =
     (if de_cred_fscmp e (dl_cred x) cred \<noteq> 0 then x\<lparr>dl_cred := cred\<rparr> else x)"

definition nfs_update_inplace_delegation ::
  "deleg_env \<Rightarrow> nat \<Rightarrow> nfs_delegation \<Rightarrow> nfs4_clnt \<Rightarrow> nfs4_clnt" where
  "nfs_update_inplace_delegation e d update c =
     (if nfs4_stateid_is_newer (dl_stateid update) (dl_stateid (dl_heap c d))
      then
        let c = upd_dl d (\<lambda>x. x\<lparr>dl_stateid := (dl_stateid x)\<lparr>seqid := seqid (dl_stateid update)\<rparr>,
                                dl_type := dl_type update,
                                pagemod_limit := pagemod_limit update\<rparr>) c
        in if NFS_DELEGATION_REVOKED \<in> dl_flags (dl_heap c d)
           then
             let c = upd_dl d (\<lambda>x. x\<lparr>dl_change_attr := dl_change_attr update\<rparr>) c;
                 c = upd_dl d (nfs_update_delegation_cred e (dl_cred update)) c;
                 c = upd_dl d (clear_dl NFS_DELEGATION_REVOKED) c
             in c\<lparr>nfs_active_delegations := nfs_active_delegations c + 1\<rparr>
           else c
      else c)"

definition nfs_do_return_delegation ::
  "deleg_env \<Rightarrow> nat \<Rightarrow> nfs4_clnt \<Rightarrow> nfs4_clnt \<times> int" where
  "nfs_do_return_delegation e d c =
     (if NFS_DELEGATION_REVOKED \<notin> dl_flags (dl_heap c d)
      then (c\<lparr>sent_delegreturns := sent_delegreturns c @ [dl_stateid (dl_heap c d)]\<rparr>,
            de_delegreturn e d)
      else (c, 0))"

section \<open>Granting\<close>

definition nfs_new_delegation ::
  "nat \<Rightarrow> nat \<Rightarrow> fmode \<Rightarrow> nfs4_stateid \<Rightarrow> ulong \<Rightarrow> open_delegation_type \<Rightarrow> u64 \<Rightarrow> nfs_delegation" where
  "nfs_new_delegation i cred type sid limit deleg_type iversion =
     \<lparr>dl_cred = cred, dl_inode = Some i, dl_stateid = sid, dl_type = type, pagemod_limit = limit,
      dl_change_attr = iversion, test_gen = 0,
      dl_flags = insert NFS_DELEGATION_REFERENCED
                   (if attrs_deleg deleg_type then {NFS_DELEGATION_DELEGTIME} else {}),
      dl_refcount = 1\<rparr>"

text \<open>The label \<open>add_new\<close> of \<open>nfs_inode_set_delegation\<close>: the new delegation takes its place.\<close>

definition nfs_add_delegation ::
  "nat \<Rightarrow> nat \<Rightarrow> open_delegation_type \<Rightarrow> nfs4_clnt \<Rightarrow> nfs4_clnt" where
  "nfs_add_delegation i d deleg_type c =
     (let c = (if i_invalid_change (ino_heap c i)
               then upd_ino i (\<lambda>x. x\<lparr>i_cache_dropped := True\<rparr>) c else c);
          c = upd_sv (i_server (ino_heap c i)) (\<lambda>x. x\<lparr>sv_delegations := sv_delegations x @ [d]\<rparr>) c;
          c = upd_ino i (\<lambda>x. x\<lparr>i_delegation := Some d\<rparr>) c;
          c = c\<lparr>nfs_active_delegations := nfs_active_delegations c + 1\<rparr>
      in if deleg_type = NFS4_OPEN_DELEGATE_WRITE_ATTRS_DELEG \<and> i_have_writebacks (ino_heap c i)
         then upd_ino i (\<lambda>x. x\<lparr>i_mtime_updated := True\<rparr>) c else c)"

definition nfs_return_and_free :: "deleg_env \<Rightarrow> nat \<Rightarrow> nfs4_clnt \<Rightarrow> nfs4_clnt" where
  "nfs_return_and_free e d c = nfs_free_delegation d (fst (nfs_do_return_delegation e d c))"

text \<open>The part under the client's lock, with the new delegation in \<open>d\<close>.\<close>

definition nfs_place_delegation ::
  "deleg_env \<Rightarrow> nat \<Rightarrow> nat \<Rightarrow> open_delegation_type \<Rightarrow> nfs4_clnt \<Rightarrow> nfs4_clnt" where
  "nfs_place_delegation e i d deleg_type c =
     (case i_delegation (ino_heap c i) of
        None \<Rightarrow> nfs_add_delegation i d deleg_type c
      | Some old \<Rightarrow>
          let x = dl_heap c old; new = dl_heap c d in
          if nfs4_stateid_match_other (dl_stateid x) (dl_stateid new)
          then free_delegation_struct d (nfs_update_inplace_delegation e old new c)
          else if NFS_DELEGATION_REVOKED \<notin> dl_flags x \<and>
                  (dl_type new = dl_type x \<or> FMODE_WRITE \<notin> dl_type new)
          then nfs_return_and_free e d c
          else if NFS_DELEGATION_REVOKED \<notin> dl_flags x \<and> NFS_DELEGATION_RETURNING \<in> dl_flags x
          then free_delegation_struct d c
          else
            let c = (if NFS_DELEGATION_REVOKED \<notin> dl_flags x
                     then upd_dl old (set_dl NFS_DELEGATION_RETURNING) c else c) in
            case nfs_detach_delegation_locked i old c of
              (c, None) \<Rightarrow> free_delegation_struct d c
            | (c, Some old) \<Rightarrow> nfs_return_and_free e old (nfs_add_delegation i d deleg_type c))"

definition nfs_inode_set_delegation ::
  "deleg_env \<Rightarrow> nat \<Rightarrow> nat \<Rightarrow> fmode \<Rightarrow> nfs4_stateid \<Rightarrow> ulong \<Rightarrow> open_delegation_type \<Rightarrow> nfs4_clnt \<Rightarrow>
   nfs4_clnt \<times> int" where
  "nfs_inode_set_delegation e i cred type sid limit deleg_type c =
     (case de_kmalloc e of
        None \<Rightarrow> (c, - ENOMEM)
      | Some d \<Rightarrow>
          let new = nfs_new_delegation i cred type sid limit deleg_type (i_iversion (ino_heap c i))
          in (nfs_place_delegation e i d deleg_type (upd_dl d (\<lambda>_. new) c), 0))"

definition nfs_inode_reclaim_delegation ::
  "deleg_env \<Rightarrow> nat \<Rightarrow> nat \<Rightarrow> fmode \<Rightarrow> nfs4_stateid \<Rightarrow> ulong \<Rightarrow> open_delegation_type \<Rightarrow> nfs4_clnt \<Rightarrow>
   nfs4_clnt" where
  "nfs_inode_reclaim_delegation e i cred type sid limit deleg_type c =
     (case i_delegation (ino_heap c i) of
        None \<Rightarrow> fst (nfs_inode_set_delegation e i cred type sid limit deleg_type c)
      | Some d \<Rightarrow>
          let c = upd_dl d (\<lambda>x. x\<lparr>dl_stateid := sid, dl_type := type, pagemod_limit := limit,
                                  dl_cred := cred\<rparr>) c;
              c = upd_dl d (if attrs_deleg deleg_type then set_dl NFS_DELEGATION_DELEGTIME
                            else clear_dl NFS_DELEGATION_DELEGTIME) c;
              c = upd_dl d (clear_dl NFS_DELEGATION_NEED_RECLAIM) c
          in if NFS_DELEGATION_REVOKED \<in> dl_flags (dl_heap c d)
             then let c = upd_dl d (clear_dl NFS_DELEGATION_REVOKED) c
                  in c\<lparr>nfs_active_delegations := nfs_active_delegations c + 1\<rparr>
             else c)"

section \<open>Returning\<close>

definition nfs_delegation_grab_inode :: "deleg_env \<Rightarrow> nat \<Rightarrow> nfs4_clnt \<Rightarrow> nfs4_clnt \<times> nat option" where
  "nfs_delegation_grab_inode e d c =
     (case dl_inode (dl_heap c d) of
        Some i \<Rightarrow>
          if de_igrab e i then (c, Some i)
          else (upd_dl d (set_dl NFS_DELEGATION_INODE_FREEING) c, None)
      | None \<Rightarrow> (upd_dl d (set_dl NFS_DELEGATION_INODE_FREEING) c, None))"

definition nfs_start_delegation_return_locked :: "nat \<Rightarrow> nfs4_clnt \<Rightarrow> nfs4_clnt \<times> nat option" where
  "nfs_start_delegation_return_locked i c =
     (case i_delegation (ino_heap c i) of
        None \<Rightarrow> (c, None)
      | Some d \<Rightarrow>
          if dl_inode (dl_heap c d) \<noteq> None \<and> NFS_DELEGATION_RETURNING \<notin> dl_flags (dl_heap c d)
          then
            let c = upd_dl d (set_dl NFS_DELEGATION_RETURNING) c;
                c = upd_dl d (clear_dl NFS_DELEGATION_RETURN_DELAYED) c;
                c = nfs_get_delegation d c
            in (nfs_clear_verifier_delegated (Some i) c, Some d)
          else (c, None))"

definition nfs_start_delegation_return :: "nat \<Rightarrow> nfs4_clnt \<Rightarrow> nfs4_clnt \<times> nat option" where
  "nfs_start_delegation_return i c = nfs_start_delegation_return_locked i c"

definition nfs_abort_delegation_return :: "nat \<Rightarrow> nat \<Rightarrow> int \<Rightarrow> nfs4_clnt \<Rightarrow> nfs4_clnt" where
  "nfs_abort_delegation_return d s err c =
     (let c = upd_dl d (clear_dl NFS_DELEGATION_RETURNING) c in
      if err = - EAGAIN
      then set_cl NFS4CLNT_DELEGRETURN_DELAYED
             (upd_sv s (set_sv NFS4SERV_DELEGRETURN_DELAYED)
               (upd_dl d (set_dl NFS_DELEGATION_RETURN_DELAYED) c))
      else c)"

text \<open>
  Before a delegation goes back, the opens and locks that only exist locally are claimed from the
  server: \<open>open_recall\<close> and \<open>lock_recall\<close> stand for \<open>nfs4_open_delegation_recall\<close> and
  \<open>nfs4_lock_delegation_recall\<close>, which send OPEN and LOCK and return a status. The walk over the
  open contexts starts again after every claim, so that it ends only if claiming a state makes
  it stop being a candidate.
\<close>

fun nfs_delegation_claim_lock_list ::
  "(nat \<Rightarrow> nat \<Rightarrow> nfs4_clnt \<Rightarrow> nfs4_clnt \<times> int) \<Rightarrow> nat \<Rightarrow> file_lock list \<Rightarrow> nfs4_clnt \<times> int \<Rightarrow>
   nfs4_clnt \<times> int" where
  "nfs_delegation_claim_lock_list lock_recall st [] r = r"
| "nfs_delegation_claim_lock_list lock_recall st (fl # fls) (c, status) =
     (if fl_state fl \<noteq> st then nfs_delegation_claim_lock_list lock_recall st fls (c, status)
      else case lock_recall (fl_id fl) st c of
             (c, status) \<Rightarrow>
               if status < 0 then (c, status)
               else nfs_delegation_claim_lock_list lock_recall st fls (c, status))"

definition nfs_delegation_claim_locks ::
  "(nat \<Rightarrow> nat \<Rightarrow> nfs4_clnt \<Rightarrow> nfs4_clnt \<times> int) \<Rightarrow> nat \<Rightarrow> nfs4_clnt \<Rightarrow> nfs4_clnt \<times> int" where
  "nfs_delegation_claim_locks lock_recall st c =
     (case i_flc (ino_heap c (st_inode (st_heap c st))) of
        None \<Rightarrow> (c, 0)
      | Some (posix, flock) \<Rightarrow>
          (case nfs_delegation_claim_lock_list lock_recall st posix (c, 0) of
             (c, status) \<Rightarrow>
               if status < 0 then (c, status)
               else nfs_delegation_claim_lock_list lock_recall st flock (c, status)))"

definition deleg_claimable :: "deleg_env \<Rightarrow> nfs4_stateid \<Rightarrow> nfs4_clnt \<Rightarrow> nat \<Rightarrow> bool" where
  "deleg_claimable e sid c x =
     (case ctx_state (ctx_heap c x) of
        None \<Rightarrow> False
      | Some st \<Rightarrow>
          NFS_DELEGATED_STATE \<in> st_flags (st_heap c st) \<and>
          nfs4_valid_open_stateid (st_heap c st) \<and>
          nfs4_stateid_match (st_stateid (st_heap c st)) sid \<and> de_ctx_get e x)"

partial_function (option) nfs_delegation_claim_opens ::
  "deleg_env \<Rightarrow> (nat \<Rightarrow> nat \<Rightarrow> nfs4_clnt \<Rightarrow> nfs4_clnt \<times> int) \<Rightarrow>
   (nat \<Rightarrow> nat \<Rightarrow> nfs4_clnt \<Rightarrow> nfs4_clnt \<times> int) \<Rightarrow> nat \<Rightarrow> nfs4_stateid \<Rightarrow> nfs4_clnt \<Rightarrow>
   (nfs4_clnt \<times> int) option" where
  "nfs_delegation_claim_opens e open_recall lock_recall i sid c =
     (case List.find (deleg_claimable e sid c) (i_open_files (ino_heap c i)) of
        None \<Rightarrow> Some (c, 0)
      | Some x \<Rightarrow>
          let st = the (ctx_state (ctx_heap c x));
              (c, err) = open_recall x st c;
              (c, err) = (if err = 0 then nfs_delegation_claim_locks lock_recall st c else (c, err))
          in if err \<noteq> 0 then Some (c, err)
             else nfs_delegation_claim_opens e open_recall lock_recall i sid c)"

text \<open>
  The loop of \<open>nfs_end_delegation_return\<close>. \<open>ws\<close> lists, for every wait on the state manager, its
  result and what happened meanwhile.
\<close>

fun nfs_end_delegation_claim ::
  "deleg_env \<Rightarrow> (nat \<Rightarrow> nat \<Rightarrow> nfs4_clnt \<Rightarrow> nfs4_clnt \<times> int) \<Rightarrow>
   (nat \<Rightarrow> nat \<Rightarrow> nfs4_clnt \<Rightarrow> nfs4_clnt \<times> int) \<Rightarrow> (int \<times> (nfs4_clnt \<Rightarrow> nfs4_clnt)) list \<Rightarrow>
   nat \<Rightarrow> nat \<Rightarrow> bool \<Rightarrow> int \<Rightarrow> nfs4_clnt \<Rightarrow> (nfs4_clnt \<times> int) option" where
  "nfs_end_delegation_claim e open_recall lock_recall ws i d issync err c =
     (if err \<noteq> 0 then Some (c, err)
      else if NFS_DELEGATION_REVOKED \<in> dl_flags (dl_heap c d) then Some (c, err)
      else case nfs_delegation_claim_opens e open_recall lock_recall i (dl_stateid (dl_heap c d)) c of
             None \<Rightarrow> None
           | Some (c, err) \<Rightarrow>
               if \<not> issync \<or> err \<noteq> - EAGAIN then Some (c, err)
               else case ws of
                      [] \<Rightarrow> None
                    | (r, others) # ws \<Rightarrow>
                        nfs_end_delegation_claim e open_recall lock_recall ws i d issync r (others c))"

declare nfs_end_delegation_claim.simps [simp del]

definition nfs_end_delegation_return ::
  "deleg_env \<Rightarrow> (nat \<Rightarrow> nat \<Rightarrow> nfs4_clnt \<Rightarrow> nfs4_clnt \<times> int) \<Rightarrow>
   (nat \<Rightarrow> nat \<Rightarrow> nfs4_clnt \<Rightarrow> nfs4_clnt \<times> int) \<Rightarrow> (int \<times> (nfs4_clnt \<Rightarrow> nfs4_clnt)) list \<Rightarrow>
   nat \<Rightarrow> nat option \<Rightarrow> bool \<Rightarrow> nfs4_clnt \<Rightarrow> (nfs4_clnt \<times> int) option" where
  "nfs_end_delegation_return e open_recall lock_recall ws i deleg issync c =
     (case deleg of
        None \<Rightarrow> Some (c, 0)
      | Some d \<Rightarrow>
          (case nfs_end_delegation_claim e open_recall lock_recall ws i d issync (de_break_lease e) c of
             None \<Rightarrow> None
           | Some (c, err) \<Rightarrow>
               if err \<noteq> 0
               then Some (nfs_put_delegation d
                            (nfs_abort_delegation_return d (i_server (ino_heap c i)) err c), err)
               else case nfs_do_return_delegation e d c of
                      (c, err) \<Rightarrow> Some (nfs_put_delegation d c, err)))"

definition nfs_delegation_need_return :: "nat \<Rightarrow> nfs4_clnt \<Rightarrow> nfs4_clnt \<times> bool" where
  "nfs_delegation_need_return d c =
     (let ret = NFS_DELEGATION_RETURN \<in> dl_flags (dl_heap c d);
          c = upd_dl d (clear_dl NFS_DELEGATION_RETURN) c;
          fl = dl_flags (dl_heap c d)
      in (c, ret \<and> \<not> (NFS_DELEGATION_RETURNING \<in> fl \<or> NFS_DELEGATION_RETURN_DELAYED \<in> fl \<or>
                      NFS_DELEGATION_REVOKED \<in> fl)))"

definition nfs_server_clear_delayed_delegations :: "nat \<Rightarrow> nfs4_clnt \<Rightarrow> nfs4_clnt \<times> bool" where
  "nfs_server_clear_delayed_delegations s c =
     (if NFS4SERV_DELEGRETURN_DELAYED \<notin> sv_delegation_flags (sv_heap c s) then (c, False)
      else
        fold (\<lambda>d (c, ret).
                if NFS_DELEGATION_RETURN_DELAYED \<notin> dl_flags (dl_heap c d) then (c, ret)
                else (upd_dl d (clear_dl NFS_DELEGATION_RETURN_DELAYED)
                        (nfs_mark_return_delegation s d c), True))
          (sv_delegations (sv_heap c s))
          (upd_sv s (clear_sv NFS4SERV_DELEGRETURN_DELAYED) c, False))"

definition nfs_client_clear_delayed_delegations :: "nfs4_clnt \<Rightarrow> nfs4_clnt \<times> bool" where
  "nfs_client_clear_delayed_delegations c =
     (if NFS4CLNT_DELEGRETURN_DELAYED \<notin> cl_state c then (c, False)
      else
        fold (\<lambda>s (c, ret). case nfs_server_clear_delayed_delegations s c of
                             (c, b) \<Rightarrow> (c, if b then True else ret))
          (cl_superblocks c) (clear_cl NFS4CLNT_DELEGRETURN_DELAYED c, False))"

definition nfs_inode_evict_delegation :: "deleg_env \<Rightarrow> nat \<Rightarrow> nfs4_clnt \<Rightarrow> nfs4_clnt" where
  "nfs_inode_evict_delegation e i c =
     (case nfs_inode_detach_delegation i c of
        (c, None) \<Rightarrow> c
      | (c, Some d) \<Rightarrow>
          let c = upd_dl d (set_dl NFS_DELEGATION_RETURNING) c;
              c = upd_dl d (set_dl NFS_DELEGATION_INODE_FREEING) c
          in nfs_return_and_free e d c)"

definition nfs4_inode_return_delegation ::
  "deleg_env \<Rightarrow> (nat \<Rightarrow> nat \<Rightarrow> nfs4_clnt \<Rightarrow> nfs4_clnt \<times> int) \<Rightarrow>
   (nat \<Rightarrow> nat \<Rightarrow> nfs4_clnt \<Rightarrow> nfs4_clnt \<times> int) \<Rightarrow> (int \<times> (nfs4_clnt \<Rightarrow> nfs4_clnt)) list \<Rightarrow>
   nat \<Rightarrow> nfs4_clnt \<Rightarrow> (nfs4_clnt \<times> int) option" where
  "nfs4_inode_return_delegation e open_recall lock_recall ws i c =
     (case nfs_start_delegation_return i c of
        (c, None) \<Rightarrow> Some (c, 0)
      | (c, Some d) \<Rightarrow> nfs_end_delegation_return e open_recall lock_recall ws i (Some d) True c)"
  \<comment> \<open>between the two: \<open>break_lease\<close> and, for a regular file, the write-back of its pages\<close>

text \<open>
  The two functions that look at the closing of a file. What they compute under the
  delegation's lock, before the common \<open>nfs_end_delegation_return\<close>.
\<close>

definition nfs4_set_return_on_close :: "nat \<Rightarrow> nfs4_clnt \<Rightarrow> nfs4_clnt \<times> nat option" where
  "nfs4_set_return_on_close i c =
     (case nfs4_get_valid_delegation i c of
        None \<Rightarrow> (c, None)
      | Some d \<Rightarrow>
          if dl_inode (dl_heap c d) = None then (c, None)
          else if i_open_files (ino_heap c i) = [] \<and>
                  NFS_DELEGATION_RETURNING \<notin> dl_flags (dl_heap c d)
          then (nfs_clear_verifier_delegated (Some i)
                  (nfs_get_delegation d (upd_dl d (set_dl NFS_DELEGATION_RETURNING) c)), Some d)
          else (upd_dl d (set_dl NFS_DELEGATION_RETURN_IF_CLOSED) c, None))"

definition nfs4_inode_set_return_delegation_on_close ::
  "deleg_env \<Rightarrow> (nat \<Rightarrow> nat \<Rightarrow> nfs4_clnt \<Rightarrow> nfs4_clnt \<times> int) \<Rightarrow>
   (nat \<Rightarrow> nat \<Rightarrow> nfs4_clnt \<Rightarrow> nfs4_clnt \<times> int) \<Rightarrow> nat option \<Rightarrow> nfs4_clnt \<Rightarrow> nfs4_clnt option" where
  "nfs4_inode_set_return_delegation_on_close e open_recall lock_recall ino c =
     (case ino of
        None \<Rightarrow> Some c
      | Some i \<Rightarrow>
          (case nfs4_set_return_on_close i c of
             (c, ret) \<Rightarrow>
               map_option fst (nfs_end_delegation_return e open_recall lock_recall [] i ret False c)))"

definition nfs4_return_on_close :: "nat \<Rightarrow> nfs4_clnt \<Rightarrow> nfs4_clnt \<times> nat option" where
  "nfs4_return_on_close i c =
     (case nfs4_get_valid_delegation i c of
        None \<Rightarrow> (c, None)
      | Some d \<Rightarrow>
          if NFS_DELEGATION_RETURN_IF_CLOSED \<in> dl_flags (dl_heap c d) \<or>
             nfs_active_delegations c \<ge> nfs_delegation_watermark c
          then
            if dl_inode (dl_heap c d) \<noteq> None \<and> i_open_files (ino_heap c i) = [] \<and>
               NFS_DELEGATION_RETURNING \<notin> dl_flags (dl_heap c d)
            then
              let c = upd_dl d (set_dl NFS_DELEGATION_RETURNING) c;
                  c = upd_dl d (clear_dl NFS_DELEGATION_RETURN_IF_CLOSED) c
              in (nfs_clear_verifier_delegated (Some i) (nfs_get_delegation d c), Some d)
            else (c, None)
          else (c, None))"

definition nfs4_inode_return_delegation_on_close ::
  "deleg_env \<Rightarrow> (nat \<Rightarrow> nat \<Rightarrow> nfs4_clnt \<Rightarrow> nfs4_clnt \<times> int) \<Rightarrow>
   (nat \<Rightarrow> nat \<Rightarrow> nfs4_clnt \<Rightarrow> nfs4_clnt \<times> int) \<Rightarrow> nat option \<Rightarrow> nfs4_clnt \<Rightarrow> nfs4_clnt option" where
  "nfs4_inode_return_delegation_on_close e open_recall lock_recall ino c =
     (case ino of
        None \<Rightarrow> Some c
      | Some i \<Rightarrow>
          (case nfs4_return_on_close i c of
             (c, ret) \<Rightarrow>
               map_option fst (nfs_end_delegation_return e open_recall lock_recall [] i ret False c)))"

definition nfs4_inode_make_writeable ::
  "deleg_env \<Rightarrow> (nat \<Rightarrow> nat \<Rightarrow> nfs4_clnt \<Rightarrow> nfs4_clnt \<times> int) \<Rightarrow>
   (nat \<Rightarrow> nat \<Rightarrow> nfs4_clnt \<Rightarrow> nfs4_clnt \<times> int) \<Rightarrow> (int \<times> (nfs4_clnt \<Rightarrow> nfs4_clnt)) list \<Rightarrow>
   nat \<Rightarrow> nfs4_clnt \<Rightarrow> (nfs4_clnt \<times> int) option" where
  "nfs4_inode_make_writeable e open_recall lock_recall ws i c =
     (case nfs4_get_valid_delegation i c of
        None \<Rightarrow> Some (c, 0)
      | Some d \<Rightarrow>
          if cl_has_session c \<and> FMODE_WRITE \<in> dl_type (dl_heap c d) then Some (c, 0)
          else nfs4_inode_return_delegation e open_recall lock_recall ws i c)"

definition nfs4_return_incompatible_delegation ::
  "deleg_env \<Rightarrow> (nat \<Rightarrow> nat \<Rightarrow> nfs4_clnt \<Rightarrow> nfs4_clnt \<times> int) \<Rightarrow>
   (nat \<Rightarrow> nat \<Rightarrow> nfs4_clnt \<Rightarrow> nfs4_clnt \<times> int) \<Rightarrow> (int \<times> (nfs4_clnt \<Rightarrow> nfs4_clnt)) list \<Rightarrow>
   nat \<Rightarrow> fmode \<Rightarrow> nfs4_clnt \<Rightarrow> nfs4_clnt option" where
  "nfs4_return_incompatible_delegation e open_recall lock_recall ws i fmode c =
     (case nfs4_get_valid_delegation i c of
        None \<Rightarrow> Some c
      | Some d \<Rightarrow>
          if dl_type (dl_heap c d) \<inter> (fmode \<inter> FMODE_RW) = fmode \<inter> FMODE_RW then Some c
          else map_option fst (nfs4_inode_return_delegation e open_recall lock_recall ws i c))"

section \<open>Asking for returns\<close>

definition nfs_mark_return_if_closed_delegation :: "nat \<Rightarrow> nat \<Rightarrow> nfs4_clnt \<Rightarrow> nfs4_clnt" where
  "nfs_mark_return_if_closed_delegation s d c =
     (let x = dl_heap c d in
      if NFS_DELEGATION_RETURN \<in> dl_flags x \<or> NFS_DELEGATION_RETURN_IF_CLOSED \<in> dl_flags x then c
      else case dl_inode x of
             None \<Rightarrow> c
           | Some i \<Rightarrow>
               if i_open_files (ino_heap c i) = [] then nfs_mark_return_delegation s d c
               else upd_dl d (set_dl NFS_DELEGATION_RETURN_IF_CLOSED) c)"

definition nfs_server_mark_return_all_delegations :: "nat \<Rightarrow> nfs4_clnt \<Rightarrow> nfs4_clnt \<times> bool" where
  "nfs_server_mark_return_all_delegations s c =
     (fold (nfs_mark_return_delegation s) (sv_delegations (sv_heap c s)) c,
      sv_delegations (sv_heap c s) \<noteq> [])"

definition nfs_client_mark_return_all_delegations :: "nfs4_clnt \<Rightarrow> nfs4_clnt" where
  "nfs_client_mark_return_all_delegations c =
     fold (\<lambda>s c. fst (nfs_server_mark_return_all_delegations s c)) (cl_superblocks c) c"

definition nfs_delegation_run_state_manager :: "int \<Rightarrow> nfs4_clnt \<Rightarrow> nfs4_clnt" where
  "nfs_delegation_run_state_manager k c =
     (if NFS4CLNT_DELEGRETURN \<in> cl_state c then nfs4_schedule_state_manager k c else c)"

definition nfs_expire_all_delegations :: "int \<Rightarrow> nfs4_clnt \<Rightarrow> nfs4_clnt" where
  "nfs_expire_all_delegations k c =
     nfs_delegation_run_state_manager k (nfs_client_mark_return_all_delegations c)"

definition nfs_server_return_all_delegations :: "int \<Rightarrow> nat \<Rightarrow> nfs4_clnt \<Rightarrow> nfs4_clnt" where
  "nfs_server_return_all_delegations k s c =
     (case nfs_server_mark_return_all_delegations s c of
        (c, need_wait) \<Rightarrow> if need_wait then nfs4_schedule_state_manager k c else c)"
  \<comment> \<open>and then waits for the state manager\<close>

definition nfs_mark_return_unused_delegation_types :: "fmode \<Rightarrow> nat \<Rightarrow> nfs4_clnt \<Rightarrow> nfs4_clnt" where
  "nfs_mark_return_unused_delegation_types flags s c =
     fold (\<lambda>d c.
             if dl_type (dl_heap c d) = FMODE_RW \<and> FMODE_WRITE \<notin> flags then c
             else if dl_type (dl_heap c d) \<inter> flags \<noteq> {}
             then nfs_mark_return_if_closed_delegation s d c else c)
       (sv_delegations (sv_heap c s)) c"

definition nfs_client_mark_return_unused_delegation_types :: "fmode \<Rightarrow> nfs4_clnt \<Rightarrow> nfs4_clnt" where
  "nfs_client_mark_return_unused_delegation_types flags c =
     fold (nfs_mark_return_unused_delegation_types flags) (cl_superblocks c) c"

definition nfs_expire_unused_delegation_types :: "int \<Rightarrow> fmode \<Rightarrow> nfs4_clnt \<Rightarrow> nfs4_clnt" where
  "nfs_expire_unused_delegation_types k flags c =
     nfs_delegation_run_state_manager k (nfs_client_mark_return_unused_delegation_types flags c)"

definition nfs_mark_return_unreferenced_delegations :: "nat \<Rightarrow> nfs4_clnt \<Rightarrow> nfs4_clnt" where
  "nfs_mark_return_unreferenced_delegations s c =
     fold (\<lambda>d c.
             if NFS_DELEGATION_REFERENCED \<in> dl_flags (dl_heap c d)
             then upd_dl d (clear_dl NFS_DELEGATION_REFERENCED) c
             else nfs_mark_return_if_closed_delegation s d c)
       (sv_delegations (sv_heap c s)) c"

definition nfs_expire_unreferenced_delegations :: "int \<Rightarrow> nfs4_clnt \<Rightarrow> nfs4_clnt" where
  "nfs_expire_unreferenced_delegations k c =
     nfs_delegation_run_state_manager k
       (fold nfs_mark_return_unreferenced_delegations (cl_superblocks c) c)"

text \<open>\<open>match_stateid\<close> is the operation of the minor version.\<close>

definition nfs4_match_stateid :: "nfs4_stateid \<Rightarrow> nfs4_stateid \<Rightarrow> bool" where
  "nfs4_match_stateid s1 s2 = nfs4_stateid_match s1 s2"

definition nfs41_match_stateid :: "nfs4_stateid \<Rightarrow> nfs4_stateid \<Rightarrow> bool" where
  "nfs41_match_stateid s1 s2 =
     (if sid_type s1 \<noteq> sid_type s2 then False
      else if other s1 \<noteq> other s2 then False
      else if seqid s1 = seqid s2 then True
      else seqid s1 = 0 \<or> seqid s2 = 0)"

definition nfs_async_inode_return_delegation ::
  "deleg_env \<Rightarrow> (nfs4_stateid \<Rightarrow> nfs4_stateid \<Rightarrow> bool) \<Rightarrow> nat \<Rightarrow> nfs4_stateid option \<Rightarrow> nfs4_clnt \<Rightarrow>
   nfs4_clnt \<times> int" where
  "nfs_async_inode_return_delegation e match_stateid i sid c =
     (case nfs4_get_valid_delegation i c of
        None \<Rightarrow> (c, - ENOENT)
      | Some d \<Rightarrow>
          if (case sid of None \<Rightarrow> False | Some sid \<Rightarrow> \<not> match_stateid (dl_stateid (dl_heap c d)) sid)
          then (c, - ENOENT)
          else (nfs_delegation_run_state_manager (de_kthread e)
                  (nfs_mark_return_delegation (i_server (ino_heap c i)) d c), 0))"

section \<open>Finding the inode of a recall\<close>

definition nfs_delegation_find_inode_server ::
  "deleg_env \<Rightarrow> nat \<Rightarrow> nat \<Rightarrow> nfs4_clnt \<Rightarrow> int + nat" where
  "nfs_delegation_find_inode_server e s fh c =
     (let matching = \<lambda>d. case dl_inode (dl_heap c d) of
                           None \<Rightarrow> False
                         | Some i \<Rightarrow> NFS_DELEGATION_REVOKED \<notin> dl_flags (dl_heap c d) \<and>
                                     de_compare_fh e fh (i_fh (ino_heap c i))
      in case List.find matching (sv_delegations (sv_heap c s)) of
           None \<Rightarrow> Inl (- ENOENT)
         | Some d \<Rightarrow>
             let i = the (dl_inode (dl_heap c d))
             in if de_sb_active e s \<and> de_igrab e i then Inr i else Inl (- EAGAIN))"

fun nfs_delegation_find_inode_in ::
  "deleg_env \<Rightarrow> nat list \<Rightarrow> nat \<Rightarrow> nfs4_clnt \<Rightarrow> int + nat" where
  "nfs_delegation_find_inode_in e [] fh c = Inl (- ENOENT)"
| "nfs_delegation_find_inode_in e (s # ss) fh c =
     (let res = nfs_delegation_find_inode_server e s fh c
      in if res \<noteq> Inl (- ENOENT) then res else nfs_delegation_find_inode_in e ss fh c)"

definition nfs_delegation_find_inode :: "deleg_env \<Rightarrow> nat \<Rightarrow> nfs4_clnt \<Rightarrow> int + nat" where
  "nfs_delegation_find_inode e fh c = nfs_delegation_find_inode_in e (cl_superblocks c) fh c"

section \<open>Reclaim and expiry\<close>

definition nfs_delegation_mark_reclaim_server :: "nat \<Rightarrow> nfs4_clnt \<Rightarrow> nfs4_clnt" where
  "nfs_delegation_mark_reclaim_server s c =
     fold (\<lambda>d c. if NFS_DELEGATION_TEST_EXPIRED \<in> dl_flags (dl_heap c d) then c
                 else upd_dl d (set_dl NFS_DELEGATION_NEED_RECLAIM) c)
       (sv_delegations (sv_heap c s)) c"

definition nfs_delegation_mark_reclaim :: "nfs4_clnt \<Rightarrow> nfs4_clnt" where
  "nfs_delegation_mark_reclaim c = fold nfs_delegation_mark_reclaim_server (cl_superblocks c) c"

definition nfs_mark_test_expired_delegation :: "nat \<Rightarrow> nat \<Rightarrow> nfs4_clnt \<Rightarrow> nfs4_clnt" where
  "nfs_mark_test_expired_delegation s d c =
     (if sid_type (dl_stateid (dl_heap c d)) = NFS4_INVALID_STATEID_TYPE then c
      else
        let c = upd_dl d (clear_dl NFS_DELEGATION_NEED_RECLAIM) c;
            c = upd_dl d (set_dl NFS_DELEGATION_TEST_EXPIRED) c;
            c = upd_sv s (set_sv NFS4SERV_DELEGATION_EXPIRED) c
        in set_cl NFS4CLNT_DELEGATION_EXPIRED c)"

definition nfs_inode_mark_test_expired_delegation :: "nat \<Rightarrow> nat \<Rightarrow> nfs4_clnt \<Rightarrow> nfs4_clnt" where
  "nfs_inode_mark_test_expired_delegation s i c =
     (case i_delegation (ino_heap c i) of
        None \<Rightarrow> c
      | Some d \<Rightarrow> nfs_mark_test_expired_delegation s d c)"

definition nfs_delegation_mark_test_expired_server :: "nat \<Rightarrow> nfs4_clnt \<Rightarrow> nfs4_clnt" where
  "nfs_delegation_mark_test_expired_server s c =
     fold (nfs_mark_test_expired_delegation s) (sv_delegations (sv_heap c s)) c"

definition nfs_mark_test_expired_all_delegations :: "nfs4_clnt \<Rightarrow> nfs4_clnt" where
  "nfs_mark_test_expired_all_delegations c =
     fold nfs_delegation_mark_test_expired_server (cl_superblocks c) c"

definition nfs_test_expired_all_delegations :: "int \<Rightarrow> nfs4_clnt \<Rightarrow> nfs4_clnt" where
  "nfs_test_expired_all_delegations k c =
     nfs4_schedule_state_manager k (nfs_mark_test_expired_all_delegations c)"

definition nfs_inode_find_delegation_state_and_recover ::
  "int \<Rightarrow> nat \<Rightarrow> nfs4_stateid \<Rightarrow> nfs4_clnt \<Rightarrow> nfs4_clnt" where
  "nfs_inode_find_delegation_state_and_recover k i sid c =
     (case i_delegation (ino_heap c i) of
        None \<Rightarrow> c
      | Some d \<Rightarrow>
          if nfs4_stateid_match_or_older (dl_stateid (dl_heap c d)) sid \<and>
             NFS_DELEGATION_REVOKED \<notin> dl_flags (dl_heap c d)
          then nfs4_schedule_state_manager k
                 (nfs_mark_test_expired_delegation (i_server (ino_heap c i)) d c)
          else c)"

section \<open>Recovering the state that a stateid stands for\<close>

definition nfs_state_find_lock_state_by_stateid ::
  "nfs4_stateid \<Rightarrow> nfs4_clnt \<Rightarrow> nat list \<Rightarrow> nat option" where
  "nfs_state_find_lock_state_by_stateid sid c lsps =
     List.find (\<lambda>l. NFS_LOCK_INITIALIZED \<in> ls_flags (lk_heap c l) \<and>
                    nfs4_stateid_match_or_older (ls_stateid (lk_heap c l)) sid) lsps"

definition nfs_state_lock_state_matches_stateid :: "nat \<Rightarrow> nfs4_stateid \<Rightarrow> nfs4_clnt \<Rightarrow> bool" where
  "nfs_state_lock_state_matches_stateid st sid c \<longleftrightarrow>
     LK_STATE_IN_USE \<in> st_flags (st_heap c st) \<and>
     nfs_state_find_lock_state_by_stateid sid c (lock_states (st_heap c st)) \<noteq> None"

text \<open>One round of the walk over the open contexts of an inode.\<close>

definition nfs_find_state_step ::
  "nfs4_stateid \<Rightarrow> nat \<Rightarrow> nfs4_clnt \<times> bool \<Rightarrow> nfs4_clnt \<times> bool" where
  "nfs_find_state_step sid x r =
     (case r of (c, found) \<Rightarrow>
        case ctx_state (ctx_heap c x) of
          None \<Rightarrow> (c, found)
        | Some st \<Rightarrow>
            if (nfs4_stateid_match_or_older (st_stateid (st_heap c st)) sid \<or>
                NFS_OPEN_STATE \<in> st_flags (st_heap c st) \<and>
                nfs4_stateid_match_or_older (st_open_stateid (st_heap c st)) sid \<or>
                nfs_state_lock_state_matches_stateid st sid c)
            then case nfs4_state_mark_reclaim_nograce st c of (c, b) \<Rightarrow> (c, found \<or> b)
            else (c, found))"

definition nfs_inode_find_state_and_recover ::
  "int \<Rightarrow> nat \<Rightarrow> nfs4_stateid \<Rightarrow> nfs4_clnt \<Rightarrow> nfs4_clnt" where
  "nfs_inode_find_state_and_recover k i sid c =
     (case fold (nfs_find_state_step sid) (i_open_files (ino_heap c i)) (c, False) of
        (c, found) \<Rightarrow>
          let c = nfs_inode_find_delegation_state_and_recover k i sid c
          in if found then nfs4_schedule_state_manager k c else c)"

definition mynfs4_schedule_stateid_recovery :: "int \<Rightarrow> nat \<Rightarrow> nfs4_clnt \<Rightarrow> nfs4_clnt \<times> int" where
  "mynfs4_schedule_stateid_recovery k st c =
     (case nfs4_state_mark_reclaim_nograce st c of
        (c, False) \<Rightarrow> (c, - EBADF)
      | (c, True) \<Rightarrow>
          (nfs4_schedule_state_manager k
             (nfs_inode_find_delegation_state_and_recover k (st_inode (st_heap c st))
                (st_stateid (st_heap c st)) c), 0))"

section \<open>Revoked and returned delegations\<close>

definition nfs_revoke_delegation ::
  "int \<Rightarrow> nat \<Rightarrow> nfs4_stateid option \<Rightarrow> nfs4_clnt \<Rightarrow> nfs4_clnt" where
  "nfs_revoke_delegation k i sid c =
     (case i_delegation (ino_heap c i) of
        None \<Rightarrow> c
      | Some d \<Rightarrow>
          (case sid of
             None \<Rightarrow>
               let tmp = dl_stateid (dl_heap c d)
               in nfs_inode_find_state_and_recover k i tmp (nfs_mark_delegation_revoked d c)
           | Some sid \<Rightarrow>
               if \<not> nfs4_stateid_match_other sid (dl_stateid (dl_heap c d)) then c
               else if seqid sid \<noteq> 0 \<and> nfs4_stateid_is_newer (dl_stateid (dl_heap c d)) sid then c
               else
                 let c = (if seqid sid \<noteq> 0
                          then upd_dl d (\<lambda>x. x\<lparr>dl_stateid := (dl_stateid x)\<lparr>seqid := seqid sid\<rparr>\<rparr>) c
                          else c)
                 in nfs_inode_find_state_and_recover k i sid (nfs_mark_delegation_revoked d c)))"

definition nfs_delegation_mark_returned ::
  "int \<Rightarrow> nat option \<Rightarrow> nfs4_stateid \<Rightarrow> nfs4_clnt \<Rightarrow> nfs4_clnt" where
  "nfs_delegation_mark_returned k ino sid c =
     (case ino of
        None \<Rightarrow> c
      | Some i \<Rightarrow>
          let c = (case i_delegation (ino_heap c i) of
                     None \<Rightarrow> c
                   | Some d \<Rightarrow>
                       if \<not> nfs4_stateid_match_other sid (dl_stateid (dl_heap c d)) then c
                       else if seqid sid \<noteq> 0 \<and> nfs4_stateid_is_newer (dl_stateid (dl_heap c d)) sid
                       then upd_dl d (clear_dl NFS_DELEGATION_RETURNING) c
                       else
                         let c = (if seqid sid \<noteq> 0
                                  then upd_dl d (\<lambda>x. x\<lparr>dl_stateid :=
                                                        (dl_stateid x)\<lparr>seqid := seqid sid\<rparr>\<rparr>) c
                                  else c);
                             c = nfs_mark_delegation_revoked d c;
                             c = upd_dl d (clear_dl NFS_DELEGATION_RETURNING) c
                         in case nfs_detach_delegation i d c of
                              (c, None) \<Rightarrow> c
                            | (c, Some _) \<Rightarrow> nfs_put_delegation d c)
          in nfs_inode_find_state_and_recover k i sid c)"

definition mynfs_remove_bad_delegation ::
  "int \<Rightarrow> nat \<Rightarrow> nfs4_stateid option \<Rightarrow> nfs4_clnt \<Rightarrow> nfs4_clnt" where
  "mynfs_remove_bad_delegation k i sid c =
     (case sid of
        Some s \<Rightarrow> if sid_type s = NFS4_FREED_STATEID_TYPE
                  then nfs_delegation_mark_returned k (Some i) s c
                  else nfs_revoke_delegation k i sid c
      | None \<Rightarrow> nfs_revoke_delegation k i sid c)"

section \<open>The walks of the state manager\<close>

text \<open>
  \<open>__nfs_list_for_each_server\<close>: the servers that are still mounted, until one call fails. A call
  that does not return is \<open>None\<close>.
\<close>

fun mynfs_client_for_each_server ::
  "deleg_env \<Rightarrow> (nat \<Rightarrow> nfs4_clnt \<Rightarrow> (nfs4_clnt \<times> int) option) \<Rightarrow> nat list \<Rightarrow> nfs4_clnt \<Rightarrow>
   (nfs4_clnt \<times> int) option" where
  "mynfs_client_for_each_server e fn [] c = Some (c, 0)"
| "mynfs_client_for_each_server e fn (s # ss) c =
     (if \<not> de_sb_active e s then mynfs_client_for_each_server e fn ss c
      else case fn s c of
             None \<Rightarrow> None
           | Some (c, ret) \<Rightarrow>
               if ret \<noteq> 0 then Some (c, ret) else mynfs_client_for_each_server e fn ss c)"

text \<open>
  The scan of \<open>nfs_server_return_marked_delegations\<close>: the first delegation to return, with the last
  valid one before it that was not marked.
\<close>

fun nfs_scan_marked ::
  "deleg_env \<Rightarrow> nat list \<Rightarrow> nat option \<Rightarrow> nfs4_clnt \<Rightarrow> nfs4_clnt \<times> (nat \<times> nat option) option" where
  "nfs_scan_marked e [] prev c = (c, None)"
| "nfs_scan_marked e (d # ds) prev c =
     (if NFS_DELEGATION_INODE_FREEING \<in> dl_flags (dl_heap c d) then nfs_scan_marked e ds prev c
      else case nfs_delegation_need_return d c of
             (c, False) \<Rightarrow>
               nfs_scan_marked e ds
                 (if nfs4_is_valid_delegation (dl_heap c d) {} then Some d else prev) c
           | (c, True) \<Rightarrow>
               (case nfs_delegation_grab_inode e d c of
                  (c, None) \<Rightarrow> nfs_scan_marked e ds prev c
                | (c, Some i) \<Rightarrow> (c, Some (i, prev))))"

partial_function (option) nfs_return_marked_loop ::
  "deleg_env \<Rightarrow> (nat \<Rightarrow> nat \<Rightarrow> nfs4_clnt \<Rightarrow> nfs4_clnt \<times> int) \<Rightarrow>
   (nat \<Rightarrow> nat \<Rightarrow> nfs4_clnt \<Rightarrow> nfs4_clnt \<times> int) \<Rightarrow> nat \<Rightarrow> (nat \<times> nat) option \<Rightarrow> nfs4_clnt \<Rightarrow>
   (nfs4_clnt \<times> int) option" where
  "nfs_return_marked_loop e open_recall lock_recall s place_holder c =
     (let ds = sv_delegations (sv_heap c s);
          ds = (case place_holder of
                  None \<Rightarrow> ds
                | Some (pi, pd) \<Rightarrow> if i_delegation (ino_heap c pi) = Some pd
                                   then dropWhile (\<lambda>d. d \<noteq> pd) ds else ds)
      in case nfs_scan_marked e ds None c of
           (c, None) \<Rightarrow> Some (c, 0)
         | (c, Some (i, prev)) \<Rightarrow>
             let (c, place_holder) =
                   (case prev of
                      None \<Rightarrow> (c, place_holder)
                    | Some p \<Rightarrow> (case nfs_delegation_grab_inode e p c of
                                   (c, None) \<Rightarrow> (c, place_holder)
                                 | (c, Some tmp) \<Rightarrow> (c, Some (tmp, p))));
                 (c, deleg) = nfs_start_delegation_return_locked i c
             in case nfs_end_delegation_return e open_recall lock_recall [] i deleg False c of
                  None \<Rightarrow> None
                | Some (c, err) \<Rightarrow>
                    if err = 0 then nfs_return_marked_loop e open_recall lock_recall s place_holder c
                    else Some (set_cl NFS4CLNT_DELEGRETURN (upd_sv s (set_sv NFS4SERV_DELEGRETURN) c), err))"

definition nfs_server_return_marked_delegations ::
  "deleg_env \<Rightarrow> (nat \<Rightarrow> nat \<Rightarrow> nfs4_clnt \<Rightarrow> nfs4_clnt \<times> int) \<Rightarrow>
   (nat \<Rightarrow> nat \<Rightarrow> nfs4_clnt \<Rightarrow> nfs4_clnt \<times> int) \<Rightarrow> nat \<Rightarrow> nfs4_clnt \<Rightarrow> (nfs4_clnt \<times> int) option" where
  "nfs_server_return_marked_delegations e open_recall lock_recall s c =
     (if NFS4SERV_DELEGRETURN \<notin> sv_delegation_flags (sv_heap c s) then Some (c, 0)
      else nfs_return_marked_loop e open_recall lock_recall s None
             (upd_sv s (clear_sv NFS4SERV_DELEGRETURN) c))"

definition nfs_client_return_marked_delegations ::
  "deleg_env \<Rightarrow> (nat \<Rightarrow> nat \<Rightarrow> nfs4_clnt \<Rightarrow> nfs4_clnt \<times> int) \<Rightarrow>
   (nat \<Rightarrow> nat \<Rightarrow> nfs4_clnt \<Rightarrow> nfs4_clnt \<times> int) \<Rightarrow> nfs4_clnt \<Rightarrow> (nfs4_clnt \<times> int) option" where
  "nfs_client_return_marked_delegations e open_recall lock_recall c =
     (case mynfs_client_for_each_server e
             (nfs_server_return_marked_delegations e open_recall lock_recall) (cl_superblocks c) c of
        None \<Rightarrow> None
      | Some (c, err) \<Rightarrow>
          if err \<noteq> 0 then Some (c, err) else Some (fst (nfs_client_clear_delayed_delegations c), 0))"

text \<open>The first delegation of the list that satisfies \<open>P\<close> and whose inode can be grabbed.\<close>

fun nfs_scan_grab ::
  "deleg_env \<Rightarrow> (nfs_delegation \<Rightarrow> bool) \<Rightarrow> nat list \<Rightarrow> nfs4_clnt \<Rightarrow> nfs4_clnt \<times> (nat \<times> nat) option" where
  "nfs_scan_grab e P [] c = (c, None)"
| "nfs_scan_grab e P (d # ds) c =
     (if \<not> P (dl_heap c d) then nfs_scan_grab e P ds c
      else case nfs_delegation_grab_inode e d c of
             (c, None) \<Rightarrow> nfs_scan_grab e P ds c
           | (c, Some i) \<Rightarrow> (c, Some (d, i)))"

definition deleg_unclaimed :: "nfs_delegation \<Rightarrow> bool" where
  "deleg_unclaimed x \<longleftrightarrow>
     \<not> (NFS_DELEGATION_INODE_FREEING \<in> dl_flags x \<or> NFS_DELEGATION_RETURNING \<in> dl_flags x \<or>
        NFS_DELEGATION_NEED_RECLAIM \<notin> dl_flags x)"

partial_function (option) nfs_server_reap_unclaimed_delegations ::
  "deleg_env \<Rightarrow> nat \<Rightarrow> nfs4_clnt \<Rightarrow> (nfs4_clnt \<times> int) option" where
  "nfs_server_reap_unclaimed_delegations e s c =
     (case nfs_scan_grab e deleg_unclaimed (sv_delegations (sv_heap c s)) c of
        (c, None) \<Rightarrow> Some (c, 0)
      | (c, Some (_, i)) \<Rightarrow>
          (case nfs_start_delegation_return_locked i c of
             (c, None) \<Rightarrow> nfs_server_reap_unclaimed_delegations e s c
           | (c, Some d) \<Rightarrow>
               let c = (case nfs_detach_delegation i d c of
                          (c, None) \<Rightarrow> c
                        | (c, Some _) \<Rightarrow> nfs_free_delegation d c)
               in nfs_server_reap_unclaimed_delegations e s (nfs_put_delegation d c)))"

definition nfs_delegation_reap_unclaimed ::
  "deleg_env \<Rightarrow> nfs4_clnt \<Rightarrow> (nfs4_clnt \<times> int) option" where
  "nfs_delegation_reap_unclaimed e c =
     mynfs_client_for_each_server e (nfs_server_reap_unclaimed_delegations e) (cl_superblocks c) c"

definition nfs4_server_rebooted :: "nfs4_clnt \<Rightarrow> bool" where
  "nfs4_server_rebooted c \<longleftrightarrow>
     cl_state c \<inter> {NFS4CLNT_CHECK_LEASE, NFS4CLNT_LEASE_EXPIRED, NFS4CLNT_SESSION_RESET} \<noteq> {}"

definition nfs_delegation_test_free_expired ::
  "deleg_env \<Rightarrow> nat \<Rightarrow> nfs4_stateid \<Rightarrow> nat option \<Rightarrow> nfs4_clnt \<Rightarrow> nfs4_clnt" where
  "nfs_delegation_test_free_expired e i sid cred c =
     (if cred = None then c
      else case de_test_free e sid of
             (tested, status, raised) \<Rightarrow>
               let c = c\<lparr>tested_stateids := tested_stateids c @ [sid], cl_state := cl_state c \<union> raised\<rparr>
               in if status = - NFS4ERR_EXPIRED \<or> status = - NFS4ERR_BAD_STATEID
                  then mynfs_remove_bad_delegation (de_kthread e) i (Some tested) c else c)"

definition deleg_test_due :: "ulong \<Rightarrow> nfs_delegation \<Rightarrow> bool" where
  "deleg_test_due gen x \<longleftrightarrow>
     \<not> (NFS_DELEGATION_INODE_FREEING \<in> dl_flags x \<or> NFS_DELEGATION_RETURNING \<in> dl_flags x \<or>
        NFS_DELEGATION_TEST_EXPIRED \<notin> dl_flags x \<or> test_gen x = gen)"

partial_function (option) nfs_reap_expired_loop ::
  "deleg_env \<Rightarrow> ulong \<Rightarrow> nat \<Rightarrow> nfs4_clnt \<Rightarrow> (nfs4_clnt \<times> int) option" where
  "nfs_reap_expired_loop e gen s c =
     (case nfs_scan_grab e (deleg_test_due gen) (sv_delegations (sv_heap c s)) c of
        (c, None) \<Rightarrow> Some (c, 0)
      | (c, Some (d, i)) \<Rightarrow>
          let cred = (if de_get_cred e (dl_cred (dl_heap c d)) then Some (dl_cred (dl_heap c d)) else None);
              sid = dl_stateid (dl_heap c d);
              c = upd_dl d (\<lambda>x. x\<lparr>test_gen := gen\<rparr>) c;
              c = upd_dl d (clear_dl NFS_DELEGATION_TEST_EXPIRED) c;
              c = nfs_delegation_test_free_expired e i sid cred c
          in if \<not> nfs4_server_rebooted c then nfs_reap_expired_loop e gen s c
             else
               let c = nfs_inode_mark_test_expired_delegation s i c;
                   c = upd_sv s (set_sv NFS4SERV_DELEGATION_EXPIRED) c
               in Some (set_cl NFS4CLNT_DELEGATION_EXPIRED c, - EAGAIN))"

definition nfs_server_reap_expired_delegations ::
  "deleg_env \<Rightarrow> nat \<Rightarrow> nfs4_clnt \<Rightarrow> (nfs4_clnt \<times> int) option" where
  "nfs_server_reap_expired_delegations e s c =
     (let gen = sv_delegation_gen (sv_heap c s) + 1;
          c = upd_sv s (\<lambda>x. x\<lparr>sv_delegation_gen := gen\<rparr>) c
      in if NFS4SERV_DELEGATION_EXPIRED \<notin> sv_delegation_flags (sv_heap c s) then Some (c, 0)
         else nfs_reap_expired_loop e gen s (upd_sv s (clear_sv NFS4SERV_DELEGATION_EXPIRED) c))"

definition nfs_reap_expired_delegations ::
  "deleg_env \<Rightarrow> nfs4_clnt \<Rightarrow> (nfs4_clnt \<times> int) option" where
  "nfs_reap_expired_delegations e c =
     mynfs_client_for_each_server e (nfs_server_reap_expired_delegations e) (cl_superblocks c) c"

section \<open>Using a delegation\<close>

definition nfs_delegations_present :: "nfs4_clnt \<Rightarrow> bool" where
  "nfs_delegations_present c = list_ex (\<lambda>s. sv_delegations (sv_heap c s) \<noteq> []) (cl_superblocks c)"

definition nfs4_refresh_delegation_stateid ::
  "nfs4_stateid \<Rightarrow> nat option \<Rightarrow> nfs4_clnt \<Rightarrow> nfs4_stateid \<times> bool" where
  "nfs4_refresh_delegation_stateid dst ino c =
     (case ino of
        None \<Rightarrow> (dst, False)
      | Some i \<Rightarrow>
          (case i_delegation (ino_heap c i) of
             None \<Rightarrow> (dst, False)
           | Some d \<Rightarrow>
               if nfs4_stateid_match_other dst (dl_stateid (dl_heap c d)) \<and>
                  nfs4_stateid_is_newer (dl_stateid (dl_heap c d)) dst \<and>
                  NFS_DELEGATION_REVOKED \<notin> dl_flags (dl_heap c d)
               then (dst\<lparr>seqid := seqid (dl_stateid (dl_heap c d))\<rparr>, True)
               else (dst, False)))"

definition nfs4_copy_delegation_stateid ::
  "nat \<Rightarrow> fmode \<Rightarrow> nfs4_clnt \<Rightarrow> nfs4_clnt \<times> (nfs4_stateid \<times> nat) option" where
  "nfs4_copy_delegation_stateid i flags c =
     (case i_delegation (ino_heap c i) of
        None \<Rightarrow> (c, None)
      | Some d \<Rightarrow>
          if nfs4_is_valid_delegation (dl_heap c d) (flags \<inter> FMODE_RW)
          then (nfs_mark_delegation_referenced d c,
                Some (dl_stateid (dl_heap c d), dl_cred (dl_heap c d)))
          else (c, None))"

definition nfs4_delegation_flush_on_close :: "nat \<Rightarrow> nfs4_clnt \<Rightarrow> bool" where
  "nfs4_delegation_flush_on_close i c =
     (case i_delegation (ino_heap c i) of
        None \<Rightarrow> True
      | Some d \<Rightarrow>
          if FMODE_WRITE \<notin> dl_type (dl_heap c d) then True
          else \<not> (i_nrequests (ino_heap c i) < pagemod_limit (dl_heap c d)))"

end
