(* ===== verification/Nfs4_Delegation_Inv.thy ===== *)
theory Nfs4_Delegation_Inv
  imports Nfs4_Delegation
begin

text \<open>
  What the operations of \<open>Nfs4_Delegation\<close> keep: the links between inodes, delegations and the lists of
  the servers, and the global count of active delegations; and that the walks of the state manager
  over the delegations of a server end.
\<close>

section \<open>The invariant of the delegations\<close>

text \<open>
  An inode and its delegation point to each other; the delegation is on the list of the inode's
  server, once, and everything on such a list is attached to an inode of that server.
\<close>

definition deleg_ok :: "nfs4_clnt \<Rightarrow> bool" where
  "deleg_ok c \<longleftrightarrow>
     finite {i. i_delegation (ino_heap c i) \<noteq> None} \<and>
     (\<forall>i d. i_delegation (ino_heap c i) = Some d \<longrightarrow>
        dl_inode (dl_heap c d) = Some i \<and>
        d \<in> set (sv_delegations (sv_heap c (i_server (ino_heap c i))))) \<and>
     (\<forall>s. distinct (sv_delegations (sv_heap c s)) \<and>
        (\<forall>d \<in> set (sv_delegations (sv_heap c s)).
           \<exists>i. i_delegation (ino_heap c i) = Some d \<and> i_server (ino_heap c i) = s))"

text \<open>
  The inodes with a delegation that was not revoked, and how far the global counter is from
  their number.
\<close>

definition deleg_live :: "nfs4_clnt \<Rightarrow> nat set" where
  "deleg_live c =
     {i. \<exists>d. i_delegation (ino_heap c i) = Some d \<and> NFS_DELEGATION_REVOKED \<notin> dl_flags (dl_heap c d)}"

definition deleg_gap :: "nfs4_clnt \<Rightarrow> int" where
  "deleg_gap c = nfs_active_delegations c - int (card (deleg_live c))"

lemma deleg_live_finite: "deleg_ok c \<Longrightarrow> finite (deleg_live c)"
  unfolding deleg_ok_def deleg_live_def
  by (elim conjE) (rule finite_subset [rotated], assumption, auto)

text \<open>What the invariant and the counter depend on.\<close>

definition same_delegs :: "nfs4_clnt \<Rightarrow> nfs4_clnt \<Rightarrow> bool" where
  "same_delegs c c' \<longleftrightarrow>
     (\<forall>i. i_delegation (ino_heap c' i) = i_delegation (ino_heap c i) \<and>
          i_server (ino_heap c' i) = i_server (ino_heap c i)) \<and>
     (\<forall>s. sv_delegations (sv_heap c' s) = sv_delegations (sv_heap c s)) \<and>
     (\<forall>d. dl_inode (dl_heap c' d) = dl_inode (dl_heap c d) \<and>
          (NFS_DELEGATION_REVOKED \<in> dl_flags (dl_heap c' d)) =
          (NFS_DELEGATION_REVOKED \<in> dl_flags (dl_heap c d))) \<and>
     nfs_active_delegations c' = nfs_active_delegations c"

lemma same_delegs_ok:
  assumes "same_delegs c c'"
  shows "deleg_ok c' = deleg_ok c" "deleg_live c' = deleg_live c" "deleg_gap c' = deleg_gap c"
  using assms by (simp_all add: same_delegs_def deleg_ok_def deleg_live_def deleg_gap_def)

lemma same_delegs_refl: "same_delegs c c"
  by (simp add: same_delegs_def)

lemma same_delegs_trans: "same_delegs a b \<Longrightarrow> same_delegs b c \<Longrightarrow> same_delegs a c"
  by (simp add: same_delegs_def)

named_theorems same_delegs_rules

lemma same_delegs_basic [same_delegs_rules]:
  "same_delegs a c \<Longrightarrow> same_delegs a (set_cl f c)"
  "same_delegs a c \<Longrightarrow> same_delegs a (clear_cl f c)"
  "same_delegs a c \<Longrightarrow> same_delegs a (nfs4_schedule_state_manager k c)"
  "same_delegs a c \<Longrightarrow> same_delegs a (upd_st i g c)"
  "same_delegs a c \<Longrightarrow> same_delegs a (upd_so i h c)"
  "same_delegs a c \<Longrightarrow> same_delegs a (free_delegation_struct d c)"
  "same_delegs a c \<Longrightarrow> same_delegs a (c\<lparr>sent_delegreturns := sid\<rparr>)"
  by (simp_all add: same_delegs_def free_delegation_struct_def)

lemma same_delegs_upd_dl [same_delegs_rules]:
  assumes "same_delegs a c" "dl_inode (f (dl_heap c d)) = dl_inode (dl_heap c d)"
    "(NFS_DELEGATION_REVOKED \<in> dl_flags (f (dl_heap c d))) = (NFS_DELEGATION_REVOKED \<in> dl_flags (dl_heap c d))"
  shows "same_delegs a (upd_dl d f c)"
  using assms by (simp add: same_delegs_def)

lemma same_delegs_upd_ino [same_delegs_rules]:
  assumes "same_delegs a c" "i_delegation (f (ino_heap c i)) = i_delegation (ino_heap c i)"
    "i_server (f (ino_heap c i)) = i_server (ino_heap c i)"
  shows "same_delegs a (upd_ino i f c)"
  using assms by (simp add: same_delegs_def)

lemma same_delegs_upd_sv [same_delegs_rules]:
  assumes "same_delegs a c" "sv_delegations (f (sv_heap c s)) = sv_delegations (sv_heap c s)"
  shows "same_delegs a (upd_sv s f c)"
  using assms by (simp add: same_delegs_def)

lemma same_delegs_put [same_delegs_rules]: "same_delegs a c \<Longrightarrow> same_delegs a (nfs_put_delegation d c)"
  by (simp add: nfs_put_delegation_def Let_def same_delegs_rules)

lemma same_delegs_get [same_delegs_rules]: "same_delegs a c \<Longrightarrow> same_delegs a (nfs_get_delegation d c)"
  by (simp add: nfs_get_delegation_def same_delegs_rules)

lemma same_delegs_verifier [same_delegs_rules]:
  "same_delegs a c \<Longrightarrow> same_delegs a (nfs_clear_verifier_delegated i c)"
  by (simp add: nfs_clear_verifier_delegated_def same_delegs_rules split: option.split)

lemma same_delegs_referenced [same_delegs_rules]:
  "same_delegs a c \<Longrightarrow> same_delegs a (nfs_mark_delegation_referenced d c)"
  by (simp add: nfs_mark_delegation_referenced_def set_dl_def same_delegs_rules)

lemma same_delegs_mark_return [same_delegs_rules]:
  "same_delegs a c \<Longrightarrow> same_delegs a (nfs_mark_return_delegation s d c)"
  by (simp add: nfs_mark_return_delegation_def set_dl_def set_sv_def same_delegs_rules)

lemma same_delegs_do_return [same_delegs_rules]:
  "same_delegs a c \<Longrightarrow> same_delegs a (fst (nfs_do_return_delegation e d c))"
  by (simp add: nfs_do_return_delegation_def same_delegs_rules)

section \<open>How the primitives change it\<close>

lemma deleg_ok_inj:
  "deleg_ok c \<Longrightarrow> i_delegation (ino_heap c i) = Some d \<Longrightarrow> i_delegation (ino_heap c j) = Some d \<Longrightarrow> i = j"
  unfolding deleg_ok_def by (metis option.inject)

lemma deleg_ok_attached:
  assumes "deleg_ok c" "i_delegation (ino_heap c i) = Some d"
  shows "dl_inode (dl_heap c d) = Some i" "d \<in> set (sv_delegations (sv_heap c (i_server (ino_heap c i))))"
  using assms unfolding deleg_ok_def by blast+

lemma deleg_ok_listed:
  assumes "deleg_ok c" "d \<in> set (sv_delegations (sv_heap c s))"
  obtains i where "i_delegation (ino_heap c i) = Some d" "i_server (ino_heap c i) = s"
  using assms unfolding deleg_ok_def by blast

lemma deleg_ok_iff:
  "deleg_ok c \<Longrightarrow> i_delegation (ino_heap c i) = Some d \<Longrightarrow>
     i_delegation (ino_heap c j) = Some d \<longleftrightarrow> j = i"
  using deleg_ok_inj by blast

lemma deleg_live_iff:
  "i \<in> deleg_live c \<longleftrightarrow>
     (case i_delegation (ino_heap c i) of
        None \<Rightarrow> False
      | Some d \<Rightarrow> NFS_DELEGATION_REVOKED \<notin> dl_flags (dl_heap c d))"
  by (simp add: deleg_live_def split: option.split)

lemma mark_revoked_same:
  assumes "NFS_DELEGATION_REVOKED \<notin> dl_flags (dl_heap c d)"
  shows "\<exists>c1. nfs_active_delegations c1 = nfs_active_delegations c - 1 \<and>
     dl_heap c1 = (dl_heap c)(d := set_dl NFS_DELEGATION_REVOKED (dl_heap c d)) \<and>
     ino_heap c1 = ino_heap c \<and> sv_heap c1 = sv_heap c \<and>
     same_delegs c1 (nfs_mark_delegation_revoked d c)"
  using assms
  by (intro exI [of _ "(upd_dl d (set_dl NFS_DELEGATION_REVOKED) c)
        \<lparr>nfs_active_delegations := nfs_active_delegations c - 1\<rparr>"])
    (simp add: nfs_mark_delegation_revoked_def Let_def same_delegs_def set_dl_def
      nfs_clear_verifier_delegated_def split: option.split)

lemma mark_revoked_ok: "deleg_ok (nfs_mark_delegation_revoked d c) = deleg_ok c"
proof (cases "NFS_DELEGATION_REVOKED \<in> dl_flags (dl_heap c d)")
  case False
  then obtain c1 where c1: "dl_heap c1 = (dl_heap c)(d := set_dl NFS_DELEGATION_REVOKED (dl_heap c d))"
    "ino_heap c1 = ino_heap c" "sv_heap c1 = sv_heap c" "same_delegs c1 (nfs_mark_delegation_revoked d c)"
    using mark_revoked_same by blast
  have "dl_inode (dl_heap c1 x) = dl_inode (dl_heap c x)" for x
    unfolding c1(1) by (simp add: set_dl_def)
  then have "deleg_ok c1 = deleg_ok c" unfolding deleg_ok_def c1(2,3) by simp
  then show ?thesis using same_delegs_ok(1) [OF c1(4)] by simp
qed (simp add: nfs_mark_delegation_revoked_def)

lemma mark_revoked_gap_attached:
  assumes ok: "deleg_ok c" and i: "i_delegation (ino_heap c i) = Some d"
  shows "deleg_gap (nfs_mark_delegation_revoked d c) = deleg_gap c"
proof (cases "NFS_DELEGATION_REVOKED \<in> dl_flags (dl_heap c d)")
  case False
  then obtain c1 where c1: "nfs_active_delegations c1 = nfs_active_delegations c - 1"
    "dl_heap c1 = (dl_heap c)(d := set_dl NFS_DELEGATION_REVOKED (dl_heap c d))"
    "ino_heap c1 = ino_heap c" "same_delegs c1 (nfs_mark_delegation_revoked d c)"
    using mark_revoked_same by blast
  have "j \<in> deleg_live c1 \<longleftrightarrow> j \<in> deleg_live c \<and> j \<noteq> i" for j
    using deleg_ok_iff [OF ok i, of j] unfolding deleg_live_iff c1(2,3)
    by (cases "i_delegation (ino_heap c j)") (auto simp: set_dl_def)
  then have live: "deleg_live c1 = deleg_live c - {i}" by blast
  have "i \<in> deleg_live c" using i False by (simp add: deleg_live_iff)
  then have "card (deleg_live c) = Suc (card (deleg_live c1))"
    unfolding live by (rule card.remove [OF deleg_live_finite [OF ok]])
  then show ?thesis using c1 same_delegs_ok(3) [OF c1(4)] by (simp add: deleg_gap_def)
qed (simp add: nfs_mark_delegation_revoked_def)

lemma mark_revoked_gap_detached:
  assumes "\<forall>i. i_delegation (ino_heap c i) \<noteq> Some d"
  shows "deleg_gap (nfs_mark_delegation_revoked d c) =
    deleg_gap c - (if NFS_DELEGATION_REVOKED \<in> dl_flags (dl_heap c d) then 0 else 1)"
proof (cases "NFS_DELEGATION_REVOKED \<in> dl_flags (dl_heap c d)")
  case False
  then obtain c1 where c1: "nfs_active_delegations c1 = nfs_active_delegations c - 1"
    "dl_heap c1 = (dl_heap c)(d := set_dl NFS_DELEGATION_REVOKED (dl_heap c d))"
    "ino_heap c1 = ino_heap c" "same_delegs c1 (nfs_mark_delegation_revoked d c)"
    using mark_revoked_same by blast
  have "j \<in> deleg_live c1 \<longleftrightarrow> j \<in> deleg_live c" for j
    using assms unfolding deleg_live_iff c1(2,3)
    by (cases "i_delegation (ino_heap c j)") auto
  then have "deleg_live c1 = deleg_live c" by blast
  then show ?thesis using c1 same_delegs_ok(3) [OF c1(4)] False by (simp add: deleg_gap_def)
qed (simp add: nfs_mark_delegation_revoked_def)

lemma free_delegation_ok: "deleg_ok (nfs_free_delegation d c) = deleg_ok c"
  unfolding nfs_free_delegation_def
  using same_delegs_ok(1) [OF same_delegs_put [OF same_delegs_refl]] mark_revoked_ok by simp

lemma free_delegation_gap:
  assumes "\<forall>i. i_delegation (ino_heap c i) \<noteq> Some d"
  shows "deleg_gap (nfs_free_delegation d c) =
    deleg_gap c - (if NFS_DELEGATION_REVOKED \<in> dl_flags (dl_heap c d) then 0 else 1)"
  unfolding nfs_free_delegation_def
  using same_delegs_ok(3) [OF same_delegs_put [OF same_delegs_refl]] mark_revoked_gap_detached [OF assms]
  by simp

lemma return_and_free_ok: "deleg_ok (nfs_return_and_free e d c) = deleg_ok c"
  unfolding nfs_return_and_free_def free_delegation_ok
  using same_delegs_ok(1) [OF same_delegs_do_return [OF same_delegs_refl]] by simp

lemma return_and_free_gap:
  assumes "\<forall>i. i_delegation (ino_heap c i) \<noteq> Some d"
  shows "deleg_gap (nfs_return_and_free e d c) =
    deleg_gap c - (if NFS_DELEGATION_REVOKED \<in> dl_flags (dl_heap c d) then 0 else 1)"
proof -
  let ?c = "fst (nfs_do_return_delegation e d c)"
  have s: "same_delegs c ?c" by (rule same_delegs_do_return [OF same_delegs_refl])
  then have "\<forall>i. i_delegation (ino_heap ?c i) \<noteq> Some d" using assms by (simp add: same_delegs_def)
  from free_delegation_gap [OF this] s same_delegs_ok(3) [OF s] show ?thesis
    by (simp add: nfs_return_and_free_def same_delegs_def)
qed

text \<open>Detaching the delegation of an inode.\<close>

lemma detach_delegation:
  assumes ok: "deleg_ok c" and i: "i_delegation (ino_heap c i) = Some d"
  defines "c1 \<equiv> fst (nfs_detach_delegation_locked i d c)"
  shows "nfs_detach_delegation_locked i d c = (c1, Some d)" and "deleg_ok c1"
    and "i_delegation (ino_heap c1 i) = None" and "\<forall>j. i_delegation (ino_heap c1 j) \<noteq> Some d"
    and "\<And>j. j \<noteq> i \<Longrightarrow> ino_heap c1 j = ino_heap c j"
    and "i_server (ino_heap c1 i) = i_server (ino_heap c i)"
    and "\<And>s. set (sv_delegations (sv_heap c1 s)) = set (sv_delegations (sv_heap c s)) - {d}"
    and "dl_heap c1 = (dl_heap c)(d := (dl_heap c d)\<lparr>dl_inode := None\<rparr>)"
    and "deleg_gap c1 = deleg_gap c + (if NFS_DELEGATION_REVOKED \<in> dl_flags (dl_heap c d) then 0 else 1)"
proof -
  define s where "s = i_server (ino_heap c i)"
  define c1' where "c1' = upd_ino i (\<lambda>x. x\<lparr>i_delegation := None\<rparr>) (upd_dl d (\<lambda>x. x\<lparr>dl_inode := None\<rparr>)
    (upd_sv s (\<lambda>x. x\<lparr>sv_delegations := remove1 d (sv_delegations x)\<rparr>) c))"
  have d: "dl_inode (dl_heap c d) = Some i" "d \<in> set (sv_delegations (sv_heap c s))"
    and dist: "\<And>t. distinct (sv_delegations (sv_heap c t))"
    and at: "\<And>t x. x \<in> set (sv_delegations (sv_heap c t)) \<Longrightarrow>
       \<exists>j. i_delegation (ino_heap c j) = Some x \<and> i_server (ino_heap c j) = t"
    using ok i by (auto simp: deleg_ok_def s_def)
  have eq: "nfs_detach_delegation_locked i d c = (c1', Some d)"
    using i d by (simp add: nfs_detach_delegation_locked_def c1'_def s_def Let_def)
  have other: "\<forall>j. i_delegation (ino_heap c1' j) \<noteq> Some d"
    using deleg_ok_inj [OF ok i] by (auto simp: c1'_def)
  have lists: "set (sv_delegations (sv_heap c1' t)) = set (sv_delegations (sv_heap c t)) - {d}" for t
  proof (cases "t = s")
    case False
    have "d \<notin> set (sv_delegations (sv_heap c t))"
      using at [of d t] deleg_ok_inj [OF ok i] False s_def by blast
    then show ?thesis using False by (simp add: c1'_def)
  qed (simp add: c1'_def dist)
  have ok1: "deleg_ok c1'"
  proof -
    have "finite {j. i_delegation (ino_heap c1' j) \<noteq> None}"
      using ok by (auto simp: deleg_ok_def c1'_def elim!: rev_finite_subset)
    moreover have "distinct (sv_delegations (sv_heap c1' t))" for t by (simp add: c1'_def dist)
    moreover have "dl_inode (dl_heap c1' x) = Some j \<and>
        x \<in> set (sv_delegations (sv_heap c1' (i_server (ino_heap c1' j))))"
      if "i_delegation (ino_heap c1' j) = Some x" for j x
    proof -
      have "j \<noteq> i" "x \<noteq> d" using that other by (auto simp: c1'_def)
      then show ?thesis using ok that lists by (auto simp: deleg_ok_def c1'_def)
    qed
    moreover have "\<exists>j. i_delegation (ino_heap c1' j) = Some x \<and> i_server (ino_heap c1' j) = t"
      if "x \<in> set (sv_delegations (sv_heap c1' t))" for x t
    proof -
      have x: "x \<in> set (sv_delegations (sv_heap c t))" "x \<noteq> d" using that lists by auto
      then obtain j where "i_delegation (ino_heap c j) = Some x" "i_server (ino_heap c j) = t"
        using at by blast
      moreover have "j \<noteq> i" using x i calculation by auto
      ultimately show ?thesis by (intro exI [of _ j]) (simp add: c1'_def)
    qed
    ultimately show ?thesis by (simp add: deleg_ok_def)
  qed
  have "j \<in> deleg_live c1' \<longleftrightarrow> j \<in> deleg_live c \<and> j \<noteq> i" for j
    using deleg_ok_iff [OF ok i, of j] unfolding deleg_live_iff c1'_def
    by (cases "i_delegation (ino_heap c j)") auto
  then have live: "deleg_live c1' = deleg_live c - {i}" by blast
  have "deleg_gap c1' = deleg_gap c + (if NFS_DELEGATION_REVOKED \<in> dl_flags (dl_heap c d) then 0 else 1)"
  proof (cases "NFS_DELEGATION_REVOKED \<in> dl_flags (dl_heap c d)")
    case True
    then have "i \<notin> deleg_live c" using i by (simp add: deleg_live_iff)
    then show ?thesis using live True by (simp add: deleg_gap_def c1'_def)
  next
    case False
    then have "i \<in> deleg_live c" using i by (simp add: deleg_live_iff)
    then have "card (deleg_live c) = Suc (card (deleg_live c1'))"
      unfolding live by (rule card.remove [OF deleg_live_finite [OF ok]])
    then show ?thesis using False by (simp add: deleg_gap_def c1'_def)
  qed
  note gap = this
  have "c1 = c1'" using eq by (simp add: c1_def)
  then show "nfs_detach_delegation_locked i d c = (c1, Some d)" "deleg_ok c1"
    "i_delegation (ino_heap c1 i) = None" "\<forall>j. i_delegation (ino_heap c1 j) \<noteq> Some d"
    "\<And>j. j \<noteq> i \<Longrightarrow> ino_heap c1 j = ino_heap c j"
    "i_server (ino_heap c1 i) = i_server (ino_heap c i)"
    "\<And>s. set (sv_delegations (sv_heap c1 s)) = set (sv_delegations (sv_heap c s)) - {d}"
    "dl_heap c1 = (dl_heap c)(d := (dl_heap c d)\<lparr>dl_inode := None\<rparr>)"
    "deleg_gap c1 = deleg_gap c + (if NFS_DELEGATION_REVOKED \<in> dl_flags (dl_heap c d) then 0 else 1)"
    using eq ok1 other lists gap by (simp_all add: c1'_def)
qed

text \<open>Attaching a new delegation to an inode that has none.\<close>

lemma add_delegation:
  assumes ok: "deleg_ok c" and i: "i_delegation (ino_heap c i) = None"
    and d: "dl_inode (dl_heap c d) = Some i" "NFS_DELEGATION_REVOKED \<notin> dl_flags (dl_heap c d)"
      "\<forall>j. i_delegation (ino_heap c j) \<noteq> Some d"
  shows "deleg_ok (nfs_add_delegation i d t c)" "deleg_gap (nfs_add_delegation i d t c) = deleg_gap c"
    "i_delegation (ino_heap (nfs_add_delegation i d t c) i) = Some d"
    "\<And>j. j \<noteq> i \<Longrightarrow> ino_heap (nfs_add_delegation i d t c) j = ino_heap c j"
    "dl_heap (nfs_add_delegation i d t c) = dl_heap c"
proof -
  define s where "s = i_server (ino_heap c i)"
  define c1 where "c1 = (upd_ino i (\<lambda>x. x\<lparr>i_delegation := Some d\<rparr>)
    (upd_sv s (\<lambda>x. x\<lparr>sv_delegations := sv_delegations x @ [d]\<rparr>) c))
      \<lparr>nfs_active_delegations := nfs_active_delegations c + 1\<rparr>"
  have same: "same_delegs c1 (nfs_add_delegation i d t c)"
    by (simp add: same_delegs_def nfs_add_delegation_def c1_def s_def Let_def)
  have free: "d \<notin> set (sv_delegations (sv_heap c u))" for u
    using ok d(3) unfolding deleg_ok_def by blast
  have "deleg_ok c1"
  proof -
    have "{j. i_delegation (ino_heap c1 j) \<noteq> None} = insert i {j. i_delegation (ino_heap c j) \<noteq> None}"
      by (auto simp: c1_def)
    moreover have "finite {j. i_delegation (ino_heap c j) \<noteq> None}" using ok by (simp add: deleg_ok_def)
    ultimately have "finite {j. i_delegation (ino_heap c1 j) \<noteq> None}" by simp
    moreover have "distinct (sv_delegations (sv_heap c1 u))" for u
      using ok free by (simp add: deleg_ok_def c1_def)
    moreover have "dl_inode (dl_heap c1 x) = Some j \<and>
        x \<in> set (sv_delegations (sv_heap c1 (i_server (ino_heap c1 j))))"
      if "i_delegation (ino_heap c1 j) = Some x" for j x
    proof (cases "j = i")
      case True
      then show ?thesis using that d(1) by (simp add: c1_def s_def)
    next
      case False
      then have "i_delegation (ino_heap c j) = Some x" using that by (simp add: c1_def)
      moreover have "x \<in> set (sv_delegations (sv_heap c (i_server (ino_heap c j))))"
        "dl_inode (dl_heap c x) = Some j"
        using ok calculation unfolding deleg_ok_def by blast+
      ultimately show ?thesis using False by (auto simp: c1_def)
    qed
    moreover have "\<exists>j. i_delegation (ino_heap c1 j) = Some x \<and> i_server (ino_heap c1 j) = u"
      if "x \<in> set (sv_delegations (sv_heap c1 u))" for x u
    proof (cases "x = d")
      case True
      then have "u = s" using that free by (auto simp: c1_def split: if_splits)
      then show ?thesis using True by (intro exI [of _ i]) (simp add: c1_def s_def)
    next
      case False
      then have "x \<in> set (sv_delegations (sv_heap c u))" using that by (auto simp: c1_def split: if_splits)
      then obtain j where j: "i_delegation (ino_heap c j) = Some x" "i_server (ino_heap c j) = u"
        using deleg_ok_listed [OF ok] by blast
      then have "j \<noteq> i" using i by auto
      then show ?thesis using j by (intro exI [of _ j]) (simp add: c1_def)
    qed
    ultimately show ?thesis by (simp add: deleg_ok_def)
  qed
  then show "deleg_ok (nfs_add_delegation i d t c)" using same_delegs_ok(1) [OF same] by simp
  have "j \<in> deleg_live c1 \<longleftrightarrow> j = i \<or> j \<in> deleg_live c" for j
    using i d unfolding deleg_live_iff c1_def by (simp split: option.split)
  then have live1: "deleg_live c1 = insert i (deleg_live c)" by blast
  have "deleg_live c1 = insert i (deleg_live c)" "i \<notin> deleg_live c"
    using live1 i by (simp_all add: deleg_live_iff)
  then have "card (deleg_live c1) = Suc (card (deleg_live c))"
    using deleg_live_finite [OF ok] by simp
  then show "deleg_gap (nfs_add_delegation i d t c) = deleg_gap c"
    using same_delegs_ok(3) [OF same] by (simp add: deleg_gap_def c1_def)
qed (simp_all add: nfs_add_delegation_def Let_def)

text \<open>Memory that is not attached to an inode plays no part.\<close>

lemma upd_dl_detached:
  assumes "\<forall>j. i_delegation (ino_heap c j) \<noteq> Some d"
  shows "deleg_ok (upd_dl d f c) = deleg_ok c" "deleg_gap (upd_dl d f c) = deleg_gap c"
proof -
  have "i_delegation (ino_heap c i) = Some x \<Longrightarrow> dl_heap (upd_dl d f c) x = dl_heap c x" for i x
    using assms by auto
  then show "deleg_ok (upd_dl d f c) = deleg_ok c"
    unfolding deleg_ok_def by simp
  have "j \<in> deleg_live (upd_dl d f c) \<longleftrightarrow> j \<in> deleg_live c" for j
    using assms unfolding deleg_live_iff by (cases "i_delegation (ino_heap c j)") auto
  then have "deleg_live (upd_dl d f c) = deleg_live c" by blast
  then show "deleg_gap (upd_dl d f c) = deleg_gap c" by (simp add: deleg_gap_def)
qed

text \<open>Taking the revocation of an attached delegation back.\<close>

lemma unrevoke:
  assumes ok: "deleg_ok c" and i: "i_delegation (ino_heap c i) = Some d"
    and r: "NFS_DELEGATION_REVOKED \<in> dl_flags (dl_heap c d)"
    and c1: "c1 = (upd_dl d (clear_dl NFS_DELEGATION_REVOKED) c)
        \<lparr>nfs_active_delegations := nfs_active_delegations c + 1\<rparr>"
  shows "deleg_ok c1" "deleg_gap c1 = deleg_gap c"
proof -
  have "dl_inode (dl_heap c1 x) = dl_inode (dl_heap c x)" for x
    by (simp add: c1 clear_dl_def)
  then show "deleg_ok c1" using ok by (simp add: deleg_ok_def c1)
  have "j \<in> deleg_live c1 \<longleftrightarrow> j = i \<or> j \<in> deleg_live c" for j
    using deleg_ok_iff [OF ok i, of j] unfolding deleg_live_iff c1
    by (cases "i_delegation (ino_heap c j)") (auto simp: clear_dl_def)
  then have "deleg_live c1 = insert i (deleg_live c)" by blast
  moreover have "i \<notin> deleg_live c" using i r by (simp add: deleg_live_iff)
  ultimately have "card (deleg_live c1) = Suc (card (deleg_live c))"
    using deleg_live_finite [OF ok] by simp
  then show "deleg_gap c1 = deleg_gap c" by (simp add: deleg_gap_def c1)
qed

lemma update_inplace_keeps:
  assumes ok: "deleg_ok c" and i: "i_delegation (ino_heap c i) = Some d"
  shows "deleg_ok (nfs_update_inplace_delegation e d u c)"
    "deleg_gap (nfs_update_inplace_delegation e d u c) = deleg_gap c"
proof -
  define c1 where "c1 = upd_dl d (\<lambda>x. x\<lparr>dl_stateid := (dl_stateid x)\<lparr>seqid := seqid (dl_stateid u)\<rparr>,
      dl_type := dl_type u, pagemod_limit := pagemod_limit u\<rparr>) c"
  define c2 where "c2 = upd_dl d (nfs_update_delegation_cred e (dl_cred u))
      (upd_dl d (\<lambda>x. x\<lparr>dl_change_attr := dl_change_attr u\<rparr>) c1)"
  have s1: "same_delegs c c1" unfolding c1_def by (simp add: same_delegs_rules same_delegs_refl)
  have s2: "same_delegs c c2" unfolding c2_def
    by (intro same_delegs_rules s1) (simp_all add: nfs_update_delegation_cred_def)
  have i2: "i_delegation (ino_heap c2 i) = Some d" using s2 i by (simp add: same_delegs_def)
  note u = unrevoke [OF _ i2 _ refl]
  have ok1: "deleg_ok c1" "deleg_gap c1 = deleg_gap c" using same_delegs_ok [OF s1] ok by simp_all
  have ok2: "deleg_ok c2" "deleg_gap c2 = deleg_gap c" using same_delegs_ok [OF s2] ok by simp_all
  have r: "NFS_DELEGATION_REVOKED \<in> dl_flags (dl_heap c2 d)"
    if "NFS_DELEGATION_REVOKED \<in> dl_flags (dl_heap c1 d)"
    using that s1 s2 by (simp add: same_delegs_def)
  have n: "nfs_active_delegations (upd_dl d f c2) = nfs_active_delegations c2" for f by simp
  have eq: "nfs_update_inplace_delegation e d u c =
    (if nfs4_stateid_is_newer (dl_stateid u) (dl_stateid (dl_heap c d))
     then if NFS_DELEGATION_REVOKED \<in> dl_flags (dl_heap c1 d)
          then (upd_dl d (clear_dl NFS_DELEGATION_REVOKED) c2)
            \<lparr>nfs_active_delegations := nfs_active_delegations c2 + 1\<rparr> else c1 else c)"
    unfolding nfs_update_inplace_delegation_def Let_def c1_def [symmetric] c2_def [symmetric] n ..
  show "deleg_ok (nfs_update_inplace_delegation e d u c)"
    unfolding eq using ok ok1 u(1) [OF ok2(1) r] by presburger
  show "deleg_gap (nfs_update_inplace_delegation e d u c) = deleg_gap c"
    unfolding eq using ok ok1 ok2(2) u(2) [OF ok2(1) r] by presburger
qed

section \<open>Granting, reclaiming, revoking, returning\<close>

text \<open>The case in which a server hands out a second delegation that is not an upgrade.\<close>

definition deleg_duplicate :: "nat \<Rightarrow> fmode \<Rightarrow> nfs4_stateid \<Rightarrow> nfs4_clnt \<Rightarrow> bool" where
  "deleg_duplicate i type sid c =
     (case i_delegation (ino_heap c i) of
        None \<Rightarrow> False
      | Some d \<Rightarrow> \<not> nfs4_stateid_match_other (dl_stateid (dl_heap c d)) sid \<and>
                  NFS_DELEGATION_REVOKED \<notin> dl_flags (dl_heap c d) \<and>
                  (type = dl_type (dl_heap c d) \<or> FMODE_WRITE \<notin> type))"

text \<open>\<open>kmalloc\<close> does not return memory that is in use.\<close>

definition deleg_fresh :: "deleg_env \<Rightarrow> nfs4_clnt \<Rightarrow> bool" where
  "deleg_fresh e c \<longleftrightarrow>
     (\<forall>d. de_kmalloc e = Some d \<longrightarrow> (\<forall>i. i_delegation (ino_heap c i) \<noteq> Some d))"

lemma free_struct_same: "same_delegs c (free_delegation_struct d c)"
  by (rule same_delegs_rules same_delegs_refl)+

lemma replace_delegation:
  assumes ok: "deleg_ok c" and i: "i_delegation (ino_heap c i) = Some old"
    and d: "dl_inode (dl_heap c d) = Some i" "NFS_DELEGATION_REVOKED \<notin> dl_flags (dl_heap c d)"
      "\<forall>j. i_delegation (ino_heap c j) \<noteq> Some d"
  defines "c1 \<equiv> fst (nfs_detach_delegation_locked i old c)"
  shows "deleg_ok (nfs_return_and_free e old (nfs_add_delegation i d t c1))"
    and "deleg_gap (nfs_return_and_free e old (nfs_add_delegation i d t c1)) = deleg_gap c"
proof -
  have ne: "d \<noteq> old" using d(3) i by auto
  note c1 = detach_delegation [OF ok i, folded c1_def]
  have d1: "dl_inode (dl_heap c1 d) = Some i" "NFS_DELEGATION_REVOKED \<notin> dl_flags (dl_heap c1 d)"
    unfolding c1(8) using d ne by simp_all
  have "i_delegation (ino_heap c1 j) \<noteq> Some d" for j
    using c1(3) c1(5) [of j] d(3) by (cases "j = i") simp_all
  then have d2: "\<forall>j. i_delegation (ino_heap c1 j) \<noteq> Some d" by blast
  let ?c2 = "nfs_add_delegation i d t c1"
  note add = add_delegation [OF c1(2,3) d1 d2, where t = t]
  have "i_delegation (ino_heap ?c2 j) \<noteq> Some old" for j
    using add(3) add(4) [of j] ne c1(4) by (cases "j = i") simp_all
  then show "deleg_gap (nfs_return_and_free e old ?c2) = deleg_gap c"
    using return_and_free_gap [of ?c2 old e] add(2,5) c1(8,9) by simp
  show "deleg_ok (nfs_return_and_free e old ?c2)" using add(1) by (simp add: return_and_free_ok)
qed

lemma place_delegation_keeps:
  assumes ok: "deleg_ok c" and new: "dl_inode (dl_heap c d) = Some i"
      "NFS_DELEGATION_REVOKED \<notin> dl_flags (dl_heap c d)" "\<forall>j. i_delegation (ino_heap c j) \<noteq> Some d"
    and dup: "\<not> deleg_duplicate i (dl_type (dl_heap c d)) (dl_stateid (dl_heap c d)) c"
  shows "deleg_ok (nfs_place_delegation e i d t c) \<and> deleg_gap (nfs_place_delegation e i d t c) = deleg_gap c"
proof (cases "i_delegation (ino_heap c i)")
  case None
  then show ?thesis using add_delegation(1,2) [OF ok None new] by (simp add: nfs_place_delegation_def)
next
  case (Some old)
  define x where "x = dl_heap c old"
  define c2 where "c2 = (if NFS_DELEGATION_REVOKED \<notin> dl_flags x
                         then upd_dl old (set_dl NFS_DELEGATION_RETURNING) c else c)"
  have s2: "same_delegs c c2"
    unfolding c2_def by (simp add: same_delegs_rules same_delegs_refl set_dl_def)
  have ok2: "deleg_ok c2" "deleg_gap c2 = deleg_gap c" using same_delegs_ok [OF s2] ok by simp_all
  have i2: "i_delegation (ino_heap c2 i) = Some old"
    and new2: "dl_inode (dl_heap c2 d) = Some i" "NFS_DELEGATION_REVOKED \<notin> dl_flags (dl_heap c2 d)"
      "\<forall>j. i_delegation (ino_heap c2 j) \<noteq> Some d"
    using s2 new Some by (simp_all add: same_delegs_def)
  define c3 where "c3 = fst (nfs_detach_delegation_locked i old c2)"
  note c3 = detach_delegation(1) [OF ok2(1) i2, folded c3_def]
    replace_delegation [OF ok2(1) i2 new2, folded c3_def, where e = e and t = t]
  define u where "u = nfs_update_inplace_delegation e old (dl_heap c d) c"
  have u: "deleg_ok u" "deleg_gap u = deleg_gap c"
    unfolding u_def using update_inplace_keeps [OF ok Some] by simp_all
  have eq: "nfs_place_delegation e i d t c =
    (if nfs4_stateid_match_other (dl_stateid x) (dl_stateid (dl_heap c d)) then free_delegation_struct d u
     else if NFS_DELEGATION_REVOKED \<notin> dl_flags x \<and> NFS_DELEGATION_RETURNING \<in> dl_flags x
     then free_delegation_struct d c
     else nfs_return_and_free e old (nfs_add_delegation i d t c3))"
    using Some dup c3(1)
    by (cases "NFS_DELEGATION_REVOKED \<in> dl_flags x";
        cases "nfs4_stateid_match_other (dl_stateid x) (dl_stateid (dl_heap c d))")
      (simp_all add: nfs_place_delegation_def Let_def deleg_duplicate_def c2_def flip: x_def u_def)
  show ?thesis unfolding eq
    using same_delegs_ok [OF free_struct_same] u ok ok2 c3(2,3) by simp
qed

lemma place_delegation_duplicate:
  assumes ok: "deleg_ok c" and new: "NFS_DELEGATION_REVOKED \<notin> dl_flags (dl_heap c d)"
      "\<forall>j. i_delegation (ino_heap c j) \<noteq> Some d"
    and dup: "deleg_duplicate i (dl_type (dl_heap c d)) (dl_stateid (dl_heap c d)) c"
  shows "deleg_ok (nfs_place_delegation e i d t c)"
    and "deleg_gap (nfs_place_delegation e i d t c) = deleg_gap c - 1"
proof -
  have eq: "nfs_place_delegation e i d t c = nfs_return_and_free e d c"
    using dup by (auto simp: nfs_place_delegation_def Let_def deleg_duplicate_def split: option.splits)
  show "deleg_ok (nfs_place_delegation e i d t c)"
    unfolding eq using ok by (simp add: return_and_free_ok)
  show "deleg_gap (nfs_place_delegation e i d t c) = deleg_gap c - 1"
    unfolding eq using return_and_free_gap [OF new(2), of e] new(1) by simp
qed

lemma set_delegation_new:
  fixes i cred :: nat and type sid limit t
  assumes ok: "deleg_ok c" and fresh: "deleg_fresh e c" and d: "de_kmalloc e = Some d"
  defines "c1 \<equiv> upd_dl d (\<lambda>_. nfs_new_delegation i cred type sid limit t (i_iversion (ino_heap c i))) c"
  shows "nfs_inode_set_delegation e i cred type sid limit t c = (nfs_place_delegation e i d t c1, 0)"
    and "deleg_ok c1" and "deleg_gap c1 = deleg_gap c" and "dl_inode (dl_heap c1 d) = Some i"
    and "NFS_DELEGATION_REVOKED \<notin> dl_flags (dl_heap c1 d)" and "\<forall>j. i_delegation (ino_heap c1 j) \<noteq> Some d"
    and "deleg_duplicate i (dl_type (dl_heap c1 d)) (dl_stateid (dl_heap c1 d)) c1 =
         deleg_duplicate i type sid c"
proof -
  have free: "\<forall>j. i_delegation (ino_heap c j) \<noteq> Some d" using fresh d by (simp add: deleg_fresh_def)
  then show "deleg_ok c1" "deleg_gap c1 = deleg_gap c" "\<forall>j. i_delegation (ino_heap c1 j) \<noteq> Some d"
    using ok upd_dl_detached [OF free] by (simp_all add: c1_def)
  show "deleg_duplicate i (dl_type (dl_heap c1 d)) (dl_stateid (dl_heap c1 d)) c1 =
      deleg_duplicate i type sid c"
    using free by (auto simp: c1_def deleg_duplicate_def nfs_new_delegation_def split: option.splits)
qed (simp_all add: c1_def nfs_new_delegation_def nfs_inode_set_delegation_def Let_def d)

lemma set_delegation_keeps:
  assumes ok: "deleg_ok c" and fresh: "deleg_fresh e c" and dup: "\<not> deleg_duplicate i type sid c"
  shows "deleg_ok (fst (nfs_inode_set_delegation e i cred type sid limit t c)) \<and>
    deleg_gap (fst (nfs_inode_set_delegation e i cred type sid limit t c)) = deleg_gap c"
proof (cases "de_kmalloc e")
  case (Some d)
  note n = set_delegation_new [OF ok fresh Some,
    where i = i and cred = cred and type = type and sid = sid and limit = limit and t = t]
  show ?thesis unfolding n(1) fst_conv n(3) [symmetric]
    by (rule place_delegation_keeps [OF n(2,4,5,6)]) (simp only: n(7) dup not_False_eq_True)
qed (use ok in \<open>simp add: nfs_inode_set_delegation_def\<close>)

lemma set_delegation_duplicate:
  assumes ok: "deleg_ok c" and fresh: "deleg_fresh e c" and dup: "deleg_duplicate i type sid c"
    and d: "de_kmalloc e = Some d"
  shows "deleg_ok (fst (nfs_inode_set_delegation e i cred type sid limit t c)) \<and>
    deleg_gap (fst (nfs_inode_set_delegation e i cred type sid limit t c)) = deleg_gap c - 1"
proof -
  note n = set_delegation_new [OF ok fresh d,
    where i = i and cred = cred and type = type and sid = sid and limit = limit and t = t]
  note p = place_delegation_duplicate [OF n(2,5,6) n(7) [THEN iffD2, OF dup]]
  show ?thesis unfolding n(1) fst_conv n(3) [symmetric] by (rule conjI [OF p])
qed

lemma reclaim_delegation_keeps:
  assumes ok: "deleg_ok c" and fresh: "deleg_fresh e c"
  shows "deleg_ok (nfs_inode_reclaim_delegation e i cred type sid limit t c) \<and>
    deleg_gap (nfs_inode_reclaim_delegation e i cred type sid limit t c) = deleg_gap c"
proof (cases "i_delegation (ino_heap c i)")
  case None
  then have "\<not> deleg_duplicate i type sid c" by (simp add: deleg_duplicate_def)
  then show ?thesis using set_delegation_keeps [OF ok fresh] None
    by (simp add: nfs_inode_reclaim_delegation_def)
next
  case (Some d)
  define c1 where "c1 = upd_dl d (clear_dl NFS_DELEGATION_NEED_RECLAIM)
     (upd_dl d (if attrs_deleg t then set_dl NFS_DELEGATION_DELEGTIME else clear_dl NFS_DELEGATION_DELEGTIME)
       (upd_dl d (\<lambda>x. x\<lparr>dl_stateid := sid, dl_type := type, pagemod_limit := limit, dl_cred := cred\<rparr>) c))"
  have s: "same_delegs c c1" unfolding c1_def
    by (intro same_delegs_rules same_delegs_refl) (simp_all add: set_dl_def clear_dl_def)
  have ok1: "deleg_ok c1" "deleg_gap c1 = deleg_gap c" using same_delegs_ok [OF s] ok by simp_all
  have i1: "i_delegation (ino_heap c1 i) = Some d" using s Some by (simp add: same_delegs_def)
  have n: "nfs_active_delegations (upd_dl d f c1) = nfs_active_delegations c1" for f by simp
  have eq: "nfs_inode_reclaim_delegation e i cred type sid limit t c =
    (if NFS_DELEGATION_REVOKED \<in> dl_flags (dl_heap c1 d)
     then (upd_dl d (clear_dl NFS_DELEGATION_REVOKED) c1)
       \<lparr>nfs_active_delegations := nfs_active_delegations c1 + 1\<rparr> else c1)"
    unfolding nfs_inode_reclaim_delegation_def Some option.case Let_def c1_def [symmetric] n by simp
  show ?thesis unfolding eq using ok1 unrevoke [OF ok1(1) i1 _ refl] by simp
qed

lemma evict_delegation_keeps:
  assumes ok: "deleg_ok c"
  shows "deleg_ok (nfs_inode_evict_delegation e i c)"
    and "deleg_gap (nfs_inode_evict_delegation e i c) = deleg_gap c"
    and "i_delegation (ino_heap (nfs_inode_evict_delegation e i c) i) = None"
proof -
  let ?r = "nfs_inode_evict_delegation e i c"
  have "deleg_ok ?r \<and> deleg_gap ?r = deleg_gap c \<and> i_delegation (ino_heap ?r i) = None"
  proof (cases "i_delegation (ino_heap c i)")
    case None
    then show ?thesis using ok
      by (simp add: nfs_inode_evict_delegation_def nfs_inode_detach_delegation_def)
  next
    case (Some d)
    define c1 where "c1 = fst (nfs_detach_delegation_locked i d c)"
    note c1 = detach_delegation [OF ok Some, folded c1_def]
    define c2 where "c2 = upd_dl d (set_dl NFS_DELEGATION_INODE_FREEING)
      (upd_dl d (set_dl NFS_DELEGATION_RETURNING) c1)"
    have s: "same_delegs c1 c2" unfolding c2_def
      by (intro same_delegs_rules same_delegs_refl) (simp_all add: set_dl_def)
    have ok2: "deleg_ok c2" "deleg_gap c2 = deleg_gap c1" using same_delegs_ok [OF s] c1(2) by simp_all
    have d2: "\<forall>j. i_delegation (ino_heap c2 j) \<noteq> Some d" "i_delegation (ino_heap c2 i) = None"
      "(NFS_DELEGATION_REVOKED \<in> dl_flags (dl_heap c2 d)) = (NFS_DELEGATION_REVOKED \<in> dl_flags (dl_heap c d))"
      using s c1(3,4,8) by (simp_all add: same_delegs_def)
    have eq: "?r = nfs_return_and_free e d c2"
      using Some c1(1)
      by (simp add: nfs_inode_evict_delegation_def nfs_inode_detach_delegation_def
          nfs_detach_delegation_def c2_def)
    have "i_delegation (ino_heap (nfs_return_and_free e d c2) i) = None"
      using d2(2) by (simp add: nfs_return_and_free_def nfs_do_return_delegation_def nfs_free_delegation_def
        nfs_put_delegation_def nfs_mark_delegation_revoked_def nfs_clear_verifier_delegated_def
        free_delegation_struct_def Let_def split: option.split)
    then show ?thesis unfolding eq
      using ok2 c1(9) d2 return_and_free_gap [OF d2(1), of e] by (simp add: return_and_free_ok)
  qed
  then show "deleg_ok ?r" "deleg_gap ?r = deleg_gap c" "i_delegation (ino_heap ?r i) = None" by simp_all
qed

text \<open>
  Looking for the state that a stateid stands for only sets marks: the delegations, their lists and
  their test generations stay.
\<close>

definition same_marks :: "nfs4_clnt \<Rightarrow> nfs4_clnt \<Rightarrow> bool" where
  "same_marks c c' \<longleftrightarrow> same_delegs c c' \<and> (\<forall>d. test_gen (dl_heap c' d) = test_gen (dl_heap c d))"

lemma same_marks_trans: "same_marks a b \<Longrightarrow> same_marks b c \<Longrightarrow> same_marks a c"
  unfolding same_marks_def using same_delegs_trans by auto

lemma same_marks_basic:
  "same_marks c c"
  "same_marks c (nfs4_schedule_state_manager k c)"
  "same_marks c (fst (nfs4_state_mark_reclaim_nograce i c))"
  "same_marks c (nfs_mark_test_expired_delegation s d c)"
  by (simp_all add: same_marks_def same_delegs_def nfs4_state_mark_reclaim_nograce_def Let_def
      nfs_mark_test_expired_delegation_def set_dl_def clear_dl_def set_sv_def)

lemma same_marks_find_delegation:
  "same_marks c (nfs_inode_find_delegation_state_and_recover k i sid c)"
  unfolding nfs_inode_find_delegation_state_and_recover_def
  by (auto split: option.split intro: same_marks_basic same_marks_trans)

lemma same_marks_find_state_step: "same_marks (fst r) (fst (nfs_find_state_step sid x r))"
  using same_marks_basic(1,3)
  by (auto simp: nfs_find_state_step_def split: prod.split option.split) (metis fst_conv)+

lemma same_marks_find_states:
  "same_marks (fst r) (fst (fold (nfs_find_state_step sid) xs r))"
proof (induction xs arbitrary: r)
  case (Cons x xs)
  show ?case using same_marks_trans [OF same_marks_find_state_step Cons.IH] by simp
qed (simp add: same_marks_basic)

lemma same_marks_find_state: "same_marks c (nfs_inode_find_state_and_recover k i sid c)"
proof -
  obtain c1 found where r: "fold (nfs_find_state_step sid) (i_open_files (ino_heap c i)) (c, False) = (c1, found)"
    by fastforce
  have "same_marks c c1" using same_marks_find_states [of "(c, False)" sid] r by (metis fst_conv)
  then have "same_marks c (nfs_inode_find_delegation_state_and_recover k i sid c1)"
    by (rule same_marks_trans [OF _ same_marks_find_delegation])
  then show ?thesis
    unfolding nfs_inode_find_state_and_recover_def r prod.case Let_def
    using same_marks_trans [OF _ same_marks_basic(2)] by simp
qed

text \<open>What revoking and returning a delegation keep.\<close>

definition deleg_kept :: "nfs4_clnt \<Rightarrow> nfs4_clnt \<Rightarrow> bool" where
  "deleg_kept c c' \<longleftrightarrow>
     deleg_ok c' \<and> deleg_gap c' = deleg_gap c \<and>
     (\<forall>s. set (sv_delegations (sv_heap c' s)) \<subseteq> set (sv_delegations (sv_heap c s))) \<and>
     (\<forall>d. test_gen (dl_heap c' d) = test_gen (dl_heap c d))"

lemma deleg_kept_trans: "deleg_kept a b \<Longrightarrow> deleg_kept b c \<Longrightarrow> deleg_kept a c"
  unfolding deleg_kept_def by (simp, meson subsetD subsetI)

lemma deleg_kept_marks:
  assumes "deleg_ok c" "same_marks c c'"
  shows "deleg_kept c c'"
proof -
  have s: "same_delegs c c'" using assms(2) by (simp add: same_marks_def)
  from same_delegs_ok(1,3) [OF s] show ?thesis
    using assms s by (simp add: deleg_kept_def same_marks_def) (simp add: same_delegs_def)
qed

lemma mark_revoked_frame:
  "sv_heap (nfs_mark_delegation_revoked d c) = sv_heap c"
  "test_gen (dl_heap (nfs_mark_delegation_revoked d c) x) = test_gen (dl_heap c x)"
  "i_delegation (ino_heap (nfs_mark_delegation_revoked d c) j) = i_delegation (ino_heap c j)"
  by (auto simp: nfs_mark_delegation_revoked_def Let_def nfs_clear_verifier_delegated_def set_dl_def
      split: option.split)

lemma deleg_kept_revoked:
  assumes "deleg_ok c" "i_delegation (ino_heap c i) = Some d"
  shows "deleg_kept c (nfs_mark_delegation_revoked d c)"
  using assms mark_revoked_gap_attached [OF assms]
  by (simp add: deleg_kept_def mark_revoked_ok mark_revoked_frame)

lemma revoke_delegation_kept:
  assumes ok: "deleg_ok c"
  shows "deleg_kept c (nfs_revoke_delegation k i sid c)"
proof (cases "i_delegation (ino_heap c i)")
  case None
  then show ?thesis using deleg_kept_marks [OF ok same_marks_basic(1)] by (simp add: nfs_revoke_delegation_def)
next
  case (Some d)
  have rev: "deleg_kept c (nfs_inode_find_state_and_recover k i z (nfs_mark_delegation_revoked d (upd_dl d f c)))"
    if f: "\<And>x. dl_inode (f x) = dl_inode x" "\<And>x. dl_flags (f x) = dl_flags x"
      "\<And>x. test_gen (f x) = test_gen x" for f z
  proof -
    have "same_marks c (upd_dl d f c)" by (simp add: same_marks_def same_delegs_def f)
    then have k1: "deleg_kept c (upd_dl d f c)" using ok by (rule deleg_kept_marks [rotated])
    then have "deleg_ok (upd_dl d f c)" by (simp add: deleg_kept_def)
    then have k2: "deleg_kept (upd_dl d f c) (nfs_mark_delegation_revoked d (upd_dl d f c))"
      using Some by (intro deleg_kept_revoked) simp_all
    then have "deleg_ok (nfs_mark_delegation_revoked d (upd_dl d f c))" by (simp add: deleg_kept_def)
    from deleg_kept_marks [OF this same_marks_find_state] k1 k2 show ?thesis using deleg_kept_trans by blast
  qed
  have id: "upd_dl d (\<lambda>x. x) c = c" by (simp add: upd_defs)
  note rev1 = rev [of "\<lambda>x. x", unfolded id, OF refl refl refl]
  note rev2 = rev [of "\<lambda>x. x\<lparr>dl_stateid := (dl_stateid x)\<lparr>seqid := q\<rparr>\<rparr>" for q]
  show ?thesis
    using rev1 rev2 deleg_kept_marks [OF ok same_marks_basic(1)] Some
    by (simp add: nfs_revoke_delegation_def Let_def split: option.split)
qed

lemma detach_revoked_kept:
  assumes ok: "deleg_ok c" and i: "i_delegation (ino_heap c i) = Some d"
  shows "deleg_kept c (case nfs_detach_delegation i d (upd_dl d (clear_dl NFS_DELEGATION_RETURNING)
           (nfs_mark_delegation_revoked d c)) of (c, None) \<Rightarrow> c | (c, Some _) \<Rightarrow> nfs_put_delegation d c)"
proof -
  define c1 where "c1 = upd_dl d (clear_dl NFS_DELEGATION_RETURNING) (nfs_mark_delegation_revoked d c)"
  have k0: "deleg_kept c (nfs_mark_delegation_revoked d c)" by (rule deleg_kept_revoked [OF ok i])
  then have "deleg_ok (nfs_mark_delegation_revoked d c)" by (simp add: deleg_kept_def)
  moreover have "same_marks (nfs_mark_delegation_revoked d c) c1"
    unfolding c1_def by (simp add: same_marks_def same_delegs_def clear_dl_def)
  ultimately have "deleg_kept (nfs_mark_delegation_revoked d c) c1" by (rule deleg_kept_marks)
  with k0 have k1: "deleg_kept c c1" by (rule deleg_kept_trans)
  then have ok1: "deleg_ok c1" by (simp add: deleg_kept_def)
  have i1: "i_delegation (ino_heap c1 i) = Some d" using i by (simp add: c1_def mark_revoked_frame)
  have r1: "NFS_DELEGATION_REVOKED \<in> dl_flags (dl_heap c1 d)"
    by (auto simp: c1_def nfs_mark_delegation_revoked_def Let_def nfs_clear_verifier_delegated_def
        set_dl_def clear_dl_def split: option.split)
  define c2 where "c2 = fst (nfs_detach_delegation_locked i d c1)"
  note c2 = detach_delegation [OF ok1 i1, folded c2_def]
  have k2: "deleg_kept c1 c2" using c2(2,7,8,9) r1 by (auto simp: deleg_kept_def)
  have "same_marks c2 (nfs_put_delegation d c2)"
    by (simp add: same_marks_def same_delegs_def nfs_put_delegation_def Let_def free_delegation_struct_def)
  with c2(2) have "deleg_kept c2 (nfs_put_delegation d c2)" by (rule deleg_kept_marks)
  with k1 k2 have "deleg_kept c (nfs_put_delegation d c2)" using deleg_kept_trans by blast
  then show ?thesis unfolding c1_def [symmetric] nfs_detach_delegation_def c2(1) by simp
qed

lemma mark_returned_kept:
  assumes ok: "deleg_ok c"
  shows "deleg_kept c (nfs_delegation_mark_returned k ino sid c)"
proof (cases ino)
  case None
  then show ?thesis using deleg_kept_marks [OF ok same_marks_basic(1)]
    by (simp add: nfs_delegation_mark_returned_def)
next
  case (Some i)
  have fin: "deleg_kept c (nfs_inode_find_state_and_recover k i sid c')" if "deleg_kept c c'" for c'
    using that deleg_kept_marks [OF _ same_marks_find_state] deleg_kept_trans
    by (metis deleg_kept_def)
  have refl: "deleg_kept c c" by (rule deleg_kept_marks [OF ok same_marks_basic(1)])
  show ?thesis
  proof (cases "i_delegation (ino_heap c i)")
    case None
    then show ?thesis using fin [OF refl] Some by (simp add: nfs_delegation_mark_returned_def)
  next
    case d: (Some d)
    have upd: "deleg_kept c (upd_dl d f c)"
      if f: "\<And>x. dl_inode (f x) = dl_inode x" "\<And>x. test_gen (f x) = test_gen x"
        "\<And>x. (NFS_DELEGATION_REVOKED \<in> dl_flags (f x)) = (NFS_DELEGATION_REVOKED \<in> dl_flags x)" for f
      by (rule deleg_kept_marks [OF ok]) (simp add: same_marks_def same_delegs_def f)
    define c1 where "c1 = (if seqid sid \<noteq> 0
      then upd_dl d (\<lambda>x. x\<lparr>dl_stateid := (dl_stateid x)\<lparr>seqid := seqid sid\<rparr>\<rparr>) c else c)"
    have k1: "deleg_kept c c1" unfolding c1_def using refl by (simp add: upd)
    have k2: "deleg_kept c (upd_dl d (clear_dl NFS_DELEGATION_RETURNING) c)"
      by (rule upd) (simp_all add: clear_dl_def)
    have "deleg_ok c1" "i_delegation (ino_heap c1 i) = Some d"
      using k1 d by (simp_all add: deleg_kept_def) (simp add: c1_def)
    from deleg_kept_trans [OF k1 detach_revoked_kept [OF this]] refl k2 show ?thesis
      unfolding nfs_delegation_mark_returned_def Some option.case Let_def d c1_def [symmetric]
      by (intro fin) simp
  qed
qed

lemma remove_bad_delegation_kept:
  "deleg_ok c \<Longrightarrow> deleg_kept c (mynfs_remove_bad_delegation k i sid c)"
  by (simp add: mynfs_remove_bad_delegation_def mark_returned_kept revoke_delegation_kept
      split: option.split)

section \<open>The walks of the state manager end\<close>

lemma scan_grab_frame:
  assumes "nfs_scan_grab e P ds c = (c', r)"
  shows "same_marks c c'"
  using assms
proof (induction e P ds c rule: nfs_scan_grab.induct)
  case (2 e P d ds c)
  have "same_marks c (upd_dl d (set_dl NFS_DELEGATION_INODE_FREEING) c)"
    by (simp add: same_marks_def same_delegs_def set_dl_def)
  with 2 show ?case
    by (auto simp: nfs_delegation_grab_inode_def same_marks_basic split: if_splits option.splits
        intro: same_marks_trans)
qed (simp add: same_marks_basic)

text \<open>
  A delegation that the scan returns satisfies the condition, and when it returns none, every
  delegation of the list that satisfied the condition is marked as being freed.
\<close>

lemma scan_grab_some:
  assumes "nfs_scan_grab e P ds c = (c', Some (d, i))"
  shows "d \<in> set ds" "P (dl_heap c' d)" "dl_inode (dl_heap c' d) = Some i"
proof -
  have "d \<in> set ds \<and> P (dl_heap c' d) \<and> dl_inode (dl_heap c' d) = Some i"
    using assms
    by (induction e P ds c rule: nfs_scan_grab.induct)
      (auto simp: nfs_delegation_grab_inode_def split: if_splits option.splits)
  then show "d \<in> set ds" "P (dl_heap c' d)" "dl_inode (dl_heap c' d) = Some i" by simp_all
qed

lemma scan_grab_none:
  assumes "nfs_scan_grab e P ds c = (c', None)"
    and P: "\<And>x. NFS_DELEGATION_INODE_FREEING \<in> dl_flags x \<Longrightarrow> \<not> P x"
    and "d \<in> set ds \<or> \<not> P (dl_heap c d)"
  shows "\<not> P (dl_heap c' d)"
  using assms(1,3)
proof (induction ds arbitrary: c)
  case (Cons y ds)
  let ?c = "upd_dl y (set_dl NFS_DELEGATION_INODE_FREEING) c"
  have y: "\<not> P (dl_heap ?c y)" by (rule P) (simp add: set_dl_def)
  show ?case
  proof (cases "P (dl_heap c y)")
    case False
    then show ?thesis using Cons by auto
  next
    case True
    then have r: "nfs_scan_grab e P ds ?c = (c', None)"
      using Cons.prems(1) by (auto simp: nfs_delegation_grab_inode_def split: if_splits option.splits)
    show ?thesis by (rule Cons.IH [OF r]) (use Cons.prems(2) y in auto)
  qed
qed simp

lemma free_delegation_frame: "sv_heap (nfs_free_delegation d c) = sv_heap c"
  by (simp add: nfs_free_delegation_def nfs_put_delegation_def Let_def free_delegation_struct_def
      mark_revoked_frame)

lemma put_delegation_frame: "sv_heap (nfs_put_delegation d c) = sv_heap c"
  by (simp add: nfs_put_delegation_def Let_def free_delegation_struct_def)

lemma start_return:
  assumes "i_delegation (ino_heap c i) = Some d" "dl_inode (dl_heap c d) = Some i"
    "NFS_DELEGATION_RETURNING \<notin> dl_flags (dl_heap c d)"
  shows "snd (nfs_start_delegation_return_locked i c) = Some d"
    and "same_delegs c (fst (nfs_start_delegation_return_locked i c))"
  using assms
  by (simp_all add: nfs_start_delegation_return_locked_def Let_def same_delegs_def set_dl_def clear_dl_def
      nfs_get_delegation_def nfs_clear_verifier_delegated_def)

lemma listed_inode:
  assumes "deleg_ok c" "d \<in> set (sv_delegations (sv_heap c s))" "dl_inode (dl_heap c d) = Some i"
  shows "i_delegation (ino_heap c i) = Some d"
  using deleg_ok_listed [OF assms(1,2)] deleg_ok_attached(1) [OF assms(1)] assms(3) by (metis option.inject)

text \<open>One delegation that nobody claimed.\<close>

lemma drop_unclaimed:
  assumes ok: "deleg_ok c" and d: "d \<in> set (sv_delegations (sv_heap c s))" "deleg_unclaimed (dl_heap c d)"
    "dl_inode (dl_heap c d) = Some i"
  obtains c1 c2 where "nfs_start_delegation_return_locked i c = (c1, Some d)"
    "nfs_detach_delegation i d c1 = (c2, Some d)"
    "deleg_ok (nfs_put_delegation d (nfs_free_delegation d c2))"
    "deleg_gap (nfs_put_delegation d (nfs_free_delegation d c2)) = deleg_gap c"
    "set (sv_delegations (sv_heap (nfs_put_delegation d (nfs_free_delegation d c2)) s)) =
       set (sv_delegations (sv_heap c s)) - {d}"
proof -
  define c1 where "c1 = fst (nfs_start_delegation_return_locked i c)"
  have i: "i_delegation (ino_heap c i) = Some d" by (rule listed_inode [OF ok d(1,3)])
  have "NFS_DELEGATION_RETURNING \<notin> dl_flags (dl_heap c d)" using d(2) by (simp add: deleg_unclaimed_def)
  from start_return [OF i d(3) this, folded c1_def]
  have start: "nfs_start_delegation_return_locked i c = (c1, Some d)" and s: "same_delegs c c1"
    by (simp_all add: c1_def prod_eq_iff)
  have ok1: "deleg_ok c1" "deleg_gap c1 = deleg_gap c" using same_delegs_ok [OF s] ok by simp_all
  have i1: "i_delegation (ino_heap c1 i) = Some d" using s i by (simp add: same_delegs_def)
  define c2 where "c2 = fst (nfs_detach_delegation_locked i d c1)"
  note c2 = detach_delegation [OF ok1(1) i1, folded c2_def]
  have put: "same_delegs x (nfs_put_delegation d x)" for x by (rule same_delegs_put [OF same_delegs_refl])
  have det: "nfs_detach_delegation i d c1 = (c2, Some d)" using c2(1) by (simp add: nfs_detach_delegation_def)
  have list: "sv_delegations (sv_heap c1 s) = sv_delegations (sv_heap c s)" using s by (simp add: same_delegs_def)
  show ?thesis
  proof (rule that [OF start det])
    show "deleg_ok (nfs_put_delegation d (nfs_free_delegation d c2))"
      using same_delegs_ok(1) [OF put] c2(2) by (simp add: free_delegation_ok)
    show "deleg_gap (nfs_put_delegation d (nfs_free_delegation d c2)) = deleg_gap c"
      using same_delegs_ok(3) [OF put] free_delegation_gap [OF c2(4)] c2(8,9) ok1(2) by simp
    show "set (sv_delegations (sv_heap (nfs_put_delegation d (nfs_free_delegation d c2)) s)) =
        set (sv_delegations (sv_heap c s)) - {d}"
      using c2(7) list by (simp add: put_delegation_frame free_delegation_frame)
  qed
qed

lemma reap_unclaimed_returns:
  assumes "deleg_ok c"
  shows "\<exists>c'. nfs_server_reap_unclaimed_delegations e s c = Some (c', 0) \<and> deleg_ok c' \<and>
    deleg_gap c' = deleg_gap c \<and>
    (\<forall>d \<in> set (sv_delegations (sv_heap c' s)). \<not> deleg_unclaimed (dl_heap c' d))"
  using assms
proof (induction "card (set (sv_delegations (sv_heap c s)))" arbitrary: c rule: less_induct)
  case less
  let ?ds = "sv_delegations (sv_heap c s)"
  obtain c0 r where scan: "nfs_scan_grab e deleg_unclaimed ?ds c = (c0, r)" by fastforce
  have s0: "same_delegs c c0" using scan_grab_frame [OF scan] by (simp add: same_marks_def)
  have ok0: "deleg_ok c0" "deleg_gap c0 = deleg_gap c" using same_delegs_ok [OF s0] less.prems by simp_all
  have list: "sv_delegations (sv_heap c0 s) = ?ds" using s0 by (simp add: same_delegs_def)
  show ?case
  proof (cases r)
    case None
    have "\<not> deleg_unclaimed (dl_heap c0 d)" if "d \<in> set ?ds" for d
      by (rule scan_grab_none [OF scan [unfolded None]]) (use that in \<open>simp_all add: deleg_unclaimed_def\<close>)
    then show ?thesis using ok0 list
      unfolding nfs_server_reap_unclaimed_delegations.simps [of e s c] scan None by simp
  next
    case (Some di)
    then obtain d i where r: "r = Some (d, i)" by (cases di) simp
    note d = scan_grab_some [OF scan [unfolded r]]
    obtain c1 c2 where step: "nfs_start_delegation_return_locked i c0 = (c1, Some d)"
      "nfs_detach_delegation i d c1 = (c2, Some d)"
      "deleg_ok (nfs_put_delegation d (nfs_free_delegation d c2))"
      "deleg_gap (nfs_put_delegation d (nfs_free_delegation d c2)) = deleg_gap c0"
      "set (sv_delegations (sv_heap (nfs_put_delegation d (nfs_free_delegation d c2)) s)) = set ?ds - {d}"
      using drop_unclaimed [OF ok0(1) d(1) [folded list] d(2,3)] list by metis
    have "card (set ?ds - {d}) < card (set ?ds)" using d(1) by (intro psubset_card_mono) auto
    from less.hyps [OF this [folded step(5)] step(3)] step(4) ok0(2) show ?thesis
      unfolding nfs_server_reap_unclaimed_delegations.simps [of e s c] scan r by (simp add: step(1,2))
  qed
qed

text \<open>Testing the stateids of expired delegations: the generation says which ones are still to do.\<close>

lemma test_free_expired_kept:
  assumes "deleg_ok c"
  shows "deleg_kept c (nfs_delegation_test_free_expired e i sid cred c)"
proof -
  have m: "deleg_kept c (c\<lparr>tested_stateids := l, cl_state := F\<rparr>)" for l F
    by (rule deleg_kept_marks [OF assms]) (simp add: same_marks_def same_delegs_def)
  then have "deleg_ok (c\<lparr>tested_stateids := l, cl_state := F\<rparr>)" for l F by (simp add: deleg_kept_def)
  from deleg_kept_trans [OF m remove_bad_delegation_kept [OF this]] m deleg_kept_marks [OF assms same_marks_basic(1)]
  show ?thesis by (simp add: nfs_delegation_test_free_expired_def Let_def split: prod.split)
qed

text \<open>
  What a test of the delegation \<open>d\<close> leaves alone: every other delegation, its place on its list, and the
  record of the tests.
\<close>

definition others_kept :: "nat \<Rightarrow> nfs4_clnt \<Rightarrow> nfs4_clnt \<Rightarrow> bool" where
  "others_kept d c c' \<longleftrightarrow>
     (\<forall>x. x \<noteq> d \<longrightarrow> dl_heap c' x = dl_heap c x) \<and>
     (\<forall>s. set (sv_delegations (sv_heap c s)) - {d} \<subseteq> set (sv_delegations (sv_heap c' s))) \<and>
     (\<forall>j. i_delegation (ino_heap c' j) \<in> {i_delegation (ino_heap c j), None}) \<and>
     (NFS_DELEGATION_REVOKED \<in> dl_flags (dl_heap c d) \<longrightarrow> NFS_DELEGATION_REVOKED \<in> dl_flags (dl_heap c' d)) \<and>
     tested_stateids c' = tested_stateids c"

lemma others_kept_refl: "others_kept d c c"
  by (simp add: others_kept_def)

lemma others_kept_trans:
  assumes "others_kept d a b" "others_kept d b c"
  shows "others_kept d a c"
proof -
  have "i_delegation (ino_heap c j) \<in> {i_delegation (ino_heap a j), None}" for j
    using assms unfolding others_kept_def by (metis insert_iff)
  moreover have "set (sv_delegations (sv_heap a s)) - {d} \<subseteq> set (sv_delegations (sv_heap c s))" for s
    using assms unfolding others_kept_def by blast
  ultimately show ?thesis using assms by (simp add: others_kept_def)
qed

lemma others_kept_basic:
  "others_kept d c (nfs4_schedule_state_manager k c)"
  "others_kept d c (fst (nfs4_state_mark_reclaim_nograce i c))"
  "others_kept d c (nfs_mark_test_expired_delegation s d c)"
  "others_kept d c (nfs_mark_delegation_revoked d c)"
  "others_kept d c (nfs_put_delegation d c)"
  "others_kept d c (upd_dl d (clear_dl NFS_DELEGATION_RETURNING) c)"
  "others_kept d c (upd_dl d (\<lambda>x. x\<lparr>dl_stateid := g x\<rparr>) c)"
  by (auto simp: others_kept_def nfs4_state_mark_reclaim_nograce_def Let_def nfs_mark_test_expired_delegation_def
      nfs_mark_delegation_revoked_def nfs_clear_verifier_delegated_def nfs_put_delegation_def
      free_delegation_struct_def set_dl_def clear_dl_def set_sv_def split: option.split)

lemma others_kept_detach: "others_kept d c (fst (nfs_detach_delegation i d c))"
  by (auto simp: others_kept_def nfs_detach_delegation_def nfs_detach_delegation_locked_def Let_def
      dest: in_set_remove1 [THEN iffD2, rotated])

lemma others_kept_find_states:
  "others_kept d (fst r) (fst (fold (nfs_find_state_step sid) xs r))"
proof (induction xs arbitrary: r)
  case (Cons x xs)
  have "others_kept d (fst r) (fst (nfs_find_state_step sid x r))"
    using others_kept_refl others_kept_basic(2)
    by (auto simp: nfs_find_state_step_def split: prod.split option.split) (metis fst_conv)+
  then show ?case using others_kept_trans [OF _ Cons.IH] by simp
qed (simp add: others_kept_refl)

lemma others_kept_find_state:
  assumes "i_delegation (ino_heap c i) \<in> {Some d, None}"
  shows "others_kept d c (nfs_inode_find_state_and_recover k i sid c)"
proof -
  obtain c1 found where r: "fold (nfs_find_state_step sid) (i_open_files (ino_heap c i)) (c, False) = (c1, found)"
    by fastforce
  have c1: "others_kept d c c1" using others_kept_find_states [of d "(c, False)" sid] r by (metis fst_conv)
  then have "i_delegation (ino_heap c1 i) \<in> {Some d, None}" using assms unfolding others_kept_def by (metis insertE insertI1 insertI2 singletonD)
  then have "others_kept d c1 (nfs_inode_find_delegation_state_and_recover k i sid c1)"
    unfolding nfs_inode_find_delegation_state_and_recover_def
    by (auto intro: others_kept_refl others_kept_trans [OF others_kept_basic(3) others_kept_basic(1)])
  with c1 have "others_kept d c (nfs_inode_find_delegation_state_and_recover k i sid c1)" by (rule others_kept_trans)
  then show ?thesis
    unfolding nfs_inode_find_state_and_recover_def r prod.case Let_def
    using others_kept_trans [OF _ others_kept_basic(1)] by simp
qed

lemma others_kept_inode:
  "others_kept d c c' \<Longrightarrow> i_delegation (ino_heap c i) \<in> {Some d, None} \<Longrightarrow> i_delegation (ino_heap c' i) \<in> {Some d, None}"
  unfolding others_kept_def by (metis insertE insertI1 insertI2 singletonD)

lemma others_kept_found:
  "others_kept d c c' \<Longrightarrow> i_delegation (ino_heap c i) \<in> {Some d, None} \<Longrightarrow>
     others_kept d c (nfs_inode_find_state_and_recover k i sid c')"
  using others_kept_trans others_kept_find_state others_kept_inode by blast

lemma mark_revoked_sets: "NFS_DELEGATION_REVOKED \<in> dl_flags (dl_heap (nfs_mark_delegation_revoked d c) d)"
  by (auto simp: nfs_mark_delegation_revoked_def Let_def nfs_clear_verifier_delegated_def set_dl_def split: option.split)

text \<open>A delegation whose stateid the server rejects is revoked, and nothing happens to the others.\<close>

lemma remove_bad_delegation_revokes:
  assumes i: "i_delegation (ino_heap c i) = Some d"
  shows "others_kept d c (mynfs_remove_bad_delegation k i (Some sid) c)"
    and "nfs4_stateid_match_other sid (dl_stateid (dl_heap c d)) \<Longrightarrow> seqid sid = seqid (dl_stateid (dl_heap c d)) \<Longrightarrow>
      NFS_DELEGATION_REVOKED \<in> dl_flags (dl_heap (mynfs_remove_bad_delegation k i (Some sid) c) d)"
proof -
  define q where "q = (if seqid sid \<noteq> 0 then upd_dl d (\<lambda>x. x\<lparr>dl_stateid := (dl_stateid x)\<lparr>seqid := seqid sid\<rparr>\<rparr>) c else c)"
  define r where "r = nfs_mark_delegation_revoked d q"
  define t where "t = upd_dl d (clear_dl NFS_DELEGATION_RETURNING) r"
  define det where "det = (case nfs_detach_delegation i d t of (c, None) \<Rightarrow> c | (c, Some _) \<Rightarrow> nfs_put_delegation d c)"
  define x where "x = upd_dl d (clear_dl NFS_DELEGATION_RETURNING) c"
  have at: "i_delegation (ino_heap c i) \<in> {Some d, None}" using i by simp
  have kq: "others_kept d c q" unfolding q_def using others_kept_basic(7) others_kept_refl by simp
  have kr: "others_kept d c r" unfolding r_def by (rule others_kept_trans [OF kq others_kept_basic(4)])
  have rt: "others_kept d r t" unfolding t_def by (rule others_kept_basic(6))
  have td: "others_kept d t det"
    unfolding det_def using others_kept_detach [of d t i] others_kept_trans [OF _ others_kept_basic(5)]
    by (cases "nfs_detach_delegation i d t") (auto split: option.split)
  note kd = others_kept_trans [OF others_kept_trans [OF kr rt] td]
  have kx: "others_kept d c x" unfolding x_def by (rule others_kept_basic(6))
  have eq1: "nfs_delegation_mark_returned k (Some i) sid c = nfs_inode_find_state_and_recover k i sid
      (if \<not> nfs4_stateid_match_other sid (dl_stateid (dl_heap c d)) then c
       else if seqid sid \<noteq> 0 \<and> nfs4_stateid_is_newer (dl_stateid (dl_heap c d)) sid then x else det)"
    by (simp only: nfs_delegation_mark_returned_def option.case i Let_def det_def t_def r_def q_def x_def)
  have eq2: "nfs_revoke_delegation k i (Some sid) c =
      (if \<not> nfs4_stateid_match_other sid (dl_stateid (dl_heap c d)) then c
       else if seqid sid \<noteq> 0 \<and> nfs4_stateid_is_newer (dl_stateid (dl_heap c d)) sid then c
       else nfs_inode_find_state_and_recover k i sid r)"
    by (simp only: nfs_revoke_delegation_def option.case i Let_def r_def q_def)
  show "others_kept d c (mynfs_remove_bad_delegation k i (Some sid) c)"
    unfolding mynfs_remove_bad_delegation_def option.case eq1 eq2
    using others_kept_found [OF others_kept_refl at] others_kept_found [OF kd at] others_kept_found [OF kx at]
      others_kept_found [OF kr at] others_kept_refl by simp
  assume m: "nfs4_stateid_match_other sid (dl_stateid (dl_heap c d))" "seqid sid = seqid (dl_stateid (dl_heap c d))"
  then have new: "\<not> nfs4_stateid_is_newer (dl_stateid (dl_heap c d)) sid"
    by (simp add: nfs4_stateid_is_newer_def s32_after_def)
  have rr: "NFS_DELEGATION_REVOKED \<in> dl_flags (dl_heap r d)" unfolding r_def by (rule mark_revoked_sets)
  have kept: "others_kept d a b \<Longrightarrow> NFS_DELEGATION_REVOKED \<in> dl_flags (dl_heap a d) \<Longrightarrow>
      NFS_DELEGATION_REVOKED \<in> dl_flags (dl_heap b d)" for a b by (simp add: others_kept_def)
  note rd = kept [OF td kept [OF rt rr]]
  show "NFS_DELEGATION_REVOKED \<in> dl_flags (dl_heap (mynfs_remove_bad_delegation k i (Some sid) c) d)"
    unfolding mynfs_remove_bad_delegation_def option.case eq1 eq2
    using m(1) new kept [OF others_kept_find_state [OF others_kept_inode [OF kr at]] rr]
      kept [OF others_kept_find_state [OF others_kept_inode [OF kd at]] rd] by simp
qed

lemma mark_test_expired_kept:
  "deleg_ok c \<Longrightarrow> deleg_kept c (nfs_inode_mark_test_expired_delegation s i c)"
  using deleg_kept_marks same_marks_basic(1,4)
  by (simp add: nfs_inode_mark_test_expired_delegation_def split: option.split)

definition untested :: "ulong \<Rightarrow> nat \<Rightarrow> nfs4_clnt \<Rightarrow> nat set" where
  "untested gen s c = {d \<in> set (sv_delegations (sv_heap c s)). test_gen (dl_heap c d) \<noteq> gen}"

lemma rebooted_marks:
  "nfs4_server_rebooted c \<Longrightarrow> nfs4_server_rebooted (nfs_inode_mark_test_expired_delegation s i c)"
  by (auto simp: nfs4_server_rebooted_def nfs_inode_mark_test_expired_delegation_def
      nfs_mark_test_expired_delegation_def Let_def set_cl_def split: option.split)

lemma scan_grab_others:
  assumes "nfs_scan_grab e P ds c = (c', r)"
  shows "sv_heap c' = sv_heap c \<and> tested_stateids c' = tested_stateids c \<and>
    (\<forall>x. \<not> P (dl_heap c x) \<or> (\<exists>i. dl_inode (dl_heap c x) = Some i \<and> de_igrab e i) \<longrightarrow>
       dl_heap c' x = dl_heap c x)"
  using assms
proof (induction ds arbitrary: c)
  case (Cons y ds)
  let ?c = "upd_dl y (set_dl NFS_DELEGATION_INODE_FREEING) c"
  consider "nfs_scan_grab e P ds c = (c', r)" | "c' = c"
    | "P (dl_heap c y)" "\<nexists>i. dl_inode (dl_heap c y) = Some i \<and> de_igrab e i" "nfs_scan_grab e P ds ?c = (c', r)"
    using Cons.prems by (auto simp: nfs_delegation_grab_inode_def split: if_splits option.splits)
  then show ?case
  proof cases
    case 3
    note IH = Cons.IH [OF 3(3)]
    have "dl_heap c' x = dl_heap c x"
      if "\<not> P (dl_heap c x) \<or> (\<exists>i. dl_inode (dl_heap c x) = Some i \<and> de_igrab e i)" for x
    proof -
      have "dl_heap ?c x = dl_heap c x" using that 3(1,2) by (cases "x = y") auto
      then show ?thesis using IH that by metis
    qed
    then show ?thesis using IH by simp
  qed (use Cons.IH in auto)
qed simp

text \<open>
  A delegation is asked about when its test is due and its inode and its credential can be had. The
  server rejects it when it says so about the same stateid, whatever type that got.
\<close>

definition deleg_askable :: "deleg_env \<Rightarrow> ulong \<Rightarrow> nfs_delegation \<Rightarrow> bool" where
  "deleg_askable e gen x \<longleftrightarrow>
     deleg_test_due gen x \<and> (\<exists>i. dl_inode x = Some i \<and> de_igrab e i) \<and> de_get_cred e (dl_cred x)"

definition server_rejects :: "deleg_env \<Rightarrow> nfs4_stateid \<Rightarrow> bool" where
  "server_rejects e sid \<longleftrightarrow>
     (case de_test_free e sid of (tested, status, _) \<Rightarrow>
        (status = - NFS4ERR_EXPIRED \<or> status = - NFS4ERR_BAD_STATEID) \<and>
        other tested = other sid \<and> seqid tested = seqid sid)"

lemma test_free_expired_asks:
  fixes c :: nfs4_clnt and e :: deleg_env and i d :: nat and sid :: nfs4_stateid and cred :: "nat option"
  assumes i: "i_delegation (ino_heap c i) = Some d"
  defines "c' \<equiv> nfs_delegation_test_free_expired e i sid cred c"
  shows "x \<noteq> d \<Longrightarrow> dl_heap c' x = dl_heap c x"
    and "set (sv_delegations (sv_heap c s)) - {d} \<subseteq> set (sv_delegations (sv_heap c' s))"
    and "tested_stateids c' = tested_stateids c @ (if cred = None then [] else [sid])"
    and "sid = dl_stateid (dl_heap c d) \<Longrightarrow> cred \<noteq> None \<Longrightarrow> server_rejects e sid \<Longrightarrow>
      NFS_DELEGATION_REVOKED \<in> dl_flags (dl_heap c' d)"
proof -
  obtain tested status raised where t: "de_test_free e sid = (tested, status, raised)" by (metis prod_cases3)
  define c1 where "c1 = c\<lparr>tested_stateids := tested_stateids c @ [sid], cl_state := cl_state c \<union> raised\<rparr>"
  define c2 where "c2 = mynfs_remove_bad_delegation (de_kthread e) i (Some tested) c1"
  have i1: "i_delegation (ino_heap c1 i) = Some d" using i by (simp add: c1_def)
  note rev = remove_bad_delegation_revokes [OF i1, where k = "de_kthread e" and sid = tested, folded c2_def]
  have eq: "c' = (if cred = None then c else if status = - NFS4ERR_EXPIRED \<or> status = - NFS4ERR_BAD_STATEID then c2 else c1)"
    by (simp add: c'_def nfs_delegation_test_free_expired_def t c1_def c2_def Let_def)
  have c1: "dl_heap c1 = dl_heap c" "sv_heap c1 = sv_heap c" "tested_stateids c1 = tested_stateids c @ [sid]"
    by (simp_all add: c1_def)
  show "dl_heap c' x = dl_heap c x" if "x \<noteq> d" using rev(1) that by (simp add: eq c1 others_kept_def)
  show "set (sv_delegations (sv_heap c s)) - {d} \<subseteq> set (sv_delegations (sv_heap c' s))"
    using rev(1) by (auto simp: eq others_kept_def c1)
  show "tested_stateids c' = tested_stateids c @ (if cred = None then [] else [sid])"
    using rev(1) by (simp add: eq c1 others_kept_def)
  show "NFS_DELEGATION_REVOKED \<in> dl_flags (dl_heap c' d)"
    if "sid = dl_stateid (dl_heap c d)" "cred \<noteq> None" "server_rejects e sid"
  proof -
    have "status = - NFS4ERR_EXPIRED \<or> status = - NFS4ERR_BAD_STATEID" "other tested = other sid" "seqid tested = seqid sid"
      using that(3) by (simp_all add: server_rejects_def t)
    then show ?thesis using rev(2) that(1,2) by (auto simp: eq c1 nfs4_stateid_match_other_def)
  qed
qed

text \<open>One round of the loop: the delegation \<open>d\<close> is tested, and the state after it is \<open>c2\<close>.\<close>

lemma reap_expired_step:
  assumes ok: "deleg_ok c"
    and scan: "nfs_scan_grab e (deleg_test_due gen) (sv_delegations (sv_heap c s)) c = (c0, Some (d, i))"
  obtains c2 c3 where
    "nfs_reap_expired_loop e gen s c =
       (if \<not> nfs4_server_rebooted c2 then nfs_reap_expired_loop e gen s c2 else Some (c3, - EAGAIN))"
    "deleg_kept c2 c3" "deleg_ok c2" "deleg_gap c2 = deleg_gap c" "untested gen s c2 \<subset> untested gen s c"
    "nfs4_server_rebooted c2 \<longrightarrow> nfs4_server_rebooted c3" "NFS4CLNT_DELEGATION_EXPIRED \<in> cl_state c3"
    "NFS4SERV_DELEGATION_EXPIRED \<in> sv_delegation_flags (sv_heap c3 s)" "tested_stateids c3 = tested_stateids c2"
    "test_gen (dl_heap c2 d) = gen" "\<And>x. x \<noteq> d \<Longrightarrow> dl_heap c2 x = dl_heap c0 x"
    "set (sv_delegations (sv_heap c s)) - {d} \<subseteq> set (sv_delegations (sv_heap c2 s))"
    "tested_stateids c2 = tested_stateids c @ (if de_get_cred e (dl_cred (dl_heap c0 d)) then [dl_stateid (dl_heap c0 d)] else [])"
    "de_get_cred e (dl_cred (dl_heap c0 d)) \<Longrightarrow> server_rejects e (dl_stateid (dl_heap c0 d)) \<Longrightarrow>
       NFS_DELEGATION_REVOKED \<in> dl_flags (dl_heap c2 d)"
proof -
  have "same_marks c c0" by (rule scan_grab_frame [OF scan])
  with ok have k0: "deleg_kept c c0" by (rule deleg_kept_marks)
  then have ok0: "deleg_ok c0" "deleg_gap c0 = deleg_gap c" by (simp_all add: deleg_kept_def)
  note d = scan_grab_some [OF scan] and fr = scan_grab_others [OF scan]
  define c1 where "c1 = upd_dl d (clear_dl NFS_DELEGATION_TEST_EXPIRED) (upd_dl d (\<lambda>x. x\<lparr>test_gen := gen\<rparr>) c0)"
  have s1: "same_delegs c0 c1" unfolding c1_def
    by (intro same_delegs_rules same_delegs_refl) (simp_all add: clear_dl_def)
  then have ok1: "deleg_ok c1" "deleg_gap c1 = deleg_gap c" using same_delegs_ok [OF s1] ok0 by simp_all
  have c1: "x \<noteq> d \<Longrightarrow> dl_heap c1 x = dl_heap c0 x" "dl_stateid (dl_heap c1 d) = dl_stateid (dl_heap c0 d)"
    "sv_heap c1 = sv_heap c" "tested_stateids c1 = tested_stateids c" "test_gen (dl_heap c1 d) = gen" for x
    using fr by (simp_all add: c1_def clear_dl_def)
  have i1: "i_delegation (ino_heap c1 i) = Some d"
    by (rule listed_inode [OF ok1(1), of d s]) (use d c1(3) s1 in \<open>simp_all add: same_delegs_def\<close>)
  define cred where
    "cred = (if de_get_cred e (dl_cred (dl_heap c0 d)) then Some (dl_cred (dl_heap c0 d)) else None)"
  define c2 where "c2 = nfs_delegation_test_free_expired e i (dl_stateid (dl_heap c0 d)) cred c1"
  note asks = test_free_expired_asks [OF i1, where e = e and sid = "dl_stateid (dl_heap c0 d)" and cred = cred, folded c2_def]
  have k2: "deleg_kept c1 c2" unfolding c2_def by (rule test_free_expired_kept [OF ok1(1)])
  then have ok2: "deleg_ok c2" "deleg_gap c2 = deleg_gap c" using ok1 by (simp_all add: deleg_kept_def)
  have g: "test_gen (dl_heap c2 x) = (if x = d then gen else test_gen (dl_heap c x))" for x
    using k2 k0 c1(1) [of x] c1(5) by (simp add: deleg_kept_def)
  have "set (sv_delegations (sv_heap c2 s)) \<subseteq> set (sv_delegations (sv_heap c s))"
    using k2 c1(3) unfolding deleg_kept_def by metis
  moreover have "d \<in> untested gen s c"
    using d(1,2) k0 by (simp add: untested_def deleg_test_due_def deleg_kept_def)
  ultimately have sub: "untested gen s c2 \<subset> untested gen s c" by (auto simp: untested_def g)
  define c3 where "c3 = set_cl NFS4CLNT_DELEGATION_EXPIRED
    (upd_sv s (set_sv NFS4SERV_DELEGATION_EXPIRED) (nfs_inode_mark_test_expired_delegation s i c2))"
  let ?m = "nfs_inode_mark_test_expired_delegation s i c2"
  have s3: "same_marks ?m c3" unfolding c3_def by (simp add: same_marks_def same_delegs_def set_sv_def)
  have "deleg_kept c2 ?m" by (rule mark_test_expired_kept [OF ok2(1)])
  then have k3: "deleg_kept c2 c3" using deleg_kept_marks [OF _ s3] deleg_kept_trans by (metis deleg_kept_def)
  show ?thesis
  proof (rule that [of c2 c3, OF _ k3 ok2 sub])
    show "nfs_reap_expired_loop e gen s c =
       (if \<not> nfs4_server_rebooted c2 then nfs_reap_expired_loop e gen s c2 else Some (c3, - EAGAIN))"
      unfolding nfs_reap_expired_loop.simps [of e gen s c] scan
      by (simp add: Let_def c3_def c2_def c1_def cred_def)
    show "nfs4_server_rebooted c2 \<longrightarrow> nfs4_server_rebooted c3"
      using rebooted_marks [of c2 s i] by (auto simp: c3_def nfs4_server_rebooted_def set_cl_def)
  qed (use asks c1 g in \<open>auto simp: c3_def set_cl_def set_sv_def cred_def nfs_inode_mark_test_expired_delegation_def
      nfs_mark_test_expired_delegation_def Let_def split: option.split\<close>)
qed

lemma reap_expired_loop_returns:
  assumes "deleg_ok c"
  shows "\<exists>c' r. nfs_reap_expired_loop e gen s c = Some (c', r) \<and> deleg_ok c' \<and>
    deleg_gap c' = deleg_gap c \<and>
    (r = 0 \<and> (\<forall>d \<in> set (sv_delegations (sv_heap c' s)). \<not> deleg_test_due gen (dl_heap c' d)) \<or>
     r = - EAGAIN \<and> nfs4_server_rebooted c' \<and> NFS4CLNT_DELEGATION_EXPIRED \<in> cl_state c' \<and>
     NFS4SERV_DELEGATION_EXPIRED \<in> sv_delegation_flags (sv_heap c' s))"
  using assms
proof (induction "card (untested gen s c)" arbitrary: c rule: less_induct)
  case less
  let ?ds = "sv_delegations (sv_heap c s)"
  obtain c0 r where scan: "nfs_scan_grab e (deleg_test_due gen) ?ds c = (c0, r)" by fastforce
  show ?case
  proof (cases r)
    case None
    have k0: "deleg_kept c c0" by (rule deleg_kept_marks [OF less.prems scan_grab_frame [OF scan]])
    have "\<not> deleg_test_due gen (dl_heap c0 d)" if "d \<in> set ?ds" for d
      by (rule scan_grab_none [OF scan [unfolded None]]) (use that in \<open>simp_all add: deleg_test_due_def\<close>)
    then show ?thesis using k0 scan_grab_others [OF scan]
      unfolding nfs_reap_expired_loop.simps [of e gen s c] scan None by (simp add: deleg_kept_def)
  next
    case (Some di)
    then obtain d i where r: "r = Some (d, i)" by (cases di) simp
    show ?thesis
    proof (rule reap_expired_step [OF less.prems scan [unfolded r]])
      fix c2 c3
      assume eq: "nfs_reap_expired_loop e gen s c =
          (if \<not> nfs4_server_rebooted c2 then nfs_reap_expired_loop e gen s c2 else Some (c3, - EAGAIN))"
        and k3: "deleg_kept c2 c3" and c2: "deleg_ok c2" "deleg_gap c2 = deleg_gap c"
        and sub: "untested gen s c2 \<subset> untested gen s c"
        and c3: "nfs4_server_rebooted c2 \<longrightarrow> nfs4_server_rebooted c3" "NFS4CLNT_DELEGATION_EXPIRED \<in> cl_state c3"
          "NFS4SERV_DELEGATION_EXPIRED \<in> sv_delegation_flags (sv_heap c3 s)"
      have "card (untested gen s c2) < card (untested gen s c)"
        by (rule psubset_card_mono [OF _ sub]) (simp add: untested_def)
      from less.hyps [OF this c2(1)] show ?thesis
        unfolding eq using c2(2) c3 k3 by (cases "nfs4_server_rebooted c2") (simp_all add: deleg_kept_def)
    qed
  qed
qed

lemma reap_expired_loop_asks:
  assumes "deleg_ok c" "nfs_reap_expired_loop e gen s c = Some (c', r)"
  shows "\<exists>l. tested_stateids c' = tested_stateids c @ l \<and>
    (r = 0 \<longrightarrow>
      (\<forall>x. test_gen (dl_heap c x) = gen \<longrightarrow> dl_heap c' x = dl_heap c x) \<and>
      (\<forall>x \<in> set (sv_delegations (sv_heap c s)). deleg_askable e gen (dl_heap c x) \<longrightarrow>
         dl_stateid (dl_heap c x) \<in> set l \<and>
         (server_rejects e (dl_stateid (dl_heap c x)) \<longrightarrow> NFS_DELEGATION_REVOKED \<in> dl_flags (dl_heap c' x))))"
  using assms
proof (induction "card (untested gen s c)" arbitrary: c rule: less_induct)
  case less
  let ?ds = "sv_delegations (sv_heap c s)"
  obtain c0 o0 where scan: "nfs_scan_grab e (deleg_test_due gen) ?ds c = (c0, o0)" by fastforce
  note fr = scan_grab_others [OF scan]
  have gen: "\<not> deleg_test_due gen x" if "test_gen x = gen" for x using that by (simp add: deleg_test_due_def)
  have ask: "dl_heap c0 x = dl_heap c x" if "deleg_askable e gen (dl_heap c x)" for x
    using fr that by (simp add: deleg_askable_def)
  show ?case
  proof (cases o0)
    case None
    have "\<not> deleg_test_due gen (dl_heap c0 x)" if "x \<in> set ?ds" for x
      by (rule scan_grab_none [OF scan [unfolded None]]) (use that in \<open>simp_all add: deleg_test_due_def\<close>)
    then have "\<not> deleg_askable e gen (dl_heap c x)" if "x \<in> set ?ds" for x
      using that ask [of x] deleg_askable_def by metis
    then show ?thesis using fr gen less.prems(2)
      unfolding nfs_reap_expired_loop.simps [of e gen s c] scan None by auto
  next
    case (Some di)
    then obtain d i where o0: "o0 = Some (d, i)" by (cases di) simp
    have due: "deleg_test_due gen (dl_heap c0 d)" by (rule scan_grab_some [OF scan [unfolded o0]])
    show ?thesis
    proof (rule reap_expired_step [OF less.prems(1) scan [unfolded o0]])
      fix c2 c3
      let ?l = "if de_get_cred e (dl_cred (dl_heap c0 d)) then [dl_stateid (dl_heap c0 d)] else []"
      assume eq: "nfs_reap_expired_loop e gen s c =
          (if \<not> nfs4_server_rebooted c2 then nfs_reap_expired_loop e gen s c2 else Some (c3, - EAGAIN))"
        and ok: "deleg_ok c2" and sub: "untested gen s c2 \<subset> untested gen s c"
        and t3: "tested_stateids c3 = tested_stateids c2" and g2: "test_gen (dl_heap c2 d) = gen"
        and h2: "\<And>x. x \<noteq> d \<Longrightarrow> dl_heap c2 x = dl_heap c0 x"
        and l2: "set ?ds - {d} \<subseteq> set (sv_delegations (sv_heap c2 s))"
        and t2: "tested_stateids c2 = tested_stateids c @ ?l"
        and rev: "de_get_cred e (dl_cred (dl_heap c0 d)) \<Longrightarrow> server_rejects e (dl_stateid (dl_heap c0 d)) \<Longrightarrow>
          NFS_DELEGATION_REVOKED \<in> dl_flags (dl_heap c2 d)"
      show ?thesis
      proof (cases "nfs4_server_rebooted c2")
        case True
        then show ?thesis using less.prems(2) eq t2 t3 by auto
      next
        case False
        have "card (untested gen s c2) < card (untested gen s c)"
          by (rule psubset_card_mono [OF _ sub]) (simp add: untested_def)
        from less.hyps [OF this ok] False less.prems(2) eq obtain l where
          l: "tested_stateids c' = tested_stateids c2 @ l"
            "r = 0 \<Longrightarrow> test_gen (dl_heap c2 x) = gen \<Longrightarrow> dl_heap c' x = dl_heap c2 x"
            "r = 0 \<Longrightarrow> x \<in> set (sv_delegations (sv_heap c2 s)) \<Longrightarrow> deleg_askable e gen (dl_heap c2 x) \<Longrightarrow>
               dl_stateid (dl_heap c2 x) \<in> set l \<and>
               (server_rejects e (dl_stateid (dl_heap c2 x)) \<longrightarrow> NFS_DELEGATION_REVOKED \<in> dl_flags (dl_heap c' x))" for x
          by auto
        have kept: "dl_heap c' x = dl_heap c x" if "r = 0" "test_gen (dl_heap c x) = gen" for x
        proof -
          have "dl_heap c0 x = dl_heap c x" using fr gen [OF that(2)] by blast
          moreover have "x \<noteq> d" using that(2) due calculation gen by auto
          ultimately show ?thesis using h2 [of x] l(2) [OF that(1), of x] that(2) by simp
        qed
        have asked: "dl_stateid (dl_heap c x) \<in> set (?l @ l) \<and>
            (server_rejects e (dl_stateid (dl_heap c x)) \<longrightarrow> NFS_DELEGATION_REVOKED \<in> dl_flags (dl_heap c' x))"
          if "r = 0" "x \<in> set ?ds" "deleg_askable e gen (dl_heap c x)" for x
        proof (cases "x = d")
          case True
          then show ?thesis using ask [OF that(3)] that(3) rev l(2) [OF that(1) g2]
            by (auto simp: deleg_askable_def)
        next
          case False
          then show ?thesis using l(3) [OF that(1), of x] l2 h2 [OF False] ask [OF that(3)] that(2,3) by auto
        qed
        show ?thesis using t2 l(1) kept asked by (intro exI [of _ "?l @ l"]) simp
      qed
    qed
  qed
qed

section \<open>Properties\<close>

text \<open>
  The states that the operations on delegations can reach, with the number of times a server
  handed out a delegation that the client already had. The step \<open>other\<close> stands for all code that
  leaves the links, the revocations and the counter alone.
\<close>

inductive deleg_reach :: "nat \<Rightarrow> nfs4_clnt \<Rightarrow> bool" where
  start: "deleg_reach 0 c"
    if "\<And>i. i_delegation (ino_heap c i) = None" "\<And>s. sv_delegations (sv_heap c s) = []"
      "nfs_active_delegations c = 0"
| grant: "deleg_reach n (fst (nfs_inode_set_delegation e i cred type sid limit t c))"
    if "deleg_reach n c" "deleg_fresh e c" "\<not> deleg_duplicate i type sid c"
| duplicate: "deleg_reach (Suc n) (fst (nfs_inode_set_delegation e i cred type sid limit t c))"
    if "deleg_reach n c" "deleg_fresh e c" "deleg_duplicate i type sid c" "de_kmalloc e \<noteq> None"
| reclaim: "deleg_reach n (nfs_inode_reclaim_delegation e i cred type sid limit t c)"
    if "deleg_reach n c" "deleg_fresh e c"
| evict: "deleg_reach n (nfs_inode_evict_delegation e i c)" if "deleg_reach n c"
| returned: "deleg_reach n (nfs_delegation_mark_returned k ino sid c)" if "deleg_reach n c"
| bad: "deleg_reach n (mynfs_remove_bad_delegation k i sid' c)" if "deleg_reach n c"
| unclaimed: "deleg_reach n c'"
    if "deleg_reach n c" "nfs_server_reap_unclaimed_delegations e s c = Some (c', r)"
| expired: "deleg_reach n c'"
    if "deleg_reach n c" "nfs_reap_expired_loop e gen s c = Some (c', r)"
| other: "deleg_reach n c'" if "deleg_reach n c" "same_delegs c c'"

text \<open>
  C11: The delegation links and the global counter. In every state that granting, reclaiming,
  revoking, returning, evicting and reaping delegations can reach, an inode and its delegation
  point to each other, the delegation is once on its server's list, and \<open>nfs_active_delegations\<close> is the
  number of attached delegations that are not revoked, less the number of duplicate grants.
\<close>

theorem delegation_links_and_count:
  assumes "deleg_reach n c"
  shows "deleg_ok c \<and> nfs_active_delegations c = int (card (deleg_live c)) - int n"
proof -
  have "deleg_ok c \<and> deleg_gap c = - int n"
    using assms
  proof induction
    case (start c)
    then show ?case by (simp add: deleg_ok_def deleg_gap_def deleg_live_def)
  next
    case (grant n c e i type sid cred limit t)
    then show ?case using set_delegation_keeps by simp
  next
    case (duplicate n c e i type sid cred limit t)
    then obtain d where "de_kmalloc e = Some d" by blast
    then show ?case using set_delegation_duplicate duplicate by simp
  next
    case (reclaim n c e i cred type sid limit t)
    then show ?case using reclaim_delegation_keeps by simp
  next
    case (evict n c e i)
    then show ?case by (simp add: evict_delegation_keeps)
  next
    case (returned n c k ino sid)
    then show ?case using mark_returned_kept by (simp add: deleg_kept_def)
  next
    case (bad n c k i sid')
    then show ?case using remove_bad_delegation_kept by (simp add: deleg_kept_def)
  next
    case (unclaimed n c e s c' r)
    then show ?case using reap_unclaimed_returns [of c e s] by auto
  next
    case (expired n c e gen s c' r)
    then show ?case using reap_expired_loop_returns [of c e gen s] by auto
  next
    case (other n c c')
    then show ?case using same_delegs_ok(1,3) by metis
  qed
  then show ?thesis by (simp add: deleg_gap_def)
qed

text \<open>An inode with a delegation, for the examples.\<close>

definition ex_deleg_env :: deleg_env where
  "ex_deleg_env = \<lparr>de_kthread = 0, de_kmalloc = Some 8, de_igrab = (\<lambda>_. True), de_sb_active = (\<lambda>_. True),
     de_ctx_get = (\<lambda>_. True), de_get_cred = (\<lambda>_. True), de_cred_fscmp = (\<lambda>_ _. 0), de_break_lease = 0,
     de_delegreturn = (\<lambda>_. 0), de_test_free = (\<lambda>sid. (sid, - NFS4ERR_BAD_STATEID, {})),
     de_compare_fh = (=)\<rparr>"

definition ex_deleg :: nfs4_clnt where
  "ex_deleg = zero_clnt
     \<lparr>nfs_active_delegations := 1,
      dl_heap := (\<lambda>d. zero_deleg\<lparr>dl_inode := if d = 7 then Some 3 else None,
        dl_type := {FMODE_READ},
        dl_stateid := \<lparr>seqid = 1, other = 9, sid_type = NFS4_DELEGATION_STATEID_TYPE\<rparr>,
        dl_flags := {NFS_DELEGATION_NEED_RECLAIM, NFS_DELEGATION_TEST_EXPIRED}, dl_refcount := 1\<rparr>),
      ino_heap := (\<lambda>i. zero_inode\<lparr>i_delegation := if i = 3 then Some 7 else None, i_fh := i\<rparr>),
      sv_heap := (\<lambda>s. zero_server\<lparr>sv_delegations := if s = 0 then [7] else []\<rparr>)\<rparr>"

lemma ex_deleg_simps [simp]:
  "nfs_active_delegations ex_deleg = 1"
  "i_delegation (ino_heap ex_deleg i) = (if i = 3 then Some 7 else None)"
  "i_server (ino_heap ex_deleg i) = 0" "i_fh (ino_heap ex_deleg i) = i"
  "dl_inode (dl_heap ex_deleg d) = (if d = 7 then Some 3 else None)"
  "dl_type (dl_heap ex_deleg d) = {FMODE_READ}" "test_gen (dl_heap ex_deleg d) = 0"
  "dl_stateid (dl_heap ex_deleg d) = \<lparr>seqid = 1, other = 9, sid_type = NFS4_DELEGATION_STATEID_TYPE\<rparr>"
  "dl_flags (dl_heap ex_deleg d) = {NFS_DELEGATION_NEED_RECLAIM, NFS_DELEGATION_TEST_EXPIRED}"
  "sv_delegations (sv_heap ex_deleg s) = (if s = 0 then [7] else [])"
  by (simp_all add: ex_deleg_def zero_defs)

lemma ex_deleg_live: "deleg_live ex_deleg = {3}"
  by (auto simp: deleg_live_iff split: if_splits)

lemma ex_deleg_ok: "deleg_ok ex_deleg" "deleg_gap ex_deleg = 0" "deleg_fresh ex_deleg_env ex_deleg"
  by (auto simp: deleg_ok_def deleg_gap_def ex_deleg_live deleg_fresh_def ex_deleg_env_def)

theorem delegation_links_and_count_witness:
  "nfs_active_delegations (nfs_inode_evict_delegation ex_deleg_env 3
       (fst (nfs_inode_set_delegation ex_deleg_env 3 0 {FMODE_READ} zero_sid 0 NFS4_OPEN_DELEGATE_READ zero_clnt)))
   = int (card (deleg_live (nfs_inode_evict_delegation ex_deleg_env 3
       (fst (nfs_inode_set_delegation ex_deleg_env 3 0 {FMODE_READ} zero_sid 0 NFS4_OPEN_DELEGATE_READ zero_clnt)))))"
proof -
  have "deleg_reach 0 zero_clnt" by (rule deleg_reach.start) (simp_all add: zero_defs)
  then have "deleg_reach 0
    (fst (nfs_inode_set_delegation ex_deleg_env 3 0 {FMODE_READ} zero_sid 0 NFS4_OPEN_DELEGATE_READ zero_clnt))"
    by (rule deleg_reach.grant) (simp_all add: deleg_fresh_def deleg_duplicate_def zero_defs)
  from delegation_links_and_count [OF deleg_reach.evict [OF this]] show ?thesis by simp
qed

text \<open>
  C36: A duplicate grant is taken off a count it was never added to. When a server hands out a second
  delegation with a new stateid for a file that has one, of the same type or without write access,
  \<open>nfs_inode_set_delegation\<close> sends the new one back and frees it like one that was counted: every file
  keeps its delegation, the lists and the number of live delegations stay as they were, and the
  counter of active delegations is one less.
\<close>

theorem nfs_inode_set_delegation_duplicate:
  assumes "deleg_fresh e c" "de_kmalloc e = Some d" "i_delegation (ino_heap c i) = Some old"
    "\<not> nfs4_stateid_match_other (dl_stateid (dl_heap c old)) sid"
    "NFS_DELEGATION_REVOKED \<notin> dl_flags (dl_heap c old)"
    "type = dl_type (dl_heap c old) \<or> FMODE_WRITE \<notin> type"
  shows "case nfs_inode_set_delegation e i cred type sid limit t c of (c', r) \<Rightarrow>
    r = 0 \<and> (\<forall>j. i_delegation (ino_heap c' j) = i_delegation (ino_heap c j)) \<and>
    (\<forall>x. x \<noteq> d \<longrightarrow> dl_heap c' x = dl_heap c x) \<and> sv_heap c' = sv_heap c \<and>
    sent_delegreturns c' = sent_delegreturns c @ [sid] \<and>
    deleg_live c' = deleg_live c \<and> nfs_active_delegations c' = nfs_active_delegations c - 1"
proof -
  define c1 where "c1 = upd_dl d (\<lambda>_. nfs_new_delegation i cred type sid limit t (i_iversion (ino_heap c i))) c"
  define c' where "c' = nfs_return_and_free e d c1"
  have free: "\<forall>j. i_delegation (ino_heap c j) \<noteq> Some d" using assms(1,2) by (simp add: deleg_fresh_def)
  then have "old \<noteq> d" using assms(3) by blast
  then have eq: "nfs_inode_set_delegation e i cred type sid limit t c = (c', 0)"
    using assms by (auto simp: nfs_inode_set_delegation_def nfs_place_delegation_def Let_def c'_def c1_def
        nfs_new_delegation_def)
  have c': "i_delegation (ino_heap c' j) = i_delegation (ino_heap c j)" "x \<noteq> d \<Longrightarrow> dl_heap c' x = dl_heap c x"
    "sv_heap c' = sv_heap c" "sent_delegreturns c' = sent_delegreturns c @ [sid]"
    "nfs_active_delegations c' = nfs_active_delegations c - 1" for j x
    by (simp_all add: c'_def c1_def nfs_return_and_free_def nfs_do_return_delegation_def nfs_free_delegation_def
        nfs_put_delegation_def free_delegation_struct_def nfs_mark_delegation_revoked_def
        nfs_clear_verifier_delegated_def nfs_new_delegation_def set_dl_def Let_def split: option.split)
  have "j \<in> deleg_live c' \<longleftrightarrow> j \<in> deleg_live c" for j
  proof (cases "i_delegation (ino_heap c j)")
    case (Some x)
    then have "x \<noteq> d" using free by auto
    then show ?thesis using Some by (simp add: deleg_live_iff c'(1,2))
  qed (simp add: deleg_live_iff c'(1))
  then have "deleg_live c' = deleg_live c" by blast
  then show ?thesis using c' by (simp add: eq)
qed

theorem nfs_inode_set_delegation_duplicate_witness:
  "\<exists>c'. nfs_inode_set_delegation ex_deleg_env 3 0 {FMODE_READ} zero_sid 0 NFS4_OPEN_DELEGATE_READ ex_deleg = (c', 0) \<and>
    deleg_live c' = {3} \<and> nfs_active_delegations c' = 0"
proof -
  have "de_kmalloc ex_deleg_env = Some 8" "i_delegation (ino_heap ex_deleg 3) = Some 7"
    "\<not> nfs4_stateid_match_other (dl_stateid (dl_heap ex_deleg 7)) zero_sid"
    "NFS_DELEGATION_REVOKED \<notin> dl_flags (dl_heap ex_deleg 7)"
    "{FMODE_READ} = dl_type (dl_heap ex_deleg 7) \<or> FMODE_WRITE \<notin> {FMODE_READ}"
    by (simp_all add: ex_deleg_env_def zero_sid_def nfs4_stateid_match_other_def)
  from nfs_inode_set_delegation_duplicate [OF ex_deleg_ok(3) this, of 0 0 NFS4_OPEN_DELEGATE_READ]
  show ?thesis by (auto simp: ex_deleg_live split: prod.splits)
qed

text \<open>
  Reaping after a reboot. On a well-formed client \<open>nfs_server_reap_unclaimed_delegations\<close> always
  comes to an end, keeps the links and the count right, and leaves on the server's list no
  delegation that still waits to be reclaimed and is neither being returned nor freed.
\<close>

lemma reap_unclaimed_leaves_none:
  assumes "deleg_ok c"
  shows "\<exists>c'. nfs_server_reap_unclaimed_delegations e s c = Some (c', 0) \<and> deleg_ok c' \<and>
    nfs_active_delegations c' - int (card (deleg_live c')) =
    nfs_active_delegations c - int (card (deleg_live c)) \<and>
    (\<forall>d \<in> set (sv_delegations (sv_heap c' s)).
       NFS_DELEGATION_NEED_RECLAIM \<in> dl_flags (dl_heap c' d) \<longrightarrow>
       NFS_DELEGATION_RETURNING \<in> dl_flags (dl_heap c' d) \<or>
       NFS_DELEGATION_INODE_FREEING \<in> dl_flags (dl_heap c' d))"
  using reap_unclaimed_returns [OF assms, of e s] by (auto simp: deleg_unclaimed_def deleg_gap_def)

text \<open>
  C13: Testing expired delegations. \<open>nfs_server_reap_expired_delegations\<close> ends whatever the server
  answers. When the server is marked to have expired delegations and the call reports success, then
  every delegation of the server whose test was due, whose inode and credential could be had, was
  asked about with its stateid, and each one that the server rejected as expired or bad is revoked;
  none is left that still has to be tested in this generation. The only other end is that the server
  rebooted meanwhile: the call reports EAGAIN and the work is marked to be done again.
\<close>

theorem reap_expired_tests_all:
  assumes "deleg_ok c"
  shows "let gen = sv_delegation_gen (sv_heap c s) + 1 in
    \<exists>c' r l. nfs_server_reap_expired_delegations e s c = Some (c', r) \<and> deleg_ok c' \<and>
    tested_stateids c' = tested_stateids c @ l \<and>
    (NFS4SERV_DELEGATION_EXPIRED \<in> sv_delegation_flags (sv_heap c s) \<and> r = 0 \<longrightarrow>
       (\<forall>d \<in> set (sv_delegations (sv_heap c s)). \<forall>i.
          NFS_DELEGATION_TEST_EXPIRED \<in> dl_flags (dl_heap c d) \<and> test_gen (dl_heap c d) \<noteq> gen \<and>
          dl_flags (dl_heap c d) \<inter> {NFS_DELEGATION_RETURNING, NFS_DELEGATION_INODE_FREEING} = {} \<and>
          dl_inode (dl_heap c d) = Some i \<and> de_igrab e i \<and> de_get_cred e (dl_cred (dl_heap c d)) \<longrightarrow>
          dl_stateid (dl_heap c d) \<in> set l \<and>
          (server_rejects e (dl_stateid (dl_heap c d)) \<longrightarrow> NFS_DELEGATION_REVOKED \<in> dl_flags (dl_heap c' d))) \<and>
       (\<forall>d \<in> set (sv_delegations (sv_heap c' s)). \<not> deleg_test_due gen (dl_heap c' d))) \<and>
    (r \<noteq> 0 \<longrightarrow> r = - EAGAIN \<and> nfs4_server_rebooted c' \<and> NFS4CLNT_DELEGATION_EXPIRED \<in> cl_state c' \<and>
       NFS4SERV_DELEGATION_EXPIRED \<in> sv_delegation_flags (sv_heap c' s))"
proof -
  let ?gen = "sv_delegation_gen (sv_heap c s) + 1"
  define c1 where "c1 = upd_sv s (\<lambda>x. x\<lparr>sv_delegation_gen := ?gen\<rparr>) c"
  define c2 where "c2 = upd_sv s (clear_sv NFS4SERV_DELEGATION_EXPIRED) c1"
  have "same_delegs c c1" "same_delegs c c2" unfolding c1_def c2_def
    by (intro same_delegs_rules same_delegs_refl; simp add: clear_sv_def)+
  then have ok: "deleg_ok c1" "deleg_ok c2" using same_delegs_ok(1) assms by blast+
  have c12: "tested_stateids c1 = tested_stateids c" "tested_stateids c2 = tested_stateids c" "dl_heap c2 = dl_heap c"
    "sv_delegations (sv_heap c2 s) = sv_delegations (sv_heap c s)"
    by (simp_all add: c2_def c1_def clear_sv_def)
  have flag: "NFS4SERV_DELEGATION_EXPIRED \<in> sv_delegation_flags (sv_heap c1 s) \<longleftrightarrow>
      NFS4SERV_DELEGATION_EXPIRED \<in> sv_delegation_flags (sv_heap c s)" by (simp add: c1_def)
  have eq: "nfs_server_reap_expired_delegations e s c =
    (if NFS4SERV_DELEGATION_EXPIRED \<notin> sv_delegation_flags (sv_heap c s) then Some (c1, 0)
     else nfs_reap_expired_loop e ?gen s c2)"
    unfolding nfs_server_reap_expired_delegations_def Let_def c1_def [symmetric] c2_def [symmetric] flag ..
  obtain c' r where loop: "nfs_reap_expired_loop e ?gen s c2 = Some (c', r)" and
    ret: "deleg_ok c'" "r = 0 \<and> (\<forall>d \<in> set (sv_delegations (sv_heap c' s)). \<not> deleg_test_due ?gen (dl_heap c' d)) \<or>
     r = - EAGAIN \<and> nfs4_server_rebooted c' \<and> NFS4CLNT_DELEGATION_EXPIRED \<in> cl_state c' \<and>
     NFS4SERV_DELEGATION_EXPIRED \<in> sv_delegation_flags (sv_heap c' s)"
    using reap_expired_loop_returns [OF ok(2), of e ?gen s] by auto
  obtain l where l: "tested_stateids c' = tested_stateids c @ l"
    "r = 0 \<longrightarrow> (\<forall>x \<in> set (sv_delegations (sv_heap c s)). deleg_askable e ?gen (dl_heap c x) \<longrightarrow>
         dl_stateid (dl_heap c x) \<in> set l \<and>
         (server_rejects e (dl_stateid (dl_heap c x)) \<longrightarrow> NFS_DELEGATION_REVOKED \<in> dl_flags (dl_heap c' x)))"
    using reap_expired_loop_asks [OF ok(2) loop] unfolding c12 by blast
  show ?thesis
  proof (cases "NFS4SERV_DELEGATION_EXPIRED \<in> sv_delegation_flags (sv_heap c s)")
    case True
    then show ?thesis unfolding eq loop Let_def using ret l
      by (intro exI [of _ c'] exI [of _ r] exI [of _ l]) (auto simp: deleg_askable_def deleg_test_due_def)
  next
    case False
    then show ?thesis unfolding eq Let_def using ok(1) c12(1) by simp
  qed
qed

lemma ex_expired_ok: "deleg_ok (upd_sv 0 (set_sv NFS4SERV_DELEGATION_EXPIRED) ex_deleg)"
  using same_delegs_ok(1) [of ex_deleg "upd_sv 0 (set_sv NFS4SERV_DELEGATION_EXPIRED) ex_deleg"] ex_deleg_ok(1)
  by (simp add: same_delegs_def set_sv_def)

theorem reap_expired_tests_all_witness:
  "\<exists>c' r. nfs_server_reap_expired_delegations ex_deleg_env 0 (upd_sv 0 (set_sv NFS4SERV_DELEGATION_EXPIRED) ex_deleg) = Some (c', r) \<and>
    (if r = 0 then NFS_DELEGATION_REVOKED \<in> dl_flags (dl_heap c' 7) \<and> tested_stateids c' \<noteq> [] else r = - EAGAIN)"
proof -
  let ?c = "upd_sv 0 (set_sv NFS4SERV_DELEGATION_EXPIRED) ex_deleg"
  obtain c' r l where "nfs_server_reap_expired_delegations ex_deleg_env 0 ?c = Some (c', r)"
    and "tested_stateids c' = tested_stateids ?c @ l" and "r \<noteq> 0 \<longrightarrow> r = - EAGAIN"
    and "r = 0 \<longrightarrow> dl_stateid (dl_heap ?c 7) \<in> set l \<and> NFS_DELEGATION_REVOKED \<in> dl_flags (dl_heap c' 7)"
    using reap_expired_tests_all [OF ex_expired_ok, of 0 ex_deleg_env]
    by (fastforce simp: Let_def set_sv_def server_rejects_def ex_deleg_env_def ex_deleg_def zero_defs)
  then show ?thesis by (intro exI [of _ c'] exI [of _ r]) auto
qed

text \<open>
  Evicting an inode. \<open>nfs_inode_evict_delegation\<close> leaves the inode without a delegation and the
  links and the count right; a delegation that was not revoked is sent back to the server with
  the stateid it had.
\<close>

lemma evict_delegation_returns_it:
  assumes "deleg_ok c" "i_delegation (ino_heap c i) = Some d"
    "NFS_DELEGATION_REVOKED \<notin> dl_flags (dl_heap c d)"
  shows "let c' = nfs_inode_evict_delegation e i c in
    i_delegation (ino_heap c' i) = None \<and> deleg_ok c' \<and>
    nfs_active_delegations c' - int (card (deleg_live c')) =
    nfs_active_delegations c - int (card (deleg_live c)) \<and>
    sent_delegreturns c' = sent_delegreturns c @ [dl_stateid (dl_heap c d)]"
proof -
  have "dl_inode (dl_heap c d) = Some i" by (rule deleg_ok_attached(1) [OF assms(1,2)])
  then have "sent_delegreturns (nfs_inode_evict_delegation e i c) =
      sent_delegreturns c @ [dl_stateid (dl_heap c d)]"
    using assms(2,3)
    by (simp add: nfs_inode_evict_delegation_def nfs_inode_detach_delegation_def nfs_detach_delegation_def
        nfs_detach_delegation_locked_def nfs_return_and_free_def nfs_do_return_delegation_def
        nfs_free_delegation_def nfs_put_delegation_def free_delegation_struct_def
        nfs_mark_delegation_revoked_def nfs_clear_verifier_delegated_def set_dl_def Let_def)
  then show ?thesis using evict_delegation_keeps [OF assms(1), of e i] by (simp add: Let_def deleg_gap_def)
qed

lemma mark_return_fold:
  "sv_delegations (sv_heap (fold (nfs_mark_return_delegation s) ds c) u) = sv_delegations (sv_heap c u)"
  "NFS_DELEGATION_RETURN \<in> dl_flags (dl_heap (fold (nfs_mark_return_delegation s) ds c) d) \<longleftrightarrow>
     d \<in> set ds \<or> NFS_DELEGATION_RETURN \<in> dl_flags (dl_heap c d)"
  "NFS4SERV_DELEGRETURN \<in> sv_delegation_flags (sv_heap (fold (nfs_mark_return_delegation s) ds c) u) \<longleftrightarrow>
     u = s \<and> ds \<noteq> [] \<or> NFS4SERV_DELEGRETURN \<in> sv_delegation_flags (sv_heap c u)"
  "NFS4CLNT_DELEGRETURN \<in> cl_state (fold (nfs_mark_return_delegation s) ds c) \<longleftrightarrow>
     ds \<noteq> [] \<or> NFS4CLNT_DELEGRETURN \<in> cl_state c"
  by (induction ds arbitrary: c)
    (auto simp: nfs_mark_return_delegation_def set_dl_def set_sv_def set_cl_def)

lemma mark_return_all_fold:
  fixes c :: nfs4_clnt
  defines "mark \<equiv> \<lambda>s c. fst (nfs_server_mark_return_all_delegations s c)"
  shows "sv_delegations (sv_heap (fold mark ss c) u) = sv_delegations (sv_heap c u)"
    and "NFS_DELEGATION_RETURN \<in> dl_flags (dl_heap (fold mark ss c) d) \<longleftrightarrow>
      (\<exists>s \<in> set ss. d \<in> set (sv_delegations (sv_heap c s))) \<or> NFS_DELEGATION_RETURN \<in> dl_flags (dl_heap c d)"
    and "NFS4SERV_DELEGRETURN \<in> sv_delegation_flags (sv_heap (fold mark ss c) u) \<longleftrightarrow>
      u \<in> set ss \<and> sv_delegations (sv_heap c u) \<noteq> [] \<or>
      NFS4SERV_DELEGRETURN \<in> sv_delegation_flags (sv_heap c u)"
    and "NFS4CLNT_DELEGRETURN \<in> cl_state (fold mark ss c) \<longleftrightarrow>
      (\<exists>s \<in> set ss. sv_delegations (sv_heap c s) \<noteq> []) \<or> NFS4CLNT_DELEGRETURN \<in> cl_state c"
  by (induction ss arbitrary: c)
    (auto simp: mark_def nfs_server_mark_return_all_delegations_def mark_return_fold)

text \<open>
  Expiring all delegations. \<open>nfs_expire_all_delegations\<close> marks for return exactly the delegations
  on the lists of the client's servers, marks every server that has one, and starts the state
  manager if there is anything to return.
\<close>

lemma expire_all_marks_every_delegation:
  "let c' = nfs_expire_all_delegations k c in
    (\<forall>d. NFS_DELEGATION_RETURN \<in> dl_flags (dl_heap c' d) \<longleftrightarrow>
       (\<exists>s \<in> set (cl_superblocks c). d \<in> set (sv_delegations (sv_heap c s))) \<or>
       NFS_DELEGATION_RETURN \<in> dl_flags (dl_heap c d)) \<and>
    (\<forall>s. NFS4SERV_DELEGRETURN \<in> sv_delegation_flags (sv_heap c' s) \<longleftrightarrow>
       s \<in> set (cl_superblocks c) \<and> sv_delegations (sv_heap c s) \<noteq> [] \<or>
       NFS4SERV_DELEGRETURN \<in> sv_delegation_flags (sv_heap c s)) \<and>
    (nfs_delegations_present c \<longrightarrow>
       c' = nfs4_schedule_state_manager k (nfs_client_mark_return_all_delegations c))"
  unfolding nfs_expire_all_delegations_def nfs_client_mark_return_all_delegations_def
    nfs_delegation_run_state_manager_def nfs_delegations_present_def list_ex_iff Let_def
  by (simp add: mark_return_all_fold)

text \<open>
  Using a delegation's stateid. \<open>nfs4_copy_delegation_stateid\<close> hands out a stateid only from a
  delegation of that inode that covers the requested access, was not revoked and is not being
  returned, and it marks that delegation, and nothing else, as referenced.
\<close>

lemma copy_delegation_stateid_valid:
  "case nfs4_copy_delegation_stateid i flags c of (c', r) \<Rightarrow>
     (\<forall>sid cred. r = Some (sid, cred) \<longleftrightarrow>
        (\<exists>d. i_delegation (ino_heap c i) = Some d \<and> flags \<inter> FMODE_RW \<subseteq> dl_type (dl_heap c d) \<and>
             dl_flags (dl_heap c d) \<inter> {NFS_DELEGATION_REVOKED, NFS_DELEGATION_RETURNING} = {} \<and>
             sid = dl_stateid (dl_heap c d) \<and> cred = dl_cred (dl_heap c d))) \<and>
     c' = (if r = None then c
           else upd_dl (the (i_delegation (ino_heap c i))) (set_dl NFS_DELEGATION_REFERENCED) c)"
  by (cases "i_delegation (ino_heap c i)")
    (auto simp: nfs4_copy_delegation_stateid_def nfs4_is_valid_delegation_def
      nfs_mark_delegation_referenced_def)

lemma find_SomeD: "List.find P xs = Some x \<Longrightarrow> x \<in> set xs \<and> P x"
  by (auto simp: find_Some_iff)

text \<open>
  Finding the inode of a recall. When \<open>nfs_delegation_find_inode\<close> finds an inode, it has a
  delegation that is not revoked, on a mounted server of the client, and the file handle of the
  recall; it reports ENOENT only if no mounted server has such a delegation.
\<close>

lemma find_inode_of_recall:
  assumes "deleg_ok c"
  shows "(\<forall>i. nfs_delegation_find_inode e fh c = Inr i \<longrightarrow>
      (\<exists>d. i_delegation (ino_heap c i) = Some d \<and> NFS_DELEGATION_REVOKED \<notin> dl_flags (dl_heap c d) \<and>
           i_server (ino_heap c i) \<in> set (cl_superblocks c) \<and> de_compare_fh e fh (i_fh (ino_heap c i)))) \<and>
    (nfs_delegation_find_inode e fh c = Inl (- ENOENT) \<longrightarrow>
      \<not> (\<exists>i d. i_delegation (ino_heap c i) = Some d \<and> NFS_DELEGATION_REVOKED \<notin> dl_flags (dl_heap c d) \<and>
           i_server (ino_heap c i) \<in> set (cl_superblocks c) \<and> de_compare_fh e fh (i_fh (ino_heap c i))))"
proof -
  have server: "\<exists>d. i_delegation (ino_heap c i) = Some d \<and> i_server (ino_heap c i) = s \<and>
      NFS_DELEGATION_REVOKED \<notin> dl_flags (dl_heap c d) \<and> de_compare_fh e fh (i_fh (ino_heap c i))"
    if f: "nfs_delegation_find_inode_server e s fh c = Inr i" for s i
  proof -
    obtain d where d: "d \<in> set (sv_delegations (sv_heap c s))" "dl_inode (dl_heap c d) = Some i"
      "NFS_DELEGATION_REVOKED \<notin> dl_flags (dl_heap c d)" "de_compare_fh e fh (i_fh (ino_heap c i))"
      using f by (auto simp: nfs_delegation_find_inode_server_def Let_def
          split: option.splits if_splits dest!: find_SomeD)
    obtain j where j: "i_delegation (ino_heap c j) = Some d" "i_server (ino_heap c j) = s"
      by (rule deleg_ok_listed [OF assms d(1)])
    then have "j = i" using deleg_ok_attached(1) [OF assms j(1)] d(2) by simp
    then show ?thesis using j d by blast
  qed
  have none: "\<not> (NFS_DELEGATION_REVOKED \<notin> dl_flags (dl_heap c d) \<and> de_compare_fh e fh (i_fh (ino_heap c i)))"
    if "nfs_delegation_find_inode_server e (i_server (ino_heap c i)) fh c = Inl (- ENOENT)"
      "i_delegation (ino_heap c i) = Some d" for i d
    using that(1) deleg_ok_attached [OF assms that(2)]
    by (auto simp: nfs_delegation_find_inode_server_def Let_def find_None_iff
        split: option.splits if_splits)
  have found: "nfs_delegation_find_inode_in e ss fh c = Inr i \<Longrightarrow>
      \<exists>s \<in> set ss. nfs_delegation_find_inode_server e s fh c = Inr i" for ss i
    by (induction ss) (auto simp: Let_def split: if_splits)
  have missed: "nfs_delegation_find_inode_in e ss fh c = Inl (- ENOENT) \<Longrightarrow>
      \<forall>s \<in> set ss. nfs_delegation_find_inode_server e s fh c = Inl (- ENOENT)" for ss
    by (induction ss) (auto simp: Let_def split: if_splits)
  show ?thesis unfolding nfs_delegation_find_inode_def
    using server found none missed by blast
qed

end
