(* ===== verification/Nfs4_Owner.thy ===== *)
theory Nfs4_Owner
  imports Nfs4_Delegation_Inv
begin

text \<open>
  Open owners, open states and lock states of \<open>src/mynfs/nfs4state.c\<close>: looking them up, creating
  them, counting their references and freeing them.

  The kernel's red-black trees do the balancing: \<open>rb_insert_color\<close> and \<open>rb_erase\<close> are parameters, and
  so are the comparison of credentials, the allocators and the clock (record \<open>state_env\<close>). Where
  the code drops its locks to allocate memory, \<open>others\<close> is what happens meanwhile.
\<close>

section \<open>Parameters\<close>

record state_env =
  se_deleg :: deleg_env
  se_open_recall :: "nat \<Rightarrow> nat \<Rightarrow> nfs4_clnt \<Rightarrow> nfs4_clnt \<times> int"
  se_lock_recall :: "nat \<Rightarrow> nat \<Rightarrow> nfs4_clnt \<Rightarrow> nfs4_clnt \<times> int"
  se_kzalloc :: "nat option"
  se_ida :: "int set \<Rightarrow> int"
  se_cred_fscmp :: "nat \<Rightarrow> nat \<Rightarrow> int"
  se_rb_insert_color :: "nat \<Rightarrow> nat tree \<Rightarrow> nat tree"
  se_rb_erase :: "nat \<Rightarrow> nat tree \<Rightarrow> nat tree"
  se_jiffies :: ulong
  se_ktime :: int
  se_mv_free_lock :: "nat \<Rightarrow> nat \<Rightarrow> nfs4_clnt \<Rightarrow> nfs4_clnt"
  se_do_close :: "nat \<Rightarrow> nfs4_clnt \<Rightarrow> nfs4_clnt"

section \<open>Open owners\<close>

fun owner_search :: "(nat \<Rightarrow> nat \<Rightarrow> int) \<Rightarrow> (nat \<Rightarrow> nfs4_state_owner) \<Rightarrow> nat \<Rightarrow> nat tree \<Rightarrow> nat option" where
  "owner_search cred_fscmp so cred Leaf = None"
| "owner_search cred_fscmp so cred (Node l sp r) =
     (let cmp = cred_fscmp cred (so_cred (so sp)) in
      if cmp < 0 then owner_search cred_fscmp so cred l
      else if cmp > 0 then owner_search cred_fscmp so cred r
      else Some sp)"

definition owner_get :: "nat \<Rightarrow> nat \<Rightarrow> nfs4_clnt \<Rightarrow> nfs4_clnt" where
  "owner_get s sp c =
     upd_so sp (\<lambda>x. x\<lparr>so_count := so_count x + 1\<rparr>)
       (upd_sv s (\<lambda>x. x\<lparr>sv_owners_lru := remove1 sp (sv_owners_lru x)\<rparr>) c)"

definition nfs4_find_state_owner_locked ::
  "state_env \<Rightarrow> nat \<Rightarrow> nat \<Rightarrow> nfs4_clnt \<Rightarrow> nfs4_clnt \<times> nat option" where
  "nfs4_find_state_owner_locked e s cred c =
     (case owner_search (se_cred_fscmp e) (so_heap c) cred (sv_owners (sv_heap c s)) of
        None \<Rightarrow> (c, None)
      | Some sp \<Rightarrow> (owner_get s sp c, Some sp))"

text \<open>The place of a new owner: the owner that is there already, or the tree with a new leaf.\<close>

fun owner_link ::
  "(nat \<Rightarrow> nat \<Rightarrow> int) \<Rightarrow> (nat \<Rightarrow> nfs4_state_owner) \<Rightarrow> nat \<Rightarrow> nat \<Rightarrow> nat tree \<Rightarrow> nat + nat tree" where
  "owner_link cred_fscmp so cred new Leaf = Inr (Node Leaf new Leaf)"
| "owner_link cred_fscmp so cred new (Node l sp r) =
     (let cmp = cred_fscmp cred (so_cred (so sp)) in
      if cmp < 0 then map_sum id (\<lambda>l. Node l sp r) (owner_link cred_fscmp so cred new l)
      else if cmp > 0 then map_sum id (\<lambda>r. Node l sp r) (owner_link cred_fscmp so cred new r)
      else Inl sp)"

definition nfs4_insert_state_owner_locked ::
  "state_env \<Rightarrow> nat \<Rightarrow> nfs4_clnt \<Rightarrow> nfs4_clnt \<times> nat" where
  "nfs4_insert_state_owner_locked e new c =
     (let s = so_server (so_heap c new) in
      case owner_link (se_cred_fscmp e) (so_heap c) (so_cred (so_heap c new)) new (sv_owners (sv_heap c s)) of
        Inl sp \<Rightarrow> (owner_get s sp c, sp)
      | Inr t \<Rightarrow> (upd_sv s (\<lambda>x. x\<lparr>sv_owners := se_rb_insert_color e new t\<rparr>) c, new))"

definition nfs4_remove_state_owner_locked :: "state_env \<Rightarrow> nat \<Rightarrow> nfs4_clnt \<Rightarrow> nfs4_clnt" where
  "nfs4_remove_state_owner_locked e sp c =
     upd_sv (so_server (so_heap c sp)) (\<lambda>x. x\<lparr>sv_owners := se_rb_erase e sp (sv_owners x)\<rparr>) c"

definition nfs4_alloc_state_owner ::
  "state_env \<Rightarrow> nat \<Rightarrow> nat \<Rightarrow> nfs4_clnt \<Rightarrow> nfs4_clnt \<times> nat option" where
  "nfs4_alloc_state_owner e s cred c =
     (case se_kzalloc e of
        None \<Rightarrow> (c, None)
      | Some sp \<Rightarrow>
          let oid = se_ida e (sv_openowner_ids (sv_heap c s)) in
          if oid < 0 then (c, None)
          else
            let c = upd_sv s (\<lambda>x. x\<lparr>sv_openowner_ids := insert oid (sv_openowner_ids x)\<rparr>) c
            in (upd_so sp (\<lambda>_. zero_owner\<lparr>so_server := s, so_cred := cred, so_count := 1,
                  so_seqid := nfs4_init_seqid_counter (se_ktime e) (zero_seqid_counter\<lparr>owner_id := oid\<rparr>)\<rparr>) c,
                Some sp))"

definition nfs4_free_state_owner :: "nat \<Rightarrow> nfs4_clnt \<Rightarrow> nfs4_clnt" where
  "nfs4_free_state_owner sp c =
     (let so = so_heap c sp;
          c = upd_sv (so_server so) (\<lambda>x. x\<lparr>sv_openowner_ids := sv_openowner_ids x - {owner_id (so_seqid so)}\<rparr>) c
      in c\<lparr>freed_owners := insert sp (freed_owners c)\<rparr>)"

definition nfs4_gc_state_owners :: "state_env \<Rightarrow> nat \<Rightarrow> nfs4_clnt \<Rightarrow> nfs4_clnt" where
  "nfs4_gc_state_owners e s c =
     (let time_max = se_jiffies e;
          time_min = time_max - cl_lease_time c;
          old = (\<lambda>sp. \<not> time_in_range (so_expires (so_heap c sp)) time_min time_max);
          lru = sv_owners_lru (sv_heap c s);
          doomed = takeWhile old lru;
          c = upd_sv s (\<lambda>x. x\<lparr>sv_owners_lru := dropWhile old lru\<rparr>) c;
          c = fold (nfs4_remove_state_owner_locked e) doomed c
      in fold nfs4_free_state_owner (rev doomed) c)"

definition nfs4_get_state_owner ::
  "state_env \<Rightarrow> (nfs4_clnt \<Rightarrow> nfs4_clnt) \<Rightarrow> nat \<Rightarrow> nat \<Rightarrow> nfs4_clnt \<Rightarrow> nfs4_clnt \<times> nat option" where
  "nfs4_get_state_owner e others s cred c =
     (let (c, sp) =
        (case nfs4_find_state_owner_locked e s cred c of
           (c, Some sp) \<Rightarrow> (c, Some sp)
         | (c, None) \<Rightarrow>
             (case nfs4_alloc_state_owner e s cred c of
                (c, None) \<Rightarrow> (c, None)
              | (c, Some new) \<Rightarrow>
                  (case nfs4_insert_state_owner_locked e new (others c) of
                     (c, sp) \<Rightarrow> (if sp \<noteq> new then nfs4_free_state_owner new c else c, Some sp))))
      in (nfs4_gc_state_owners e s c, sp))"

definition nfs4_put_state_owner :: "state_env \<Rightarrow> nat \<Rightarrow> nfs4_clnt \<Rightarrow> nfs4_clnt" where
  "nfs4_put_state_owner e sp c =
     (let c = upd_so sp (\<lambda>x. x\<lparr>so_count := so_count x - 1\<rparr>) c in
      if so_count (so_heap c sp) \<noteq> 0 then c
      else
        let c = upd_so sp (\<lambda>x. x\<lparr>so_expires := se_jiffies e\<rparr>) c
        in upd_sv (so_server (so_heap c sp)) (\<lambda>x. x\<lparr>sv_owners_lru := sv_owners_lru x @ [sp]\<rparr>) c)"

definition nfs4_purge_state_owners ::
  "state_env \<Rightarrow> nat \<Rightarrow> nat list \<Rightarrow> nfs4_clnt \<Rightarrow> nfs4_clnt \<times> nat list" where
  "nfs4_purge_state_owners e s head c =
     (let lru = sv_owners_lru (sv_heap c s);
          c = upd_sv s (\<lambda>x. x\<lparr>sv_owners_lru := []\<rparr>) c
      in (fold (nfs4_remove_state_owner_locked e) lru c, rev lru @ head))"

definition nfs4_free_state_owners :: "nat list \<Rightarrow> nfs4_clnt \<Rightarrow> nfs4_clnt" where
  "nfs4_free_state_owners head c = fold nfs4_free_state_owner head c"

text \<open>The credential for renewing a lease: the machine's, or that of an owner with open files.\<close>

definition nfs4_get_renew_cred_server_locked :: "nat \<Rightarrow> nfs4_clnt \<Rightarrow> nat option" where
  "nfs4_get_renew_cred_server_locked s c =
     map_option (\<lambda>sp. so_cred (so_heap c sp))
       (List.find (\<lambda>sp. so_states (so_heap c sp) \<noteq> []) (inorder (sv_owners (sv_heap c s))))"

fun nfs4_renew_cred_in :: "nat list \<Rightarrow> nfs4_clnt \<Rightarrow> nat option" where
  "nfs4_renew_cred_in [] c = None"
| "nfs4_renew_cred_in (s # ss) c =
     (case nfs4_get_renew_cred_server_locked s c of
        None \<Rightarrow> nfs4_renew_cred_in ss c
      | Some cred \<Rightarrow> Some cred)"

definition nfs4_get_renew_cred :: "nfs4_clnt \<Rightarrow> nat option" where
  "nfs4_get_renew_cred c =
     (case cl_machine_cred c of
        Some cred \<Rightarrow> Some cred
      | None \<Rightarrow> nfs4_renew_cred_in (cl_superblocks c) c)"

section \<open>Open states\<close>

definition nfs4_find_state_byowner :: "nat \<Rightarrow> nat \<Rightarrow> nfs4_clnt \<Rightarrow> nfs4_clnt \<times> nat option" where
  "nfs4_find_state_byowner i owner c =
     (case List.find (\<lambda>st. st_owner (st_heap c st) = owner \<and> nfs4_valid_open_stateid (st_heap c st) \<and>
                            st_count (st_heap c st) \<noteq> 0) (i_open_states (ino_heap c i)) of
        None \<Rightarrow> (c, None)
      | Some st \<Rightarrow> (upd_st st (\<lambda>x. x\<lparr>st_count := st_count x + 1\<rparr>) c, Some st))"

definition nfs4_alloc_open_state :: "state_env \<Rightarrow> nfs4_clnt \<Rightarrow> nfs4_clnt \<times> nat option" where
  "nfs4_alloc_open_state e c =
     (case se_kzalloc e of
        None \<Rightarrow> (c, None)
      | Some st \<Rightarrow> (upd_st st (\<lambda>_. zero_state\<lparr>st_count := 1\<rparr>) c, Some st))"

definition nfs4_free_open_state :: "nat \<Rightarrow> nfs4_clnt \<Rightarrow> nfs4_clnt" where
  "nfs4_free_open_state st c = c\<lparr>freed_states := insert st (freed_states c)\<rparr>"

text \<open>The new state takes its place in the lists of its inode and its owner.\<close>

definition nfs4_link_open_state :: "nat \<Rightarrow> nat \<Rightarrow> nat \<Rightarrow> nfs4_clnt \<Rightarrow> nfs4_clnt" where
  "nfs4_link_open_state st i owner c =
     (let c = upd_st st (\<lambda>x. x\<lparr>st_owner := owner\<rparr>) c;
          c = upd_so owner (\<lambda>x. x\<lparr>so_count := so_count x + 1\<rparr>) c;
          c = upd_st st (\<lambda>x. x\<lparr>st_inode := i\<rparr>) c;
          c = upd_ino i (\<lambda>x. x\<lparr>i_open_states := st # i_open_states x\<rparr>) c
      in upd_so owner (\<lambda>x. x\<lparr>so_states := so_states x @ [st]\<rparr>) c)"

definition nfs4_get_open_state ::
  "state_env \<Rightarrow> (nfs4_clnt \<Rightarrow> nfs4_clnt) \<Rightarrow> nat \<Rightarrow> nat \<Rightarrow> nfs4_clnt \<Rightarrow> nfs4_clnt \<times> nat option" where
  "nfs4_get_open_state e others i owner c =
     (case nfs4_find_state_byowner i owner c of
        (c, Some st) \<Rightarrow> (c, Some st)
      | (c, None) \<Rightarrow>
          (case nfs4_alloc_open_state e c of
             (c, new) \<Rightarrow>
               (case nfs4_find_state_byowner i owner (others c) of
                  (c, Some st) \<Rightarrow>
                    (case new of None \<Rightarrow> (c, Some st) | Some n \<Rightarrow> (nfs4_free_open_state n c, Some st))
                | (c, None) \<Rightarrow>
                    (case new of
                       None \<Rightarrow> (c, None)
                     | Some n \<Rightarrow> (nfs4_link_open_state n i owner c, Some n)))))"

definition nfs4_unlink_open_state :: "nat \<Rightarrow> nfs4_clnt \<Rightarrow> nfs4_clnt" where
  "nfs4_unlink_open_state st c =
     (let x = st_heap c st;
          c = upd_ino (st_inode x) (\<lambda>y. y\<lparr>i_open_states := remove1 st (i_open_states y)\<rparr>) c
      in upd_so (st_owner x) (\<lambda>y. y\<lparr>so_states := remove1 st (so_states y)\<rparr>) c)"

definition nfs4_put_open_state :: "state_env \<Rightarrow> nat \<Rightarrow> nfs4_clnt \<Rightarrow> nfs4_clnt option" where
  "nfs4_put_open_state e st c =
     (let i = st_inode (st_heap c st); owner = st_owner (st_heap c st);
          c = upd_st st (\<lambda>x. x\<lparr>st_count := st_count x - 1\<rparr>) c in
      if st_count (st_heap c st) \<noteq> 0 then Some c
      else map_option (\<lambda>c. nfs4_put_state_owner e owner (nfs4_free_open_state st c))
             (nfs4_inode_return_delegation_on_close (se_deleg e) (se_open_recall e) (se_lock_recall e)
                (Some i) (nfs4_unlink_open_state st c)))"

definition nfs4_close_state :: "state_env \<Rightarrow> nat \<Rightarrow> fmode \<Rightarrow> nfs4_clnt \<Rightarrow> nfs4_clnt option" where
  "nfs4_close_state e st fmode c =
     (let owner = st_owner (st_heap c st);
          c = upd_so owner (\<lambda>x. x\<lparr>so_count := so_count x + 1\<rparr>) c in
      case nfs4_close_locked st fmode c of
        (c, call_close) \<Rightarrow>
          if \<not> call_close
          then map_option (nfs4_put_state_owner e owner) (nfs4_put_open_state e st c)
          else Some (se_do_close e st c))"

section \<open>Lock states\<close>

fun nfs4_scan_lock_states :: "(nat \<Rightarrow> nat) \<Rightarrow> nat \<Rightarrow> nat option \<Rightarrow> nat option \<Rightarrow> nat list \<Rightarrow> nat option" where
  "nfs4_scan_lock_states owner fowner fowner2 ret [] = ret"
| "nfs4_scan_lock_states owner fowner fowner2 ret (pos # ls) =
     (if owner pos = fowner then Some pos
      else nfs4_scan_lock_states owner fowner fowner2
             (if Some (owner pos) = fowner2 then Some pos else ret) ls)"

definition nfs4_find_lock_state ::
  "nat \<Rightarrow> nat \<Rightarrow> nat option \<Rightarrow> nfs4_clnt \<Rightarrow> nfs4_clnt \<times> nat option" where
  "nfs4_find_lock_state st fowner fowner2 c =
     (case nfs4_scan_lock_states (\<lambda>l. ls_owner (lk_heap c l)) fowner fowner2 None
             (lock_states (st_heap c st)) of
        None \<Rightarrow> (c, None)
      | Some l \<Rightarrow> (upd_lk l (\<lambda>x. x\<lparr>ls_count := ls_count x + 1\<rparr>) c, Some l))"

definition nfs4_alloc_lock_state ::
  "state_env \<Rightarrow> nat \<Rightarrow> nat \<Rightarrow> nfs4_clnt \<Rightarrow> nfs4_clnt \<times> nat option" where
  "nfs4_alloc_lock_state e st fowner c =
     (case se_kzalloc e of
        None \<Rightarrow> (c, None)
      | Some l \<Rightarrow>
          let s = so_server (so_heap c (st_owner (st_heap c st)));
              lid = se_ida e (sv_lockowner_ids (sv_heap c s)) in
          if lid < 0 then (c, None)
          else
            let c = upd_sv s (\<lambda>x. x\<lparr>sv_lockowner_ids := insert lid (sv_lockowner_ids x)\<rparr>) c
            in (upd_lk l (\<lambda>_. zero_lock\<lparr>ls_state := st, ls_owner := fowner, ls_count := 1,
                  ls_seqid := (nfs4_init_seqid_counter (se_ktime e) zero_seqid_counter)\<lparr>owner_id := lid\<rparr>\<rparr>) c,
                Some l))"

definition nfs4_free_lock_state :: "nat \<Rightarrow> nat \<Rightarrow> nfs4_clnt \<Rightarrow> nfs4_clnt" where
  "nfs4_free_lock_state s l c =
     (let c = upd_sv s (\<lambda>x. x\<lparr>sv_lockowner_ids := sv_lockowner_ids x - {owner_id (ls_seqid (lk_heap c l))}\<rparr>) c
      in c\<lparr>freed_locks := insert l (freed_locks c)\<rparr>)"

text \<open>The loop of \<open>nfs4_get_lock_state\<close> runs once or, after an allocation, twice.\<close>

definition nfs4_get_lock_state ::
  "state_env \<Rightarrow> (nfs4_clnt \<Rightarrow> nfs4_clnt) \<Rightarrow> nat \<Rightarrow> nat \<Rightarrow> nfs4_clnt \<Rightarrow> nfs4_clnt \<times> nat option" where
  "nfs4_get_lock_state e others st owner c =
     (case nfs4_find_lock_state st owner None c of
        (c, Some l) \<Rightarrow> (c, Some l)
      | (c, None) \<Rightarrow>
          (case nfs4_alloc_lock_state e st owner c of
             (c, None) \<Rightarrow> (c, None)
           | (c, Some new) \<Rightarrow>
               (case nfs4_find_lock_state st owner None (others c) of
                  (c, Some l) \<Rightarrow>
                    (nfs4_free_lock_state (so_server (so_heap c (st_owner (st_heap c st)))) new c, Some l)
                | (c, None) \<Rightarrow>
                    (upd_st st (set_st LK_STATE_IN_USE)
                       (upd_st st (\<lambda>x. x\<lparr>lock_states := new # lock_states x\<rparr>) c), Some new))))"

definition nfs4_put_lock_state :: "state_env \<Rightarrow> nat option \<Rightarrow> nfs4_clnt \<Rightarrow> nfs4_clnt" where
  "nfs4_put_lock_state e lsp c =
     (case lsp of
        None \<Rightarrow> c
      | Some l \<Rightarrow>
          let st = ls_state (lk_heap c l);
              c = upd_lk l (\<lambda>x. x\<lparr>ls_count := ls_count x - 1\<rparr>) c in
          if ls_count (lk_heap c l) \<noteq> 0 then c
          else
            let c = upd_st st (\<lambda>x. x\<lparr>lock_states := remove1 l (lock_states x)\<rparr>) c;
                c = (if lock_states (st_heap c st) = [] then upd_st st (clear_st LK_STATE_IN_USE) c else c);
                s = so_server (so_heap c (st_owner (st_heap c st)))
            in if NFS_LOCK_INITIALIZED \<in> ls_flags (lk_heap c l)
               then se_mv_free_lock e s l c
               else nfs4_free_lock_state s l c)"

text \<open>A file lock as the VFS hands it over: its owner and, once it is prepared, its lock state.\<close>

record fl_request =
  flr_owner :: nat
  flr_ops :: bool
  flr_lsp :: "nat option"

definition nfs4_fl_copy_lock :: "fl_request \<Rightarrow> fl_request \<Rightarrow> nfs4_clnt \<Rightarrow> fl_request \<times> nfs4_clnt" where
  "nfs4_fl_copy_lock dst src c =
     (dst\<lparr>flr_lsp := flr_lsp src\<rparr>,
      case flr_lsp src of None \<Rightarrow> c | Some l \<Rightarrow> upd_lk l (\<lambda>x. x\<lparr>ls_count := ls_count x + 1\<rparr>) c)"

definition nfs4_fl_release_lock :: "state_env \<Rightarrow> fl_request \<Rightarrow> nfs4_clnt \<Rightarrow> nfs4_clnt" where
  "nfs4_fl_release_lock e fl c = nfs4_put_lock_state e (flr_lsp fl) c"

definition nfs4_set_lock_state ::
  "state_env \<Rightarrow> (nfs4_clnt \<Rightarrow> nfs4_clnt) \<Rightarrow> nat \<Rightarrow> fl_request \<Rightarrow> nfs4_clnt \<Rightarrow> fl_request \<times> nfs4_clnt \<times> int" where
  "nfs4_set_lock_state e others st fl c =
     (if flr_ops fl then (fl, c, 0)
      else case nfs4_get_lock_state e others st (flr_owner fl) c of
             (c, None) \<Rightarrow> (fl, c, - ENOMEM)
           | (c, Some l) \<Rightarrow> (fl\<lparr>flr_lsp := Some l, flr_ops := True\<rparr>, c, 0))"

text \<open>
  A lock context is the owner of the POSIX locks and the open context, whose \<open>flock_owner\<close> owns the
  flock locks.
\<close>

definition nfs4_copy_lock_stateid ::
  "state_env \<Rightarrow> nfs4_stateid \<Rightarrow> nat \<Rightarrow> (nat \<times> nat) option \<Rightarrow> nfs4_clnt \<Rightarrow> nfs4_clnt \<times> nfs4_stateid \<times> int" where
  "nfs4_copy_lock_stateid e dst st l_ctx c =
     (case l_ctx of
        None \<Rightarrow> (c, dst, - ENOENT)
      | Some (lockowner, ctx) \<Rightarrow>
          if LK_STATE_IN_USE \<notin> st_flags (st_heap c st) then (c, dst, - ENOENT)
          else
            let (c, lsp) = nfs4_find_lock_state st lockowner (Some (ctx_flock_owner (ctx_heap c ctx))) c;
                (dst, ret) =
                  (case lsp of
                     None \<Rightarrow> (dst, - ENOENT)
                   | Some l \<Rightarrow>
                       if NFS_LOCK_LOST \<in> ls_flags (lk_heap c l) then (dst, - EIO)
                       else if NFS_LOCK_INITIALIZED \<in> ls_flags (lk_heap c l)
                       then (ls_stateid (lk_heap c l), 0)
                       else (dst, - ENOENT))
            in (nfs4_put_lock_state e lsp c, dst, ret))"

definition nfs4_select_rw_stateid ::
  "state_env \<Rightarrow> nat \<Rightarrow> fmode \<Rightarrow> (nat \<times> nat) option \<Rightarrow> nfs4_stateid \<Rightarrow> nfs4_clnt \<Rightarrow>
   nfs4_clnt \<times> nfs4_stateid \<times> nat option \<times> int" where
  "nfs4_select_rw_stateid e st fmode l_ctx dst c =
     (if \<not> nfs4_valid_open_stateid (st_heap c st) then (c, dst, None, - EIO)
      else
        let (c, dst, ret) = nfs4_copy_lock_stateid e dst st l_ctx c;
            (c, dst, cred, ret) =
              (if ret = - EIO then (c, dst, None, ret)
               else case nfs4_copy_delegation_stateid (st_inode (st_heap c st)) fmode c of
                      (c, Some (sid, cred)) \<Rightarrow> (c, sid, Some cred, 0)
                    | (c, None) \<Rightarrow>
                        if ret \<noteq> - ENOENT then (c, dst, None, ret)
                        else case nfs4_copy_open_stateid (st_heap c st) of
                               (sid, ok) \<Rightarrow> (c, sid, None, if ok then 0 else - EAGAIN));
            dst = (if sv_cap_stateid_nfsv41 (sv_heap c (i_server (ino_heap c (st_inode (st_heap c st)))))
                   then dst\<lparr>seqid := 0\<rparr> else dst)
        in (c, dst, cred, ret))"

section \<open>The tree of owners\<close>

text \<open>
  \<open>cred_fscmp\<close> orders the credentials, and the red-black tree code of the kernel only moves nodes:
  balancing keeps their order, erasing takes the node out.
\<close>

definition cred_order :: "(nat \<Rightarrow> nat \<Rightarrow> int) \<Rightarrow> bool" where
  "cred_order cmp \<longleftrightarrow>
     (\<forall>a b. cmp a b < 0 \<longleftrightarrow> cmp b a > 0) \<and> (\<forall>a b d. cmp a b \<le> 0 \<and> cmp b d \<le> 0 \<longrightarrow> cmp a d \<le> 0)"

definition rb_ok :: "state_env \<Rightarrow> bool" where
  "rb_ok e \<longleftrightarrow>
     (\<forall>x t. inorder (se_rb_insert_color e x t) = inorder t \<and>
            inorder (se_rb_erase e x t) = remove1 x (inorder t))"

lemma cred_order_less:
  assumes "cred_order cmp"
  shows "cmp a b < 0 \<Longrightarrow> cmp b d \<le> 0 \<Longrightarrow> cmp a d < 0" and "cmp a b \<le> 0 \<Longrightarrow> cmp b d < 0 \<Longrightarrow> cmp a d < 0"
    and "cmp a b = 0 \<Longrightarrow> cmp b a = 0" and "cmp a a = 0"
proof -
  have anti: "cmp x y < 0 \<longleftrightarrow> cmp y x > 0" for x y using assms by (simp add: cred_order_def)
  have trans: "cmp x y \<le> 0 \<Longrightarrow> cmp y z \<le> 0 \<Longrightarrow> cmp x z \<le> 0" for x y z
    using assms unfolding cred_order_def by blast
  have ge: "\<not> cmp x y < 0 \<Longrightarrow> cmp y x \<le> 0" for x y using anti [of x y] by linarith
  show "cmp a b < 0 \<Longrightarrow> cmp b d \<le> 0 \<Longrightarrow> cmp a d < 0"
    using trans [of b d a] ge [of a d] anti [of a b] by fastforce
  show "cmp a b \<le> 0 \<Longrightarrow> cmp b d < 0 \<Longrightarrow> cmp a d < 0"
    using trans [of d a b] ge [of a d] anti [of b d] by fastforce
  show "cmp a b = 0 \<Longrightarrow> cmp b a = 0" using anti [of a b] anti [of b a] by linarith
  show "cmp a a = 0" using anti [of a a] by linarith
qed

definition owners_sorted :: "(nat \<Rightarrow> nat \<Rightarrow> int) \<Rightarrow> (nat \<Rightarrow> nfs4_state_owner) \<Rightarrow> nat list \<Rightarrow> bool" where
  "owners_sorted cmp so sps = sorted_wrt (\<lambda>a b. cmp (so_cred (so a)) (so_cred (so b)) < 0) sps"

lemma owners_sorted_distinct:
  assumes "cred_order cmp" "owners_sorted cmp so sps"
  shows "distinct sps"
  using assms(2) cred_order_less(4) [OF assms(1)] unfolding owners_sorted_def
  by (induction sps) force+

text \<open>The search finds the owner with the credential, if there is one.\<close>

lemma owner_search_Some:
  "owner_search cmp so cred t = Some sp \<Longrightarrow> sp \<in> set_tree t \<and> cmp cred (so_cred (so sp)) = 0"
  by (induction t) (auto simp: Let_def split: if_splits)

lemma owner_search_None:
  assumes ord: "cred_order cmp" and "owners_sorted cmp so (inorder t)" "owner_search cmp so cred t = None"
    "sp \<in> set_tree t"
  shows "cmp cred (so_cred (so sp)) \<noteq> 0"
  using assms(2-4)
proof (induction t)
  case (Node l x r)
  have l: "cmp (so_cred (so y)) (so_cred (so x)) < 0" if "y \<in> set_tree l" for y
    using Node.prems(1) that by (auto simp: owners_sorted_def sorted_wrt_append)
  have r: "cmp (so_cred (so x)) (so_cred (so y)) < 0" if "y \<in> set_tree r" for y
    using Node.prems(1) that by (auto simp: owners_sorted_def sorted_wrt_append)
  have sub: "owners_sorted cmp so (inorder l)" "owners_sorted cmp so (inorder r)"
    using Node.prems(1) by (simp_all add: owners_sorted_def sorted_wrt_append)
  consider (lt) "cmp cred (so_cred (so x)) < 0" "owner_search cmp so cred l = None"
    | (gt) "cmp cred (so_cred (so x)) > 0" "owner_search cmp so cred r = None"
    using Node.prems(2) by (auto simp: Let_def split: if_splits)
  then show ?case
  proof cases
    case lt
    have "cmp cred (so_cred (so y)) < 0" if "y = x \<or> y \<in> set_tree r" for y
      using that lt(1) r [of y] cred_order_less(1) [OF ord lt(1), of "so_cred (so y)"] by fastforce
    then show ?thesis using Node.IH(1) [OF sub(1) lt(2)] Node.prems(3) by fastforce
  next
    case gt
    then have lt: "cmp (so_cred (so x)) cred < 0" using ord by (simp add: cred_order_def)
    have "cmp (so_cred (so y)) cred < 0" if "y = x \<or> y \<in> set_tree l" for y
      using that lt l [of y] cred_order_less(2) [OF ord _ lt, of "so_cred (so y)"] by fastforce
    then have "cmp cred (so_cred (so y)) > 0" if "y = x \<or> y \<in> set_tree l" for y
      using that ord by (simp add: cred_order_def)
    then show ?thesis using Node.IH(2) [OF sub(2) gt(2)] Node.prems(3) by fastforce
  qed
qed simp

lemma owner_link_Inl: "owner_link cmp so cred new t = Inl sp \<longleftrightarrow> owner_search cmp so cred t = Some sp"
  by (induction t)
    (auto simp: Let_def map_sum_def split: sum.splits if_splits)

lemma owner_link_Inr:
  assumes ord: "cred_order cmp" and "owners_sorted cmp so (inorder t)" "owner_link cmp so cred new t = Inr t'"
    and new: "so_cred (so new) = cred"
  shows "\<exists>a b. inorder t = a @ b \<and> inorder t' = a @ new # b \<and> owners_sorted cmp so (a @ new # b)"
  using assms(2,3)
proof (induction t arbitrary: t')
  case Leaf
  then show ?case by (auto simp: owners_sorted_def)
next
  case (Node l x r)
  have sub: "owners_sorted cmp so (inorder l)" "owners_sorted cmp so (inorder r)"
    using Node.prems(1) by (simp_all add: owners_sorted_def sorted_wrt_append)
  consider (lt) l' where "cmp cred (so_cred (so x)) < 0" "owner_link cmp so cred new l = Inr l'" "t' = Node l' x r"
    | (gt) r' where "cmp cred (so_cred (so x)) > 0" "owner_link cmp so cred new r = Inr r'" "t' = Node l x r'"
    using Node.prems(2) by (auto simp: Let_def map_sum_def split: sum.splits if_splits)
  then show ?case
  proof cases
    case lt
    obtain a b where ab: "inorder l = a @ b" "inorder l' = a @ new # b" "owners_sorted cmp so (a @ new # b)"
      using Node.IH(1) [OF sub(1) lt(2)] by blast
    have "cmp cred (so_cred (so y)) < 0" if "y \<in> set (inorder r)" for y
      using Node.prems(1) that cred_order_less(1) [OF ord lt(1), of "so_cred (so y)"]
      by (auto simp: owners_sorted_def sorted_wrt_append intro: less_imp_le)
    then have "owners_sorted cmp so (a @ new # (b @ x # inorder r))"
      using Node.prems(1) ab lt(1) new by (auto simp: owners_sorted_def sorted_wrt_append)
    then show ?thesis using ab lt(3) by (intro exI [of _ a] exI [of _ "b @ x # inorder r"]) simp
  next
    case gt
    obtain a b where ab: "inorder r = a @ b" "inorder r' = a @ new # b" "owners_sorted cmp so (a @ new # b)"
      using Node.IH(2) [OF sub(2) gt(2)] by blast
    have lt: "cmp (so_cred (so x)) cred < 0" using gt(1) ord by (simp add: cred_order_def)
    have "cmp (so_cred (so y)) cred < 0" if "y \<in> set (inorder l)" for y
      using Node.prems(1) that cred_order_less(2) [OF ord _ lt, of "so_cred (so y)"]
      by (auto simp: owners_sorted_def sorted_wrt_append intro: less_imp_le)
    then have "owners_sorted cmp so ((inorder l @ x # a) @ new # b)"
      using Node.prems(1) ab lt new by (auto simp: owners_sorted_def sorted_wrt_append)
    then show ?thesis using ab gt(3) by (intro exI [of _ "inorder l @ x # a"] exI [of _ b]) simp
  qed
qed

section \<open>The owners of a server\<close>

text \<open>
  The tree holds at most one owner per credential, in the order of the credentials; the owners
  without references are those on the LRU list, once; no owner in the tree has been freed.
\<close>

definition owners_inv :: "state_env \<Rightarrow> nat \<Rightarrow> nfs4_clnt \<Rightarrow> bool" where
  "owners_inv e s c \<longleftrightarrow>
     owners_sorted (se_cred_fscmp e) (so_heap c) (inorder (sv_owners (sv_heap c s))) \<and>
     distinct (sv_owners_lru (sv_heap c s)) \<and>
     (\<forall>sp. sp \<in> set (sv_owners_lru (sv_heap c s)) \<longleftrightarrow>
        sp \<in> set_tree (sv_owners (sv_heap c s)) \<and> so_count (so_heap c sp) = 0) \<and>
     (\<forall>sp \<in> set_tree (sv_owners (sv_heap c s)). so_server (so_heap c sp) = s \<and> sp \<notin> freed_owners c)"

definition owner_held :: "state_env \<Rightarrow> nat \<Rightarrow> nat \<Rightarrow> nat \<Rightarrow> nfs4_clnt \<Rightarrow> bool" where
  "owner_held e s cred sp c \<longleftrightarrow>
     sp \<in> set_tree (sv_owners (sv_heap c s)) \<and> se_cred_fscmp e cred (so_cred (so_heap c sp)) = 0 \<and>
     so_count (so_heap c sp) \<noteq> 0"

lemma owner_get_inv:
  assumes inv: "owners_inv e s c" and sp: "sp \<in> set_tree (sv_owners (sv_heap c s))"
  shows "owners_inv e s (owner_get s sp c)"
proof -
  have "so_cred (so_heap (owner_get s sp c) x) = so_cred (so_heap c x)"
    "so_server (so_heap (owner_get s sp c) x) = so_server (so_heap c x)" for x
    by (simp_all add: owner_get_def)
  then show ?thesis using inv sp by (auto simp: owners_inv_def owners_sorted_def owner_get_def)
qed

lemma find_owner:
  assumes inv: "owners_inv e s c" and ord: "cred_order (se_cred_fscmp e)"
    and r: "nfs4_find_state_owner_locked e s cred c = (c', r)"
  shows "owners_inv e s c' \<and>
    (case r of
       None \<Rightarrow> c' = c \<and> (\<forall>sp \<in> set_tree (sv_owners (sv_heap c s)). se_cred_fscmp e cred (so_cred (so_heap c sp)) \<noteq> 0)
     | Some sp \<Rightarrow> owner_held e s cred sp c')"
proof (cases "owner_search (se_cred_fscmp e) (so_heap c) cred (sv_owners (sv_heap c s))")
  case None
  then show ?thesis
    using r inv owner_search_None [OF ord _ None]
    by (auto simp: nfs4_find_state_owner_locked_def owners_inv_def)
next
  case (Some sp)
  then have sp: "sp \<in> set_tree (sv_owners (sv_heap c s))" "se_cred_fscmp e cred (so_cred (so_heap c sp)) = 0"
    using owner_search_Some [OF Some] by auto
  have "c' = owner_get s sp c" "r = Some sp" using r Some by (auto simp: nfs4_find_state_owner_locked_def)
  then show ?thesis using owner_get_inv [OF inv sp(1)] sp by (simp add: owner_held_def owner_get_def)
qed

lemma insert_owner:
  assumes inv: "owners_inv e s c" and ord: "cred_order (se_cred_fscmp e)" and rb: "rb_ok e"
    and new: "new \<notin> set_tree (sv_owners (sv_heap c s))" "new \<notin> freed_owners c"
      "so_server (so_heap c new) = s" "so_count (so_heap c new) \<noteq> 0"
    and r: "nfs4_insert_state_owner_locked e new c = (c', sp)"
  shows "owners_inv e s c' \<and> owner_held e s (so_cred (so_heap c new)) sp c' \<and>
    (sp \<noteq> new \<longrightarrow> new \<notin> set_tree (sv_owners (sv_heap c' s)))"
proof (cases "owner_link (se_cred_fscmp e) (so_heap c) (so_cred (so_heap c new)) new (sv_owners (sv_heap c s))")
  case (Inl x)
  then have "owner_search (se_cred_fscmp e) (so_heap c) (so_cred (so_heap c new)) (sv_owners (sv_heap c s)) = Some x"
    by (simp add: owner_link_Inl)
  from owner_search_Some [OF this] have x: "x \<in> set_tree (sv_owners (sv_heap c s))"
    "se_cred_fscmp e (so_cred (so_heap c new)) (so_cred (so_heap c x)) = 0" by simp_all
  have "c' = owner_get s x c" "sp = x"
    using r Inl new(3) by (auto simp: nfs4_insert_state_owner_locked_def Let_def)
  then show ?thesis using owner_get_inv [OF inv x(1)] x new(1) by (simp add: owner_held_def owner_get_def)
next
  case (Inr t)
  have c': "c' = upd_sv s (\<lambda>x. x\<lparr>sv_owners := se_rb_insert_color e new t\<rparr>) c" "sp = new"
    using r Inr new(3) by (auto simp: nfs4_insert_state_owner_locked_def Let_def)
  have srt: "owners_sorted (se_cred_fscmp e) (so_heap c) (inorder (sv_owners (sv_heap c s)))"
    using inv by (simp add: owners_inv_def)
  obtain a b where ab: "inorder (sv_owners (sv_heap c s)) = a @ b" "inorder t = a @ new # b"
    "owners_sorted (se_cred_fscmp e) (so_heap c) (a @ new # b)"
    using owner_link_Inr [OF ord srt Inr refl] by blast
  have io: "inorder (sv_owners (sv_heap c' s)) = a @ new # b" using rb ab(2) by (simp add: c' rb_ok_def)
  have st: "set_tree (sv_owners (sv_heap c' s)) = insert new (set_tree (sv_owners (sv_heap c s)))"
    unfolding set_inorder [symmetric] io ab(1) by auto
  have same: "so_heap c' = so_heap c" "sv_owners_lru (sv_heap c' s) = sv_owners_lru (sv_heap c s)"
    "freed_owners c' = freed_owners c"
    by (simp_all add: c'(1))
  have "owners_inv e s c'"
    unfolding owners_inv_def io st same
  proof (intro conjI allI ballI)
    note i = inv [unfolded owners_inv_def]
    show "distinct (sv_owners_lru (sv_heap c s))" using i by blast
    show "x \<in> set (sv_owners_lru (sv_heap c s)) \<longleftrightarrow>
      x \<in> insert new (set_tree (sv_owners (sv_heap c s))) \<and> so_count (so_heap c x) = 0" for x
      using i new(4) by blast
    show "so_server (so_heap c x) = s" "x \<notin> freed_owners c"
      if "x \<in> insert new (set_tree (sv_owners (sv_heap c s)))" for x using that i new(2,3) by blast+
  qed (rule ab(3))
  then show ?thesis
    using st new(4) cred_order_less(4) [OF ord] by (simp add: owner_held_def c')
qed

text \<open>Taking owners out of the tree, and freeing them.\<close>

lemma upd_sv_twice: "upd_sv s f (upd_sv s g c) = upd_sv s (\<lambda>x. f (g x)) c"
  by (simp add: upd_sv_def)

lemma fold_remove_owners:
  assumes "\<forall>sp \<in> set sps. so_server (so_heap c sp) = s"
  shows "fold (nfs4_remove_state_owner_locked e) sps c =
    upd_sv s (\<lambda>x. x\<lparr>sv_owners := fold (se_rb_erase e) sps (sv_owners x)\<rparr>) c"
  using assms
proof (induction sps arbitrary: c)
  case (Cons sp sps)
  then show ?case by (simp add: nfs4_remove_state_owner_locked_def upd_sv_twice)
qed (simp add: upd_sv_def)

lemma fold_erase_inorder:
  assumes "rb_ok e" "distinct (inorder t)"
  shows "inorder (fold (se_rb_erase e) sps t) = filter (\<lambda>x. x \<notin> set sps) (inorder t)"
  using assms(2)
proof (induction sps arbitrary: t)
  case (Cons sp sps)
  have "inorder (se_rb_erase e sp t) = filter (\<lambda>x. x \<noteq> sp) (inorder t)"
    using assms(1) Cons.prems by (simp add: rb_ok_def distinct_remove1_removeAll removeAll_filter_not_eq)
      (metis (no_types, lifting) filter_cong)
  then show ?case using Cons by (simp add: conj_commute)
qed simp

lemma fold_free_owners:
  "so_heap (fold nfs4_free_state_owner sps c) = so_heap c"
  "sv_owners (sv_heap (fold nfs4_free_state_owner sps c) s) = sv_owners (sv_heap c s)"
  "sv_owners_lru (sv_heap (fold nfs4_free_state_owner sps c) s) = sv_owners_lru (sv_heap c s)"
  "freed_owners (fold nfs4_free_state_owner sps c) = freed_owners c \<union> set sps"
  by (induction sps arbitrary: c) (auto simp: nfs4_free_state_owner_def Let_def)

text \<open>
  Owners that leave the LRU list leave the tree. \<open>gone\<close> are the first owners of the list, \<open>rest\<close> the
  others.
\<close>

lemma drop_owners:
  assumes inv: "owners_inv e s c" and ord: "cred_order (se_cred_fscmp e)" and rb: "rb_ok e"
    and lru: "sv_owners_lru (sv_heap c s) = gone @ rest"
  defines "c1 \<equiv> fold (nfs4_remove_state_owner_locked e) gone (upd_sv s (\<lambda>x. x\<lparr>sv_owners_lru := rest\<rparr>) c)"
  shows "owners_inv e s c1" and "so_heap c1 = so_heap c" and "freed_owners c1 = freed_owners c"
    and "set_tree (sv_owners (sv_heap c1 s)) = set_tree (sv_owners (sv_heap c s)) - set gone"
    and "sv_owners_lru (sv_heap c1 s) = rest"
proof -
  note i = inv [unfolded owners_inv_def]
  let ?t = "sv_owners (sv_heap c s)"
  let ?c = "upd_sv s (\<lambda>x. x\<lparr>sv_owners_lru := rest\<rparr>) c"
  have lru_t: "x \<in> set gone \<union> set rest \<longleftrightarrow> x \<in> set_tree ?t \<and> so_count (so_heap c x) = 0" for x
    using i unfolding lru by simp
  have dist: "distinct (inorder ?t)" using owners_sorted_distinct [OF ord] i by blast
  have dl: "set gone \<inter> set rest = {}" "distinct rest" using i unfolding lru by auto
  have "\<forall>sp \<in> set gone. so_server (so_heap c sp) = s" using i lru_t by blast
  then have "\<forall>sp \<in> set gone. so_server (so_heap ?c sp) = s" by simp
  then have c1: "c1 = upd_sv s (\<lambda>x. x\<lparr>sv_owners := fold (se_rb_erase e) gone (sv_owners x)\<rparr>) ?c"
    unfolding c1_def by (rule fold_remove_owners)
  show so: "so_heap c1 = so_heap c" "freed_owners c1 = freed_owners c"
    and l1: "sv_owners_lru (sv_heap c1 s) = rest" by (simp_all add: c1)
  have io: "inorder (sv_owners (sv_heap c1 s)) = filter (\<lambda>x. x \<notin> set gone) (inorder ?t)"
    using fold_erase_inorder [OF rb dist] by (simp add: c1)
  then have "set (inorder (sv_owners (sv_heap c1 s))) = set (inorder ?t) - set gone" by auto
  then show st: "set_tree (sv_owners (sv_heap c1 s)) = set_tree ?t - set gone" by simp
  show "owners_inv e s c1"
    unfolding owners_inv_def io st so l1
  proof (intro conjI allI ballI)
    show "owners_sorted (se_cred_fscmp e) (so_heap c) (filter (\<lambda>x. x \<notin> set gone) (inorder ?t))"
      using i unfolding owners_sorted_def by (blast intro: sorted_wrt_filter)
    show "x \<in> set rest \<longleftrightarrow> x \<in> set_tree ?t - set gone \<and> so_count (so_heap c x) = 0" for x
      using lru_t [of x] dl by blast
    show "so_server (so_heap c x) = s" "x \<notin> freed_owners c" if "x \<in> set_tree ?t - set gone" for x
      using that i by blast+
  qed (rule dl)
qed

lemma free_owners_inv:
  assumes "owners_inv e s c" "set sps \<inter> set_tree (sv_owners (sv_heap c s)) = {}"
  shows "owners_inv e s (fold nfs4_free_state_owner sps c)"
  using assms unfolding owners_inv_def fold_free_owners by blast

lemma gc_owners:
  assumes inv: "owners_inv e s c" and ord: "cred_order (se_cred_fscmp e)" and rb: "rb_ok e"
  shows "owners_inv e s (nfs4_gc_state_owners e s c)"
    and "owner_held e s cred sp c \<Longrightarrow> owner_held e s cred sp (nfs4_gc_state_owners e s c)"
    and "so_heap (nfs4_gc_state_owners e s c) = so_heap c"
    and "x \<in> freed_owners (nfs4_gc_state_owners e s c) \<Longrightarrow> x \<notin> freed_owners c \<Longrightarrow>
      so_count (so_heap c x) = 0 \<and>
      \<not> time_in_range (so_expires (so_heap c x)) (se_jiffies e - cl_lease_time c) (se_jiffies e)"
proof -
  define old where
    "old = (\<lambda>sp. \<not> time_in_range (so_expires (so_heap c sp)) (se_jiffies e - cl_lease_time c) (se_jiffies e))"
  define gone where "gone = takeWhile old (sv_owners_lru (sv_heap c s))"
  define rest where "rest = dropWhile old (sv_owners_lru (sv_heap c s))"
  have lru: "sv_owners_lru (sv_heap c s) = gone @ rest" by (simp add: gone_def rest_def)
  define c1 where "c1 = fold (nfs4_remove_state_owner_locked e) gone (upd_sv s (\<lambda>x. x\<lparr>sv_owners_lru := rest\<rparr>) c)"
  note d = drop_owners [OF inv ord rb lru, folded c1_def]
  have eq: "nfs4_gc_state_owners e s c = fold nfs4_free_state_owner (rev gone) c1"
    by (simp add: nfs4_gc_state_owners_def Let_def c1_def gone_def rest_def old_def)
  have zero: "so_count (so_heap c x) = 0" if "x \<in> set gone" for x
    using inv that unfolding owners_inv_def lru by (metis UnCI set_append)
  show "owners_inv e s (nfs4_gc_state_owners e s c)"
    unfolding eq by (rule free_owners_inv [OF d(1)]) (use d(4) in auto)
  show "so_heap (nfs4_gc_state_owners e s c) = so_heap c" by (simp add: eq fold_free_owners d(2))
  show "owner_held e s cred sp (nfs4_gc_state_owners e s c)" if "owner_held e s cred sp c"
    using that zero [of sp] unfolding owner_held_def eq fold_free_owners d(2,4) by auto
  show "so_count (so_heap c x) = 0 \<and>
      \<not> time_in_range (so_expires (so_heap c x)) (se_jiffies e - cl_lease_time c) (se_jiffies e)"
    if "x \<in> freed_owners (nfs4_gc_state_owners e s c)" "x \<notin> freed_owners c"
  proof -
    have x: "x \<in> set gone" using that by (simp add: eq fold_free_owners d(3))
    then have "old x" unfolding gone_def by (blast dest: set_takeWhileD)
    then show ?thesis using zero [OF x] by (simp add: old_def)
  qed
qed

lemma put_owner_inv:
  assumes inv: "owners_inv e s c" and sp: "sp \<in> set_tree (sv_owners (sv_heap c s))" "so_count (so_heap c sp) \<noteq> 0"
  shows "owners_inv e s (nfs4_put_state_owner e sp c)"
proof -
  note i = inv [unfolded owners_inv_def]
  let ?c = "nfs4_put_state_owner e sp c"
  let ?t = "sv_owners (sv_heap c s)"
  have srv: "so_server (so_heap c sp) = s" using i sp(1) by blast
  have t: "sv_owners (sv_heap ?c s) = ?t" "freed_owners ?c = freed_owners c"
    by (simp_all add: nfs4_put_state_owner_def Let_def)
  have f: "so_cred (so_heap ?c x) = so_cred (so_heap c x)" "so_server (so_heap ?c x) = so_server (so_heap c x)"
    "so_count (so_heap ?c x) = (if x = sp then so_count (so_heap c x) - 1 else so_count (so_heap c x))" for x
    by (simp_all add: nfs4_put_state_owner_def Let_def)
  have lru: "sv_owners_lru (sv_heap ?c s) =
      sv_owners_lru (sv_heap c s) @ (if so_count (so_heap c sp) = 1 then [sp] else [])"
    using srv sp(2) by (auto simp: nfs4_put_state_owner_def Let_def)
  have nin: "sp \<notin> set (sv_owners_lru (sv_heap c s))" using i sp by auto
  show ?thesis
    unfolding owners_inv_def t lru
  proof (intro conjI allI ballI)
    show "owners_sorted (se_cred_fscmp e) (so_heap ?c) (inorder ?t)" using i by (simp add: owners_sorted_def f)
    show "distinct (sv_owners_lru (sv_heap c s) @ (if so_count (so_heap c sp) = 1 then [sp] else []))"
      using i nin by simp
    show "x \<in> set (sv_owners_lru (sv_heap c s) @ (if so_count (so_heap c sp) = 1 then [sp] else [])) \<longleftrightarrow>
        x \<in> set_tree ?t \<and> so_count (so_heap ?c x) = 0" for x
      using i sp nin by (cases "x = sp") (auto simp: f)
    show "so_server (so_heap ?c x) = s" "x \<notin> freed_owners c" if "x \<in> set_tree ?t" for x
      using that i f by simp_all
  qed
qed

section \<open>The open states of an inode and of an owner\<close>

text \<open>
  A state with references is on the list of its inode and on the list of its owner, once, and no
  other state is. Two states of one inode that can still be used have different owners.
\<close>

definition state_linked :: "nfs4_clnt \<Rightarrow> nat \<Rightarrow> bool" where
  "state_linked c st \<longleftrightarrow> st \<in> set (i_open_states (ino_heap c (st_inode (st_heap c st))))"

definition ino_states_ok :: "nfs4_clnt \<Rightarrow> bool" where
  "ino_states_ok c \<longleftrightarrow>
     (\<forall>i. distinct (i_open_states (ino_heap c i)) \<and>
        (\<forall>st \<in> set (i_open_states (ino_heap c i)). st_inode (st_heap c st) = i \<and> st_count (st_heap c st) \<noteq> 0 \<and>
           st \<in> set (so_states (so_heap c (st_owner (st_heap c st)))) \<and> st \<notin> freed_states c))"

definition owner_states_ok :: "nfs4_clnt \<Rightarrow> bool" where
  "owner_states_ok c \<longleftrightarrow>
     (\<forall>sp. distinct (so_states (so_heap c sp)) \<and>
        (\<forall>st \<in> set (so_states (so_heap c sp)). st_owner (st_heap c st) = sp \<and> state_linked c st))"

definition usable_states_ok :: "nfs4_clnt \<Rightarrow> bool" where
  "usable_states_ok c \<longleftrightarrow>
     (\<forall>i. \<forall>st \<in> set (i_open_states (ino_heap c i)). \<forall>st' \<in> set (i_open_states (ino_heap c i)).
        nfs4_valid_open_stateid (st_heap c st) \<and> nfs4_valid_open_stateid (st_heap c st') \<and>
        st_owner (st_heap c st) = st_owner (st_heap c st') \<longrightarrow> st = st')"

definition states_inv :: "nfs4_clnt \<Rightarrow> bool" where
  "states_inv c \<longleftrightarrow> ino_states_ok c \<and> owner_states_ok c \<and> usable_states_ok c"

lemmas states_inv_defs = states_inv_def ino_states_ok_def owner_states_ok_def usable_states_ok_def

lemma states_inv_ino:
  assumes "states_inv c" "st \<in> set (i_open_states (ino_heap c i))"
  shows "st_inode (st_heap c st) = i" "st_count (st_heap c st) \<noteq> 0"
    "st \<in> set (so_states (so_heap c (st_owner (st_heap c st))))" "st \<notin> freed_states c"
  using assms by (simp_all add: states_inv_defs)

lemma states_inv_owner:
  assumes "states_inv c" "st \<in> set (so_states (so_heap c sp))"
  shows "st_owner (st_heap c st) = sp" "st \<in> set (i_open_states (ino_heap c (st_inode (st_heap c st))))"
  using assms by (simp_all add: states_inv_defs state_linked_def)

lemma states_inv_unique:
  assumes "states_inv c" "st \<in> set (i_open_states (ino_heap c i))" "st' \<in> set (i_open_states (ino_heap c i))"
    "nfs4_valid_open_stateid (st_heap c st)" "nfs4_valid_open_stateid (st_heap c st')"
    "st_owner (st_heap c st) = st_owner (st_heap c st')"
  shows "st = st'"
  using assms unfolding states_inv_defs by blast

text \<open>Reference counts and unlinked states do not matter.\<close>

lemma states_inv_upd_st:
  assumes inv: "states_inv c"
    and f: "st_inode (f (st_heap c x)) = st_inode (st_heap c x)" "st_owner (f (st_heap c x)) = st_owner (st_heap c x)"
      "nfs4_valid_open_stateid (f (st_heap c x)) = nfs4_valid_open_stateid (st_heap c x)"
      "st_count (f (st_heap c x)) \<noteq> 0"
  shows "states_inv (upd_st x f c)"
proof -
  have h: "st_inode (st_heap (upd_st x f c) y) = st_inode (st_heap c y)"
    "st_owner (st_heap (upd_st x f c) y) = st_owner (st_heap c y)"
    "nfs4_valid_open_stateid (st_heap (upd_st x f c) y) = nfs4_valid_open_stateid (st_heap c y)" for y
    using f by simp_all
  have k: "st_count (st_heap (upd_st x f c) y) \<noteq> 0" if "st_count (st_heap c y) \<noteq> 0" for y
    using f(4) that by simp
  have l: "state_linked (upd_st x f c) y = state_linked c y" for y
    unfolding state_linked_def h(1) by simp
  show ?thesis using inv k unfolding states_inv_defs h l by simp
qed

lemma states_inv_upd_unlinked:
  assumes inv: "states_inv c" and x: "\<And>i. x \<notin> set (i_open_states (ino_heap c i))"
  shows "states_inv (upd_st x f c)"
proof -
  have nso: "x \<notin> set (so_states (so_heap c sp))" for sp
    using inv x unfolding states_inv_defs state_linked_def by blast
  have "state_linked (upd_st x f c) y = state_linked c y" if "y \<noteq> x" for y
    using that by (simp add: state_linked_def)
  moreover have "y \<noteq> x" if "y \<in> set (i_open_states (ino_heap c i))" for i y using x that by blast
  moreover have "y \<noteq> x" if "y \<in> set (so_states (so_heap c sp))" for sp y using nso that by blast
  ultimately show ?thesis using inv unfolding states_inv_defs by simp
qed

lemma find_state_byowner:
  assumes inv: "states_inv c" and r: "nfs4_find_state_byowner i owner c = (c', r)"
  shows "states_inv c'" and
    "case r of
       None \<Rightarrow> c' = c \<and> (\<forall>st \<in> set (i_open_states (ino_heap c i)). st_owner (st_heap c st) = owner \<longrightarrow>
                 \<not> nfs4_valid_open_stateid (st_heap c st))
     | Some st \<Rightarrow> st \<in> set (i_open_states (ino_heap c' i)) \<and> st_owner (st_heap c' st) = owner \<and>
                 nfs4_valid_open_stateid (st_heap c' st) \<and> st_count (st_heap c' st) = st_count (st_heap c st) + 1"
proof -
  let ?P = "\<lambda>st. st_owner (st_heap c st) = owner \<and> nfs4_valid_open_stateid (st_heap c st) \<and>
    st_count (st_heap c st) \<noteq> 0"
  let ?l = "i_open_states (ino_heap c i)"
  have "states_inv c' \<and> (case r of
       None \<Rightarrow> c' = c \<and> (\<forall>st \<in> set ?l. st_owner (st_heap c st) = owner \<longrightarrow> \<not> nfs4_valid_open_stateid (st_heap c st))
     | Some st \<Rightarrow> st \<in> set (i_open_states (ino_heap c' i)) \<and> st_owner (st_heap c' st) = owner \<and>
                 nfs4_valid_open_stateid (st_heap c' st) \<and> st_count (st_heap c' st) = st_count (st_heap c st) + 1)"
  proof (cases "List.find ?P ?l")
    case None
    have "\<forall>st \<in> set ?l. \<not> ?P st" using None by (simp add: find_None_iff)
    moreover have "\<forall>st \<in> set ?l. st_count (st_heap c st) \<noteq> 0" using inv by (simp add: states_inv_defs)
    ultimately show ?thesis using r None inv by (auto simp: nfs4_find_state_byowner_def)
  next
    case (Some st)
    have eq: "c' = upd_st st (\<lambda>x. x\<lparr>st_count := st_count x + 1\<rparr>) c" "r = Some st"
      using r Some by (simp_all add: nfs4_find_state_byowner_def)
    have "states_inv c'" unfolding eq
      by (rule states_inv_upd_st [OF inv]) (simp_all add: nfs4_valid_open_stateid_def)
    then show ?thesis using find_SomeD [OF Some] by (simp add: eq nfs4_valid_open_stateid_def)
  qed
  then show "states_inv c'" "case r of
       None \<Rightarrow> c' = c \<and> (\<forall>st \<in> set ?l. st_owner (st_heap c st) = owner \<longrightarrow> \<not> nfs4_valid_open_stateid (st_heap c st))
     | Some st \<Rightarrow> st \<in> set (i_open_states (ino_heap c' i)) \<and> st_owner (st_heap c' st) = owner \<and>
                 nfs4_valid_open_stateid (st_heap c' st) \<and> st_count (st_heap c' st) = st_count (st_heap c st) + 1"
    by simp_all
qed

lemma link_open_state:
  assumes inv: "states_inv c" and new: "\<And>j. st \<notin> set (i_open_states (ino_heap c j))"
      "st_count (st_heap c st) \<noteq> 0" "st \<notin> freed_states c"
    and none: "\<forall>x \<in> set (i_open_states (ino_heap c i)). st_owner (st_heap c x) = owner \<longrightarrow>
      \<not> nfs4_valid_open_stateid (st_heap c x)"
  shows "states_inv (nfs4_link_open_state st i owner c)"
proof -
  let ?c = "nfs4_link_open_state st i owner c"
  have nso: "st \<notin> set (so_states (so_heap c sp))" for sp
    using inv new(1) unfolding states_inv_defs state_linked_def by blast
  have lists: "i_open_states (ino_heap ?c j) = (if j = i then st # i_open_states (ino_heap c j) else i_open_states (ino_heap c j))"
    "so_states (so_heap ?c sp) = (if sp = owner then so_states (so_heap c sp) @ [st] else so_states (so_heap c sp))"
    "freed_states ?c = freed_states c" for j sp
    by (simp_all add: nfs4_link_open_state_def Let_def)
  have old: "st_heap ?c x = st_heap c x" if "x \<noteq> st" for x using that by (simp add: nfs4_link_open_state_def Let_def)
  have this_st: "st_inode (st_heap ?c st) = i" "st_owner (st_heap ?c st) = owner"
    "st_count (st_heap ?c st) = st_count (st_heap c st)"
    by (simp_all add: nfs4_link_open_state_def Let_def)
  have ne: "x \<noteq> st" if "x \<in> set (i_open_states (ino_heap c j))" for j x using new(1) that by blast
  have ne': "x \<noteq> st" if "x \<in> set (so_states (so_heap c sp))" for sp x using nso that by blast
  have lk: "state_linked ?c x" if "x = st \<or> state_linked c x" for x
    using that this_st ne old by (auto simp: state_linked_def lists split: if_splits)
  show ?thesis unfolding states_inv_defs
  proof (intro conjI allI ballI impI)
    fix j show "distinct (i_open_states (ino_heap ?c j))" using inv new(1) by (simp add: lists states_inv_defs)
    fix x assume "x \<in> set (i_open_states (ino_heap ?c j))"
    then consider "x = st" "j = i" | "x \<noteq> st" "x \<in> set (i_open_states (ino_heap c j))"
      using ne by (auto simp: lists split: if_splits)
    note x = this
    have o: "x \<in> set (i_open_states (ino_heap c j)) \<Longrightarrow> st_inode (st_heap c x) = j \<and> st_count (st_heap c x) \<noteq> 0 \<and>
        x \<in> set (so_states (so_heap c (st_owner (st_heap c x)))) \<and> x \<notin> freed_states c"
      using inv unfolding states_inv_defs by blast
    show "st_inode (st_heap ?c x) = j" by (rule x) (use this_st old o in simp_all)
    show "st_count (st_heap ?c x) \<noteq> 0" by (rule x) (use this_st new(2) old o in simp_all)
    show "x \<in> set (so_states (so_heap ?c (st_owner (st_heap ?c x))))"
      by (rule x) (use this_st old o in \<open>auto simp: lists\<close>)
    show "x \<notin> freed_states ?c" by (rule x) (use new(3) o in \<open>simp_all add: lists\<close>)
  next
    fix sp show "distinct (so_states (so_heap ?c sp))" using inv nso by (simp add: lists states_inv_defs)
    fix x assume "x \<in> set (so_states (so_heap ?c sp))"
    then consider "x = st" "sp = owner" | "x \<noteq> st" "x \<in> set (so_states (so_heap c sp))"
      using ne' by (auto simp: lists split: if_splits)
    note x = this
    have o: "x \<in> set (so_states (so_heap c sp)) \<Longrightarrow> st_owner (st_heap c x) = sp \<and> state_linked c x"
      using inv unfolding states_inv_defs by blast
    show "st_owner (st_heap ?c x) = sp" by (rule x) (use this_st old o in simp_all)
    show "state_linked ?c x" by (rule x) (use lk o in simp_all)
  next
    fix j x y
    assume xy: "x \<in> set (i_open_states (ino_heap ?c j))" "y \<in> set (i_open_states (ino_heap ?c j))"
      and v: "nfs4_valid_open_stateid (st_heap ?c x) \<and> nfs4_valid_open_stateid (st_heap ?c y) \<and>
        st_owner (st_heap ?c x) = st_owner (st_heap ?c y)"
    have o: "x \<in> set (i_open_states (ino_heap c j)) \<Longrightarrow> y \<in> set (i_open_states (ino_heap c j)) \<Longrightarrow>
        nfs4_valid_open_stateid (st_heap c x) \<and> nfs4_valid_open_stateid (st_heap c y) \<and>
        st_owner (st_heap c x) = st_owner (st_heap c y) \<Longrightarrow> x = y"
      using inv unfolding states_inv_defs by blast
    show "x = y"
      using xy v none this_st o old [of x] old [of y] ne
      by (cases "x = st"; cases "y = st") (auto simp: lists split: if_splits)
  qed
qed

lemma states_inv_frame:
  assumes "states_inv c" "st_heap c' = st_heap c"
    "\<And>sp. so_states (so_heap c' sp) = so_states (so_heap c sp)"
    "\<And>i. i_open_states (ino_heap c' i) = i_open_states (ino_heap c i)" "freed_states c' = freed_states c"
  shows "states_inv c'"
  using assms(1) unfolding states_inv_defs state_linked_def assms(2-5) .

lemma unlink_commute:
  assumes "st_inode (f (st_heap c st)) = st_inode (st_heap c st)" "st_owner (f (st_heap c st)) = st_owner (st_heap c st)"
  shows "nfs4_unlink_open_state st (upd_st st f c) = upd_st st f (nfs4_unlink_open_state st c)"
  using assms by (simp add: nfs4_unlink_open_state_def Let_def upd_st_def upd_ino_def upd_so_def)

lemma unlink_open_state:
  assumes inv: "states_inv c"
  shows "states_inv (nfs4_unlink_open_state st c)"
    and "st \<notin> set (i_open_states (ino_heap (nfs4_unlink_open_state st c) j))"
proof -
  let ?c = "nfs4_unlink_open_state st c"
  note i = inv [unfolded states_inv_defs]
  have dist: "distinct (i_open_states (ino_heap c j))" "distinct (so_states (so_heap c sp))" for j sp using i by simp_all
  have l1: "set (i_open_states (ino_heap ?c j)) = set (i_open_states (ino_heap c j)) - {st}" for j
  proof (cases "j = st_inode (st_heap c st)")
    case False
    then have "st \<notin> set (i_open_states (ino_heap c j))" using states_inv_ino(1) [OF inv] by blast
    then show ?thesis using False by (simp add: nfs4_unlink_open_state_def Let_def)
  qed (simp add: nfs4_unlink_open_state_def Let_def dist)
  have l2: "set (so_states (so_heap ?c sp)) = set (so_states (so_heap c sp)) - {st}" for sp
  proof (cases "sp = st_owner (st_heap c st)")
    case False
    then have "st \<notin> set (so_states (so_heap c sp))" using states_inv_owner(1) [OF inv] by blast
    then show ?thesis using False by (simp add: nfs4_unlink_open_state_def Let_def)
  qed (simp add: nfs4_unlink_open_state_def Let_def dist)
  have h: "st_heap ?c = st_heap c" "freed_states ?c = freed_states c"
    and d: "distinct (i_open_states (ino_heap ?c j))" "distinct (so_states (so_heap ?c sp))" for j sp
    using dist by (simp_all add: nfs4_unlink_open_state_def Let_def)
  show "st \<notin> set (i_open_states (ino_heap ?c j))" using l1 by simp
  show "states_inv ?c"
    unfolding states_inv_defs state_linked_def h l1 l2
  proof (intro conjI allI ballI impI)
    fix j x assume "x \<in> set (i_open_states (ino_heap c j)) - {st}"
    then show "st_inode (st_heap c x) = j" "st_count (st_heap c x) \<noteq> 0"
      "x \<in> set (so_states (so_heap c (st_owner (st_heap c x)))) - {st}" "x \<notin> freed_states c"
      using states_inv_ino [OF inv, of x j] by simp_all
  next
    fix sp x assume "x \<in> set (so_states (so_heap c sp)) - {st}"
    then show "st_owner (st_heap c x) = sp" "x \<in> set (i_open_states (ino_heap c (st_inode (st_heap c x)))) - {st}"
      using states_inv_owner [OF inv, of x sp] by simp_all
  next
    fix j x y assume "x \<in> set (i_open_states (ino_heap c j)) - {st}" "y \<in> set (i_open_states (ino_heap c j)) - {st}"
      "nfs4_valid_open_stateid (st_heap c x) \<and> nfs4_valid_open_stateid (st_heap c y) \<and>
        st_owner (st_heap c x) = st_owner (st_heap c y)"
    then show "x = y" using i by blast
  qed (rule d)+
qed

text \<open>
  Returning the delegation of a closed file needs no claims, so it always comes back, and it leaves
  the open states alone.
\<close>

lemma return_on_close_frame:
  assumes "nfs4_return_on_close i c = (c', r)"
  shows "st_heap c' = st_heap c" "so_heap c' = so_heap c" "freed_states c' = freed_states c"
    "i_open_states (ino_heap c' j) = i_open_states (ino_heap c j)"
    "r \<noteq> None \<Longrightarrow> i_open_files (ino_heap c' i) = []" "sv_owners (sv_heap c' s) = sv_owners (sv_heap c s)"
    "sv_owners_lru (sv_heap c' s) = sv_owners_lru (sv_heap c s)" "freed_owners c' = freed_owners c"
  using assms
  by (auto simp: nfs4_return_on_close_def Let_def nfs_clear_verifier_delegated_def nfs_get_delegation_def
      split: option.splits if_splits)

lemma put_delegation_states:
  "st_heap (nfs_put_delegation d c) = st_heap c" "so_heap (nfs_put_delegation d c) = so_heap c"
  "freed_states (nfs_put_delegation d c) = freed_states c" "ino_heap (nfs_put_delegation d c) = ino_heap c"
  "freed_owners (nfs_put_delegation d c) = freed_owners c"
  by (simp_all add: nfs_put_delegation_def free_delegation_struct_def Let_def)

lemma abort_return_states:
  "st_heap (nfs_abort_delegation_return d s err c) = st_heap c" "so_heap (nfs_abort_delegation_return d s err c) = so_heap c"
  "freed_states (nfs_abort_delegation_return d s err c) = freed_states c"
  "ino_heap (nfs_abort_delegation_return d s err c) = ino_heap c"
  "sv_owners (sv_heap (nfs_abort_delegation_return d s err c) u) = sv_owners (sv_heap c u)"
  "sv_owners_lru (sv_heap (nfs_abort_delegation_return d s err c) u) = sv_owners_lru (sv_heap c u)"
  "freed_owners (nfs_abort_delegation_return d s err c) = freed_owners c"
  by (simp_all add: nfs_abort_delegation_return_def set_sv_def Let_def)

lemma return_on_close:
  "\<exists>c'. nfs4_inode_return_delegation_on_close e op lk (Some i) c = Some c' \<and>
     st_heap c' = st_heap c \<and> so_heap c' = so_heap c \<and> freed_states c' = freed_states c \<and>
     (\<forall>j. i_open_states (ino_heap c' j) = i_open_states (ino_heap c j)) \<and>
     (\<forall>s. sv_owners (sv_heap c' s) = sv_owners (sv_heap c s) \<and>
          sv_owners_lru (sv_heap c' s) = sv_owners_lru (sv_heap c s)) \<and> freed_owners c' = freed_owners c"
proof -
  obtain c1 r where r: "nfs4_return_on_close i c = (c1, r)" by fastforce
  note f = return_on_close_frame [OF r]
  show ?thesis
  proof (cases r)
    case None
    then show ?thesis using r f
      by (simp add: nfs4_inode_return_delegation_on_close_def nfs_end_delegation_return_def)
  next
    case (Some d)
    then have open_files: "i_open_files (ino_heap c1 i) = []" using f(5) by simp
    have claim: "nfs_end_delegation_claim e op lk [] i d False err c1 = Some (c1, err)" for err
      using open_files
      by (simp add: nfs_end_delegation_claim.simps nfs_delegation_claim_opens.simps [of e op lk i])
    show ?thesis
      using f(1-4,6-8) r Some
      by (simp add: nfs4_inode_return_delegation_on_close_def nfs_end_delegation_return_def claim
          nfs_do_return_delegation_def put_delegation_states abort_return_states put_delegation_frame)
  qed
qed

section \<open>Properties\<close>

text \<open>The tree as a map from credentials to owners, read off by a linear scan.\<close>

definition owner_map :: "state_env \<Rightarrow> nat \<Rightarrow> nfs4_clnt \<Rightarrow> nat \<Rightarrow> nat option" where
  "owner_map e s c cred =
     List.find (\<lambda>sp. se_cred_fscmp e cred (so_cred (so_heap c sp)) = 0) (inorder (sv_owners (sv_heap c s)))"

lemma owners_unique:
  assumes ord: "cred_order cmp" and srt: "owners_sorted cmp so sps" and "a \<in> set sps" "b \<in> set sps"
    "cmp k (so_cred (so a)) = 0" "cmp k (so_cred (so b)) = 0"
  shows "a = b"
proof -
  have eq: "\<not> cmp (so_cred (so x)) (so_cred (so y)) < 0"
    if "cmp k (so_cred (so x)) = 0" "cmp k (so_cred (so y)) = 0" for x y
  proof -
    have "cmp (so_cred (so y)) k \<le> 0" using cred_order_less(3) [OF ord that(2)] by simp
    then have "cmp (so_cred (so y)) (so_cred (so x)) \<le> 0"
      using ord that(1) unfolding cred_order_def by (metis order_refl)
    then show ?thesis using ord unfolding cred_order_def by (metis not_le)
  qed
  have "a = b \<or> cmp (so_cred (so a)) (so_cred (so b)) < 0 \<or> cmp (so_cred (so b)) (so_cred (so a)) < 0"
    using srt assms(3,4) unfolding owners_sorted_def by (induction sps) auto
  then show ?thesis using eq assms(5,6) by blast
qed

lemma owner_map_Some:
  assumes inv: "owners_inv e s c" and ord: "cred_order (se_cred_fscmp e)"
  shows "owner_map e s c k = Some sp \<longleftrightarrow>
    sp \<in> set_tree (sv_owners (sv_heap c s)) \<and> se_cred_fscmp e k (so_cred (so_heap c sp)) = 0"
proof -
  have srt: "owners_sorted (se_cred_fscmp e) (so_heap c) (inorder (sv_owners (sv_heap c s)))"
    using inv by (simp add: owners_inv_def)
  have "owner_map e s c k \<noteq> None" if "sp \<in> set_tree (sv_owners (sv_heap c s))"
    "se_cred_fscmp e k (so_cred (so_heap c sp)) = 0"
    using that by (auto simp: owner_map_def find_None_iff)
  moreover have "x \<in> set (inorder (sv_owners (sv_heap c s))) \<and> se_cred_fscmp e k (so_cred (so_heap c x)) = 0"
    if "owner_map e s c k = Some x" for x using that unfolding owner_map_def by (rule find_SomeD)
  ultimately show ?thesis using owners_unique [OF ord srt] by (metis not_None_eq set_inorder)
qed

lemma owner_search_map:
  assumes inv: "owners_inv e s c" and ord: "cred_order (se_cred_fscmp e)"
  shows "owner_search (se_cred_fscmp e) (so_heap c) k (sv_owners (sv_heap c s)) = owner_map e s c k"
proof (cases "owner_search (se_cred_fscmp e) (so_heap c) k (sv_owners (sv_heap c s))")
  case None
  have srt: "owners_sorted (se_cred_fscmp e) (so_heap c) (inorder (sv_owners (sv_heap c s)))"
    using inv by (simp add: owners_inv_def)
  have "owner_map e s c k = None"
    using owner_search_None [OF ord srt None] owner_map_Some [OF inv ord] by (metis option.exhaust)
  with None show ?thesis by simp
qed (use owner_search_Some owner_map_Some [OF inv ord] in metis)

lemma owner_map_insert:
  assumes inv: "owners_inv e s c" and ord: "cred_order (se_cred_fscmp e)" and rb: "rb_ok e"
    and new: "new \<notin> set_tree (sv_owners (sv_heap c s))" "new \<notin> freed_owners c" "so_server (so_heap c new) = s"
      "so_count (so_heap c new) \<noteq> 0" and r: "nfs4_insert_state_owner_locked e new c = (c', sp)"
  shows "sp = (case owner_map e s c (so_cred (so_heap c new)) of None \<Rightarrow> new | Some x \<Rightarrow> x) \<and>
    owner_map e s c' k =
      (if se_cred_fscmp e k (so_cred (so_heap c new)) = 0 then Some sp else owner_map e s c k)"
proof -
  let ?t = "sv_owners (sv_heap c s)"
  have srt: "owners_sorted (se_cred_fscmp e) (so_heap c) (inorder ?t)" using inv by (simp add: owners_inv_def)
  note som = owner_map_Some [OF inv ord] and search = owner_search_map [OF inv ord]
  let ?k = "so_cred (so_heap c new)"
  note ins = insert_owner [OF inv ord rb new r]
  have inv': "owners_inv e s c'" and held: "owner_held e s ?k sp c'" using ins by auto
  note som' = owner_map_Some [OF inv' ord]
  have same_cred: "so_cred (so_heap c' x) = so_cred (so_heap c x)" for x
    using r by (auto simp: nfs4_insert_state_owner_locked_def Let_def owner_get_def split: sum.splits)
  show ?thesis
  proof (cases "owner_map e s c ?k")
    case (Some x)
    then have "owner_link (se_cred_fscmp e) (so_heap c) ?k new ?t = Inl x"
      using search [of ?k] by (simp add: owner_link_Inl)
    then have c': "c' = owner_get s x c" "sp = x"
      using r new(3) by (auto simp: nfs4_insert_state_owner_locked_def Let_def)
    have "owner_map e s c' k = owner_map e s c k" for k
      by (simp add: owner_map_def same_cred) (simp add: c' owner_get_def)
    moreover have "owner_map e s c k = Some x" if "se_cred_fscmp e k ?k = 0"
    proof -
      have x: "x \<in> set_tree ?t" "se_cred_fscmp e ?k (so_cred (so_heap c x)) = 0" using Some som by auto
      have "se_cred_fscmp e k (so_cred (so_heap c x)) \<le> 0"
        "se_cred_fscmp e (so_cred (so_heap c x)) k \<le> 0"
        using ord that x(2) cred_order_less(3) [OF ord] unfolding cred_order_def by (metis order_refl)+
      then have "se_cred_fscmp e k (so_cred (so_heap c x)) = 0"
        using ord unfolding cred_order_def by (metis linorder_not_le order_antisym_conv not_le)
      then show ?thesis using som x(1) by blast
    qed
    ultimately show ?thesis using Some c'(2) by simp
  next
    case None
    then obtain t where t: "owner_link (se_cred_fscmp e) (so_heap c) ?k new ?t = Inr t"
      using search [of ?k] owner_link_Inl by (metis option.distinct(1) sumE)
    then have c': "c' = upd_sv s (\<lambda>x. x\<lparr>sv_owners := se_rb_insert_color e new t\<rparr>) c" "sp = new"
      using r new(3) by (auto simp: nfs4_insert_state_owner_locked_def Let_def)
    obtain a b where ab: "inorder ?t = a @ b" "inorder t = a @ new # b"
      using owner_link_Inr [OF ord srt t refl] by blast
    have io: "inorder (sv_owners (sv_heap c' s)) = a @ new # b"
      using rb ab(2) by (simp add: c' rb_ok_def)
    have st: "set_tree (sv_owners (sv_heap c' s)) = insert new (set_tree ?t)"
      unfolding set_inorder [symmetric] io ab(1) by auto
    have "owner_map e s c' k = Some x \<longleftrightarrow>
      (if se_cred_fscmp e k ?k = 0 then Some new else owner_map e s c k) = Some x" for x
      using som' [of k x] som [of k x] held None c'(2) st new(1) som' [of k new] owners_unique
      unfolding same_cred
      by (smt (verit, ccfv_threshold) insert_iff option.inject)
    then have "owner_map e s c' k = (if se_cred_fscmp e k ?k = 0 then Some new else owner_map e s c k)"
      by (metis not_None_eq)
    then show ?thesis using None c'(2) by simp
  qed
qed

lemma owner_map_remove:
  assumes inv: "owners_inv e s c" and ord: "cred_order (se_cred_fscmp e)" and rb: "rb_ok e"
    and sp': "sp' \<in> set_tree (sv_owners (sv_heap c s))"
  shows "owner_map e s (nfs4_remove_state_owner_locked e sp' c) k =
    (if owner_map e s c k = Some sp' then None else owner_map e s c k)"
proof -
  let ?t = "sv_owners (sv_heap c s)"
  have srt: "owners_sorted (se_cred_fscmp e) (so_heap c) (inorder ?t)" using inv by (simp add: owners_inv_def)
  note som = owner_map_Some [OF inv ord]
  have srv: "so_server (so_heap c sp') = s" using inv sp' by (simp add: owners_inv_def)
  have "distinct (inorder ?t)" by (rule owners_sorted_distinct [OF ord srt])
  then have io: "set (inorder (se_rb_erase e sp' ?t)) = set_tree ?t - {sp'}"
    using rb by (simp add: rb_ok_def)
  have rem: "owner_map e s (nfs4_remove_state_owner_locked e sp' c) k =
    List.find (\<lambda>sp. se_cred_fscmp e k (so_cred (so_heap c sp)) = 0) (inorder (se_rb_erase e sp' ?t))"
    using srv by (simp add: owner_map_def nfs4_remove_state_owner_locked_def)
  show ?thesis
  proof (cases "owner_map e s c k")
    case None
    then have "\<forall>x \<in> set_tree ?t. se_cred_fscmp e k (so_cred (so_heap c x)) \<noteq> 0"
      by (simp add: owner_map_def find_None_iff)
    then show ?thesis using None io by (simp add: rem find_None_iff)
  next
    case (Some x)
    then have x: "x \<in> set_tree ?t" "se_cred_fscmp e k (so_cred (so_heap c x)) = 0" using som by auto
    have uniq: "y = x" if "y \<in> set_tree ?t" "se_cred_fscmp e k (so_cred (so_heap c y)) = 0" for y
      using owners_unique [OF ord srt] that x by (metis set_inorder)
    show ?thesis
    proof (cases "x = sp'")
      case True
      then show ?thesis using Some io uniq by (auto simp: rem find_None_iff)
    next
      case False
      then have "\<exists>y. owner_map e s (nfs4_remove_state_owner_locked e sp' c) k = Some y"
        using x io by (auto simp: rem find_None_iff simp flip: not_None_eq)
      then obtain y where y: "owner_map e s (nfs4_remove_state_owner_locked e sp' c) k = Some y" ..
      then have "y = x" using find_SomeD [of _ _ y] io uniq unfolding rem by (metis Diff_iff)
      then show ?thesis using y Some False by simp
    qed
  qed
qed

text \<open>
  C8: The tree of open owners implements a map from credentials to owners. Looking up descends the
  tree and finds what a scan of all owners finds; inserting a new owner returns the owner of an
  equal credential if there is one and otherwise adds the new one, and nothing else changes;
  removing an owner takes exactly its entry out.
\<close>

theorem owner_tree_refines_map:
  assumes "owners_inv e s c" "cred_order (se_cred_fscmp e)" "rb_ok e"
  shows "snd (nfs4_find_state_owner_locked e s k c) = owner_map e s c k \<and>
    (\<forall>new c' sp. new \<notin> set_tree (sv_owners (sv_heap c s)) \<and> new \<notin> freed_owners c \<and>
       so_server (so_heap c new) = s \<and> so_count (so_heap c new) \<noteq> 0 \<and>
       nfs4_insert_state_owner_locked e new c = (c', sp) \<longrightarrow>
       sp = (case owner_map e s c (so_cred (so_heap c new)) of None \<Rightarrow> new | Some x \<Rightarrow> x) \<and>
       owner_map e s c' k =
         (if se_cred_fscmp e k (so_cred (so_heap c new)) = 0 then Some sp else owner_map e s c k)) \<and>
    (\<forall>sp' \<in> set_tree (sv_owners (sv_heap c s)).
       owner_map e s (nfs4_remove_state_owner_locked e sp' c) k =
         (if owner_map e s c k = Some sp' then None else owner_map e s c k))"
proof (intro conjI allI impI ballI)
  show "snd (nfs4_find_state_owner_locked e s k c) = owner_map e s c k"
    unfolding nfs4_find_state_owner_locked_def owner_search_map [OF assms(1,2)] by (simp split: option.split)
qed (use owner_map_insert [OF assms] owner_map_remove [OF assms] in blast)+

text \<open>A server with one owner, and an environment whose trees are never balanced.\<close>

definition list_tree :: "nat list \<Rightarrow> nat tree" where
  "list_tree xs = foldr (\<lambda>x t. Node Leaf x t) xs Leaf"

definition ex_state_env :: state_env where
  "ex_state_env =
     \<lparr>se_deleg = ex_deleg_env, se_open_recall = (\<lambda>_ _ c. (c, 0)), se_lock_recall = (\<lambda>_ _ c. (c, 0)),
      se_kzalloc = Some 8, se_ida = (\<lambda>_. 1), se_cred_fscmp = (\<lambda>a b. int a - int b),
      se_rb_insert_color = (\<lambda>_ t. t), se_rb_erase = (\<lambda>x t. list_tree (remove1 x (inorder t))),
      se_jiffies = 1000, se_ktime = 0, se_mv_free_lock = nfs4_free_lock_state, se_do_close = (\<lambda>_ c. c)\<rparr>"

definition ex_owner :: nfs4_clnt where
  "ex_owner = zero_clnt
     \<lparr>so_heap := (\<lambda>i. zero_owner\<lparr>so_cred := 10 * i, so_count := if i = 5 then 0 else 1,
                      so_states := if i = 4 then [6] else [], so_expires := 0 - 200000\<rparr>),
      sv_heap := (\<lambda>_. zero_server\<lparr>sv_owners := Node (Node Leaf 4 Leaf) 5 Leaf, sv_owners_lru := [5]\<rparr>),
      st_heap := (\<lambda>i. zero_state\<lparr>st_owner := 4, st_inode := 3, st_count := if i = 6 then 1 else 0,
                      st_flags := {LK_STATE_IN_USE, NFS_OPEN_STATE}, lock_states := [2, 1],
                      st_open_stateid := zero_sid\<lparr>seqid := 7\<rparr>\<rparr>),
      lk_heap := (\<lambda>i. zero_lock\<lparr>ls_owner := 30 + i, ls_flags := if i = 1 then {NFS_LOCK_INITIALIZED} else {},
                      ls_stateid := zero_sid\<lparr>seqid := 9\<rparr>, ls_count := 1\<rparr>),
      ino_heap := (\<lambda>i. zero_inode\<lparr>i_open_states := if i = 3 then [6] else []\<rparr>)\<rparr>"

lemma inorder_list_tree [simp]: "inorder (list_tree xs) = xs"
  by (induction xs) (simp_all add: list_tree_def)

lemma ex_state_env_ok: "cred_order (se_cred_fscmp ex_state_env)" "rb_ok ex_state_env"
  by (simp_all add: cred_order_def rb_ok_def ex_state_env_def)

lemma ex_owner_ok: "owners_inv ex_state_env 0 ex_owner"
  by (auto simp: owners_inv_def owners_sorted_def ex_owner_def ex_state_env_def zero_defs)

lemma ex_owner_states_ok: "states_inv ex_owner"
  by (auto simp: states_inv_defs state_linked_def ex_owner_def zero_defs)

theorem owner_tree_refines_map_witness:
  "snd (nfs4_find_state_owner_locked ex_state_env 0 40 ex_owner) = Some 4 \<and>
   owner_map ex_state_env 0 (nfs4_remove_state_owner_locked ex_state_env 4 ex_owner) 40 = None"
proof -
  have m: "owner_map ex_state_env 0 ex_owner 40 = Some 4"
    by (simp add: owner_map_def ex_owner_def ex_state_env_def zero_defs)
  have "4 \<in> set_tree (sv_owners (sv_heap ex_owner 0))" by (simp add: ex_owner_def)
  then show ?thesis
    using owner_tree_refines_map [OF ex_owner_ok ex_state_env_ok, of 40] m by auto
qed

lemma upd_new_owner_inv:
  assumes inv: "owners_inv e s c" and new: "new \<notin> set_tree (sv_owners (sv_heap c s))"
    and g: "\<And>x. sv_owners (g x) = sv_owners x" "\<And>x. sv_owners_lru (g x) = sv_owners_lru x"
  shows "owners_inv e s (upd_so new f (upd_sv s g c))"
proof -
  let ?c = "upd_so new f (upd_sv s g c)"
  note i = inv [unfolded owners_inv_def]
  have t: "sv_owners (sv_heap ?c s) = sv_owners (sv_heap c s)"
    "sv_owners_lru (sv_heap ?c s) = sv_owners_lru (sv_heap c s)" "freed_owners ?c = freed_owners c"
    by (simp_all add: g)
  have same: "so_heap ?c x = so_heap c x" if "x \<in> set_tree (sv_owners (sv_heap c s))" for x
    using new that by auto
  have "owners_sorted (se_cred_fscmp e) (so_heap ?c) (inorder (sv_owners (sv_heap c s)))"
    using i same unfolding owners_sorted_def
    by (subst sorted_wrt_cong_on [of _ _ "\<lambda>a b. se_cred_fscmp e (so_cred (so_heap c a)) (so_cred (so_heap c b)) < 0"]) auto
  moreover have "x \<in> set (sv_owners_lru (sv_heap c s)) \<longleftrightarrow>
      x \<in> set_tree (sv_owners (sv_heap c s)) \<and> so_count (so_heap ?c x) = 0" for x
    using i same [of x] by metis
  moreover have "so_server (so_heap ?c x) = s" if "x \<in> set_tree (sv_owners (sv_heap c s))" for x
    using i same [OF that] that by simp
  ultimately show ?thesis using i unfolding owners_inv_def t by blast
qed

lemma alloc_owner:
  assumes inv: "owners_inv e s c"
    and fresh: "\<And>new. se_kzalloc e = Some new \<Longrightarrow> new \<notin> set_tree (sv_owners (sv_heap c s))"
    and r: "nfs4_alloc_state_owner e s cred c = (c', r)"
  shows "case r of
     None \<Rightarrow> c' = c \<and> (se_kzalloc e = None \<or> se_ida e (sv_openowner_ids (sv_heap c s)) < 0)
   | Some new \<Rightarrow> se_kzalloc e = Some new \<and> owners_inv e s c' \<and> so_cred (so_heap c' new) = cred \<and>
       so_server (so_heap c' new) = s \<and> so_count (so_heap c' new) \<noteq> 0"
proof (cases "se_kzalloc e")
  case (Some new)
  show ?thesis
  proof (cases "se_ida e (sv_openowner_ids (sv_heap c s)) < 0")
    case True
    then have "c' = c" "r = None" using r Some by (simp_all add: nfs4_alloc_state_owner_def)
    then show ?thesis using True by simp
  next
    case False
    let ?id = "se_ida e (sv_openowner_ids (sv_heap c s))"
    have eq: "r = Some new" "c' = upd_so new (\<lambda>_. zero_owner\<lparr>so_server := s, so_cred := cred, so_count := 1,
          so_seqid := nfs4_init_seqid_counter (se_ktime e) (zero_seqid_counter\<lparr>owner_id := ?id\<rparr>)\<rparr>)
        (upd_sv s (\<lambda>x. x\<lparr>sv_openowner_ids := insert ?id (sv_openowner_ids x)\<rparr>) c)"
      using False r Some by (auto simp: nfs4_alloc_state_owner_def Let_def)
    have "owners_inv e s c'" unfolding eq by (rule upd_new_owner_inv [OF inv fresh [OF Some]]) simp_all
    then show ?thesis using Some by (simp add: eq(1)) (simp add: eq(2))
  qed
qed (use r in \<open>auto simp: nfs4_alloc_state_owner_def\<close>)

text \<open>What \<open>nfs4_get_state_owner\<close> has in hand before it looks for garbage.\<close>

definition owner_result :: "state_env \<Rightarrow> nat \<Rightarrow> nat \<Rightarrow> nfs4_clnt \<Rightarrow> nfs4_clnt \<times> nat option \<Rightarrow> bool" where
  "owner_result e s cred c cr \<longleftrightarrow>
     owners_inv e s (fst cr) \<and>
     (case snd cr of
        None \<Rightarrow> se_kzalloc e = None \<or> se_ida e (sv_openowner_ids (sv_heap c s)) < 0
      | Some sp \<Rightarrow> owner_held e s cred sp (fst cr))"

lemma new_owner:
  assumes inv: "owners_inv e s c" and ord: "cred_order (se_cred_fscmp e)" and rb: "rb_ok e"
    and new: "new \<notin> set_tree (sv_owners (sv_heap c s))" "new \<notin> freed_owners c"
      "so_server (so_heap c new) = s" "so_count (so_heap c new) \<noteq> 0"
    and ins: "nfs4_insert_state_owner_locked e new c = (c1, sp)"
  shows "owner_result e s (so_cred (so_heap c new)) c0
    (if sp \<noteq> new then nfs4_free_state_owner new c1 else c1, Some sp)"
proof -
  note i = insert_owner [OF inv ord rb new ins]
  note f = fold_free_owners(1,2) [of "[new]" c1, simplified]
  show ?thesis
  proof (cases "sp = new")
    case False
    then have "owners_inv e s (nfs4_free_state_owner new c1)"
      using i free_owners_inv [of e s c1 "[new]"] by simp
    then show ?thesis using i False f by (simp add: owner_result_def owner_held_def)
  qed (use i in \<open>simp add: owner_result_def\<close>)
qed

lemma gc_owner_result:
  assumes ord: "cred_order (se_cred_fscmp e)" and rb: "rb_ok e" and res: "owner_result e s cred c (c', r)"
  shows "owners_inv e s (nfs4_gc_state_owners e s c') \<and>
    (case r of
       None \<Rightarrow> se_kzalloc e = None \<or> se_ida e (sv_openowner_ids (sv_heap c s)) < 0
     | Some sp \<Rightarrow> owner_held e s cred sp (nfs4_gc_state_owners e s c') \<and>
         sp \<notin> freed_owners (nfs4_gc_state_owners e s c') \<and>
         owner_map e s (nfs4_gc_state_owners e s c') cred = Some sp)"
proof -
  have i: "owners_inv e s (nfs4_gc_state_owners e s c')"
    using res gc_owners(1) [OF _ ord rb] by (simp add: owner_result_def)
  show ?thesis
  proof (cases r)
    case (Some sp)
    then have h: "owner_held e s cred sp (nfs4_gc_state_owners e s c')"
      using res gc_owners(2) [OF _ ord rb] by (simp add: owner_result_def)
    then show ?thesis using Some i owner_map_Some [OF i ord] by (simp add: owner_held_def owners_inv_def)
  qed (use res i in \<open>simp add: owner_result_def\<close>)
qed

text \<open>
  C22: Getting an open owner. Whatever other threads do while memory is allocated,
  \<open>nfs4_get_state_owner\<close> keeps the tree and the LRU list in order and returns the one owner of the
  server with the given credential, referenced and not freed; it returns none only when no
  memory or identifier could be had.
\<close>

theorem nfs4_get_state_owner_held:
  assumes inv: "owners_inv e s c" and ord: "cred_order (se_cred_fscmp e)" and rb: "rb_ok e"
    and fresh: "\<And>new. se_kzalloc e = Some new \<Longrightarrow> new \<notin> set_tree (sv_owners (sv_heap c s))"
    and c1: "c1 = fst (nfs4_alloc_state_owner e s cred c)" and others: "owners_inv e s (others c1)"
      "\<And>new. se_kzalloc e = Some new \<Longrightarrow> so_heap (others c1) new = so_heap c1 new \<and>
         new \<notin> set_tree (sv_owners (sv_heap (others c1) s)) \<and> new \<notin> freed_owners (others c1)"
  shows "case nfs4_get_state_owner e others s cred c of (c', r) \<Rightarrow>
    owners_inv e s c' \<and>
    (case r of
       None \<Rightarrow> se_kzalloc e = None \<or> se_ida e (sv_openowner_ids (sv_heap c s)) < 0
     | Some sp \<Rightarrow> owner_held e s cred sp c' \<and> sp \<notin> freed_owners c' \<and> owner_map e s c' cred = Some sp)"
proof -
  obtain cf r1 where f: "nfs4_find_state_owner_locked e s cred c = (cf, r1)" by fastforce
  note f1 = find_owner [OF inv ord f]
  obtain c2 r2 where a: "nfs4_alloc_state_owner e s cred c = (c2, r2)" by fastforce
  then have c2: "c1 = c2" using c1 by simp
  note a2 = alloc_owner [OF inv fresh a]
  note gc = gc_owner_result [OF ord rb]
  show ?thesis
  proof (cases r1)
    case (Some sp)
    then have "owner_result e s cred c (cf, Some sp)" using f1 by (simp add: owner_result_def)
    from gc [OF this] show ?thesis using f Some by (simp add: nfs4_get_state_owner_def)
  next
    case None
    show ?thesis
    proof (cases r2)
      case None2: None
      then have "owner_result e s cred c (c2, None)" using a2 inv by (simp add: owner_result_def)
      from gc [OF this] show ?thesis using f f1 None a None2 by (simp add: nfs4_get_state_owner_def)
    next
      case (Some new)
      then have n: "se_kzalloc e = Some new" "owners_inv e s (others c2)" "so_cred (so_heap c2 new) = cred"
        "so_server (so_heap c2 new) = s" "so_count (so_heap c2 new) \<noteq> 0" using a2 others(1) c2 by simp_all
      note o = others(2) [OF n(1), unfolded c2]
      obtain c4 sp where ins: "nfs4_insert_state_owner_locked e new (others c2) = (c4, sp)" by fastforce
      have "owner_result e s cred c (if sp \<noteq> new then nfs4_free_state_owner new c4 else c4, Some sp)"
        using new_owner [OF n(2) ord rb _ _ _ _ ins] o n(3-5) by simp
      from gc [OF this] show ?thesis using f f1 None a Some ins by (simp add: nfs4_get_state_owner_def)
    qed
  qed
qed

theorem nfs4_get_state_owner_held_witness:
  "\<exists>c' sp. nfs4_get_state_owner ex_state_env id 0 60 ex_owner = (c', Some sp) \<and> owner_held ex_state_env 0 60 sp c'"
proof -
  let ?c1 = "fst (nfs4_alloc_state_owner ex_state_env 0 60 ex_owner)"
  have env: "se_kzalloc ex_state_env = Some 8" "se_ida ex_state_env ids = 1" for ids
    by (simp_all add: ex_state_env_def)
  have fresh: "new \<notin> set_tree (sv_owners (sv_heap ex_owner 0))" if "se_kzalloc ex_state_env = Some new" for new
    using that by (auto simp: env(1) ex_owner_def)
  have inv: "owners_inv ex_state_env 0 (id ?c1)"
    using alloc_owner [OF ex_owner_ok fresh prod.collapse [symmetric], of 60]
    by (auto simp: nfs4_alloc_state_owner_def env split: option.splits)
  have new: "new \<notin> set_tree (sv_owners (sv_heap (id ?c1) 0)) \<and> new \<notin> freed_owners (id ?c1)"
    if "se_kzalloc ex_state_env = Some new" for new
    using that by (auto simp: nfs4_alloc_state_owner_def env Let_def ex_owner_def zero_clnt_def)
  from nfs4_get_state_owner_held [where others = id, OF ex_owner_ok ex_state_env_ok fresh refl inv] new
  show ?thesis by (auto simp: env split: prod.splits option.splits)
qed

text \<open>
  Collecting open owners. \<open>nfs4_gc_state_owners\<close> keeps the tree and the LRU list in order. It
  frees only owners that nobody references and whose last reference was dropped outside the
  last lease period, and every owner with a reference stays in the tree.
\<close>

lemma nfs4_gc_state_owners_idle:
  assumes "owners_inv e s c" "cred_order (se_cred_fscmp e)" "rb_ok e"
  shows "owners_inv e s (nfs4_gc_state_owners e s c) \<and>
    (\<forall>x. x \<in> freed_owners (nfs4_gc_state_owners e s c) \<and> x \<notin> freed_owners c \<longrightarrow>
       so_count (so_heap c x) = 0 \<and>
       \<not> time_in_range (so_expires (so_heap c x)) (se_jiffies e - cl_lease_time c) (se_jiffies e)) \<and>
    (\<forall>x. x \<in> set_tree (sv_owners (sv_heap c s)) \<and> so_count (so_heap c x) \<noteq> 0 \<longrightarrow>
       x \<in> set_tree (sv_owners (sv_heap (nfs4_gc_state_owners e s c) s)))"
  using gc_owners [OF assms] cred_order_less(4) [OF assms(2)] unfolding owner_held_def by metis

lemma free_open_state_inv:
  assumes "states_inv c" "\<And>i. st \<notin> set (i_open_states (ino_heap c i))"
  shows "states_inv (nfs4_free_open_state st c)"
proof -
  have "x \<noteq> st" if "x \<in> set (i_open_states (ino_heap c i))" for x i using assms(2) that by blast
  then have "\<forall>i. \<forall>x \<in> set (i_open_states (ino_heap c i)). x \<notin> freed_states (nfs4_free_open_state st c)"
    using states_inv_ino(4) [OF assms(1)] by (simp add: nfs4_free_open_state_def)
  moreover have same: "st_heap (nfs4_free_open_state st c) = st_heap c" "so_heap (nfs4_free_open_state st c) = so_heap c"
    "ino_heap (nfs4_free_open_state st c) = ino_heap c" by (simp_all add: nfs4_free_open_state_def)
  ultimately have "ino_states_ok (nfs4_free_open_state st c)"
    using assms(1) unfolding states_inv_def ino_states_ok_def same by blast
  then show ?thesis
    using assms(1) unfolding states_inv_def owner_states_ok_def usable_states_ok_def state_linked_def same by blast
qed

text \<open>The only usable state of an owner on an inode.\<close>

definition state_got :: "nat \<Rightarrow> nat \<Rightarrow> nat \<Rightarrow> nfs4_clnt \<Rightarrow> bool" where
  "state_got i owner st c \<longleftrightarrow>
     st \<in> set (i_open_states (ino_heap c i)) \<and> st_owner (st_heap c st) = owner \<and>
     nfs4_valid_open_stateid (st_heap c st) \<and> st_count (st_heap c st) \<noteq> 0 \<and> st \<notin> freed_states c \<and>
     (\<forall>st' \<in> set (i_open_states (ino_heap c i)). st_owner (st_heap c st') = owner \<and>
        nfs4_valid_open_stateid (st_heap c st') \<longrightarrow> st' = st)"

lemma state_gotI:
  assumes inv: "states_inv c" and st: "st \<in> set (i_open_states (ino_heap c i))" "st_owner (st_heap c st) = owner"
      "nfs4_valid_open_stateid (st_heap c st)"
  shows "state_got i owner st c"
  unfolding state_got_def
proof (intro conjI ballI impI)
  show "st_count (st_heap c st) \<noteq> 0" "st \<notin> freed_states c" using states_inv_ino [OF inv st(1)] by auto
  show "st' = st" if "st' \<in> set (i_open_states (ino_heap c i))"
    "st_owner (st_heap c st') = owner \<and> nfs4_valid_open_stateid (st_heap c st')" for st'
    using states_inv_unique [OF inv that(1) st(1) _ st(3)] that(2) st(2) by simp
qed (rule st)+

text \<open>The second look for the state, with memory for a new one in hand.\<close>

lemma second_look:
  assumes inv: "states_inv c" and g: "nfs4_find_state_byowner i owner c = (c', r)"
    and n: "\<And>n. new = Some n \<Longrightarrow> st_heap c n = zero_state\<lparr>st_count := 1\<rparr> \<and> n \<notin> freed_states c \<and>
       (\<forall>j. n \<notin> set (i_open_states (ino_heap c j)))"
  defines "res \<equiv> (case r of
         Some st \<Rightarrow> (case new of None \<Rightarrow> (c', Some st) | Some n \<Rightarrow> (nfs4_free_open_state n c', Some st))
       | None \<Rightarrow> (case new of None \<Rightarrow> (c', None) | Some n \<Rightarrow> (nfs4_link_open_state n i owner c', Some n)))"
  shows "states_inv (fst res)" and "snd res = Some st \<Longrightarrow> state_got i owner st (fst res)"
    and "snd res = None \<Longrightarrow> new = None"
proof -
  note g1 = find_state_byowner [OF inv g]
  have ino: "ino_heap c' = ino_heap c" using g by (auto simp: nfs4_find_state_byowner_def split: option.splits)
  have "states_inv (fst res) \<and> (\<forall>st. snd res = Some st \<longrightarrow> state_got i owner st (fst res)) \<and>
      (snd res = None \<longrightarrow> new = None)"
  proof (cases r)
    case (Some st)
    note s3 = g1(2) [unfolded Some option.case]
    show ?thesis
    proof (cases new)
      case None
      then show ?thesis using state_gotI [OF g1(1)] s3 g1(1) by (simp add: res_def Some)
    next
      case (Some m)
      have inv': "states_inv (nfs4_free_open_state m c')"
        by (rule free_open_state_inv [OF g1(1)]) (simp add: ino n [OF Some])
      then have "state_got i owner st (nfs4_free_open_state m c')"
        by (rule state_gotI) (use s3 in \<open>simp_all add: nfs4_free_open_state_def\<close>)
      then show ?thesis using inv' by (simp add: res_def \<open>r = Some st\<close> Some)
    qed
  next
    case None
    note n3 = g1(2) [unfolded None option.case]
    show ?thesis
    proof (cases new)
      case (Some m)
      note m = n [OF Some]
      have c': "c' = c" using n3 by simp
      have inv': "states_inv (nfs4_link_open_state m i owner c)"
        by (rule link_open_state [OF inv]) (use m n3 in simp_all)
      then have "state_got i owner m (nfs4_link_open_state m i owner c)"
        by (rule state_gotI)
          (simp_all add: m nfs4_link_open_state_def Let_def nfs4_valid_open_stateid_def zero_state_def)
      then show ?thesis using inv' by (simp add: res_def None Some c')
    qed (use g1(1) in \<open>simp add: res_def None\<close>)
  qed
  then show "states_inv (fst res)" "snd res = Some st \<Longrightarrow> state_got i owner st (fst res)"
    "snd res = None \<Longrightarrow> new = None" by blast+
qed

text \<open>
  C23: Getting an open state. Whatever other threads do while memory is allocated,
  \<open>nfs4_get_open_state\<close> keeps the lists of the inode and of the owner consistent and returns, with a
  reference, the only usable state of that owner on that inode; it returns none only when
  there is neither such a state nor memory for one.
\<close>

theorem nfs4_get_open_state_unique:
  assumes inv: "states_inv c"
    and c1: "c1 = fst (nfs4_alloc_open_state e c)" and others: "states_inv (others c1)"
      "\<And>new. se_kzalloc e = Some new \<Longrightarrow> st_heap (others c1) new = st_heap c1 new \<and>
         new \<notin> freed_states (others c1) \<and> (\<forall>j. new \<notin> set (i_open_states (ino_heap (others c1) j)))"
  shows "case nfs4_get_open_state e others i owner c of (c', r) \<Rightarrow>
    states_inv c' \<and> (case r of None \<Rightarrow> se_kzalloc e = None | Some st \<Rightarrow> state_got i owner st c')"
proof -
  obtain cf r1 where f: "nfs4_find_state_byowner i owner c = (cf, r1)" by fastforce
  note f1 = find_state_byowner [OF inv f]
  obtain c2 new where a: "nfs4_alloc_open_state e c = (c2, new)" by fastforce
  then have c2: "c2 = c1" "new = se_kzalloc e"
    using c1 by (auto simp: nfs4_alloc_open_state_def split: option.splits)
  obtain c3 r3 where g: "nfs4_find_state_byowner i owner (others c1) = (c3, r3)" by fastforce
  show ?thesis
  proof (cases r1)
    case (Some st)
    have "state_got i owner st cf" by (rule state_gotI [OF f1(1)]) (use f1(2) Some in simp_all)
    then show ?thesis using f1(1) f Some by (simp add: nfs4_get_open_state_def)
  next
    case None
    have n: "st_heap (others c1) n = zero_state\<lparr>st_count := 1\<rparr> \<and> n \<notin> freed_states (others c1) \<and>
       (\<forall>j. n \<notin> set (i_open_states (ino_heap (others c1) j)))" if "new = Some n" for n
      using others(2) [of n] that c2 c1 a by (simp add: nfs4_alloc_open_state_def)
    note l = second_look [where new = new, OF others(1) g n]
    have get: "nfs4_get_open_state e others i owner c =
      (case r3 of
         Some st \<Rightarrow> (case new of None \<Rightarrow> (c3, Some st) | Some n \<Rightarrow> (nfs4_free_open_state n c3, Some st))
       | None \<Rightarrow> (case new of None \<Rightarrow> (c3, None) | Some n \<Rightarrow> (nfs4_link_open_state n i owner c3, Some n)))"
      using f f1(2) None a c2(1) g by (simp add: nfs4_get_open_state_def split: option.splits)
    show ?thesis unfolding get [symmetric] using l [folded get] c2(2)
      by (simp add: case_prod_unfold split: option.split)
  qed
qed

theorem nfs4_get_open_state_unique_witness:
  "\<exists>c' st. nfs4_get_open_state ex_state_env id 3 5 ex_owner = (c', Some st) \<and> st_owner (st_heap c' st) = 5"
proof -
  have kz: "se_kzalloc ex_state_env = Some 8" by (simp add: ex_state_env_def)
  have fresh: "new \<notin> set (i_open_states (ino_heap ex_owner j))" if "se_kzalloc ex_state_env = Some new" for new j
    using that by (auto simp: kz ex_owner_def zero_defs)
  have c1: "fst (nfs4_alloc_open_state ex_state_env ex_owner) = upd_st 8 (\<lambda>_. zero_state\<lparr>st_count := 1\<rparr>) ex_owner"
    by (simp add: nfs4_alloc_open_state_def kz)
  have inv: "states_inv (id (fst (nfs4_alloc_open_state ex_state_env ex_owner)))"
    unfolding c1 id_apply using fresh kz by (intro states_inv_upd_unlinked [OF ex_owner_states_ok]) blast
  have new: "st_heap (id (fst (nfs4_alloc_open_state ex_state_env ex_owner))) new =
      st_heap (fst (nfs4_alloc_open_state ex_state_env ex_owner)) new \<and>
      new \<notin> freed_states (id (fst (nfs4_alloc_open_state ex_state_env ex_owner))) \<and>
      (\<forall>j. new \<notin> set (i_open_states (ino_heap (id (fst (nfs4_alloc_open_state ex_state_env ex_owner))) j)))"
    if "se_kzalloc ex_state_env = Some new" for new
    using that fresh by (simp add: c1) (simp add: ex_owner_def zero_clnt_def)
  from nfs4_get_open_state_unique [where others = id, OF ex_owner_states_ok refl inv new, of 3 5]
  show ?thesis by (auto simp: kz state_got_def split: prod.splits option.splits)
qed

lemma owners_inv_frame:
  assumes "owners_inv e s c" "\<And>x. so_cred (so_heap c' x) = so_cred (so_heap c x)"
    "\<And>x. so_server (so_heap c' x) = so_server (so_heap c x)" "\<And>x. so_count (so_heap c' x) = so_count (so_heap c x)"
    "sv_owners (sv_heap c' s) = sv_owners (sv_heap c s)" "sv_owners_lru (sv_heap c' s) = sv_owners_lru (sv_heap c s)"
    "freed_owners c' = freed_owners c"
  shows "owners_inv e s c'"
  using assms(1) unfolding owners_inv_def owners_sorted_def assms(2-7) .

lemma put_owner_states:
  "st_heap (nfs4_put_state_owner e sp c) = st_heap c" "ino_heap (nfs4_put_state_owner e sp c) = ino_heap c"
  "so_states (so_heap (nfs4_put_state_owner e sp c) x) = so_states (so_heap c x)"
  "freed_states (nfs4_put_state_owner e sp c) = freed_states c"
  by (simp_all add: nfs4_put_state_owner_def Let_def)

text \<open>
  C25: Dropping an open state. \<open>nfs4_put_open_state\<close> always comes back, also when the last close makes
  it return the delegation of the file. It keeps the lists of states and the owners of the
  server in order, and it unlinks and frees the state exactly when the last reference goes,
  dropping one reference on the owner.
\<close>

theorem nfs4_put_open_state_last:
  assumes inv: "states_inv c" and st: "st \<in> set (i_open_states (ino_heap c i))"
    and own: "owners_inv e s c" "st_owner (st_heap c st) \<in> set_tree (sv_owners (sv_heap c s))"
      "so_count (so_heap c (st_owner (st_heap c st))) \<noteq> 0"
  shows "\<exists>c'. nfs4_put_open_state e st c = Some c' \<and> states_inv c' \<and> owners_inv e s c' \<and>
    (if st_count (st_heap c st) = 1
     then freed_states c' = insert st (freed_states c) \<and> st \<notin> set (i_open_states (ino_heap c' i)) \<and>
       so_count (so_heap c' (st_owner (st_heap c st))) = so_count (so_heap c (st_owner (st_heap c st))) - 1
     else c' = upd_st st (\<lambda>x. x\<lparr>st_count := st_count x - 1\<rparr>) c)"
proof -
  let ?f = "\<lambda>x. x\<lparr>st_count := st_count x - 1\<rparr>"
  note ino = states_inv_ino [OF inv st]
  have fo: "owners_inv e s (upd_st st ?f c)" by (rule owners_inv_frame [OF own(1)]) simp_all
  show ?thesis
  proof (cases "st_count (st_heap c st) = 1")
    case False
    then have "states_inv (upd_st st ?f c)"
      using ino(2) by (intro states_inv_upd_st [OF inv]) (simp_all add: nfs4_valid_open_stateid_def)
    moreover have "nfs4_put_open_state e st c = Some (upd_st st ?f c)"
      using False ino(2) by (simp add: nfs4_put_open_state_def Let_def)
    ultimately show ?thesis using fo False by simp
  next
    case True
    let ?owner = "st_owner (st_heap c st)"
    define c1 where "c1 = nfs4_unlink_open_state st (upd_st st ?f c)"
    have c1: "c1 = upd_st st ?f (nfs4_unlink_open_state st c)"
      unfolding c1_def by (rule unlink_commute) simp_all
    have inv1: "states_inv c1" and un1: "\<And>j. st \<notin> set (i_open_states (ino_heap c1 j))"
      unfolding c1 using unlink_open_state [OF inv] states_inv_upd_unlinked by simp_all
    have own1: "owners_inv e s c1"
      by (rule owners_inv_frame [OF own(1)]) (simp_all add: c1_def nfs4_unlink_open_state_def Let_def)
    obtain c2 where c2: "nfs4_inode_return_delegation_on_close (se_deleg e) (se_open_recall e) (se_lock_recall e)
        (Some i) c1 = Some c2"
      "st_heap c2 = st_heap c1" "so_heap c2 = so_heap c1" "freed_states c2 = freed_states c1"
      "\<And>j. i_open_states (ino_heap c2 j) = i_open_states (ino_heap c1 j)"
      "\<And>u. sv_owners (sv_heap c2 u) = sv_owners (sv_heap c1 u)"
      "\<And>u. sv_owners_lru (sv_heap c2 u) = sv_owners_lru (sv_heap c1 u)" "freed_owners c2 = freed_owners c1"
      using return_on_close [of "se_deleg e" "se_open_recall e" "se_lock_recall e" i c1] by blast
    define c3 where "c3 = nfs4_free_open_state st c2"
    have inv2: "states_inv c2" by (rule states_inv_frame [OF inv1]) (simp_all add: c2)
    have inv3: "states_inv c3" unfolding c3_def by (rule free_open_state_inv [OF inv2]) (simp add: c2 un1)
    have own3: "owners_inv e s c3"
      by (rule owners_inv_frame [OF own1]) (simp_all add: c3_def nfs4_free_open_state_def c2)
    have so3: "so_count (so_heap c3 ?owner) = so_count (so_heap c ?owner)" "sv_owners (sv_heap c3 s) = sv_owners (sv_heap c s)"
      by (simp_all add: c3_def nfs4_free_open_state_def c2) (simp_all add: c1_def nfs4_unlink_open_state_def Let_def)
    have inv4: "states_inv (nfs4_put_state_owner e ?owner c3)"
      by (rule states_inv_frame [OF inv3]) (simp_all add: put_owner_states)
    have own4: "owners_inv e s (nfs4_put_state_owner e ?owner c3)"
      by (rule put_owner_inv [OF own3]) (use so3 own in simp_all)
    have eq: "nfs4_put_open_state e st c = Some (nfs4_put_state_owner e ?owner c3)"
      using True ino(1) c2(1) by (simp add: nfs4_put_open_state_def Let_def c1_def c3_def)
    have "freed_states c1 = freed_states c" by (simp add: c1_def nfs4_unlink_open_state_def Let_def)
    then have fr: "freed_states (nfs4_put_state_owner e ?owner c3) = insert st (freed_states c)"
      by (simp add: put_owner_states c3_def nfs4_free_open_state_def c2(4))
    have un: "st \<notin> set (i_open_states (ino_heap (nfs4_put_state_owner e ?owner c3) i))"
      by (simp add: put_owner_states c3_def nfs4_free_open_state_def c2(5) un1)
    have "so_count (so_heap (nfs4_put_state_owner e ?owner c3) ?owner) = so_count (so_heap c ?owner) - 1"
      using so3(1) by (simp add: nfs4_put_state_owner_def Let_def)
    then show ?thesis using eq inv4 own4 fr un True by simp
  qed
qed

theorem nfs4_put_open_state_last_witness:
  "\<exists>c'. nfs4_put_open_state ex_state_env 6 ex_owner = Some c' \<and> freed_states c' = {6} \<and>
     so_count (so_heap c' 4) = 0"
proof -
  have "6 \<in> set (i_open_states (ino_heap ex_owner 3))"
    "st_owner (st_heap ex_owner 6) \<in> set_tree (sv_owners (sv_heap ex_owner 0))"
    "so_count (so_heap ex_owner (st_owner (st_heap ex_owner 6))) \<noteq> 0"
    by (simp_all add: ex_owner_def zero_defs)
  note p = nfs4_put_open_state_last [OF ex_owner_states_ok this(1) ex_owner_ok this(2,3)]
  have "st_count (st_heap ex_owner 6) = 1" "freed_states ex_owner = {}" "st_owner (st_heap ex_owner 6) = 4"
    "so_count (so_heap ex_owner 4) = 1" by (simp_all add: ex_owner_def zero_defs)
  with p show ?thesis by auto
qed

text \<open>
  The lock state that counts for an access: that of the POSIX owner, or else the oldest one of the
  flock owner.
\<close>

definition rw_lock_state :: "nat \<Rightarrow> (nat \<times> nat) option \<Rightarrow> nfs4_clnt \<Rightarrow> nat option" where
  "rw_lock_state st l_ctx c =
     (case l_ctx of
        None \<Rightarrow> None
      | Some (lockowner, ctx) \<Rightarrow>
          let ls = lock_states (st_heap c st); owner = (\<lambda>l. ls_owner (lk_heap c l)) in
          if LK_STATE_IN_USE \<notin> st_flags (st_heap c st) then None
          else case List.find (\<lambda>l. owner l = lockowner) ls of
                 Some l \<Rightarrow> Some l
               | None \<Rightarrow> List.find (\<lambda>l. owner l = ctx_flock_owner (ctx_heap c ctx)) (rev ls))"

lemma find_append: "List.find P (xs @ ys) = (case List.find P xs of None \<Rightarrow> List.find P ys | Some x \<Rightarrow> Some x)"
  by (induction xs) auto

lemma scan_lock_states:
  "nfs4_scan_lock_states owner o1 (Some o2) ret ls =
     (case List.find (\<lambda>l. owner l = o1) ls of
        Some l \<Rightarrow> Some l
      | None \<Rightarrow> (case List.find (\<lambda>l. owner l = o2) (rev ls) of Some l \<Rightarrow> Some l | None \<Rightarrow> ret))"
  by (induction owner o1 "Some o2" ret ls rule: nfs4_scan_lock_states.induct)
    (auto simp: find_append split: option.split)

lemma copy_lock_stateid:
  assumes cnt: "\<forall>l \<in> set (lock_states (st_heap c st)). ls_count (lk_heap c l) \<noteq> 0"
  shows "nfs4_copy_lock_stateid e dst st l_ctx c =
    (c, case rw_lock_state st l_ctx c of
          None \<Rightarrow> (dst, - ENOENT)
        | Some l \<Rightarrow> if NFS_LOCK_LOST \<in> ls_flags (lk_heap c l) then (dst, - EIO)
                    else if NFS_LOCK_INITIALIZED \<in> ls_flags (lk_heap c l) then (ls_stateid (lk_heap c l), 0)
                    else (dst, - ENOENT))"
proof (cases l_ctx)
  case None
  then show ?thesis by (simp add: nfs4_copy_lock_stateid_def rw_lock_state_def)
next
  case (Some lc)
  obtain lockowner ctx where lc: "lc = (lockowner, ctx)" by fastforce
  show ?thesis
  proof (cases "LK_STATE_IN_USE \<in> st_flags (st_heap c st)")
    case False
    then show ?thesis using Some lc by (simp add: nfs4_copy_lock_stateid_def rw_lock_state_def Let_def)
  next
    case use: True
    let ?scan = "nfs4_scan_lock_states (\<lambda>l. ls_owner (lk_heap c l)) lockowner
      (Some (ctx_flock_owner (ctx_heap c ctx))) None (lock_states (st_heap c st))"
    have scan: "?scan = rw_lock_state st l_ctx c"
      using use Some lc by (simp add: scan_lock_states rw_lock_state_def Let_def split: option.split)
    show ?thesis
    proof (cases "rw_lock_state st l_ctx c")
      case None
      then have "?scan = None" using scan by simp
      then show ?thesis using use Some lc None
        by (simp add: nfs4_copy_lock_stateid_def nfs4_find_lock_state_def nfs4_put_lock_state_def)
    next
      case l: (Some l)
      then have l': "?scan = Some l" using scan by simp
      have "l \<in> set (lock_states (st_heap c st))"
        using l use Some lc by (auto simp: rw_lock_state_def Let_def split: option.splits dest!: find_SomeD)
      then have "ls_count (lk_heap c l) \<noteq> 0" using cnt by blast
      then have put: "nfs4_put_lock_state e (Some l) (upd_lk l (\<lambda>x. x\<lparr>ls_count := ls_count x + 1\<rparr>) c) = c"
        by (simp add: nfs4_put_lock_state_def Let_def upd_lk_def)
      show ?thesis using use Some lc l l' put
        by (simp add: nfs4_copy_lock_stateid_def nfs4_find_lock_state_def)
    qed
  qed
qed

text \<open>
  C19: Choosing the stateid of a READ or WRITE. A lost lock makes the access fail with EIO before
  anything else is looked at. Otherwise a valid delegation that covers the access is used, then
  the stateid of the lock of the POSIX owner or of the flock owner, then the open stateid; an
  open state that has none gives EAGAIN. The references on the lock states are given back.
\<close>

theorem nfs4_select_rw_stateid_choice:
  assumes "nfs4_valid_open_stateid (st_heap c st)"
    and cnt: "\<forall>l \<in> set (lock_states (st_heap c st)). ls_count (lk_heap c l) \<noteq> 0"
    and r: "nfs4_select_rw_stateid e st fmode l_ctx dst c = (c', sid, cred, ret)"
  defines "lsp \<equiv> rw_lock_state st l_ctx c"
    and "strip \<equiv> (\<lambda>sid. if sv_cap_stateid_nfsv41 (sv_heap c (i_server (ino_heap c (st_inode (st_heap c st)))))
                  then sid\<lparr>seqid := 0\<rparr> else sid)"
  shows "lk_heap c' = lk_heap c \<and>
    (if \<exists>l. lsp = Some l \<and> NFS_LOCK_LOST \<in> ls_flags (lk_heap c l) then ret = - EIO
     else case snd (nfs4_copy_delegation_stateid (st_inode (st_heap c st)) fmode c) of
            Some (dsid, dcred) \<Rightarrow> ret = 0 \<and> sid = strip dsid \<and> cred = Some dcred
          | None \<Rightarrow>
              cred = None \<and>
              (if \<exists>l. lsp = Some l \<and> NFS_LOCK_INITIALIZED \<in> ls_flags (lk_heap c l)
               then ret = 0 \<and> sid = strip (ls_stateid (lk_heap c (the lsp)))
               else if NFS_OPEN_STATE \<in> st_flags (st_heap c st)
               then ret = 0 \<and> sid = strip (st_open_stateid (st_heap c st))
               else ret = - EAGAIN \<and> sid = strip zero_stateid))"
proof -
  obtain c1 dr where d: "nfs4_copy_delegation_stateid (st_inode (st_heap c st)) fmode c = (c1, dr)" by fastforce
  have c1: "st_heap c1 = st_heap c" "sv_heap c1 = sv_heap c" "ino_heap c1 = ino_heap c" "lk_heap c1 = lk_heap c"
    using d by (auto simp: nfs4_copy_delegation_stateid_def nfs_mark_delegation_referenced_def
        split: option.splits if_splits)
  show ?thesis
    using assms(1) r d c1
    unfolding nfs4_select_rw_stateid_def copy_lock_stateid [OF cnt] lsp_def [symmetric] strip_def
    by (cases lsp; cases dr; cases "NFS_LOCK_LOST \<in> ls_flags (lk_heap c (the lsp))";
        cases "NFS_LOCK_INITIALIZED \<in> ls_flags (lk_heap c (the lsp))")
      (auto simp: Let_def nfs4_copy_open_stateid_def split: if_splits)
qed

theorem nfs4_select_rw_stateid_choice_witness:
  "\<exists>c' cred. nfs4_select_rw_stateid ex_state_env 6 {FMODE_READ} (Some (31, 0)) zero_sid ex_owner =
     (c', zero_sid\<lparr>seqid := 9\<rparr>, cred, 0)"
proof -
  have v: "nfs4_valid_open_stateid (st_heap ex_owner 6)"
    "\<forall>l \<in> set (lock_states (st_heap ex_owner 6)). ls_count (lk_heap ex_owner l) \<noteq> 0"
    by (simp_all add: nfs4_valid_open_stateid_def ex_owner_def zero_defs)
  obtain c' sid cred ret where r:
    "nfs4_select_rw_stateid ex_state_env 6 {FMODE_READ} (Some (31, 0)) zero_sid ex_owner = (c', sid, cred, ret)"
    using prod_cases4 by blast
  have "rw_lock_state 6 (Some (31, 0)) ex_owner = Some 1"
    "snd (nfs4_copy_delegation_stateid (st_inode (st_heap ex_owner 6)) {FMODE_READ} ex_owner) = None"
    by (simp_all add: rw_lock_state_def nfs4_copy_delegation_stateid_def ex_owner_def zero_defs)
  moreover have "ls_flags (lk_heap ex_owner 1) = {NFS_LOCK_INITIALIZED}"
    "ls_stateid (lk_heap ex_owner 1) = zero_sid\<lparr>seqid := 9\<rparr>"
    "\<not> sv_cap_stateid_nfsv41 (sv_heap ex_owner (i_server (ino_heap ex_owner (st_inode (st_heap ex_owner 6)))))"
    by (simp_all add: ex_owner_def zero_defs)
  ultimately have "sid = zero_sid\<lparr>seqid := 9\<rparr>" "ret = 0"
    using nfs4_select_rw_stateid_choice [OF v r] by simp_all
  with r show ?thesis by blast
qed

end
