(* ===== verification/Nfs4_Reclaim.thy ===== *)
theory Nfs4_Reclaim
  imports Nfs4_Owner "HOL-Library.Monad_Syntax"
begin

text \<open>
  Reclaiming open and lock state after a server reboot or a lost lease
  (\<open>src/mynfs/nfs4state.c\<close>, \<open>nfs4_reclaim_locks\<close> to \<open>nfs4_do_reclaim\<close>). A reclaim runs for one table of
  operations, \<open>struct nfs4_state_recovery_ops\<close>: the calls that reopen a file and relock a lock are
  fields of it and arbitrary functions on the client, so they stand for the call and for whatever
  other threads do meanwhile. The walks restart after every recovered object; they are partial
  functions and the theorems state when they return.

  The calls of the server and the functions of \<open>pnfs.c\<close> that recovery uses are fields of the
  environment \<open>mgr_env\<close>, again as functions on the client. \<open>me_others\<close> is what other threads do with the
  slots of a draining table until the wait for the drain is over: they release slots and ask for
  new ones. \<open>me_unlocked\<close> is what other threads do right
  after the state manager has given up its running bit, \<open>me_wait_run\<close> and \<open>me_wait_manager\<close> are the
  waits for the manager to be needed and to be done, and \<open>me_HZ\<close> is the kernel's tick rate.
\<close>

section \<open>The environment and the recovery operations\<close>

datatype (plugins only: code) slot_step = Release_slot u32 | Request_slot bool

record mgr_env =
  me_state :: state_env
  me_slot :: slot_env
  me_others :: "nfs4_slot_table \<Rightarrow> slot_step list"
  me_minor :: nat
  me_HZ :: int
  me_signalled :: "nfs4_clnt \<Rightarrow> bool"
  me_unlocked :: "nfs4_clnt \<Rightarrow> nfs4_clnt"
  me_wait_run :: "nfs4_clnt \<Rightarrow> nfs4_clnt"
  me_wait_manager :: "nfs4_clnt \<Rightarrow> nfs4_clnt \<times> int"
  me_setclientid :: "nat \<Rightarrow> nfs4_clnt \<Rightarrow> nfs4_clnt \<times> int \<times> u64 \<times> u64"
  me_setclientid_confirm :: "nat \<Rightarrow> nfs4_clnt \<Rightarrow> nfs4_clnt \<times> int"
  me_exchange_id :: "nat \<Rightarrow> nfs4_clnt \<Rightarrow> nfs4_clnt \<times> int"
  me_create_session :: "nat option \<Rightarrow> nfs4_clnt \<Rightarrow> nfs4_clnt \<times> int"
  me_destroy_session :: "nat option \<Rightarrow> nfs4_clnt \<Rightarrow> nfs4_clnt \<times> int"
  me_bind_conn :: "nat option \<Rightarrow> nfs4_clnt \<Rightarrow> nfs4_clnt \<times> int"
  me_renew_lease :: "nat \<Rightarrow> nfs4_clnt \<Rightarrow> nfs4_clnt \<times> int"
  me_sched_renewal :: "nat \<Rightarrow> bool \<Rightarrow> bool \<Rightarrow> nfs4_clnt \<Rightarrow> nfs4_clnt \<times> int"
  me_get_lease_time :: "nfs4_clnt \<Rightarrow> nfs4_clnt \<times> int \<times> u32"
  me_reclaim_complete :: "nat option \<Rightarrow> nfs4_clnt \<Rightarrow> nfs4_clnt \<times> int"
  me_open_reclaim :: "nat \<Rightarrow> nat \<Rightarrow> nfs4_clnt \<Rightarrow> nfs4_clnt \<times> int"
  me_lock_reclaim :: "nat \<Rightarrow> nat \<Rightarrow> nfs4_clnt \<Rightarrow> nfs4_clnt \<times> int"
  me_open_expired :: "nat \<Rightarrow> nat \<Rightarrow> nfs4_clnt \<Rightarrow> nfs4_clnt \<times> int"
  me_lock_expired :: "nat \<Rightarrow> nat \<Rightarrow> nfs4_clnt \<Rightarrow> nfs4_clnt \<times> int"
  me_alloc_ok :: bool
  me_get_locations :: "nat \<Rightarrow> nat \<Rightarrow> nfs4_clnt \<Rightarrow> nfs4_clnt \<times> int \<times> nat \<times> bool"
  me_replace_transport :: "nat \<Rightarrow> nfs4_clnt \<Rightarrow> nfs4_clnt \<times> int"
  me_fsid_present :: "nat \<Rightarrow> nat \<Rightarrow> nfs4_clnt \<Rightarrow> nfs4_clnt \<times> int"
  me_destroy_all_layouts :: "nfs4_clnt \<Rightarrow> nfs4_clnt"
  me_layout_handle_reboot :: "nfs4_clnt \<Rightarrow> nfs4_clnt \<times> int"
  me_layout_return_unused :: "int \<Rightarrow> nfs4_clnt \<Rightarrow> nfs4_clnt"

abbreviation me_deleg :: "mgr_env \<Rightarrow> deleg_env" where
  "me_deleg e \<equiv> se_deleg (me_state e)"

abbreviation me_kthread :: "mgr_env \<Rightarrow> int" where
  "me_kthread e \<equiv> de_kthread (me_deleg e)"

record recovery_ops =
  owner_flag_bit :: nfs_owner_flag
  state_flag_bit :: nfs4_state_flag
  recover_open :: "nat \<Rightarrow> nat \<Rightarrow> nfs4_clnt \<Rightarrow> nfs4_clnt \<times> int"
  recover_lock :: "nat \<Rightarrow> nat \<Rightarrow> nfs4_clnt \<Rightarrow> nfs4_clnt \<times> int"
  establish_clid :: "nat \<Rightarrow> nfs4_clnt \<Rightarrow> nfs4_clnt \<times> int"
  ops_reclaim_complete :: "(nat option \<Rightarrow> nfs4_clnt \<Rightarrow> nfs4_clnt \<times> int) option"

section \<open>Locks and copies of one open state\<close>

definition reclaim_lock_stops :: "int \<Rightarrow> bool" where
  "reclaim_lock_stops status \<longleftrightarrow>
     status \<in> {- ETIMEDOUT, - ESTALE, - NFS4ERR_ADMIN_REVOKED, - NFS4ERR_STALE_STATEID,
       - NFS4ERR_BAD_STATEID, - NFS4ERR_EXPIRED, - NFS4ERR_NO_GRACE, - NFS4ERR_STALE_CLIENTID,
       - NFS4ERR_BADSESSION, - NFS4ERR_BADSLOT, - NFS4ERR_BAD_HIGH_SLOT,
       - NFS4ERR_CONN_NOT_BOUND_TO_SESSION}"

fun nfs4_reclaim_lock_list ::
  "(nat \<Rightarrow> nat \<Rightarrow> nfs4_clnt \<Rightarrow> nfs4_clnt \<times> int) \<Rightarrow> nat \<Rightarrow> file_lock list \<Rightarrow> nfs4_clnt \<times> int \<Rightarrow>
   nfs4_clnt \<times> int" where
  "nfs4_reclaim_lock_list rl st [] r = r"
| "nfs4_reclaim_lock_list rl st (fl # fls) (c, status) =
     (if fl_state fl \<noteq> st then nfs4_reclaim_lock_list rl st fls (c, status)
      else case rl st (fl_id fl) c of
             (c, status) \<Rightarrow>
               if status = 0 then nfs4_reclaim_lock_list rl st fls (c, 0)
               else if reclaim_lock_stops status then (c, status)
               else nfs4_reclaim_lock_list rl st fls
                      (case fl_owner fl of
                         None \<Rightarrow> c
                       | Some lsp \<Rightarrow> upd_lk lsp (\<lambda>l. l\<lparr>ls_flags := insert NFS_LOCK_LOST (ls_flags l)\<rparr>) c,
                       0))"

definition nfs4_reclaim_locks :: "recovery_ops \<Rightarrow> nat \<Rightarrow> nfs4_clnt \<Rightarrow> nfs4_clnt \<times> int" where
  "nfs4_reclaim_locks ops st c =
     (case i_flc (ino_heap c (st_inode (st_heap c st))) of
        None \<Rightarrow> (c, 0)
      | Some (posix, flock) \<Rightarrow>
          (case nfs4_reclaim_lock_list (recover_lock ops) st posix (c, 0) of
             (c, status) \<Rightarrow>
               if status \<noteq> 0 then (c, status)
               else nfs4_reclaim_lock_list (recover_lock ops) st flock (c, 0)))"

definition upd_cp :: "nat \<Rightarrow> (nfs4_copy_state \<Rightarrow> nfs4_copy_state) \<Rightarrow> nfs4_clnt \<Rightarrow> nfs4_clnt" where
  "upd_cp i f c = c\<lparr>cp_heap := (cp_heap c)(i := f (cp_heap c i))\<rparr>"

definition nfs42_complete_dst_copy :: "nat \<Rightarrow> nat \<Rightarrow> nfs4_clnt \<Rightarrow> nfs4_clnt" where
  "nfs42_complete_dst_copy st cp c =
     (if NFS_CLNT_DST_SSC_COPY_STATE \<in> st_flags (st_heap c st) \<and>
         \<not> nfs4_stateid_match_other (st_stateid (st_heap c st))
            (st_stateid (st_heap c (parent_dst_state (cp_heap c cp))))
      then c
      else
        let c = upd_cp cp (\<lambda>x. x\<lparr>copy_flags := 1\<rparr>) c in
        if NFS_CLNT_DST_SSC_COPY_STATE \<in> st_flags (st_heap c st)
        then let c = upd_st st (clear_st NFS_CLNT_DST_SSC_COPY_STATE) c;
                 c = upd_st st (clear_st NFS_CLNT_SRC_SSC_COPY_STATE) c
             in upd_cp cp (\<lambda>x. x\<lparr>copy_completed := copy_completed x + 1\<rparr>) c
        else c)"

definition nfs42_complete_src_copy :: "nat \<Rightarrow> nat \<Rightarrow> nfs4_clnt \<Rightarrow> nfs4_clnt" where
  "nfs42_complete_src_copy st cp c =
     (if NFS_CLNT_SRC_SSC_COPY_STATE \<in> st_flags (st_heap c st) \<and>
         \<not> nfs4_stateid_match_other (st_stateid (st_heap c st))
            (st_stateid (st_heap c (parent_src_state (cp_heap c cp))))
      then c
      else
        let c = upd_cp cp (\<lambda>x. x\<lparr>copy_flags := 1\<rparr>) c in
        if NFS_CLNT_DST_SSC_COPY_STATE \<in> st_flags (st_heap c st)
        then let c = upd_st st (clear_st NFS_CLNT_DST_SSC_COPY_STATE) c
             in upd_cp cp (\<lambda>x. x\<lparr>copy_completed := copy_completed x + 1\<rparr>) c
        else c)"

definition nfs42_complete_copies :: "nat \<Rightarrow> nat \<Rightarrow> nfs4_clnt \<Rightarrow> nfs4_clnt" where
  "nfs42_complete_copies sp st c =
     (if NFS_CLNT_DST_SSC_COPY_STATE \<notin> st_flags (st_heap c st) \<and>
         NFS_CLNT_SRC_SSC_COPY_STATE \<notin> st_flags (st_heap c st) then c
      else
        let s = so_server (so_heap c sp);
            c = fold (nfs42_complete_dst_copy st) (sv_ss_copies (sv_heap c s)) c
        in fold (nfs42_complete_src_copy st) (sv_ss_src_copies (sv_heap c s)) c)"

section \<open>One open owner\<close>

definition nfs4_count_lost_locks :: "nat \<Rightarrow> nfs4_clnt \<Rightarrow> int" where
  "nfs4_count_lost_locks st c =
     int (length (filter (\<lambda>l. NFS_LOCK_INITIALIZED \<notin> ls_flags (lk_heap c l) \<and>
                              NFS_LOCK_UNLOCKING \<notin> ls_flags (lk_heap c l))
                    (lock_states (st_heap c st))))"

definition nfs4_reclaim_open_state1 ::
  "recovery_ops \<Rightarrow> nat \<Rightarrow> nat \<Rightarrow> int \<Rightarrow> nfs4_clnt \<Rightarrow> nfs4_clnt \<times> int \<times> int" where
  "nfs4_reclaim_open_state1 ops sp st lost_locks c =
     (case recover_open ops sp st c of
        (c, status) \<Rightarrow>
          if status < 0 then (c, lost_locks, status)
          else case nfs4_reclaim_locks ops st c of
                 (c, status) \<Rightarrow>
                   if status < 0 then (c, lost_locks, status)
                   else
                     let lost_locks =
                           (if NFS_DELEGATED_STATE \<notin> st_flags (st_heap c st)
                            then lost_locks + nfs4_count_lost_locks st c else lost_locks);
                         c = nfs42_complete_copies sp st c;
                         c = upd_st st (clear_st NFS_STATE_RECLAIM_NOGRACE) c
                     in (c, lost_locks, status))"

text \<open>
  \<open>nfs4_reclaim_scan\<close> is the walk of the list to the first state that needs a call,
  \<open>nfs4_reclaim_status\<close> the \<open>switch\<close> on the outcome; its last result tells whether the walk ends.
\<close>

fun nfs4_reclaim_scan ::
  "nfs4_state_flag \<Rightarrow> nat list \<Rightarrow> bool \<Rightarrow> nfs4_clnt \<Rightarrow> nfs4_clnt \<times> bool \<times> nat option" where
  "nfs4_reclaim_scan fbit [] found c = (c, found, None)"
| "nfs4_reclaim_scan fbit (st # sts) found c =
     (if fbit \<notin> st_flags (st_heap c st) then nfs4_reclaim_scan fbit sts found c
      else
        let c = upd_st st (clear_st fbit) c in
        if \<not> nfs4_valid_open_stateid (st_heap c st) then nfs4_reclaim_scan fbit sts found c
        else if st_state (st_heap c st) = {} then nfs4_reclaim_scan fbit sts found c
        else if NFS_SRV_SSC_COPY_STATE \<in> st_flags (st_heap c st)
        then nfs4_reclaim_scan fbit sts True (nfs4_state_mark_recovery_failed st c)
        else (upd_st st (\<lambda>x. x\<lparr>st_count := st_count x + 1\<rparr>) c, found, Some st))"

definition reclaim_needs_nograce :: "int \<Rightarrow> bool" where
  "reclaim_needs_nograce status \<longleftrightarrow>
     status \<in> {- NFS4ERR_ADMIN_REVOKED, - NFS4ERR_STALE_STATEID, - NFS4ERR_OLD_STATEID,
       - NFS4ERR_BAD_STATEID, - NFS4ERR_RECLAIM_BAD, - NFS4ERR_RECLAIM_CONFLICT}"

definition reclaim_stops :: "int \<Rightarrow> bool" where
  "reclaim_stops status \<longleftrightarrow>
     status \<in> {- NFS4ERR_STALE_CLIENTID, - NFS4ERR_BADSESSION, - NFS4ERR_BADSLOT,
       - NFS4ERR_BAD_HIGH_SLOT, - NFS4ERR_CONN_NOT_BOUND_TO_SESSION, - ETIMEDOUT}"

definition nfs4_reclaim_status ::
  "nfs4_state_flag \<Rightarrow> nat \<Rightarrow> int \<Rightarrow> u32 \<Rightarrow> nfs4_clnt \<Rightarrow> nfs4_clnt \<times> u32 \<times> bool" where
  "nfs4_reclaim_status fbit st status loop c =
     (if 0 \<le> status then (c, 0, False)
      else if status = - EAGAIN then
        (if loop < 10 then (upd_st st (set_st fbit) c, loop + 1, False)
         else (fst (nfs4_state_mark_reclaim_nograce st c), loop + 1, False))
      else if reclaim_needs_nograce status
      then (fst (nfs4_state_mark_reclaim_nograce st c), loop, False)
      else if status = - NFS4ERR_EXPIRED \<or> status = - NFS4ERR_NO_GRACE
      then (fst (nfs4_state_mark_reclaim_nograce st c), loop, True)
      else if reclaim_stops status then (c, loop, True)
      else (nfs4_state_mark_recovery_failed st c, loop, False))"

partial_function (option) nfs4_reclaim_open_state_loop ::
  "state_env \<Rightarrow> recovery_ops \<Rightarrow> nat \<Rightarrow> u32 \<Rightarrow> bool \<Rightarrow> int \<Rightarrow> nfs4_clnt \<Rightarrow> (nfs4_clnt \<times> int \<times> int) option" where
  "nfs4_reclaim_open_state_loop e ops sp loop found lost_locks c =
     (case nfs4_reclaim_scan (state_flag_bit ops) (so_states (so_heap c sp)) found c of
        (c, found, None) \<Rightarrow> Some (c, lost_locks, if found then - EIO else 0)
      | (c, found, Some st) \<Rightarrow>
          (case nfs4_reclaim_open_state1 ops sp st lost_locks c of
             (c, lost_locks, status) \<Rightarrow>
               (case nfs4_reclaim_status (state_flag_bit ops) st status loop c of
                  (c, loop, stop) \<Rightarrow>
                    (case nfs4_put_open_state e st c of
                       None \<Rightarrow> None
                     | Some c \<Rightarrow>
                         if stop then Some (c, lost_locks, status)
                         else nfs4_reclaim_open_state_loop e ops sp loop found lost_locks c))))"

definition nfs4_reclaim_open_state ::
  "state_env \<Rightarrow> recovery_ops \<Rightarrow> nat \<Rightarrow> int \<Rightarrow> nfs4_clnt \<Rightarrow> (nfs4_clnt \<times> int \<times> int) option" where
  "nfs4_reclaim_open_state e ops sp lost_locks c =
     nfs4_reclaim_open_state_loop e ops sp 0 False lost_locks c"

section \<open>Marking all state for recovery\<close>

definition nfs4_clear_open_lock :: "nat \<Rightarrow> nfs4_clnt \<Rightarrow> nfs4_clnt" where
  "nfs4_clear_open_lock l c =
     upd_lk l (\<lambda>x. x\<lparr>ls_seqid := (ls_seqid x)\<lparr>seqid_confirmed := False\<rparr>,
                     ls_flags := ls_flags x - {NFS_LOCK_INITIALIZED}\<rparr>) c"

definition nfs4_clear_open_state :: "nat \<Rightarrow> nfs4_clnt \<Rightarrow> nfs4_clnt" where
  "nfs4_clear_open_state st c =
     (let c = upd_st st (\<lambda>x. x\<lparr>st_flags := st_flags x -
                {NFS_DELEGATED_STATE, NFS_O_RDONLY_STATE, NFS_O_WRONLY_STATE, NFS_O_RDWR_STATE}\<rparr>) c
      in fold nfs4_clear_open_lock (lock_states (st_heap c st)) c)"

definition nfs4_reset_state ::
  "(nat \<Rightarrow> nfs4_clnt \<Rightarrow> nfs4_clnt \<times> bool) \<Rightarrow> nat \<Rightarrow> nfs4_clnt \<Rightarrow> nfs4_clnt" where
  "nfs4_reset_state mark_reclaim st c =
     (case mark_reclaim st c of (c, marked) \<Rightarrow> if marked then nfs4_clear_open_state st c else c)"

definition nfs4_reset_owner ::
  "(nat \<Rightarrow> nfs4_clnt \<Rightarrow> nfs4_clnt \<times> bool) \<Rightarrow> nat \<Rightarrow> nfs4_clnt \<Rightarrow> nfs4_clnt" where
  "nfs4_reset_owner mark_reclaim sp c =
     (let c = upd_so sp (\<lambda>x. x\<lparr>so_seqid := (so_seqid x)\<lparr>seqid_confirmed := False\<rparr>\<rparr>) c
      in fold (nfs4_reset_state mark_reclaim) (so_states (so_heap c sp)) c)"

definition nfs4_reset_seqids ::
  "(nat \<Rightarrow> nfs4_clnt \<Rightarrow> nfs4_clnt \<times> bool) \<Rightarrow> nat \<Rightarrow> nfs4_clnt \<Rightarrow> nfs4_clnt" where
  "nfs4_reset_seqids mark_reclaim s c =
     fold (nfs4_reset_owner mark_reclaim) (inorder (sv_owners (sv_heap c s))) c"

definition nfs4_state_mark_reclaim_helper ::
  "(nat \<Rightarrow> nfs4_clnt \<Rightarrow> nfs4_clnt \<times> bool) \<Rightarrow> nfs4_clnt \<Rightarrow> nfs4_clnt" where
  "nfs4_state_mark_reclaim_helper mark_reclaim c =
     fold (nfs4_reset_seqids mark_reclaim) (cl_superblocks c) c"

definition nfs4_state_start_reclaim_reboot :: "nfs4_clnt \<Rightarrow> nfs4_clnt" where
  "nfs4_state_start_reclaim_reboot c =
     nfs4_state_mark_reclaim_helper nfs4_state_mark_reclaim_reboot
       (nfs_delegation_mark_reclaim (set_cl NFS4CLNT_RECLAIM_REBOOT c))"

definition nfs4_state_start_reclaim_nograce :: "nfs4_clnt \<Rightarrow> nfs4_clnt" where
  "nfs4_state_start_reclaim_nograce c =
     nfs4_state_mark_reclaim_helper nfs4_state_mark_reclaim_nograce
       (nfs_mark_test_expired_all_delegations c)"

section \<open>Draining the slot tables\<close>

definition nfs4_end_drain_slot_table :: "mgr_env \<Rightarrow> nfs4_slot_table \<Rightarrow> nfs4_slot_table" where
  "nfs4_end_drain_slot_table e tbl =
     (if slot_tbl_draining tbl
      then nfs41_wake_slot_table (me_slot e) (tbl\<lparr>slot_tbl_draining := False\<rparr>) else tbl)"

definition nfs4_end_drain_session :: "mgr_env \<Rightarrow> nfs4_clnt \<Rightarrow> nfs4_clnt" where
  "nfs4_end_drain_session e c =
     (case cl_slot_tbl c of
        Some tbl \<Rightarrow> c\<lparr>cl_slot_tbl := Some (nfs4_end_drain_slot_table e tbl)\<rparr>
      | None \<Rightarrow>
          if cl_has_session c
          then let ses = cl_session c;
                   ses = ses\<lparr>bc_slot_table := nfs4_end_drain_slot_table e (bc_slot_table ses)\<rparr>;
                   ses = ses\<lparr>fc_slot_table := nfs4_end_drain_slot_table e (fc_slot_table ses)\<rparr>
               in c\<lparr>cl_session := ses\<rparr>
          else c)"

text \<open>
  What another thread does with the table. A released slot is handed on to the first waiting task
  that may have it, or else it is free (\<open>nfs41_release_slot\<close>). A request takes a slot unless the table
  is draining and the request is not privileged (\<open>mynfs4_setup_sequence\<close>).

  \<open>wait_for_completion_interruptible\<close> returns when the completion has been signalled, or else with
  \<open>ERESTARTSYS\<close> for a signal. It may return some time after the signal.
\<close>

definition slot_step_run :: "slot_env \<Rightarrow> slot_step \<Rightarrow> nfs4_slot_table \<Rightarrow> nfs4_slot_table" where
  "slot_step_run e step tbl =
     (case step of
        Release_slot n \<Rightarrow>
          if n \<in> used_slots tbl
          then case nfs41_wake_and_assign_slot e tbl n of
                 (tbl, given) \<Rightarrow> if given then tbl else nfs4_free_slot tbl n
          else tbl
      | Request_slot priv \<Rightarrow>
          if nfs4_slot_tbl_draining tbl \<and> \<not> priv then tbl else fst (nfs4_alloc_slot e tbl))"

definition wait_for_drain :: "mgr_env \<Rightarrow> nfs4_slot_table \<Rightarrow> nfs4_slot_table \<times> int" where
  "wait_for_drain e tbl =
     (let tbl = fold (slot_step_run (me_slot e)) (me_others e tbl) tbl in
      if complete_done tbl > 0 then (tbl\<lparr>complete_done := complete_done tbl - 1\<rparr>, 0)
      else (tbl, - ERESTARTSYS))"

definition nfs4_drain_slot_tbl :: "mgr_env \<Rightarrow> nfs4_slot_table \<Rightarrow> nfs4_slot_table \<times> int" where
  "nfs4_drain_slot_tbl e tbl =
     (let tbl = tbl\<lparr>slot_tbl_draining := True\<rparr> in
      if highest_used_slotid tbl \<noteq> NFS4_NO_SLOT then wait_for_drain e (tbl\<lparr>complete_done := 0\<rparr>)
      else (tbl, 0))"

definition nfs4_begin_drain_session :: "mgr_env \<Rightarrow> nfs4_clnt \<Rightarrow> nfs4_clnt \<times> int" where
  "nfs4_begin_drain_session e c =
     (case cl_slot_tbl c of
        Some tbl \<Rightarrow>
          (case nfs4_drain_slot_tbl e tbl of (tbl, ret) \<Rightarrow> (c\<lparr>cl_slot_tbl := Some tbl\<rparr>, ret))
      | None \<Rightarrow>
          (case nfs4_drain_slot_tbl e (bc_slot_table (cl_session c)) of
             (bc, ret) \<Rightarrow>
               let c = c\<lparr>cl_session := (cl_session c)\<lparr>bc_slot_table := bc\<rparr>\<rparr> in
               if ret \<noteq> 0 then (c, ret)
               else case nfs4_drain_slot_tbl e (fc_slot_table (cl_session c)) of
                      (fc, ret) \<Rightarrow> (c\<lparr>cl_session := (cl_session c)\<lparr>fc_slot_table := fc\<rparr>\<rparr>, ret)))"

section \<open>Ending the reclaim after a reboot\<close>

definition nfs4_get_machine_cred :: "nfs4_clnt \<Rightarrow> nat option" where
  "nfs4_get_machine_cred c = cl_machine_cred c"

definition nfs4_get_clid_cred :: "nfs4_clnt \<Rightarrow> nat option" where
  "nfs4_get_clid_cred c = nfs4_get_machine_cred c"

definition nfs4_reclaim_complete ::
  "recovery_ops \<Rightarrow> nat option \<Rightarrow> nfs4_clnt \<Rightarrow> nfs4_clnt \<times> int" where
  "nfs4_reclaim_complete ops cred c =
     (case ops_reclaim_complete ops of None \<Rightarrow> (c, 0) | Some f \<Rightarrow> f cred c)"

definition nfs4_clear_reclaim_state :: "nat \<Rightarrow> nfs4_clnt \<Rightarrow> nfs4_clnt" where
  "nfs4_clear_reclaim_state st c =
     (if NFS_STATE_RECLAIM_REBOOT \<notin> st_flags (st_heap c st) then c
      else fst (nfs4_state_mark_reclaim_nograce st (upd_st st (clear_st NFS_STATE_RECLAIM_REBOOT) c)))"

definition nfs4_clear_reclaim_owner :: "nat \<Rightarrow> nfs4_clnt \<Rightarrow> nfs4_clnt" where
  "nfs4_clear_reclaim_owner sp c = fold nfs4_clear_reclaim_state (so_states (so_heap c sp)) c"

definition nfs4_clear_reclaim_server :: "nat \<Rightarrow> nfs4_clnt \<Rightarrow> nfs4_clnt" where
  "nfs4_clear_reclaim_server s c =
     fold nfs4_clear_reclaim_owner (inorder (sv_owners (sv_heap c s))) c"

definition nfs4_state_clear_reclaim_reboot :: "deleg_env \<Rightarrow> nfs4_clnt \<Rightarrow> (nfs4_clnt \<times> bool) option" where
  "nfs4_state_clear_reclaim_reboot e c =
     (if NFS4CLNT_RECLAIM_REBOOT \<notin> cl_state c then Some (c, False)
      else do {
        let c = clear_cl NFS4CLNT_RECLAIM_REBOOT c;
        let c = fold nfs4_clear_reclaim_server (cl_superblocks c) c;
        (c, _) \<leftarrow> nfs_delegation_reap_unclaimed e c;
        Some (c, True)
      })"

definition nfs4_state_end_reclaim_reboot ::
  "mgr_env \<Rightarrow> recovery_ops \<Rightarrow> nfs4_clnt \<Rightarrow> nfs4_clnt option" where
  "nfs4_state_end_reclaim_reboot e reboot_ops c = do {
     (c, cleared) \<leftarrow> nfs4_state_clear_reclaim_reboot (me_deleg e) c;
     if \<not> cleared then Some c
     else
       let c = me_destroy_all_layouts e c in
       case nfs4_reclaim_complete reboot_ops (nfs4_get_clid_cred c) c of
         (c, err) \<Rightarrow>
           Some (if err = - NFS4ERR_CONN_NOT_BOUND_TO_SESSION
                 then set_cl NFS4CLNT_RECLAIM_REBOOT c else c)
   }"

definition nfs40_handle_cb_pathdown :: "int \<Rightarrow> nfs4_clnt \<Rightarrow> nfs4_clnt" where
  "nfs40_handle_cb_pathdown k c = nfs_expire_all_delegations k (set_cl NFS4CLNT_LEASE_EXPIRED c)"

definition nfs4_schedule_path_down_recovery :: "int \<Rightarrow> nfs4_clnt \<Rightarrow> nfs4_clnt" where
  "nfs4_schedule_path_down_recovery k c = nfs4_schedule_state_manager k (nfs40_handle_cb_pathdown k c)"

definition recovery_session_error :: "int \<Rightarrow> bool" where
  "recovery_session_error err \<longleftrightarrow>
     err \<in> {- NFS4ERR_BADSESSION, - NFS4ERR_BADSLOT, - NFS4ERR_BAD_HIGH_SLOT, - NFS4ERR_DEADSESSION,
       - NFS4ERR_SEQ_FALSE_RETRY, - NFS4ERR_SEQ_MISORDERED}"

definition nfs4_recovery_handle_error ::
  "mgr_env \<Rightarrow> recovery_ops \<Rightarrow> int \<Rightarrow> nfs4_clnt \<Rightarrow> (nfs4_clnt \<times> int) option" where
  "nfs4_recovery_handle_error e reboot_ops error c =
     (if error = 0 then Some (c, 0)
      else if error = - NFS4ERR_CB_PATH_DOWN then Some (nfs40_handle_cb_pathdown (me_kthread e) c, 0)
      else if error = - NFS4ERR_NO_GRACE
      then map_option (\<lambda>c. (c, 0)) (nfs4_state_end_reclaim_reboot e reboot_ops c)
      else if error = - NFS4ERR_STALE_CLIENTID
      then Some (nfs4_state_start_reclaim_reboot (set_cl NFS4CLNT_LEASE_EXPIRED c), 0)
      else if error = - NFS4ERR_EXPIRED
      then Some (nfs4_state_start_reclaim_nograce (set_cl NFS4CLNT_LEASE_EXPIRED c), 0)
      else if recovery_session_error error then Some (set_cl NFS4CLNT_SESSION_RESET c, 0)
      else if error = - NFS4ERR_CONN_NOT_BOUND_TO_SESSION
      then Some (set_cl NFS4CLNT_BIND_CONN_TO_SESSION c, 0)
      else Some (c, error))"

section \<open>All open owners of a client\<close>

definition clear_owner_bit :: "nfs_owner_flag \<Rightarrow> nat \<Rightarrow> nfs4_clnt \<Rightarrow> nfs4_clnt" where
  "clear_owner_bit fbit sp c = upd_so sp (\<lambda>x. x\<lparr>so_flags := so_flags x - {fbit}\<rparr>) c"

definition set_owner_bit :: "nfs_owner_flag \<Rightarrow> nat \<Rightarrow> nfs4_clnt \<Rightarrow> nfs4_clnt" where
  "set_owner_bit fbit sp c = upd_so sp (\<lambda>x. x\<lparr>so_flags := insert fbit (so_flags x)\<rparr>) c"

fun nfs4_reclaim_next_owner ::
  "nfs_owner_flag \<Rightarrow> nat list \<Rightarrow> nfs4_clnt \<Rightarrow> nfs4_clnt \<times> nat option" where
  "nfs4_reclaim_next_owner fbit [] c = (c, None)"
| "nfs4_reclaim_next_owner fbit (sp # sps) c =
     (if fbit \<notin> so_flags (so_heap c sp) then nfs4_reclaim_next_owner fbit sps c
      else
        let c = clear_owner_bit fbit sp c in
        if so_count (so_heap c sp) = 0 then nfs4_reclaim_next_owner fbit sps c
        else (upd_so sp (\<lambda>x. x\<lparr>so_count := so_count x + 1\<rparr>) c, Some sp))"

fun nfs4_reclaim_next ::
  "state_env \<Rightarrow> nfs_owner_flag \<Rightarrow> nat list \<Rightarrow> nat list \<Rightarrow> nfs4_clnt \<Rightarrow>
   nfs4_clnt \<times> nat list \<times> nat option" where
  "nfs4_reclaim_next e fbit [] freeme c = (c, freeme, None)"
| "nfs4_reclaim_next e fbit (s # ss) freeme c =
     (case nfs4_purge_state_owners e s freeme c of
        (c, freeme) \<Rightarrow>
          (case nfs4_reclaim_next_owner fbit (inorder (sv_owners (sv_heap c s))) c of
             (c, Some sp) \<Rightarrow> (c, freeme, Some sp)
           | (c, None) \<Rightarrow> nfs4_reclaim_next e fbit ss freeme c))"

text \<open>The walk up to the first owner whose recovery fails, or to the end (status 0).\<close>

partial_function (option) nfs4_do_reclaim_loop ::
  "state_env \<Rightarrow> recovery_ops \<Rightarrow> nat list \<Rightarrow> int \<Rightarrow> nfs4_clnt \<Rightarrow> (nfs4_clnt \<times> nat list \<times> int) option" where
  "nfs4_do_reclaim_loop e ops freeme lost_locks c =
     (case nfs4_reclaim_next e (owner_flag_bit ops) (cl_superblocks c) freeme c of
        (c, freeme, None) \<Rightarrow> Some (c, freeme, 0)
      | (c, freeme, Some sp) \<Rightarrow>
          (case nfs4_reclaim_open_state e ops sp lost_locks c of
             None \<Rightarrow> None
           | Some (c, lost_locks, status) \<Rightarrow>
               if status < 0
               then Some (nfs4_put_state_owner e sp (set_owner_bit (owner_flag_bit ops) sp c),
                          freeme, status)
               else nfs4_do_reclaim_loop e ops freeme lost_locks (nfs4_put_state_owner e sp c)))"

definition nfs4_do_reclaim ::
  "mgr_env \<Rightarrow> recovery_ops \<Rightarrow> recovery_ops \<Rightarrow> nfs4_clnt \<Rightarrow> (nfs4_clnt \<times> int) option" where
  "nfs4_do_reclaim e reboot_ops ops c =
     (case nfs4_begin_drain_session e c of
        (c, status) \<Rightarrow>
          if status < 0 then Some (c, status)
          else do {
            (c, freeme, status) \<leftarrow> nfs4_do_reclaim_loop (me_state e) ops [] 0 c;
            if status = 0 then Some (nfs4_free_state_owners freeme c, 0)
            else do {
              (c, status) \<leftarrow> nfs4_recovery_handle_error e reboot_ops status c;
              Some (nfs4_free_state_owners freeme c, if status \<noteq> 0 then status else - EAGAIN)
            }
          })"

section \<open>What a recovery step leaves alone\<close>

text \<open>
  \<open>reclaim_frame c c'\<close>: from \<open>c\<close> to \<open>c'\<close> no owner and no open state comes or goes, no reference is
  taken or dropped, no state is newly marked for reclaim after a reboot, and the marks of the
  owners stay.
\<close>

definition reclaim_frame :: "nfs4_clnt \<Rightarrow> nfs4_clnt \<Rightarrow> bool" where
  "reclaim_frame c c' \<longleftrightarrow>
     cl_superblocks c' = cl_superblocks c \<and>
     (\<forall>s. sv_owners (sv_heap c' s) = sv_owners (sv_heap c s)) \<and>
     (\<forall>sp. so_states (so_heap c' sp) = so_states (so_heap c sp) \<and>
           so_count (so_heap c' sp) = so_count (so_heap c sp) \<and>
           (NFS_OWNER_RECLAIM_REBOOT \<in> so_flags (so_heap c' sp) \<longleftrightarrow>
            NFS_OWNER_RECLAIM_REBOOT \<in> so_flags (so_heap c sp))) \<and>
     (\<forall>st. st_count (st_heap c' st) = st_count (st_heap c st) \<and>
           (NFS_STATE_RECLAIM_REBOOT \<in> st_flags (st_heap c' st) \<longrightarrow>
            NFS_STATE_RECLAIM_REBOOT \<in> st_flags (st_heap c st)))"

definition recovery_quiet :: "recovery_ops \<Rightarrow> bool" where
  "recovery_quiet ops \<longleftrightarrow>
     (\<forall>sp st c. reclaim_frame c (fst (recover_open ops sp st c))) \<and>
     (\<forall>st l c. reclaim_frame c (fst (recover_lock ops st l c)))"

lemma reclaim_frame_refl [simp, intro]: "reclaim_frame c c"
  by (simp add: reclaim_frame_def)

lemma reclaim_frame_trans [trans]:
  "reclaim_frame a b \<Longrightarrow> reclaim_frame b c \<Longrightarrow> reclaim_frame a c"
  by (simp add: reclaim_frame_def)

lemma upd_cp_simps [simp]:
  "cl_superblocks (upd_cp i f c) = cl_superblocks c" "sv_heap (upd_cp i f c) = sv_heap c"
  "so_heap (upd_cp i f c) = so_heap c" "st_heap (upd_cp i f c) = st_heap c"
  "cp_heap (upd_cp i f c) = (cp_heap c)(i := f (cp_heap c i))"
  by (simp_all add: upd_cp_def)

lemma mark_open_context_bad_simps [simp]:
  "cl_superblocks (nfs4_state_mark_open_context_bad i c) = cl_superblocks c"
  "sv_heap (nfs4_state_mark_open_context_bad i c) = sv_heap c"
  "so_heap (nfs4_state_mark_open_context_bad i c) = so_heap c"
  "st_heap (nfs4_state_mark_open_context_bad i c) = st_heap c"
  unfolding nfs4_state_mark_open_context_bad_def by (rule fold_keeps, simp)+

lemma mark_recovery_failed_simps [simp]:
  "cl_superblocks (nfs4_state_mark_recovery_failed i c) = cl_superblocks c"
  "sv_heap (nfs4_state_mark_recovery_failed i c) = sv_heap c"
  "so_heap (nfs4_state_mark_recovery_failed i c) = so_heap c"
  "st_heap (nfs4_state_mark_recovery_failed i c) =
     (st_heap c)(i := set_st NFS_STATE_RECOVERY_FAILED (st_heap c i))"
  by (simp_all add: nfs4_state_mark_recovery_failed_def)

lemma st_bit_simps [simp]:
  "st_flags (set_st f st) = insert f (st_flags st)" "st_flags (clear_st f st) = st_flags st - {f}"
  "st_count (set_st f st) = st_count st" "st_count (clear_st f st) = st_count st"
  "st_state (set_st f st) = st_state st" "st_state (clear_st f st) = st_state st"
  "st_owner (set_st f st) = st_owner st" "st_owner (clear_st f st) = st_owner st"
  "st_stateid (set_st f st) = st_stateid st" "st_stateid (clear_st f st) = st_stateid st"
  "lock_states (set_st f st) = lock_states st" "lock_states (clear_st f st) = lock_states st"
  by (simp_all add: set_st_def clear_st_def)

lemma frame_upd_st:
  assumes "\<And>x. st_count (f x) = st_count x"
    and "\<And>x. NFS_STATE_RECLAIM_REBOOT \<in> st_flags (f x) \<Longrightarrow> NFS_STATE_RECLAIM_REBOOT \<in> st_flags x"
  shows "reclaim_frame c (upd_st i f c)"
  using assms by (auto simp: reclaim_frame_def)

lemma frame_mark_recovery_failed: "reclaim_frame c (nfs4_state_mark_recovery_failed i c)"
  by (simp add: reclaim_frame_def)

lemma frame_mark_nograce: "reclaim_frame c (fst (nfs4_state_mark_reclaim_nograce i c))"
  by (auto simp: nfs4_state_mark_reclaim_nograce_def Let_def reclaim_frame_def)

lemma fold_frame: "(\<And>x c. x \<in> set xs \<Longrightarrow> reclaim_frame c (f x c)) \<Longrightarrow> reclaim_frame c (fold f xs c)"
  by (rule fold_preorder [where R = reclaim_frame], rule reclaim_frame_refl, erule (1) reclaim_frame_trans)

lemma frame_complete_dst: "reclaim_frame c (nfs42_complete_dst_copy st cp c)"
  by (auto simp: nfs42_complete_dst_copy_def Let_def reclaim_frame_def)

lemma frame_complete_src: "reclaim_frame c (nfs42_complete_src_copy st cp c)"
  by (auto simp: nfs42_complete_src_copy_def Let_def reclaim_frame_def)

lemma frame_complete_copies: "reclaim_frame c (nfs42_complete_copies sp st c)"
  unfolding nfs42_complete_copies_def Let_def
  by (auto intro!: reclaim_frame_trans [OF fold_frame fold_frame] frame_complete_dst frame_complete_src)

lemma frame_lock_list:
  assumes rl: "\<And>st l c. reclaim_frame c (fst (rl st l c))"
  shows "reclaim_frame c (fst (nfs4_reclaim_lock_list rl st fls (c, status)))"
proof (induction fls arbitrary: c status)
  case (Cons fl fls)
  obtain c1 status1 where r: "rl st (fl_id fl) c = (c1, status1)" by fastforce
  have c1: "reclaim_frame c c1" using rl [of c st "fl_id fl"] r by simp
  define c2 where "c2 = (case fl_owner fl of None \<Rightarrow> c1
    | Some lsp \<Rightarrow> upd_lk lsp (\<lambda>l. l\<lparr>ls_flags := insert NFS_LOCK_LOST (ls_flags l)\<rparr>) c1)"
  have "reclaim_frame c1 c2" by (auto simp: c2_def reclaim_frame_def split: option.split)
  note c2 = reclaim_frame_trans [OF c1 this]
  show ?case
    using c1 Cons.IH [of c status] reclaim_frame_trans [OF c1 Cons.IH [of c1 0]]
      reclaim_frame_trans [OF c2 Cons.IH [of c2 0]]
    by (simp add: r flip: c2_def)
qed simp

lemma frame_reclaim_locks:
  assumes "recovery_quiet ops"
  shows "reclaim_frame c (fst (nfs4_reclaim_locks ops st c))"
proof -
  have l: "reclaim_frame c (fst (nfs4_reclaim_lock_list (recover_lock ops) st fls (c, 0)))" for fls c
    using assms by (intro frame_lock_list) (simp add: recovery_quiet_def)
  show ?thesis
  proof (cases "i_flc (ino_heap c (st_inode (st_heap c st)))")
    case (Some a)
    obtain posix flock where a: "a = (posix, flock)" by fastforce
    obtain c1 s1 where p: "nfs4_reclaim_lock_list (recover_lock ops) st posix (c, 0) = (c1, s1)"
      by fastforce
    have "reclaim_frame c c1" using l [of c posix] p by simp
    moreover have "reclaim_frame c1 (fst (nfs4_reclaim_lock_list (recover_lock ops) st flock (c1, 0)))"
      by (rule l)
    ultimately show ?thesis using Some a p
      by (auto simp: nfs4_reclaim_locks_def intro: reclaim_frame_trans)
  qed (simp add: nfs4_reclaim_locks_def)
qed

lemma frame_reclaim1:
  assumes "recovery_quiet ops"
  shows "reclaim_frame c (fst (nfs4_reclaim_open_state1 ops sp st lost c))"
proof -
  obtain c1 s1 where o: "recover_open ops sp st c = (c1, s1)" by fastforce
  obtain c2 s2 where l: "nfs4_reclaim_locks ops st c1 = (c2, s2)" by fastforce
  have c1: "reclaim_frame c c1"
    using assms o by (metis fst_conv recovery_quiet_def)
  also have c2: "reclaim_frame c1 c2"
    using frame_reclaim_locks [OF assms, of c1 st] l by simp
  finally have c2: "reclaim_frame c c2" .
  also have "reclaim_frame c2 (nfs42_complete_copies sp st c2)" by (rule frame_complete_copies)
  also have "reclaim_frame (nfs42_complete_copies sp st c2)
    (upd_st st (clear_st NFS_STATE_RECLAIM_NOGRACE) (nfs42_complete_copies sp st c2))"
    by (rule frame_upd_st) auto
  finally show ?thesis using c1 c2
    by (simp add: nfs4_reclaim_open_state1_def o l Let_def)
qed

section \<open>Reclaiming one owner after a reboot\<close>

definition reboot_states :: "nfs4_clnt \<Rightarrow> nat \<Rightarrow> nat set" where
  "reboot_states c sp =
     {st \<in> set (so_states (so_heap c sp)). NFS_STATE_RECLAIM_REBOOT \<in> st_flags (st_heap c st)}"

lemma reboot_states_mono: "reclaim_frame c c' \<Longrightarrow> reboot_states c' sp \<subseteq> reboot_states c sp"
  by (auto simp: reboot_states_def reclaim_frame_def)

definition scan_post :: "nat list \<Rightarrow> nfs4_clnt \<Rightarrow> nfs4_clnt \<Rightarrow> nat option \<Rightarrow> bool" where
  "scan_post sts c c1 r \<longleftrightarrow>
     (case r of
        None \<Rightarrow> reclaim_frame c c1 \<and>
          (\<forall>st \<in> set sts. NFS_STATE_RECLAIM_REBOOT \<notin> st_flags (st_heap c1 st))
      | Some st \<Rightarrow> st \<in> set sts \<and> NFS_STATE_RECLAIM_REBOOT \<in> st_flags (st_heap c st) \<and>
          (\<exists>c0. c1 = upd_st st (\<lambda>x. x\<lparr>st_count := st_count x + 1\<rparr>) c0 \<and> reclaim_frame c c0 \<and>
                NFS_STATE_RECLAIM_REBOOT \<notin> st_flags (st_heap c0 st)))"

lemma scan_post_Cons:
  assumes fr: "reclaim_frame c c'" and n: "NFS_STATE_RECLAIM_REBOOT \<notin> st_flags (st_heap c' st)"
    and post: "scan_post sts c' c1 r"
  shows "scan_post (st # sts) c c1 r"
proof (cases r)
  case None
  then have "reclaim_frame c' c1" using post by (simp add: scan_post_def)
  then show ?thesis using None post fr n by (auto simp: scan_post_def reclaim_frame_def)
next
  case (Some x)
  then have x: "x \<in> set sts" "NFS_STATE_RECLAIM_REBOOT \<in> st_flags (st_heap c' x)"
    using post by (auto simp: scan_post_def)
  obtain c0 where c0: "c1 = upd_st x (\<lambda>x. x\<lparr>st_count := st_count x + 1\<rparr>) c0"
      "reclaim_frame c' c0" "NFS_STATE_RECLAIM_REBOOT \<notin> st_flags (st_heap c0 x)"
    using post Some by (auto simp: scan_post_def)
  have "reclaim_frame c c0" using fr c0(2) reclaim_frame_trans by blast
  moreover have "NFS_STATE_RECLAIM_REBOOT \<in> st_flags (st_heap c x)"
    using x fr by (auto simp: reclaim_frame_def)
  ultimately show ?thesis using Some x c0 by (auto simp: scan_post_def)
qed

lemma scan_reboot:
  assumes "nfs4_reclaim_scan NFS_STATE_RECLAIM_REBOOT sts found c = (c1, found1, r)"
  shows "scan_post sts c c1 r"
  using assms
proof (induction sts arbitrary: found c)
  case (Cons st sts)
  let ?bit = NFS_STATE_RECLAIM_REBOOT
  let ?c = "upd_st st (clear_st ?bit) c"
  let ?f = "nfs4_state_mark_recovery_failed st ?c"
  have f1: "reclaim_frame c ?c" by (rule frame_upd_st) auto
  have f: "reclaim_frame c ?c" "reclaim_frame c ?f"
    using f1 reclaim_frame_trans [OF f1 frame_mark_recovery_failed] by simp_all
  have n: "?bit \<notin> st_flags (st_heap ?c st)" "?bit \<notin> st_flags (st_heap ?f st)" by simp_all
  consider (off) "?bit \<notin> st_flags (st_heap c st)" "nfs4_reclaim_scan ?bit sts found c = (c1, found1, r)"
    | (skip) "nfs4_reclaim_scan ?bit sts found ?c = (c1, found1, r)"
    | (ssc) "nfs4_reclaim_scan ?bit sts True ?f = (c1, found1, r)"
    | (pick) "?bit \<in> st_flags (st_heap c st)" "r = Some st"
        "c1 = upd_st st (\<lambda>x. x\<lparr>st_count := st_count x + 1\<rparr>) ?c"
    using Cons.prems by (simp add: Let_def split: if_splits)
  then show ?case
  proof cases
    case off
    show ?thesis by (rule scan_post_Cons [OF reclaim_frame_refl off(1) Cons.IH [OF off(2)]])
  next
    case skip
    show ?thesis by (rule scan_post_Cons [OF f(1) n(1) Cons.IH [OF skip]])
  next
    case ssc
    show ?thesis by (rule scan_post_Cons [OF f(2) n(2) Cons.IH [OF ssc]])
  next
    case pick
    then show ?thesis using f(1) by (auto simp: scan_post_def)
  qed
qed (simp add: scan_post_def)

text \<open>One round of the walk: the state that was picked, from the pick to dropping its reference.\<close>

lemma frame_count_round:
  assumes "reclaim_frame c c0"
    and "reclaim_frame (upd_st st (\<lambda>x. x\<lparr>st_count := st_count x + 1\<rparr>) c0) c3"
  shows "reclaim_frame c (upd_st st (\<lambda>x. x\<lparr>st_count := st_count x - 1\<rparr>) c3)"
  using assms by (auto simp: reclaim_frame_def split: if_splits)

lemma frame_set_reboot:
  assumes "reclaim_frame c c'" "NFS_STATE_RECLAIM_REBOOT \<in> st_flags (st_heap c st)"
  shows "reclaim_frame c (upd_st st (set_st NFS_STATE_RECLAIM_REBOOT) c')"
  using assms by (simp add: reclaim_frame_def)

lemma put_open_state_held:
  assumes "st_count (st_heap c st) > 1"
  shows "nfs4_put_open_state e st c = Some (upd_st st (\<lambda>x. x\<lparr>st_count := st_count x - 1\<rparr>) c)"
  using assms by (simp add: nfs4_put_open_state_def Let_def)

lemma status_reboot:
  assumes "nfs4_reclaim_status NFS_STATE_RECLAIM_REBOOT st status loop c = (c', loop', stop)"
    and "NFS_STATE_RECLAIM_REBOOT \<notin> st_flags (st_heap c st)"
  shows "reclaim_frame c c' \<and> NFS_STATE_RECLAIM_REBOOT \<notin> st_flags (st_heap c' st) \<or>
         c' = upd_st st (set_st NFS_STATE_RECLAIM_REBOOT) c \<and> loop < 10 \<and> loop' = loop + 1"
proof -
  let ?n = "fst (nfs4_state_mark_reclaim_nograce st c)"
  let ?f = "nfs4_state_mark_recovery_failed st c"
  have "NFS_STATE_RECLAIM_REBOOT \<notin> st_flags (st_heap ?n st)" "NFS_STATE_RECLAIM_REBOOT \<notin> st_flags (st_heap ?f st)"
    using assms(2) frame_mark_nograce [of c st] by (auto simp: reclaim_frame_def)
  with assms show ?thesis
    using frame_mark_nograce [of c st] frame_mark_recovery_failed [of c st]
    by (auto simp: nfs4_reclaim_status_def split: if_splits)
qed

lemma reclaim_round:
  assumes quiet: "recovery_quiet ops"
    and scan: "scan_post sts c c1 (Some st)" and held: "st_count (st_heap c st) \<noteq> 0"
    and one: "nfs4_reclaim_open_state1 ops sp st lost c1 = (c2, lost', status)"
    and stat: "nfs4_reclaim_status NFS_STATE_RECLAIM_REBOOT st status loop c2 = (c3, loop', stop)"
  defines "c4 \<equiv> upd_st st (\<lambda>x. x\<lparr>st_count := st_count x - 1\<rparr>) c3"
  shows "nfs4_put_open_state e st c3 = Some c4 \<and> reclaim_frame c c4 \<and>
    (NFS_STATE_RECLAIM_REBOOT \<notin> st_flags (st_heap c4 st) \<or> loop < 10 \<and> loop' = loop + 1)"
proof -
  let ?bit = NFS_STATE_RECLAIM_REBOOT
  obtain c0 where c1: "c1 = upd_st st (\<lambda>x. x\<lparr>st_count := st_count x + 1\<rparr>) c0"
    and c0: "reclaim_frame c c0" "?bit \<notin> st_flags (st_heap c0 st)" and st: "?bit \<in> st_flags (st_heap c st)"
    using scan by (auto simp: scan_post_def)
  have c2: "reclaim_frame c1 c2" using frame_reclaim1 [OF quiet, of c1 sp st lost] one by simp
  have n2: "?bit \<notin> st_flags (st_heap c2 st)" using c2 c0 by (auto simp: reclaim_frame_def c1)
  have cnt: "st_count (st_heap c3 st) > 1"
    using status_reboot [OF stat n2] c2 c0 held by (auto simp: reclaim_frame_def c1)
  from status_reboot [OF stat n2]
  have "reclaim_frame c c4 \<and> (?bit \<notin> st_flags (st_heap c4 st) \<or> loop < 10 \<and> loop' = loop + 1)"
  proof (elim disjE conjE)
    assume "reclaim_frame c2 c3" and n3: "?bit \<notin> st_flags (st_heap c3 st)"
    then have "reclaim_frame c1 c3" using c2 reclaim_frame_trans by blast
    then show ?thesis using frame_count_round c0(1) c1 n3 by (auto simp: c4_def)
  next
    assume c3: "c3 = upd_st st (set_st ?bit) c2" and l: "loop < 10" "loop' = loop + 1"
    have "reclaim_frame c (upd_st st (\<lambda>x. x\<lparr>st_count := st_count x - 1\<rparr>) c2)"
      using frame_count_round c0(1) c1 c2 by blast
    moreover have "c4 = upd_st st (set_st ?bit) (upd_st st (\<lambda>x. x\<lparr>st_count := st_count x - 1\<rparr>) c2)"
      by (cases "st_heap c2 st") (simp add: c4_def c3 upd_st_def set_st_def)
    ultimately have "reclaim_frame c c4" using frame_set_reboot st by simp
    with l show ?thesis by blast
  qed
  then show ?thesis using put_open_state_held [OF cnt] by (simp add: c4_def)
qed

lemma reclaim_measure:
  assumes "A \<subseteq> B" "finite B" "st \<in> B" and "st \<notin> A \<or> loop < (10 :: u32) \<and> loop' = loop + 1"
  shows "11 * card A + (10 - unat loop') < 11 * card B + (10 - unat loop)"
  using assms(4)
proof
  assume "st \<notin> A"
  then have "A \<subset> B" using assms by blast
  then have "card A < card B" using assms(2) by (rule psubset_card_mono [rotated])
  then show ?thesis by linarith
next
  assume l: "loop < 10 \<and> loop' = loop + 1"
  then have "unat loop < 10" by (simp add: word_less_nat_alt)
  moreover have "unat loop' = Suc (unat loop)" using l by (simp add: unat_word_ariths word_less_nat_alt)
  moreover have "card A \<le> card B" using assms by (simp add: card_mono)
  ultimately show ?thesis by linarith
qed

lemma reclaim_open_state_loop_returns:
  assumes quiet: "recovery_quiet ops" and fl: "state_flag_bit ops = NFS_STATE_RECLAIM_REBOOT"
    and held: "\<forall>st \<in> set (so_states (so_heap c sp)). st_count (st_heap c st) \<noteq> 0"
  shows "\<exists>c' lost' status. nfs4_reclaim_open_state_loop e ops sp loop found lost c = Some (c', lost', status) \<and>
    reclaim_frame c c' \<and> (status \<ge> 0 \<longrightarrow> reboot_states c' sp = {})"
  using held
proof (induction "11 * card (reboot_states c sp) + (10 - unat loop)" arbitrary: c loop found lost rule: less_induct)
  case less
  obtain c1 f1 r where scan: "nfs4_reclaim_scan NFS_STATE_RECLAIM_REBOOT (so_states (so_heap c sp)) found c = (c1, f1, r)"
    by (metis prod_cases3)
  note post = scan_reboot [OF scan]
  show ?case
  proof (cases r)
    case None
    then have "reclaim_frame c c1" "reboot_states c1 sp = {}"
      using post by (auto simp: scan_post_def reboot_states_def reclaim_frame_def)
    then show ?thesis
      by (subst nfs4_reclaim_open_state_loop.simps) (simp add: fl scan None)
  next
    case (Some st)
    obtain c2 lost' status where one: "nfs4_reclaim_open_state1 ops sp st lost c1 = (c2, lost', status)"
      by (metis prod_cases3)
    obtain c3 loop' stop where stat: "nfs4_reclaim_status NFS_STATE_RECLAIM_REBOOT st status loop c2 = (c3, loop', stop)"
      by (metis prod_cases3)
    define c4 where "c4 = upd_st st (\<lambda>x. x\<lparr>st_count := st_count x - 1\<rparr>) c3"
    have st: "st \<in> reboot_states c sp" using post Some by (auto simp: scan_post_def reboot_states_def)
    then have h: "st_count (st_heap c st) \<noteq> 0" using less.prems by (auto simp: reboot_states_def)
    note round = reclaim_round [OF quiet post [unfolded Some] h one stat, of e, folded c4_def]
    then have put: "nfs4_put_open_state e st c3 = Some c4" and fr: "reclaim_frame c c4" by auto
    have sub: "reboot_states c4 sp \<subseteq> reboot_states c sp" using reboot_states_mono fr by blast
    have fin: "finite (reboot_states c sp)" by (simp add: reboot_states_def)
    have lt: "11 * card (reboot_states c4 sp) + (10 - unat loop') < 11 * card (reboot_states c sp) + (10 - unat loop)"
      using round reclaim_measure [OF sub fin st] by (auto simp: reboot_states_def)
    have eq: "nfs4_reclaim_open_state_loop e ops sp loop found lost c =
       (if stop then Some (c4, lost', status) else nfs4_reclaim_open_state_loop e ops sp loop' f1 lost' c4)"
      by (subst nfs4_reclaim_open_state_loop.simps) (simp add: fl scan Some one stat put)
    have neg: "stop \<Longrightarrow> status < 0" using stat by (auto simp: nfs4_reclaim_status_def split: if_splits)
    have held4: "\<forall>st \<in> set (so_states (so_heap c4 sp)). st_count (st_heap c4 st) \<noteq> 0"
      using less.prems fr by (auto simp: reclaim_frame_def)
    show ?thesis
    proof (cases stop)
      case True
      then show ?thesis using eq fr neg by auto
    next
      case False
      obtain c' l' st' where r: "nfs4_reclaim_open_state_loop e ops sp loop' f1 lost' c4 = Some (c', l', st')"
        "reclaim_frame c4 c'" "st' \<ge> 0 \<longrightarrow> reboot_states c' sp = {}"
        using less.hyps [OF lt held4, of f1 lost'] by blast
      show ?thesis using eq False r reclaim_frame_trans [OF fr r(2)] by simp
    qed
  qed
qed

section \<open>Reclaiming all owners after a reboot\<close>

text \<open>
  \<open>reclaim_ready\<close>: a state marked for reclaim belongs to a marked owner, an owner with open states is
  referenced, and so are its states.
\<close>

definition reclaim_ready :: "nfs4_clnt \<Rightarrow> bool" where
  "reclaim_ready c \<longleftrightarrow>
     (\<forall>sp. (NFS_OWNER_RECLAIM_REBOOT \<notin> so_flags (so_heap c sp) \<longrightarrow> reboot_states c sp = {}) \<and>
           (so_count (so_heap c sp) = 0 \<longrightarrow> so_states (so_heap c sp) = []) \<and>
           (\<forall>st \<in> set (so_states (so_heap c sp)). st_count (st_heap c st) \<noteq> 0))"

definition tree_owners :: "nfs4_clnt \<Rightarrow> nat set" where
  "tree_owners c = (\<Union>s \<in> set (cl_superblocks c). set_tree (sv_owners (sv_heap c s)))"

definition reboot_owners :: "nfs4_clnt \<Rightarrow> nat set" where
  "reboot_owners c = {sp \<in> tree_owners c. NFS_OWNER_RECLAIM_REBOOT \<in> so_flags (so_heap c sp)}"

lemma finite_reboot_owners [simp]: "finite (reboot_owners c)"
  by (simp add: reboot_owners_def tree_owners_def)

definition owners_shrink :: "nfs4_clnt \<Rightarrow> nfs4_clnt \<Rightarrow> bool" where
  "owners_shrink c c' \<longleftrightarrow>
     cl_superblocks c' = cl_superblocks c \<and>
     (\<forall>s. set_tree (sv_owners (sv_heap c' s)) \<subseteq> set_tree (sv_owners (sv_heap c s)))"

lemma owners_shrink_refl [simp, intro]: "owners_shrink c c"
  by (simp add: owners_shrink_def)

lemma owners_shrink_trans [trans]: "owners_shrink a b \<Longrightarrow> owners_shrink b c \<Longrightarrow> owners_shrink a c"
  by (fastforce simp: owners_shrink_def)

lemma owners_shrink_tree: "owners_shrink c c' \<Longrightarrow> tree_owners c' \<subseteq> tree_owners c"
  by (fastforce simp: owners_shrink_def tree_owners_def)

lemma frame_shrink: "reclaim_frame c c' \<Longrightarrow> owners_shrink c c'"
  by (simp add: reclaim_frame_def owners_shrink_def)

lemma remove_owner_shrink:
  assumes "rb_ok e"
  shows "owners_shrink c (nfs4_remove_state_owner_locked e sp c) \<and>
    so_heap (nfs4_remove_state_owner_locked e sp c) = so_heap c \<and>
    st_heap (nfs4_remove_state_owner_locked e sp c) = st_heap c"
proof -
  have "set_tree (se_rb_erase e sp t) \<subseteq> set_tree t" for t
    using assms set_remove1_subset [of sp "inorder t"]
    by (simp add: rb_ok_def flip: set_inorder)
  then show ?thesis by (auto simp: owners_shrink_def nfs4_remove_state_owner_locked_def)
qed

lemma fold_remove_shrink:
  assumes "rb_ok e"
  shows "owners_shrink c (fold (nfs4_remove_state_owner_locked e) sps c) \<and>
    so_heap (fold (nfs4_remove_state_owner_locked e) sps c) = so_heap c \<and>
    st_heap (fold (nfs4_remove_state_owner_locked e) sps c) = st_heap c"
proof (induction sps arbitrary: c)
  case (Cons sp sps)
  show ?case
    using Cons.IH [of "nfs4_remove_state_owner_locked e sp c"] remove_owner_shrink [OF assms, of c sp]
      owners_shrink_trans by auto
qed simp

lemma purge_shrink:
  assumes "rb_ok e" "nfs4_purge_state_owners e s head c = (c', head')"
  shows "owners_shrink c c' \<and> so_heap c' = so_heap c \<and> st_heap c' = st_heap c"
proof -
  have "owners_shrink c (upd_sv s (\<lambda>x. x\<lparr>sv_owners_lru := []\<rparr>) c)" by (simp add: owners_shrink_def)
  then show ?thesis
    using assms(2) fold_remove_shrink [OF assms(1)] owners_shrink_trans
    by (fastforce simp: nfs4_purge_state_owners_def Let_def)
qed

lemma frame_ready: "reclaim_frame c c' \<Longrightarrow> reclaim_ready c \<Longrightarrow> reclaim_ready c'"
  using reboot_states_mono [of c c'] by (fastforce simp: reclaim_ready_def reclaim_frame_def)

text \<open>
  The pick of the next owner: \<open>own_step r\<close> is what the walk does up to it, which takes the marks of
  unreferenced owners and of the owner \<open>r\<close> that it picks; the pick also takes a reference.
\<close>

definition own_step :: "nat option \<Rightarrow> nfs4_clnt \<Rightarrow> nfs4_clnt \<Rightarrow> bool" where
  "own_step r c c0 \<longleftrightarrow>
     owners_shrink c c0 \<and> st_heap c0 = st_heap c \<and>
     (\<forall>sp. so_states (so_heap c0 sp) = so_states (so_heap c sp) \<and>
           so_count (so_heap c0 sp) = so_count (so_heap c sp) \<and>
           (NFS_OWNER_RECLAIM_REBOOT \<in> so_flags (so_heap c0 sp) \<longrightarrow>
            NFS_OWNER_RECLAIM_REBOOT \<in> so_flags (so_heap c sp)) \<and>
           (NFS_OWNER_RECLAIM_REBOOT \<in> so_flags (so_heap c sp) \<and>
            NFS_OWNER_RECLAIM_REBOOT \<notin> so_flags (so_heap c0 sp) \<longrightarrow>
            so_count (so_heap c sp) = 0 \<or> r = Some sp))"

definition owner_post :: "nfs4_clnt \<Rightarrow> nfs4_clnt \<Rightarrow> nat option \<Rightarrow> bool" where
  "owner_post c c1 r \<longleftrightarrow>
     (\<exists>c0. own_step r c c0 \<and>
        (case r of
           None \<Rightarrow> c1 = c0
         | Some sp \<Rightarrow> c1 = upd_so sp (\<lambda>x. x\<lparr>so_count := so_count x + 1\<rparr>) c0 \<and>
             sp \<in> reboot_owners c \<and> NFS_OWNER_RECLAIM_REBOOT \<notin> so_flags (so_heap c0 sp) \<and>
             so_count (so_heap c sp) \<noteq> 0))"

lemma own_step_refl [simp, intro]: "own_step r c c"
  by (simp add: own_step_def)

lemma own_step_trans: "own_step None a b \<Longrightarrow> own_step r b c \<Longrightarrow> own_step r a c"
  unfolding own_step_def using owners_shrink_trans [of a b c] by auto

lemma own_step_reboot_owners: "own_step r c c0 \<Longrightarrow> reboot_owners c0 \<subseteq> reboot_owners c"
  using owners_shrink_tree [of c c0] by (auto simp: own_step_def reboot_owners_def)

lemma owner_post_step:
  assumes "own_step None c c'" "owner_post c' c1 r"
  shows "owner_post c c1 r"
proof -
  obtain c0 where c0: "own_step r c' c0" and r: "case r of None \<Rightarrow> c1 = c0
     | Some sp \<Rightarrow> c1 = upd_so sp (\<lambda>x. x\<lparr>so_count := so_count x + 1\<rparr>) c0 \<and>
         sp \<in> reboot_owners c' \<and> NFS_OWNER_RECLAIM_REBOOT \<notin> so_flags (so_heap c0 sp) \<and>
         so_count (so_heap c' sp) \<noteq> 0"
    using assms(2) by (auto simp: owner_post_def)
  have "own_step r c c0" using own_step_trans [OF assms(1) c0] .
  moreover have "so_count (so_heap c' sp) = so_count (so_heap c sp)" for sp
    using assms(1) by (simp add: own_step_def)
  ultimately show ?thesis
    using r own_step_reboot_owners [OF assms(1)] unfolding owner_post_def
    by (intro exI [of _ c0]) (auto split: option.splits)
qed

lemma next_owner_post:
  assumes "nfs4_reclaim_next_owner NFS_OWNER_RECLAIM_REBOOT sps c = (c1, r)" "set sps \<subseteq> tree_owners c"
  shows "owner_post c c1 r \<and> sv_heap c1 = sv_heap c \<and>
    (r = None \<longrightarrow> (\<forall>sp \<in> set sps. NFS_OWNER_RECLAIM_REBOOT \<notin> so_flags (so_heap c1 sp)))"
  using assms
proof (induction sps arbitrary: c)
  case Nil
  then show ?case by (auto simp: owner_post_def)
next
  case (Cons sp sps)
  let ?c = "clear_owner_bit NFS_OWNER_RECLAIM_REBOOT sp c"
  have sv: "sv_heap ?c = sv_heap c" "tree_owners ?c = tree_owners c"
    by (simp_all add: clear_owner_bit_def tree_owners_def)
  have off: "NFS_OWNER_RECLAIM_REBOOT \<notin> so_flags (so_heap c1 x)"
    if "own_step r c' c1" "NFS_OWNER_RECLAIM_REBOOT \<notin> so_flags (so_heap c' x)" for r c' x
    using that by (auto simp: own_step_def)
  consider (skip) "NFS_OWNER_RECLAIM_REBOOT \<notin> so_flags (so_heap c sp)"
      "nfs4_reclaim_next_owner NFS_OWNER_RECLAIM_REBOOT sps c = (c1, r)"
    | (idle) "so_count (so_heap c sp) = 0"
      "nfs4_reclaim_next_owner NFS_OWNER_RECLAIM_REBOOT sps ?c = (c1, r)"
    | (pick) "NFS_OWNER_RECLAIM_REBOOT \<in> so_flags (so_heap c sp)" "so_count (so_heap c sp) \<noteq> 0"
      "r = Some sp" "c1 = upd_so sp (\<lambda>x. x\<lparr>so_count := so_count x + 1\<rparr>) ?c"
    using Cons.prems(1) by (auto simp: Let_def clear_owner_bit_def split: if_splits)
  then show ?case
  proof cases
    case skip
    then show ?thesis using Cons.IH [OF skip(2)] Cons.prems(2) off [of None c sp]
      by (auto simp: owner_post_def)
  next
    case idle
    have "own_step None c ?c" using idle by (auto simp: own_step_def owners_shrink_def clear_owner_bit_def)
    then show ?thesis
      using Cons.IH [OF idle(2)] Cons.prems(2) owner_post_step [of c ?c c1 r] sv off [of None ?c sp]
      by (auto simp: owner_post_def clear_owner_bit_def)
  next
    case pick
    have "own_step (Some sp) c ?c" by (auto simp: own_step_def owners_shrink_def clear_owner_bit_def)
    then show ?thesis using pick Cons.prems(2)
      by (auto simp: owner_post_def reboot_owners_def clear_owner_bit_def intro!: exI [of _ ?c])
  qed
qed

lemma next_post:
  assumes "rb_ok e" "nfs4_reclaim_next e NFS_OWNER_RECLAIM_REBOOT ss fr c = (c1, fr1, r)"
    and "set ss \<subseteq> set (cl_superblocks c)"
  shows "owner_post c c1 r \<and>
    (r = None \<longrightarrow> (\<forall>s \<in> set ss. \<forall>sp \<in> set_tree (sv_owners (sv_heap c1 s)).
       NFS_OWNER_RECLAIM_REBOOT \<notin> so_flags (so_heap c1 sp)))"
  using assms(2,3)
proof (induction ss arbitrary: c fr)
  case Nil
  then show ?case by (auto simp: owner_post_def)
next
  case (Cons s ss)
  obtain c' fr' where pu: "nfs4_purge_state_owners e s fr c = (c', fr')" by fastforce
  have c': "own_step None c c'" using purge_shrink [OF assms(1) pu] by (simp add: own_step_def)
  then have sb: "cl_superblocks c' = cl_superblocks c" by (simp add: own_step_def owners_shrink_def)
  obtain c2 r2 where no: "nfs4_reclaim_next_owner NFS_OWNER_RECLAIM_REBOOT (inorder (sv_owners (sv_heap c' s))) c' = (c2, r2)"
    by fastforce
  have sub: "set (inorder (sv_owners (sv_heap c' s))) \<subseteq> tree_owners c'"
    using Cons.prems(2) sb by (auto simp: tree_owners_def)
  note nop = next_owner_post [OF no sub]
  show ?case
  proof (cases r2)
    case (Some sp)
    then show ?thesis using nop owner_post_step [OF c'] Cons.prems(1) by (auto simp: pu no)
  next
    case None
    have c2: "own_step None c' c2" using nop None by (simp add: owner_post_def)
    have cc2: "own_step None c c2" using own_step_trans [OF c' c2] .
    then have sb2: "cl_superblocks c2 = cl_superblocks c" by (simp add: own_step_def owners_shrink_def)
    have rest: "nfs4_reclaim_next e NFS_OWNER_RECLAIM_REBOOT ss fr' c2 = (c1, fr1, r)"
      using Cons.prems(1) by (simp add: pu no None)
    have IH: "owner_post c2 c1 r" "r = None \<Longrightarrow> \<forall>s \<in> set ss. \<forall>sp \<in> set_tree (sv_owners (sv_heap c1 s)).
        NFS_OWNER_RECLAIM_REBOOT \<notin> so_flags (so_heap c1 sp)"
      using Cons.IH [OF rest] Cons.prems(2) sb2 by auto
    have "NFS_OWNER_RECLAIM_REBOOT \<notin> so_flags (so_heap c1 sp)"
      if r: "r = None" and sp: "sp \<in> set_tree (sv_owners (sv_heap c1 s))" for sp
    proof -
      have c1: "own_step None c2 c1" using IH(1) r by (simp add: owner_post_def)
      then have "sp \<in> set_tree (sv_owners (sv_heap c2 s))"
        using sp by (auto simp: own_step_def owners_shrink_def)
      then have "NFS_OWNER_RECLAIM_REBOOT \<notin> so_flags (so_heap c2 sp)" using nop None by auto
      then show ?thesis using c1 by (auto simp: own_step_def)
    qed
    then show ?thesis using owner_post_step [OF cc2 IH(1)] IH(2) by auto
  qed
qed

lemma owner_round:
  assumes ready: "reclaim_ready c" and post: "owner_post c c1 (Some sp)"
    and fr: "reclaim_frame c1 c2"
  defines "c3 \<equiv> upd_so sp (\<lambda>x. x\<lparr>so_count := so_count x - 1\<rparr>) c2"
  shows "(\<forall>st \<in> set (so_states (so_heap c1 sp)). st_count (st_heap c1 st) \<noteq> 0) \<and>
    nfs4_put_state_owner e sp c2 = c3 \<and> reboot_owners c3 \<subset> reboot_owners c \<and>
    (reboot_states c2 sp = {} \<longrightarrow> reclaim_ready c3)"
proof -
  let ?R = NFS_OWNER_RECLAIM_REBOOT
  obtain c0 where c0: "own_step (Some sp) c c0"
    and c1: "c1 = upd_so sp (\<lambda>x. x\<lparr>so_count := so_count x + 1\<rparr>) c0"
    and sp: "sp \<in> reboot_owners c" "?R \<notin> so_flags (so_heap c0 sp)" "so_count (so_heap c sp) \<noteq> 0"
    using post by (auto simp: owner_post_def)
  have heap: "st_heap c1 = st_heap c" "\<And>x. so_states (so_heap c1 x) = so_states (so_heap c x)"
    using c0 by (simp_all add: c1 own_step_def)
  have h: "\<forall>st \<in> set (so_states (so_heap c1 sp)). st_count (st_heap c1 st) \<noteq> 0"
    using ready heap by (auto simp: reclaim_ready_def)
  have cnt: "so_count (so_heap c2 sp) = so_count (so_heap c sp) + 1"
    using fr c0 by (simp add: reclaim_frame_def c1 own_step_def)
  then have put: "nfs4_put_state_owner e sp c2 = c3"
    using sp by (simp add: nfs4_put_state_owner_def Let_def c3_def)
  have flags: "?R \<in> so_flags (so_heap c3 x) \<longleftrightarrow> ?R \<in> so_flags (so_heap c0 x)" for x
    using fr by (simp add: reclaim_frame_def c1 c3_def split: if_splits)
  have tree: "tree_owners c3 = tree_owners c0"
    using fr by (simp add: reclaim_frame_def c1 c3_def tree_owners_def)
  have "reboot_owners c3 = reboot_owners c0" using flags tree by (simp add: reboot_owners_def)
  then have dec: "reboot_owners c3 \<subset> reboot_owners c"
    using own_step_reboot_owners [OF c0] sp by (auto simp: reboot_owners_def)
  have "reclaim_ready c3" if e: "reboot_states c2 sp = {}"
    unfolding reclaim_ready_def
  proof (intro allI conjI impI ballI)
    fix x assume x: "?R \<notin> so_flags (so_heap c3 x)"
    have s3: "reboot_states c3 x = reboot_states c2 x"
      by (simp add: reboot_states_def c3_def)
    have s2: "reboot_states c2 x \<subseteq> reboot_states c x"
      using reboot_states_mono [OF fr, of x] heap by (simp add: reboot_states_def)
    show "reboot_states c3 x = {}"
    proof (cases "x = sp")
      case False
      then have "?R \<notin> so_flags (so_heap c x) \<or> so_count (so_heap c x) = 0"
        using x flags c0 by (auto simp: own_step_def)
      then have "reboot_states c x = {}" using ready by (auto simp: reclaim_ready_def reboot_states_def)
      then show ?thesis using s2 s3 by simp
    qed (use e s3 in simp)
  next
    fix x assume "so_count (so_heap c3 x) = 0"
    then have "so_count (so_heap c x) = 0"
      using cnt fr c0 sp by (auto simp: c3_def reclaim_frame_def c1 own_step_def split: if_splits)
    then show "so_states (so_heap c3 x) = []"
      using ready fr heap by (auto simp: reclaim_ready_def c3_def reclaim_frame_def)
  next
    fix x st assume "st \<in> set (so_states (so_heap c3 x))"
    then have "st \<in> set (so_states (so_heap c x))"
      using fr heap by (simp add: c3_def reclaim_frame_def split: if_splits)
    then show "st_count (st_heap c3 st) \<noteq> 0"
      using ready fr heap by (auto simp: reclaim_ready_def c3_def reclaim_frame_def)
  qed
  with h put dec show ?thesis by blast
qed

lemma own_step_ready:
  assumes "own_step None c c'" "reclaim_ready c"
  shows "reclaim_ready c'"
proof -
  have "reboot_states c' sp = reboot_states c sp" for sp
    using assms(1) by (simp add: own_step_def reboot_states_def)
  moreover have "reboot_states c sp = {}" if n: "NFS_OWNER_RECLAIM_REBOOT \<notin> so_flags (so_heap c' sp)" for sp
  proof (cases "NFS_OWNER_RECLAIM_REBOOT \<in> so_flags (so_heap c sp)")
    case True
    then have "so_count (so_heap c sp) = 0" using assms(1) n by (simp add: own_step_def)
    then show ?thesis using assms(2) by (simp add: reclaim_ready_def reboot_states_def)
  qed (use assms(2) in \<open>simp add: reclaim_ready_def\<close>)
  ultimately show ?thesis using assms by (simp add: own_step_def reclaim_ready_def)
qed

lemma do_reclaim_loop_returns:
  assumes rb: "rb_ok e" and quiet: "recovery_quiet ops"
    and fl: "state_flag_bit ops = NFS_STATE_RECLAIM_REBOOT" "owner_flag_bit ops = NFS_OWNER_RECLAIM_REBOOT"
    and ready: "reclaim_ready c"
  shows "\<exists>c' fr' status. nfs4_do_reclaim_loop e ops fr lost c = Some (c', fr', status) \<and>
    (status = 0 \<longrightarrow> reclaim_ready c' \<and> reboot_owners c' = {})"
  using ready
proof (induction "card (reboot_owners c)" arbitrary: c fr lost rule: less_induct)
  case less
  obtain c1 fr1 r where nx: "nfs4_reclaim_next e NFS_OWNER_RECLAIM_REBOOT (cl_superblocks c) fr c = (c1, fr1, r)"
    by (metis prod_cases3)
  note post = next_post [OF rb nx subset_refl]
  show ?case
  proof (cases r)
    case None
    then have step: "own_step None c c1" using post by (simp add: owner_post_def)
    have r1: "reclaim_ready c1" using less.prems own_step_ready [OF step] by blast
    have "reboot_owners c1 = {}"
      using post None step by (auto simp: reboot_owners_def tree_owners_def own_step_def owners_shrink_def)
    with r1 show ?thesis
      by (subst nfs4_do_reclaim_loop.simps) (simp add: fl nx None)
  next
    case (Some sp)
    have post: "owner_post c c1 (Some sp)" using post Some by simp
    have held: "\<forall>st \<in> set (so_states (so_heap c1 sp)). st_count (st_heap c1 st) \<noteq> 0"
      using owner_round [OF less.prems post reclaim_frame_refl] by blast
    obtain c2 lost' status where ro: "nfs4_reclaim_open_state e ops sp lost c1 = Some (c2, lost', status)"
      and frm: "reclaim_frame c1 c2" and none: "status \<ge> 0 \<longrightarrow> reboot_states c2 sp = {}"
      using reclaim_open_state_loop_returns [OF quiet fl(1) held, of e 0 False lost]
      by (auto simp: nfs4_reclaim_open_state_def)
    define c3 where "c3 = nfs4_put_state_owner e sp c2"
    have round: "reboot_owners c3 \<subset> reboot_owners c" "reboot_states c2 sp = {} \<Longrightarrow> reclaim_ready c3"
      using owner_round [OF less.prems post frm, of e] by (auto simp: c3_def)
    have eq: "nfs4_do_reclaim_loop e ops fr lost c =
       (if status < 0 then Some (nfs4_put_state_owner e sp (set_owner_bit NFS_OWNER_RECLAIM_REBOOT sp c2), fr1, status)
        else nfs4_do_reclaim_loop e ops fr1 lost' c3)"
      by (subst nfs4_do_reclaim_loop.simps) (simp add: fl nx Some ro c3_def)
    show ?thesis
    proof (cases "status < 0")
      case False
      then have "reclaim_ready c3" using none round by simp
      moreover have "card (reboot_owners c3) < card (reboot_owners c)"
        using round(1) by (simp add: psubset_card_mono)
      ultimately show ?thesis using less.hyps [of c3 fr1 lost'] eq False by simp
    qed (simp add: eq)
  qed
qed

section \<open>Marking every open state\<close>

text \<open>
  The walk over all open states is the same for both kinds of recovery. The locale states what it
  needs of the marking function: that a usable state is marked afterwards, that marks stay, that the
  flags a state is to end with, \<open>flags_to\<close> of its flags, are not changed on the way and are those of a
  marked state, that the client's flags only grow, and that the objects the walk goes along stay.
\<close>

definition walk_frame :: "nfs4_clnt \<Rightarrow> nfs4_clnt \<Rightarrow> bool" where
  "walk_frame c c' \<longleftrightarrow>
     cl_superblocks c' = cl_superblocks c \<and>
     (\<forall>s. sv_owners (sv_heap c' s) = sv_owners (sv_heap c s)) \<and>
     (\<forall>sp. so_states (so_heap c' sp) = so_states (so_heap c sp)) \<and>
     (\<forall>st. nfs4_valid_open_stateid (st_heap c' st) = nfs4_valid_open_stateid (st_heap c st) \<and>
           st_owner (st_heap c' st) = st_owner (st_heap c st))"

lemma walk_frame_refl [simp, intro]: "walk_frame c c"
  by (simp add: walk_frame_def)

lemma walk_frame_trans: "walk_frame a b \<Longrightarrow> walk_frame b c \<Longrightarrow> walk_frame a c"
  by (simp add: walk_frame_def)

lemma walk_frameD:
  assumes "walk_frame c c'"
  shows "sv_owners (sv_heap c' s) = sv_owners (sv_heap c s)"
    and "so_states (so_heap c' sp) = so_states (so_heap c sp)"
    and "nfs4_valid_open_stateid (st_heap c' st) = nfs4_valid_open_stateid (st_heap c st)"
    and "cl_superblocks c' = cl_superblocks c"
    and "st_owner (st_heap c' st) = st_owner (st_heap c st)"
  using assms by (simp_all add: walk_frame_def)

lemma fold_walk: "(\<And>x c. x \<in> set xs \<Longrightarrow> walk_frame c (f x c)) \<Longrightarrow> walk_frame c (fold f xs c)"
  by (rule fold_preorder [where R = walk_frame], rule walk_frame_refl, erule (1) walk_frame_trans)

lemma fold_establishes:
  assumes frame: "\<And>x c. walk_frame c (f x c)"
    and pre: "\<And>x c c'. walk_frame c c' \<Longrightarrow> P c x \<Longrightarrow> P c' x"
    and est: "\<And>x c. P c x \<Longrightarrow> Q (f x c) x" and keep: "\<And>x y c. Q c y \<Longrightarrow> Q (f x c) y"
    and x: "x \<in> set xs" "P c x"
  shows "Q (fold f xs c) x"
  using x
proof (induction xs arbitrary: c)
  case (Cons y xs)
  have k: "Q c x \<Longrightarrow> Q (fold f xs c) x" for c xs using keep by (induction xs arbitrary: c) auto
  show ?case
  proof (cases "x = y")
    case True
    then show ?thesis using k [OF est [OF Cons.prems(2)]] by simp
  next
    case False
    then show ?thesis using Cons.IH [of "f y c"] Cons.prems pre [OF frame] by auto
  qed
qed simp

locale reclaim_marker =
  fixes mark :: "nat \<Rightarrow> nfs4_clnt \<Rightarrow> nfs4_clnt \<times> bool" and marked :: "nfs4_clnt \<Rightarrow> nat \<Rightarrow> bool"
    and flags_to :: "nfs4_state_flag set \<Rightarrow> nfs4_state_flag set"
  assumes marks: "nfs4_valid_open_stateid (st_heap c st) \<Longrightarrow> marked (nfs4_reset_state mark st c) st"
    and keeps: "marked c st' \<Longrightarrow> marked (nfs4_reset_state mark st c) st'"
    and seqid: "marked c st' \<Longrightarrow> marked (upd_so sp (\<lambda>x. x\<lparr>so_seqid := f x\<rparr>) c) st'"
    and walks: "walk_frame c (nfs4_reset_state mark st c)"
    and target: "flags_to (st_flags (st_heap (nfs4_reset_state mark st c) st')) = flags_to (st_flags (st_heap c st'))"
    and settled: "marked c st \<Longrightarrow> flags_to (st_flags (st_heap c st)) = st_flags (st_heap c st)"
    and grows: "cl_state c \<subseteq> cl_state (nfs4_reset_state mark st c)"
begin

lemma fold_keeps_mark: "marked c st \<Longrightarrow> marked (fold (nfs4_reset_state mark) xs c) st"
  by (induction xs arbitrary: c) (auto intro: keeps)

lemma reset_owner_walks: "walk_frame c (nfs4_reset_owner mark sp c)"
proof -
  have "walk_frame c (upd_so sp (\<lambda>x. x\<lparr>so_seqid := (so_seqid x)\<lparr>seqid_confirmed := False\<rparr>\<rparr>) c)"
    by (simp add: walk_frame_def)
  then show ?thesis unfolding nfs4_reset_owner_def Let_def by (rule walk_frame_trans) (rule fold_walk [OF walks])
qed

lemma reset_owner_keeps: "marked c st \<Longrightarrow> marked (nfs4_reset_owner mark sp c) st"
  unfolding nfs4_reset_owner_def Let_def by (intro fold_keeps_mark seqid)

lemma reset_owner_marks:
  assumes "st \<in> set (so_states (so_heap c sp))" "nfs4_valid_open_stateid (st_heap c st)"
  shows "marked (nfs4_reset_owner mark sp c) st"
  unfolding nfs4_reset_owner_def Let_def
  by (rule fold_establishes [where P = "\<lambda>c st. nfs4_valid_open_stateid (st_heap c st)" and Q = marked])
     (use assms in \<open>auto intro: walks marks keeps simp: walk_frameD\<close>)

lemma reset_seqids_walks: "walk_frame c (nfs4_reset_seqids mark s c)"
  unfolding nfs4_reset_seqids_def by (rule fold_walk [OF reset_owner_walks])

lemma reset_seqids_keeps: "marked c st \<Longrightarrow> marked (nfs4_reset_seqids mark s c) st"
proof -
  have "marked (fold (nfs4_reset_owner mark) xs c) st" if "marked c st" for xs c
    using that by (induction xs arbitrary: c) (auto intro: reset_owner_keeps)
  then show "marked c st \<Longrightarrow> ?thesis" by (simp add: nfs4_reset_seqids_def)
qed

lemma reset_seqids_marks:
  assumes "sp \<in> set_tree (sv_owners (sv_heap c s))" "st \<in> set (so_states (so_heap c sp))"
    and "nfs4_valid_open_stateid (st_heap c st)"
  shows "marked (nfs4_reset_seqids mark s c) st"
  unfolding nfs4_reset_seqids_def
  by (rule fold_establishes [where Q = "\<lambda>c sp. marked c st" and x = sp and
        P = "\<lambda>c sp. st \<in> set (so_states (so_heap c sp)) \<and> nfs4_valid_open_stateid (st_heap c st)"])
     (use assms in \<open>auto intro: reset_owner_walks reset_owner_marks reset_owner_keeps simp: walk_frameD\<close>)

lemma helper_walks: "walk_frame c (nfs4_state_mark_reclaim_helper mark c)"
  unfolding nfs4_state_mark_reclaim_helper_def by (rule fold_walk [OF reset_seqids_walks])

lemma helper_marks:
  assumes "s \<in> set (cl_superblocks c)" "sp \<in> set_tree (sv_owners (sv_heap c s))"
    and "st \<in> set (so_states (so_heap c sp))" "nfs4_valid_open_stateid (st_heap c st)"
  shows "marked (nfs4_state_mark_reclaim_helper mark c) st"
  unfolding nfs4_state_mark_reclaim_helper_def
  by (rule fold_establishes [where Q = "\<lambda>c s. marked c st" and x = s and
        P = "\<lambda>c s. sp \<in> set_tree (sv_owners (sv_heap c s)) \<and> st \<in> set (so_states (so_heap c sp)) \<and>
                   nfs4_valid_open_stateid (st_heap c st)"])
     (use assms in \<open>auto intro: reset_seqids_walks reset_seqids_marks reset_seqids_keeps simp: walk_frameD\<close>)

lemma helper_grows: "cl_state c \<subseteq> cl_state (nfs4_state_mark_reclaim_helper mark c)"
proof -
  let ?R = "\<lambda>c c'. cl_state c \<subseteq> cl_state c'"
  have owner: "?R c (nfs4_reset_owner mark sp c)" for sp c
  proof -
    let ?c = "upd_so sp (\<lambda>x. x\<lparr>so_seqid := (so_seqid x)\<lparr>seqid_confirmed := False\<rparr>\<rparr>) c"
    have "?R ?c (fold (nfs4_reset_state mark) xs ?c)" for xs
      by (rule fold_preorder [where R = ?R]) (auto dest: subsetD [OF grows])
    then show ?thesis by (simp add: nfs4_reset_owner_def Let_def)
  qed
  have server: "?R c (nfs4_reset_seqids mark s c)" for s c
    unfolding nfs4_reset_seqids_def by (rule fold_preorder [where R = ?R]) (auto dest: subsetD [OF owner])
  show ?thesis
    unfolding nfs4_state_mark_reclaim_helper_def by (rule fold_preorder [where R = ?R]) (auto dest: subsetD [OF server])
qed

lemma helper_target:
  "flags_to (st_flags (st_heap (nfs4_state_mark_reclaim_helper mark c) st)) = flags_to (st_flags (st_heap c st))"
proof -
  let ?g = "\<lambda>c. flags_to (st_flags (st_heap c st))"
  have owner: "?g (nfs4_reset_owner mark sp c) = ?g c" for sp c
    unfolding nfs4_reset_owner_def Let_def by (subst fold_keeps [where g = ?g, OF target]) simp
  have server: "?g (nfs4_reset_seqids mark s c) = ?g c" for s c
    unfolding nfs4_reset_seqids_def by (rule fold_keeps [where g = ?g, OF owner])
  show ?thesis
    unfolding nfs4_state_mark_reclaim_helper_def by (rule fold_keeps [where g = ?g, OF server])
qed

lemma helper_flags:
  assumes "s \<in> set (cl_superblocks c)" "sp \<in> set_tree (sv_owners (sv_heap c s))"
    and "st \<in> set (so_states (so_heap c sp))" "nfs4_valid_open_stateid (st_heap c st)"
  shows "st_flags (st_heap (nfs4_state_mark_reclaim_helper mark c) st) = flags_to (st_flags (st_heap c st))"
  using settled [OF helper_marks [OF assms]] helper_target by simp

end

definition open_share_flags :: "nfs4_state_flag set" where
  "open_share_flags = {NFS_DELEGATED_STATE, NFS_O_RDONLY_STATE, NFS_O_WRONLY_STATE, NFS_O_RDWR_STATE}"

text \<open>
  The flags a usable open state ends with. A state that already waits for recovery without grace is
  not marked for reclaim after a reboot, and keeps its share flags then.
\<close>

definition reboot_flags :: "nfs4_state_flag set \<Rightarrow> nfs4_state_flag set" where
  "reboot_flags fl =
     (if NFS_STATE_RECLAIM_NOGRACE \<in> fl then fl - {NFS_STATE_RECLAIM_REBOOT}
      else insert NFS_STATE_RECLAIM_REBOOT (fl - open_share_flags))"

definition nograce_flags :: "nfs4_state_flag set \<Rightarrow> nfs4_state_flag set" where
  "nograce_flags fl = insert NFS_STATE_RECLAIM_NOGRACE (fl - {NFS_STATE_RECLAIM_REBOOT} - open_share_flags)"

definition reboot_marked :: "nfs4_clnt \<Rightarrow> nat \<Rightarrow> bool" where
  "reboot_marked c st \<longleftrightarrow>
     reboot_flags (st_flags (st_heap c st)) = st_flags (st_heap c st) \<and>
     (NFS_STATE_RECLAIM_NOGRACE \<in> st_flags (st_heap c st) \<or>
      NFS_OWNER_RECLAIM_REBOOT \<in> so_flags (so_heap c (st_owner (st_heap c st))))"

definition nograce_marked :: "nfs4_clnt \<Rightarrow> nat \<Rightarrow> bool" where
  "nograce_marked c st \<longleftrightarrow>
     nograce_flags (st_flags (st_heap c st)) = st_flags (st_heap c st) \<and>
     NFS_OWNER_RECLAIM_NOGRACE \<in> so_flags (so_heap c (st_owner (st_heap c st))) \<and>
     NFS4CLNT_RECLAIM_NOGRACE \<in> cl_state c"

lemma share_flags_disjoint:
  "NFS_STATE_RECLAIM_NOGRACE \<notin> open_share_flags" "NFS_STATE_RECLAIM_REBOOT \<notin> open_share_flags"
  "NFS_STATE_RECOVERY_FAILED \<notin> open_share_flags"
  by (simp_all add: open_share_flags_def)

lemma flags_idem [simp]: "reboot_flags (reboot_flags fl) = reboot_flags fl" "nograce_flags (nograce_flags fl) = nograce_flags fl"
  by (auto simp: reboot_flags_def nograce_flags_def share_flags_disjoint)

lemma clear_open_lock_simps [simp]:
  "cl_superblocks (nfs4_clear_open_lock l c) = cl_superblocks c" "sv_heap (nfs4_clear_open_lock l c) = sv_heap c"
  "so_heap (nfs4_clear_open_lock l c) = so_heap c" "st_heap (nfs4_clear_open_lock l c) = st_heap c"
  "cl_state (nfs4_clear_open_lock l c) = cl_state c"
  by (simp_all add: nfs4_clear_open_lock_def)

lemma clear_open_state_simps [simp]:
  "cl_superblocks (nfs4_clear_open_state st c) = cl_superblocks c" "sv_heap (nfs4_clear_open_state st c) = sv_heap c"
  "so_heap (nfs4_clear_open_state st c) = so_heap c" "cl_state (nfs4_clear_open_state st c) = cl_state c"
  "st_heap (nfs4_clear_open_state st c) =
     (st_heap c)(st := (st_heap c st)\<lparr>st_flags := st_flags (st_heap c st) - open_share_flags\<rparr>)"
  unfolding nfs4_clear_open_state_def Let_def open_share_flags_def by (subst fold_keeps, simp, simp)+

lemma reset_state_reboot:
  fixes c :: nfs4_clnt and st :: nat
  defines "c' \<equiv> nfs4_reset_state nfs4_state_mark_reclaim_reboot st c"
    and "ok \<equiv> nfs4_valid_open_stateid (st_heap c st)" and "new \<equiv> NFS_STATE_RECLAIM_NOGRACE \<notin> st_flags (st_heap c st)"
  shows "st_heap c' = (if ok then (st_heap c)(st := (st_heap c st)\<lparr>st_flags := reboot_flags (st_flags (st_heap c st))\<rparr>)
      else st_heap c)"
    "so_flags (so_heap c' x) = so_flags (so_heap c x) \<union> (if ok \<and> new \<and> x = st_owner (st_heap c st) then {NFS_OWNER_RECLAIM_REBOOT} else {})"
    "cl_state c' = cl_state c \<union> (if ok \<and> new then {NFS4CLNT_RECLAIM_REBOOT} else {})"
    "so_states (so_heap c' x) = so_states (so_heap c x)" "sv_heap c' = sv_heap c" "cl_superblocks c' = cl_superblocks c"
  by (auto simp: c'_def ok_def new_def nfs4_reset_state_def nfs4_state_mark_reclaim_reboot_def reboot_flags_def Let_def
      set_st_def clear_st_def set_cl_def share_flags_disjoint insert_Diff_if fun_eq_iff)

lemma reset_state_nograce:
  fixes c :: nfs4_clnt and st :: nat
  defines "c' \<equiv> nfs4_reset_state nfs4_state_mark_reclaim_nograce st c"
    and "ok \<equiv> nfs4_valid_open_stateid (st_heap c st)"
  shows "st_heap c' = (if ok then (st_heap c)(st := (st_heap c st)\<lparr>st_flags := nograce_flags (st_flags (st_heap c st))\<rparr>)
      else st_heap c)"
    "so_flags (so_heap c' x) = so_flags (so_heap c x) \<union> (if ok \<and> x = st_owner (st_heap c st) then {NFS_OWNER_RECLAIM_NOGRACE} else {})"
    "cl_state c' = cl_state c \<union> (if ok then {NFS4CLNT_RECLAIM_NOGRACE} else {})"
    "so_states (so_heap c' x) = so_states (so_heap c x)" "sv_heap c' = sv_heap c" "cl_superblocks c' = cl_superblocks c"
  by (auto simp: c'_def ok_def nfs4_reset_state_def nfs4_state_mark_reclaim_nograce_def nograce_flags_def Let_def
      set_st_def clear_st_def set_cl_def share_flags_disjoint insert_Diff_if fun_eq_iff)

lemma flags_members:
  "NFS_STATE_RECLAIM_NOGRACE \<in> reboot_flags fl \<longleftrightarrow> NFS_STATE_RECLAIM_NOGRACE \<in> fl"
  "NFS_STATE_RECOVERY_FAILED \<in> reboot_flags fl \<longleftrightarrow> NFS_STATE_RECOVERY_FAILED \<in> fl"
  "NFS_STATE_RECOVERY_FAILED \<in> nograce_flags fl \<longleftrightarrow> NFS_STATE_RECOVERY_FAILED \<in> fl"
  by (auto simp: reboot_flags_def nograce_flags_def share_flags_disjoint)

interpretation reboot_walk: reclaim_marker nfs4_state_mark_reclaim_reboot reboot_marked reboot_flags
  by unfold_locales
     (auto simp: reset_state_reboot reboot_marked_def walk_frame_def nfs4_valid_open_stateid_def flags_members)

interpretation nograce_walk: reclaim_marker nfs4_state_mark_reclaim_nograce nograce_marked nograce_flags
  by unfold_locales
     (auto simp: reset_state_nograce nograce_marked_def walk_frame_def nfs4_valid_open_stateid_def flags_members)

lemma delegation_mark_frame:
  "cl_state (nfs_delegation_mark_reclaim c) = cl_state c" "st_heap (nfs_delegation_mark_reclaim c) = st_heap c"
  "st_heap (nfs_mark_test_expired_all_delegations c) = st_heap c"
proof -
  have "cl_state (nfs_delegation_mark_reclaim_server s c) = cl_state c"
    "st_heap (nfs_delegation_mark_reclaim_server s c) = st_heap c"
    "st_heap (nfs_delegation_mark_test_expired_server s c) = st_heap c" for s c
    unfolding nfs_delegation_mark_reclaim_server_def nfs_delegation_mark_test_expired_server_def
    by (rule fold_keeps, simp add: nfs_mark_test_expired_delegation_def Let_def)+
  then show "cl_state (nfs_delegation_mark_reclaim c) = cl_state c" "st_heap (nfs_delegation_mark_reclaim c) = st_heap c"
    "st_heap (nfs_mark_test_expired_all_delegations c) = st_heap c"
    unfolding nfs_delegation_mark_reclaim_def nfs_mark_test_expired_all_delegations_def
    by (simp_all add: fold_keeps [where g = cl_state] fold_keeps [where g = st_heap])
qed

section \<open>Draining\<close>

definition client_tables :: "nfs4_clnt \<Rightarrow> nfs4_slot_table list" where
  "client_tables c =
     (case cl_slot_tbl c of
        Some tbl \<Rightarrow> [tbl] | None \<Rightarrow> [bc_slot_table (cl_session c), fc_slot_table (cl_session c)])"

text \<open>
  \<open>drained_by e steps tbl tbl'\<close>: in the course of the steps there was a moment when no slot of the
  draining table was in use, and the slots in use at the end were taken after it; they were taken by
  privileged requests, so that without such a request after that moment there are none.
\<close>

definition drained_by :: "slot_env \<Rightarrow> slot_step list \<Rightarrow> nfs4_slot_table \<Rightarrow> nfs4_slot_table \<Rightarrow> bool" where
  "drained_by e steps tbl tbl' \<longleftrightarrow>
     slot_tbl_ok tbl' \<and> slot_tbl_draining tbl' \<and>
     (\<exists>us vs. steps = us @ vs \<and> used_slots (fold (slot_step_run e) us tbl) = {} \<and>
        used_slots tbl' = used_slots (fold (slot_step_run e) (us @ vs) tbl) \<and>
        (Request_slot True \<notin> set vs \<longrightarrow> used_slots tbl' = {}))"

text \<open>The steps of the others that a drain waits for: none when no slot is in use.\<close>

definition drain_steps :: "mgr_env \<Rightarrow> nfs4_slot_table \<Rightarrow> slot_step list" where
  "drain_steps e tbl =
     (if highest_used_slotid tbl = NFS4_NO_SLOT then []
      else me_others e (tbl\<lparr>slot_tbl_draining := True, complete_done := 0\<rparr>))"

lemma slot_tbl_ok_update [simp]:
  "slot_tbl_ok (tbl\<lparr>complete_done := n\<rparr>) = slot_tbl_ok tbl"
  "slot_tbl_ok (tbl\<lparr>slot_tbl_draining := b\<rparr>) = slot_tbl_ok tbl"
  by (simp_all add: slot_tbl_ok_def highest_ok_def)

lemma wake_and_assign_frame:
  assumes "nfs41_wake_and_assign_slot e tbl n = (tbl', given)"
  shows "slot_tbl_ok tbl' = slot_tbl_ok tbl" "used_slots tbl' = used_slots tbl"
    "slot_tbl_draining tbl' = slot_tbl_draining tbl" "complete_done tbl' = complete_done tbl"
  using assms nfs41_wake_and_assign_slot_unchecked_spec(1,2,3,5) [of e tbl n tbl' given]
  by (simp_all add: nfs41_wake_and_assign_slot_def split: if_splits)

lemma slot_step_keeps:
  assumes ok: "slot_tbl_ok tbl" and dr: "slot_tbl_draining tbl"
  shows "slot_tbl_ok (slot_step_run e step tbl)" "slot_tbl_draining (slot_step_run e step tbl)"
    and "complete_done tbl < complete_done (slot_step_run e step tbl) \<Longrightarrow> used_slots (slot_step_run e step tbl) = {}"
    and "used_slots tbl = {} \<Longrightarrow> step \<noteq> Request_slot True \<Longrightarrow> slot_step_run e step tbl = tbl"
proof -
  have "slot_tbl_ok (slot_step_run e step tbl) \<and> slot_tbl_draining (slot_step_run e step tbl) \<and>
    (complete_done tbl < complete_done (slot_step_run e step tbl) \<longrightarrow> used_slots (slot_step_run e step tbl) = {}) \<and>
    (used_slots tbl = {} \<and> step \<noteq> Request_slot True \<longrightarrow> slot_step_run e step tbl = tbl)"
  proof (cases step)
    case (Release_slot n)
    obtain t given where w: "nfs41_wake_and_assign_slot e tbl n = (t, given)" by fastforce
    note fr = wake_and_assign_frame [OF w]
    show ?thesis
    proof (cases "n \<in> used_slots tbl")
      case True
      then show ?thesis using ok dr fr nfs4_free_slot_ok [of t n] nfs4_free_slot_complete [of t n] Release_slot w
        by (auto simp: slot_step_run_def)
    qed (use ok dr Release_slot in \<open>simp add: slot_step_run_def\<close>)
  next
    case (Request_slot priv)
    obtain t r where a: "nfs4_alloc_slot e tbl = (t, r)" by fastforce
    show ?thesis using nfs4_alloc_slot_spec [OF ok a] nfs4_alloc_slot_frame [OF a] ok dr a Request_slot
      by (simp add: slot_step_run_def nfs4_slot_tbl_draining_def)
  qed
  then show "slot_tbl_ok (slot_step_run e step tbl)" "slot_tbl_draining (slot_step_run e step tbl)"
    "complete_done tbl < complete_done (slot_step_run e step tbl) \<Longrightarrow> used_slots (slot_step_run e step tbl) = {}"
    "used_slots tbl = {} \<Longrightarrow> step \<noteq> Request_slot True \<Longrightarrow> slot_step_run e step tbl = tbl" by simp_all
qed

lemma slot_steps_keep:
  assumes "slot_tbl_ok tbl" "slot_tbl_draining tbl"
  shows "slot_tbl_ok (fold (slot_step_run e) steps tbl)" "slot_tbl_draining (fold (slot_step_run e) steps tbl)"
    and "used_slots tbl = {} \<Longrightarrow> Request_slot True \<notin> set steps \<Longrightarrow> fold (slot_step_run e) steps tbl = tbl"
proof -
  show "slot_tbl_ok (fold (slot_step_run e) steps tbl)" "slot_tbl_draining (fold (slot_step_run e) steps tbl)"
    using assms by (induction steps arbitrary: tbl) (simp_all add: slot_step_keeps)
  show "fold (slot_step_run e) steps tbl = tbl" if "used_slots tbl = {}" "Request_slot True \<notin> set steps"
    using that(2)
  proof (induction steps)
    case (Cons step steps)
    then show ?case using slot_step_keeps(4) [OF assms that(1), of step e] by auto
  qed simp
qed

text \<open>The completion is signalled only at a moment when no slot is in use.\<close>

lemma completion_at_idle:
  assumes "slot_tbl_ok tbl" "slot_tbl_draining tbl" "complete_done tbl < complete_done (fold (slot_step_run e) steps tbl)"
  shows "\<exists>us vs. steps = us @ vs \<and> used_slots (fold (slot_step_run e) us tbl) = {}"
  using assms(3)
proof (induction steps rule: rev_induct)
  case (snoc step steps)
  let ?t = "fold (slot_step_run e) steps tbl"
  show ?case
  proof (cases "complete_done tbl < complete_done ?t")
    case True
    then show ?thesis using snoc.IH by fastforce
  next
    case False
    then have "used_slots (slot_step_run e step ?t) = {}"
      using snoc.prems slot_step_keeps(3) [OF slot_steps_keep(1,2) [OF assms(1,2)], where step = step and e = e] by (simp add: not_less)
    then show ?thesis by (intro exI [of _ "steps @ [step]"] exI [of _ "[]"]) simp
  qed
qed simp

lemma drained_byI:
  assumes "slot_tbl_ok tbl" "slot_tbl_draining tbl" "steps = us @ vs" "used_slots (fold (slot_step_run e) us tbl) = {}"
    and "tbl' = (fold (slot_step_run e) steps tbl)\<lparr>complete_done := n\<rparr>"
  shows "drained_by e steps tbl tbl'"
proof -
  note k = slot_steps_keep [OF assms(1,2), where e = e]
  have "used_slots (fold (slot_step_run e) (us @ vs) tbl) = {}" if "Request_slot True \<notin> set vs"
    using slot_steps_keep(3) [OF k(1,2) assms(4) that, where e = e] assms(4) by simp
  moreover have "slot_tbl_ok tbl'" "slot_tbl_draining tbl'" using k(1,2) [of steps] by (simp_all add: assms(5))
  ultimately show ?thesis using assms(3,4) unfolding drained_by_def assms(5) by auto
qed

lemma drain_slot_tbl_drained:
  assumes ok: "slot_tbl_ok tbl" and r: "nfs4_drain_slot_tbl e tbl = (tbl', 0)"
  shows "drained_by (me_slot e) (drain_steps e tbl) (tbl\<lparr>slot_tbl_draining := True, complete_done := 0\<rparr>) tbl'"
proof (cases "highest_used_slotid tbl = NFS4_NO_SLOT")
  case True
  then have "used_slots tbl = {}" using ok used_not_no_slot [OF ok] by (auto simp: slot_tbl_ok_def highest_ok_def)
  then show ?thesis using r ok True
    by (intro drained_byI [where us = "[]" and vs = "[]" and n = "complete_done tbl"])
       (auto simp: nfs4_drain_slot_tbl_def Let_def drain_steps_def)
next
  case False
  let ?t = "tbl\<lparr>slot_tbl_draining := True, complete_done := 0\<rparr>"
  let ?d = "fold (slot_step_run (me_slot e)) (drain_steps e tbl) ?t"
  have t: "slot_tbl_ok ?t" "slot_tbl_draining ?t" using ok by simp_all
  have d: "complete_done ?t < complete_done ?d" "tbl' = ?d\<lparr>complete_done := complete_done ?d - 1\<rparr>"
    using r False by (auto simp: nfs4_drain_slot_tbl_def wait_for_drain_def drain_steps_def Let_def split: if_splits)
  from completion_at_idle [OF t d(1)] show ?thesis using drained_byI [OF t] d(2) by blast
qed

lemma delegation_walk:
  "walk_frame c (nfs_delegation_mark_reclaim c)" "walk_frame c (nfs_mark_test_expired_all_delegations c)"
  unfolding nfs_delegation_mark_reclaim_def nfs_delegation_mark_reclaim_server_def
    nfs_mark_test_expired_all_delegations_def nfs_delegation_mark_test_expired_server_def
  by (rule fold_walk, rule fold_walk, simp add: walk_frame_def nfs_mark_test_expired_delegation_def set_sv_def Let_def)+

section \<open>Copies of a source state\<close>

text \<open>
  The two walks of \<open>nfs42_complete_copies\<close> when the state is the source of a copy but not the
  destination of one.
\<close>

lemma dst_copy_source_only:
  assumes "NFS_CLNT_DST_SSC_COPY_STATE \<notin> st_flags (st_heap c st)"
  shows "nfs42_complete_dst_copy st cp c = upd_cp cp (\<lambda>x. x\<lparr>copy_flags := 1\<rparr>) c"
  using assms by (simp add: nfs42_complete_dst_copy_def Let_def)

lemma src_copy_source_only:
  assumes "NFS_CLNT_DST_SSC_COPY_STATE \<notin> st_flags (st_heap c st)"
  shows "st_heap (nfs42_complete_src_copy st cp c) = st_heap c"
    and "copy_completed (cp_heap (nfs42_complete_src_copy st cp c) x) = copy_completed (cp_heap c x)"
    and "copy_flags (cp_heap c x) = 1 \<Longrightarrow> copy_flags (cp_heap (nfs42_complete_src_copy st cp c) x) = 1"
  using assms by (simp_all add: nfs42_complete_src_copy_def Let_def)

lemma fold_dst_source_only:
  assumes "NFS_CLNT_DST_SSC_COPY_STATE \<notin> st_flags (st_heap c st)"
  shows "st_heap (fold (nfs42_complete_dst_copy st) cps c) = st_heap c \<and>
    (\<forall>x. copy_completed (cp_heap (fold (nfs42_complete_dst_copy st) cps c) x) = copy_completed (cp_heap c x)) \<and>
    (\<forall>x. x \<in> set cps \<or> copy_flags (cp_heap c x) = 1 \<longrightarrow>
       copy_flags (cp_heap (fold (nfs42_complete_dst_copy st) cps c) x) = 1)"
  using assms
proof (induction cps arbitrary: c)
  case (Cons cp cps)
  show ?case
    using Cons.IH [of "upd_cp cp (\<lambda>x. x\<lparr>copy_flags := 1\<rparr>) c"] Cons.prems
    by (simp add: dst_copy_source_only)
qed simp

lemma fold_src_source_only:
  assumes "NFS_CLNT_DST_SSC_COPY_STATE \<notin> st_flags (st_heap c st)"
  shows "st_heap (fold (nfs42_complete_src_copy st) cps c) = st_heap c \<and>
    (\<forall>x. copy_completed (cp_heap (fold (nfs42_complete_src_copy st) cps c) x) = copy_completed (cp_heap c x)) \<and>
    (\<forall>x. copy_flags (cp_heap c x) = 1 \<longrightarrow>
       copy_flags (cp_heap (fold (nfs42_complete_src_copy st) cps c) x) = 1)"
  using assms
proof (induction cps arbitrary: c)
  case (Cons cp cps)
  show ?case
    using Cons.IH [of "nfs42_complete_src_copy st cp c"] Cons.prems src_copy_source_only [OF Cons.prems]
    by simp
qed simp

section \<open>Properties\<close>

definition ex_mgr_env :: mgr_env where
  "ex_mgr_env =
     \<lparr>me_state = ex_state_env, me_slot = ex_env, me_others = (\<lambda>_. [Release_slot 0]), me_minor = 1, me_HZ = 1000,
      me_signalled = (\<lambda>_. False), me_unlocked = (\<lambda>c. c), me_wait_run = (\<lambda>c. c), me_wait_manager = (\<lambda>c. (c, 0)),
      me_setclientid = (\<lambda>_ c. (c, 0, 1, 1)), me_setclientid_confirm = (\<lambda>_ c. (c, 0)),
      me_exchange_id = (\<lambda>_ c. (c, 0)), me_create_session = (\<lambda>_ c. (c, 0)),
      me_destroy_session = (\<lambda>_ c. (c, - NFS4ERR_DELAY)), me_bind_conn = (\<lambda>_ c. (c, 0)),
      me_renew_lease = (\<lambda>_ c. (c, 0)), me_sched_renewal = (\<lambda>_ _ _ c. (c, 0)),
      me_get_lease_time = (\<lambda>c. (c, 0, 90)), me_reclaim_complete = (\<lambda>_ c. (c, 0)),
      me_open_reclaim = (\<lambda>_ _ c. (c, 0)), me_lock_reclaim = (\<lambda>_ _ c. (c, 0)),
      me_open_expired = (\<lambda>_ _ c. (c, 0)), me_lock_expired = (\<lambda>_ _ c. (c, 0)),
      me_alloc_ok = True, me_get_locations = (\<lambda>_ _ c. (c, 0, 1, True)),
      me_replace_transport = (\<lambda>_ c. (c, 0)), me_fsid_present = (\<lambda>_ _ c. (c, 0)),
      me_destroy_all_layouts = (\<lambda>c. c), me_layout_handle_reboot = (\<lambda>c. (c, 0)),
      me_layout_return_unused = (\<lambda>_ c. c)\<rparr>"

definition ex_reboot_ops :: recovery_ops where
  "ex_reboot_ops =
     \<lparr>owner_flag_bit = NFS_OWNER_RECLAIM_REBOOT, state_flag_bit = NFS_STATE_RECLAIM_REBOOT,
      recover_open = (\<lambda>_ _ c. (c, 0)), recover_lock = (\<lambda>_ _ c. (c, 0)),
      establish_clid = (\<lambda>_ c. (c, 0)), ops_reclaim_complete = None\<rparr>"

text \<open>
  C4: Nothing is forgotten after a reboot. Let no call of the recovery create, release or newly mark
  open state, and let every state that is marked for reclaim belong to a marked owner. Then the
  walk of \<open>nfs4_do_reclaim\<close> over all owners returns, however often the server answers \<open>EAGAIN\<close>, and
  if it reports success then no owner and no open state of any mounted server is marked any more.
\<close>

theorem do_reclaim_reboot_complete:
  assumes "rb_ok e" "recovery_quiet ops" "reclaim_ready c"
    and "state_flag_bit ops = NFS_STATE_RECLAIM_REBOOT" "owner_flag_bit ops = NFS_OWNER_RECLAIM_REBOOT"
  shows "\<exists>c' fr' status. nfs4_do_reclaim_loop e ops fr lost c = Some (c', fr', status) \<and>
    (status = 0 \<longrightarrow>
      (\<forall>s \<in> set (cl_superblocks c'). \<forall>sp \<in> set_tree (sv_owners (sv_heap c' s)).
         NFS_OWNER_RECLAIM_REBOOT \<notin> so_flags (so_heap c' sp) \<and>
         (\<forall>st \<in> set (so_states (so_heap c' sp)). NFS_STATE_RECLAIM_REBOOT \<notin> st_flags (st_heap c' st))))"
proof -
  obtain c' fr' status where r: "nfs4_do_reclaim_loop e ops fr lost c = Some (c', fr', status)"
    and d: "status = 0 \<longrightarrow> reclaim_ready c' \<and> reboot_owners c' = {}"
    using do_reclaim_loop_returns [OF assms(1,2,4,5,3)] by blast
  then show ?thesis
    by (auto simp: reclaim_ready_def reboot_owners_def tree_owners_def reboot_states_def)
qed

definition ex_reboot :: nfs4_clnt where
  "ex_reboot = ex_owner
     \<lparr>so_heap := (\<lambda>i. (so_heap ex_owner i)\<lparr>so_flags := {NFS_OWNER_RECLAIM_REBOOT}\<rparr>),
      st_heap := (\<lambda>i. (st_heap ex_owner i)\<lparr>st_flags := {NFS_STATE_RECLAIM_REBOOT}, st_state := FMODE_RW\<rparr>)\<rparr>"

lemma ex_reboot_ready: "recovery_quiet ex_reboot_ops" "reclaim_ready ex_reboot"
  by (auto simp: recovery_quiet_def ex_reboot_ops_def reclaim_ready_def ex_reboot_def ex_owner_def zero_defs)

theorem do_reclaim_reboot_complete_witness:
  "NFS_STATE_RECLAIM_REBOOT \<in> st_flags (st_heap ex_reboot 6) \<and>
   nfs4_do_reclaim_loop ex_state_env ex_reboot_ops [] 0 ex_reboot \<noteq> None"
  using do_reclaim_reboot_complete [OF ex_state_env_ok(2) ex_reboot_ready, of "[]" 0]
  by (auto simp: ex_reboot_def ex_reboot_ops_def)

text \<open>
  C16: Everything is marked, and in the right way. When recovery starts, then for every usable open
  state of every owner of every mounted server: after a reboot the client is marked for reclaim, and
  a state that did not already wait for recovery without grace is marked for reclaim, with its owner
  marked too and its share flags cleared, while one that did keeps its other flags; after a lost
  lease the state, its owner and the client are marked for recovery without grace, the mark for
  reclaim and the share flags are cleared. No other flag of the state changes.
\<close>

theorem start_reclaim_marks_all:
  assumes "s \<in> set (cl_superblocks c)" "sp \<in> set_tree (sv_owners (sv_heap c s))"
    and "st \<in> set (so_states (so_heap c sp))" "nfs4_valid_open_stateid (st_heap c st)"
  shows "(let c' = nfs4_state_start_reclaim_reboot c; fl = st_flags (st_heap c st) in
      NFS4CLNT_RECLAIM_REBOOT \<in> cl_state c' \<and>
      (if NFS_STATE_RECLAIM_NOGRACE \<in> fl then st_flags (st_heap c' st) = fl - {NFS_STATE_RECLAIM_REBOOT}
       else st_flags (st_heap c' st) = insert NFS_STATE_RECLAIM_REBOOT (fl - open_share_flags) \<and>
            NFS_OWNER_RECLAIM_REBOOT \<in> so_flags (so_heap c' (st_owner (st_heap c st))))) \<and>
    (let c' = nfs4_state_start_reclaim_nograce c; fl = st_flags (st_heap c st) in
      NFS4CLNT_RECLAIM_NOGRACE \<in> cl_state c' \<and>
      st_flags (st_heap c' st) = insert NFS_STATE_RECLAIM_NOGRACE (fl - {NFS_STATE_RECLAIM_REBOOT} - open_share_flags) \<and>
      NFS_OWNER_RECLAIM_NOGRACE \<in> so_flags (so_heap c' (st_owner (st_heap c st))))"
proof -
  let ?c1 = "nfs_delegation_mark_reclaim (set_cl NFS4CLNT_RECLAIM_REBOOT c)"
  let ?c2 = "nfs_mark_test_expired_all_delegations c"
  have "walk_frame c (set_cl NFS4CLNT_RECLAIM_REBOOT c)" by (simp add: walk_frame_def)
  then have w: "walk_frame c ?c1" "walk_frame c ?c2"
    using walk_frame_trans [OF _ delegation_walk(1)] delegation_walk(2) by blast+
  have at: "s \<in> set (cl_superblocks x)" "sp \<in> set_tree (sv_owners (sv_heap x s))"
    "st \<in> set (so_states (so_heap x sp))" "nfs4_valid_open_stateid (st_heap x st)" if "walk_frame c x" for x
    using assms that by (simp_all add: walk_frameD)
  note r = reboot_walk.helper_flags [OF at [OF w(1)]] reboot_walk.helper_marks [OF at [OF w(1)]]
    walk_frameD(5) [OF walk_frame_trans [OF w(1) reboot_walk.helper_walks]] reboot_walk.helper_grows [of ?c1]
  note n = nograce_walk.helper_flags [OF at [OF w(2)]] nograce_walk.helper_marks [OF at [OF w(2)]]
    walk_frameD(5) [OF walk_frame_trans [OF w(2) nograce_walk.helper_walks]]
  have "NFS4CLNT_RECLAIM_REBOOT \<in> cl_state ?c1" by (simp add: delegation_mark_frame)
  then show ?thesis using r n
    unfolding nfs4_state_start_reclaim_reboot_def nfs4_state_start_reclaim_nograce_def Let_def
    by (auto simp: delegation_mark_frame reboot_flags_def nograce_flags_def reboot_marked_def nograce_marked_def)
qed

theorem start_reclaim_marks_all_witness:
  "NFS_STATE_RECLAIM_REBOOT \<in> st_flags (st_heap (nfs4_state_start_reclaim_reboot ex_owner) 6) \<and>
   NFS_STATE_RECLAIM_NOGRACE \<in> st_flags (st_heap (nfs4_state_start_reclaim_nograce ex_owner) 6)"
  using start_reclaim_marks_all [of 0 ex_owner 4 6]
  by (simp add: ex_owner_def zero_defs nfs4_valid_open_stateid_def Let_def)


lemma ex_drain: "nfs4_begin_drain_session ex_mgr_env zero_clnt =
   (fst (nfs4_begin_drain_session ex_mgr_env zero_clnt), 0)"
  by (simp add: nfs4_begin_drain_session_def zero_defs nfs4_drain_slot_tbl_def Let_def
      nfs4_init_slot_table_def zero_slot_table_def)


text \<open>
  C38: Copies whose source is recovered are not completed. When an open state is the source of a
  server-side copy, and not also the destination of one, \<open>nfs42_complete_copies\<close> completes no copy and
  leaves the state's source flag set, because the walk over the copies from this state tests the
  destination flag; and it sets the error flag of every copy of the server, related or not.
\<close>

theorem complete_copies_source_state:
  fixes c :: nfs4_clnt and sp st :: nat
  assumes "NFS_CLNT_SRC_SSC_COPY_STATE \<in> st_flags (st_heap c st)"
    and "NFS_CLNT_DST_SSC_COPY_STATE \<notin> st_flags (st_heap c st)"
  defines "c' \<equiv> nfs42_complete_copies sp st c"
  shows "(\<forall>x. copy_completed (cp_heap c' x) = copy_completed (cp_heap c x)) \<and>
    NFS_CLNT_SRC_SSC_COPY_STATE \<in> st_flags (st_heap c' st) \<and>
    (\<forall>x \<in> set (sv_ss_copies (sv_heap c (so_server (so_heap c sp)))). copy_flags (cp_heap c' x) = 1)"
proof -
  let ?s = "so_server (so_heap c sp)"
  define c1 where "c1 = fold (nfs42_complete_dst_copy st) (sv_ss_copies (sv_heap c ?s)) c"
  have c': "c' = fold (nfs42_complete_src_copy st) (sv_ss_src_copies (sv_heap c1 ?s)) c1"
    using assms by (simp add: c'_def nfs42_complete_copies_def c1_def Let_def)
  note d = fold_dst_source_only [OF assms(2), of "sv_ss_copies (sv_heap c ?s)", folded c1_def]
  then have "NFS_CLNT_DST_SSC_COPY_STATE \<notin> st_flags (st_heap c1 st)" using assms(2) by simp
  from fold_src_source_only [OF this, of "sv_ss_src_copies (sv_heap c1 ?s)"] d show ?thesis
    using assms(1) by (simp add: c')
qed

theorem complete_copies_source_state_witness:
  "let c = zero_clnt\<lparr>st_heap := (\<lambda>_. zero_state\<lparr>st_flags := {NFS_CLNT_SRC_SSC_COPY_STATE}\<rparr>),
      sv_heap := (\<lambda>_. zero_server\<lparr>sv_ss_copies := [1], sv_ss_src_copies := [2]\<rparr>)\<rparr> in
   copy_completed (cp_heap (nfs42_complete_copies 0 0 c) 2) = 0 \<and>
   copy_flags (cp_heap (nfs42_complete_copies 0 0 c) 1) = 1"
proof -
  define c where "c = zero_clnt\<lparr>st_heap := (\<lambda>_. zero_state\<lparr>st_flags := {NFS_CLNT_SRC_SSC_COPY_STATE}\<rparr>),
      sv_heap := (\<lambda>_. zero_server\<lparr>sv_ss_copies := [1], sv_ss_src_copies := [2]\<rparr>)\<rparr>"
  have "NFS_CLNT_SRC_SSC_COPY_STATE \<in> st_flags (st_heap c 0)" "NFS_CLNT_DST_SSC_COPY_STATE \<notin> st_flags (st_heap c 0)"
    by (simp_all add: c_def)
  from complete_copies_source_state [OF this, where sp = 0]
  have "copy_completed (cp_heap (nfs42_complete_copies 0 0 c) 2) = 0 \<and>
     copy_flags (cp_heap (nfs42_complete_copies 0 0 c) 1) = 1"
    by (simp add: c_def zero_defs)
  then show ?thesis by (simp add: c_def Let_def)
qed

end
