(* ===== verification/Nfs4_State_Manager.thy ===== *)
theory Nfs4_State_Manager
  imports Nfs4_Reclaim "HOL-Library.Signed_Division"
begin

text \<open>
  The lease of a client and the thread that recovers it: establishing the client id, the renewal
  work of \<open>src/mynfs/nfs4renewd.c\<close>, and from \<open>src/mynfs/nfs4state.c\<close> lease recovery, migration, the
  session reset, the status flags of SEQUENCE and the state manager. The sections of the manager's
  loop body are one definition each, in the order of the source; a section yields how the body
  goes on, \<open>None\<close> for falling through to the next section. The manager's loop may run for as long
  as a server keeps failing, so it is a partial function.
\<close>

section \<open>Renewing the lease\<close>

definition nfs4_schedule_state_renewal :: "mgr_env \<Rightarrow> nfs4_clnt \<Rightarrow> nfs4_clnt" where
  "nfs4_schedule_state_renewal e c =
     (let timeout = sint ((2 * cl_lease_time c) div 3 + cl_last_renewal c - se_jiffies (me_state e));
          timeout = (if timeout < 5 * me_HZ e then 5 * me_HZ e else timeout)
      in c\<lparr>cl_renewd := Some timeout, cl_res_state := insert NFS_CS_RENEWD (cl_res_state c)\<rparr>)"

definition nfs4_set_lease_period :: "ulong \<Rightarrow> nfs4_clnt \<Rightarrow> nfs4_clnt" where
  "nfs4_set_lease_period lease c = c\<lparr>cl_lease_time := lease\<rparr>"
  \<comment> \<open>and caps the reconnect timeout of the transport\<close>

text \<open>\<open>lease_time * HZ\<close> is a product of 32-bit unsigned numbers.\<close>

definition nfs4_setup_state_renewal :: "mgr_env \<Rightarrow> nfs4_clnt \<Rightarrow> nfs4_clnt \<times> int" where
  "nfs4_setup_state_renewal e c =
     (if NFS_CS_CHECK_LEASE_TIME \<notin> cl_res_state c then (nfs4_schedule_state_renewal e c, 0)
      else case me_get_lease_time e c of
             (c, status, lease_time) \<Rightarrow>
               if status = 0
               then (nfs4_schedule_state_renewal e
                       (nfs4_set_lease_period (ucast (lease_time * of_int (me_HZ e))) c), status)
               else (c, status))"

definition get_state_renewal_cred :: "mgr_env \<Rightarrow> nfs4_clnt \<Rightarrow> nat option" where
  "get_state_renewal_cred e c =
     (if me_minor e = 0 then nfs4_get_renew_cred c else nfs4_get_machine_cred c)"

definition nfs4_renew_state :: "mgr_env \<Rightarrow> nfs4_clnt \<Rightarrow> nfs4_clnt" where
  "nfs4_renew_state e c =
     (let k = me_kthread e; now = se_jiffies (me_state e) in
      if NFS_CS_STOP_RENEW \<in> cl_res_state c then c
      else
        let renew_timeout = time_after now (cl_last_renewal c + of_int (sint (cl_lease_time c) sdiv 3));
            renew_cb = nfs_delegations_present c in
        if renew_timeout \<or> renew_cb then
          (case get_state_renewal_cred e c of
             None \<Rightarrow>
               if \<not> renew_cb then set_cl NFS4CLNT_LEASE_EXPIRED c
               else nfs_expire_unreferenced_delegations k
                      (nfs4_schedule_state_renewal e (nfs_expire_all_delegations k c))
           | Some cred \<Rightarrow>
               (case me_sched_renewal e cred renew_timeout renew_cb c of
                  (c, ret) \<Rightarrow>
                    if ret = - EAGAIN \<or> ret = - ENOMEM
                    then nfs_expire_unreferenced_delegations k (nfs4_schedule_state_renewal e c)
                    else nfs_expire_unreferenced_delegations k c))
        else nfs_expire_unreferenced_delegations k (nfs4_schedule_state_renewal e c))"

section \<open>Establishing the client id\<close>

definition nfs4_init_clientid :: "mgr_env \<Rightarrow> nat \<Rightarrow> nfs4_clnt \<Rightarrow> nfs4_clnt \<times> int" where
  "nfs4_init_clientid e cred c =
     (let confirm = (\<lambda>c. case me_setclientid_confirm e cred c of
                           (c, status) \<Rightarrow>
                             if status \<noteq> 0 then (c, status)
                             else (fst (nfs4_setup_state_renewal e
                                          (clear_cl NFS4CLNT_LEASE_CONFIRM c)), status))
      in if NFS4CLNT_LEASE_CONFIRM \<in> cl_state c then confirm c
         else case me_setclientid e cred c of
                (c, status, clientid, conf) \<Rightarrow>
                  if status \<noteq> 0 then (c, status)
                  else confirm (set_cl NFS4CLNT_LEASE_CONFIRM
                                  (c\<lparr>cl_clientid := clientid, cl_confirm := conf\<rparr>)))"

definition nfs41_finish_session_reset :: "mgr_env \<Rightarrow> nfs4_clnt \<Rightarrow> nfs4_clnt" where
  "nfs41_finish_session_reset e c =
     (let c = clear_cl NFS4CLNT_LEASE_CONFIRM c;
          c = clear_cl NFS4CLNT_SESSION_RESET c;
          c = clear_cl NFS4CLNT_BIND_CONN_TO_SESSION c
      in fst (nfs4_setup_state_renewal e c))"

definition nfs41_init_clientid :: "mgr_env \<Rightarrow> nat \<Rightarrow> nfs4_clnt \<Rightarrow> nfs4_clnt \<times> int" where
  "nfs41_init_clientid e cred c =
     (let confirm = (\<lambda>c. case me_create_session e (Some cred) c of
                           (c, status) \<Rightarrow>
                             if status \<noteq> 0 then (c, status)
                             else
                               let c = (if \<not> cl_exchange_confirmed c
                                        then nfs4_state_start_reclaim_reboot c else c);
                                   c = nfs41_finish_session_reset e c
                               in (mynfs_mark_client_ready NFS_CS_READY c, status))
      in if NFS4CLNT_LEASE_CONFIRM \<in> cl_state c then confirm c
         else case me_exchange_id e cred c of
                (c, status) \<Rightarrow>
                  if status \<noteq> 0 then (c, status)
                  else confirm (set_cl NFS4CLNT_LEASE_CONFIRM c))"

definition nfs40_reboot_recovery_ops :: "mgr_env \<Rightarrow> recovery_ops" where
  "nfs40_reboot_recovery_ops e =
     \<lparr>owner_flag_bit = NFS_OWNER_RECLAIM_REBOOT, state_flag_bit = NFS_STATE_RECLAIM_REBOOT,
      recover_open = me_open_reclaim e, recover_lock = me_lock_reclaim e,
      establish_clid = nfs4_init_clientid e, ops_reclaim_complete = None\<rparr>"

definition nfs41_reboot_recovery_ops :: "mgr_env \<Rightarrow> recovery_ops" where
  "nfs41_reboot_recovery_ops e =
     \<lparr>owner_flag_bit = NFS_OWNER_RECLAIM_REBOOT, state_flag_bit = NFS_STATE_RECLAIM_REBOOT,
      recover_open = me_open_reclaim e, recover_lock = me_lock_reclaim e,
      establish_clid = nfs41_init_clientid e,
      ops_reclaim_complete = Some (me_reclaim_complete e)\<rparr>"

definition nfs40_nograce_recovery_ops :: "mgr_env \<Rightarrow> recovery_ops" where
  "nfs40_nograce_recovery_ops e =
     \<lparr>owner_flag_bit = NFS_OWNER_RECLAIM_NOGRACE, state_flag_bit = NFS_STATE_RECLAIM_NOGRACE,
      recover_open = me_open_expired e, recover_lock = me_lock_expired e,
      establish_clid = nfs4_init_clientid e, ops_reclaim_complete = None\<rparr>"

definition nfs41_nograce_recovery_ops :: "mgr_env \<Rightarrow> recovery_ops" where
  "nfs41_nograce_recovery_ops e =
     \<lparr>owner_flag_bit = NFS_OWNER_RECLAIM_NOGRACE, state_flag_bit = NFS_STATE_RECLAIM_NOGRACE,
      recover_open = me_open_expired e, recover_lock = me_lock_expired e,
      establish_clid = nfs41_init_clientid e, ops_reclaim_complete = None\<rparr>"

text \<open>\<open>clp->cl_mvops\<close>: the operations of the minor version.\<close>

definition reboot_recovery_ops :: "mgr_env \<Rightarrow> recovery_ops" where
  "reboot_recovery_ops e =
     (if me_minor e = 0 then nfs40_reboot_recovery_ops e else nfs41_reboot_recovery_ops e)"

definition nograce_recovery_ops :: "mgr_env \<Rightarrow> recovery_ops" where
  "nograce_recovery_ops e =
     (if me_minor e = 0 then nfs40_nograce_recovery_ops e else nfs41_nograce_recovery_ops e)"

abbreviation handle_error :: "mgr_env \<Rightarrow> int \<Rightarrow> nfs4_clnt \<Rightarrow> (nfs4_clnt \<times> int) option" where
  "handle_error e \<equiv> nfs4_recovery_handle_error e (reboot_recovery_ops e)"

section \<open>Recovering the lease\<close>

definition nfs4_check_lease :: "mgr_env \<Rightarrow> nfs4_clnt \<Rightarrow> (nfs4_clnt \<times> int) option" where
  "nfs4_check_lease e c =
     (if NFS4CLNT_LEASE_EXPIRED \<in> cl_state c then Some (c, 0)
      else
        let cred = (case get_state_renewal_cred e c of
                      Some cr \<Rightarrow> Some cr | None \<Rightarrow> nfs4_get_clid_cred c) in
        case cred of
          None \<Rightarrow> handle_error e (- ENOKEY) c
        | Some cr \<Rightarrow>
            (case me_renew_lease e cr c of
               (c, status) \<Rightarrow>
                 if status = - ETIMEDOUT then Some (set_cl NFS4CLNT_CHECK_LEASE c, 0)
                 else handle_error e status c))"

definition nfs4_handle_reclaim_lease_error :: "int \<Rightarrow> nfs4_clnt \<Rightarrow> nfs4_clnt \<times> int" where
  "nfs4_handle_reclaim_lease_error status c =
     (let expired = (\<lambda>c. (set_cl NFS4CLNT_LEASE_EXPIRED c, 0)) in
      if status = - NFS4ERR_SEQ_MISORDERED then
        (if NFS4CLNT_PURGE_STATE \<in> cl_state c then (c, - ESERVERFAULT)
         else expired (clear_cl NFS4CLNT_LEASE_CONFIRM (set_cl NFS4CLNT_PURGE_STATE c)))
      else if status = - NFS4ERR_STALE_CLIENTID
      then expired (nfs4_state_start_reclaim_reboot (clear_cl NFS4CLNT_LEASE_CONFIRM c))
      else if status = - NFS4ERR_CLID_INUSE
      then (clear_cl NFS4CLNT_LEASE_CONFIRM (mynfs_mark_client_ready (- EPERM) c), - EPERM)
      else if status \<in> {- EACCES, - NFS4ERR_DELAY, - EAGAIN} then expired c
      else if status = - NFS4ERR_MINOR_VERS_MISMATCH
      then (if cl_cons_state c = NFS_CS_SESSION_INITING
            then mynfs_mark_client_ready (- EPROTONOSUPPORT) c else c, - EPROTONOSUPPORT)
      else if status = - ENOSPC
      then (if cl_cons_state c = NFS_CS_SESSION_INITING
            then mynfs_mark_client_ready (- EIO) c else c, - EIO)
      else (c, status))"

definition nfs4_establish_lease :: "mgr_env \<Rightarrow> nfs4_clnt \<Rightarrow> nfs4_clnt \<times> int" where
  "nfs4_establish_lease e c =
     (case nfs4_begin_drain_session e c of
        (c, status) \<Rightarrow>
          if status \<noteq> 0 then (c, status)
          else case nfs4_get_clid_cred c of
                 None \<Rightarrow> (c, - ENOENT)
               | Some cred \<Rightarrow> establish_clid (reboot_recovery_ops e) cred c)"

definition nfs4_reclaim_lease :: "mgr_env \<Rightarrow> nfs4_clnt \<Rightarrow> nfs4_clnt \<times> int" where
  "nfs4_reclaim_lease e c =
     (case nfs4_establish_lease e c of
        (c, status) \<Rightarrow>
          if status < 0 then nfs4_handle_reclaim_lease_error status c
          else
            let c = (if NFS4CLNT_SERVER_SCOPE_MISMATCH \<in> cl_state c
                     then nfs4_state_start_reclaim_nograce (clear_cl NFS4CLNT_SERVER_SCOPE_MISMATCH c)
                     else c);
                c = (if NFS4CLNT_RECLAIM_NOGRACE \<notin> cl_state c
                     then set_cl NFS4CLNT_RECLAIM_REBOOT c else c);
                c = clear_cl NFS4CLNT_CHECK_LEASE c;
                c = clear_cl NFS4CLNT_LEASE_EXPIRED c
            in (c, 0))"

definition nfs4_purge_lease :: "mgr_env \<Rightarrow> nfs4_clnt \<Rightarrow> nfs4_clnt \<times> int" where
  "nfs4_purge_lease e c =
     (case nfs4_establish_lease e c of
        (c, status) \<Rightarrow>
          if status < 0 then nfs4_handle_reclaim_lease_error status c
          else
            let c = clear_cl NFS4CLNT_PURGE_STATE c;
                c = set_cl NFS4CLNT_LEASE_EXPIRED c
            in (nfs4_state_start_reclaim_nograce c, 0))"

section \<open>Migration\<close>

definition nfs4_migration_failed :: "nat \<Rightarrow> nfs4_clnt \<Rightarrow> nfs4_clnt" where
  "nfs4_migration_failed s c = upd_sv s (\<lambda>x. x\<lparr>sv_mig := (sv_mig x)\<lparr>mig_failed := True\<rparr>\<rparr>) c"

definition nfs4_try_migration :: "mgr_env \<Rightarrow> nat \<Rightarrow> nat \<Rightarrow> nfs4_clnt \<Rightarrow> nfs4_clnt \<times> int" where
  "nfs4_try_migration e cred s c =
     (let out = (\<lambda>c result. (if result \<noteq> 0 then nfs4_migration_failed s c else c, result)) in
      if \<not> me_alloc_ok e then out c 0
      else case me_get_locations e s cred c of
             (c, result, nlocations, valid) \<Rightarrow>
               if result \<noteq> 0 then out c result
               else if nlocations = 0 then out c (- NFS4ERR_NXIO)
               else if \<not> valid then out c (- NFS4ERR_NXIO)
               else case nfs4_begin_drain_session e c of
                      (c, status) \<Rightarrow>
                        if status \<noteq> 0 then out c status
                        else case me_replace_transport e s c of
                               (c, status) \<Rightarrow>
                                 if status \<noteq> 0 then out c (- NFS4ERR_NXIO) else out c 0)"

fun nfs4_migration_scan :: "nat list \<Rightarrow> nfs4_clnt \<Rightarrow> nfs4_clnt \<times> nat option" where
  "nfs4_migration_scan [] c = (c, None)"
| "nfs4_migration_scan (s # ss) c =
     (if sv_mig_gen (sv_heap c s) = cl_mig_gen c then nfs4_migration_scan ss c
      else
        let c = upd_sv s (\<lambda>x. x\<lparr>sv_mig_gen := cl_mig_gen c\<rparr>) c in
        if \<not> mig_in_transition (sv_mig (sv_heap c s)) then nfs4_migration_scan ss c
        else (upd_sv s (\<lambda>x. x\<lparr>sv_mig := (sv_mig x)\<lparr>mig_in_transition := False\<rparr>\<rparr>) c, Some s))"

partial_function (option) nfs4_migration_loop ::
  "mgr_env \<Rightarrow> nat \<Rightarrow> nfs4_clnt \<Rightarrow> (nfs4_clnt \<times> int) option" where
  "nfs4_migration_loop e cred c =
     (case nfs4_migration_scan (cl_superblocks c) c of
        (c, None) \<Rightarrow> Some (c, 0)
      | (c, Some s) \<Rightarrow>
          (case nfs4_try_migration e cred s c of
             (c, status) \<Rightarrow>
               if status < 0 then Some (c, status) else nfs4_migration_loop e cred c))"

definition nfs4_handle_migration :: "mgr_env \<Rightarrow> nfs4_clnt \<Rightarrow> (nfs4_clnt \<times> int) option" where
  "nfs4_handle_migration e c =
     (case get_state_renewal_cred e c of
        None \<Rightarrow> Some (c, - NFS4ERR_NOENT)
      | Some cred \<Rightarrow> nfs4_migration_loop e cred (c\<lparr>cl_mig_gen := cl_mig_gen c + 1\<rparr>))"

fun nfs4_lease_moved_scan :: "nat list \<Rightarrow> nfs4_clnt \<Rightarrow> nfs4_clnt \<times> nat option" where
  "nfs4_lease_moved_scan [] c = (c, None)"
| "nfs4_lease_moved_scan (s # ss) c =
     (if sv_mig_gen (sv_heap c s) = cl_mig_gen c then nfs4_lease_moved_scan ss c
      else (upd_sv s (\<lambda>x. x\<lparr>sv_mig_gen := cl_mig_gen c\<rparr>) c, Some s))"

partial_function (option) nfs4_lease_moved_loop ::
  "mgr_env \<Rightarrow> nat \<Rightarrow> nfs4_clnt \<Rightarrow> nfs4_clnt option" where
  "nfs4_lease_moved_loop e cred c =
     (case nfs4_lease_moved_scan (cl_superblocks c) c of
        (c, None) \<Rightarrow> Some c
      | (c, Some s) \<Rightarrow>
          (case me_fsid_present e s cred c of
             (c, status) \<Rightarrow>
               if status \<noteq> - NFS4ERR_MOVED then nfs4_lease_moved_loop e cred c
               else case nfs4_try_migration e cred s c of
                      (c, status) \<Rightarrow>
                        if status = - NFS4ERR_LEASE_MOVED then nfs4_lease_moved_loop e cred c
                        else Some c))"

definition nfs4_handle_lease_moved :: "mgr_env \<Rightarrow> nfs4_clnt \<Rightarrow> (nfs4_clnt \<times> int) option" where
  "nfs4_handle_lease_moved e c =
     (case get_state_renewal_cred e c of
        None \<Rightarrow> Some (c, - NFS4ERR_NOENT)
      | Some cred \<Rightarrow>
          map_option (\<lambda>c. (c, 0)) (nfs4_lease_moved_loop e cred (c\<lparr>cl_mig_gen := cl_mig_gen c + 1\<rparr>)))"

section \<open>The status flags of SEQUENCE\<close>

text \<open>The bits \<open>SEQ4_STATUS_*\<close> of RFC 8881, section 18.46.\<close>

abbreviation SEQ4_STATUS_CB_PATH_DOWN :: u32 where
  "SEQ4_STATUS_CB_PATH_DOWN \<equiv> 0x1"

abbreviation SEQ4_STATUS_EXPIRED_ALL_STATE_REVOKED :: u32 where
  "SEQ4_STATUS_EXPIRED_ALL_STATE_REVOKED \<equiv> 0x8"

abbreviation SEQ4_STATUS_EXPIRED_SOME_STATE_REVOKED :: u32 where
  "SEQ4_STATUS_EXPIRED_SOME_STATE_REVOKED \<equiv> 0x10"

abbreviation SEQ4_STATUS_ADMIN_STATE_REVOKED :: u32 where
  "SEQ4_STATUS_ADMIN_STATE_REVOKED \<equiv> 0x20"

abbreviation SEQ4_STATUS_RECALLABLE_STATE_REVOKED :: u32 where
  "SEQ4_STATUS_RECALLABLE_STATE_REVOKED \<equiv> 0x40"

abbreviation SEQ4_STATUS_LEASE_MOVED :: u32 where
  "SEQ4_STATUS_LEASE_MOVED \<equiv> 0x80"

abbreviation SEQ4_STATUS_RESTART_RECLAIM_NEEDED :: u32 where
  "SEQ4_STATUS_RESTART_RECLAIM_NEEDED \<equiv> 0x100"

abbreviation SEQ4_STATUS_CB_PATH_DOWN_SESSION :: u32 where
  "SEQ4_STATUS_CB_PATH_DOWN_SESSION \<equiv> 0x200"

abbreviation SEQ4_STATUS_BACKCHANNEL_FAULT :: u32 where
  "SEQ4_STATUS_BACKCHANNEL_FAULT \<equiv> 0x400"

unbundle bit_operations_syntax

definition nfs4_reset_all_state :: "int \<Rightarrow> nfs4_clnt \<Rightarrow> nfs4_clnt" where
  "nfs4_reset_all_state k c =
     (if NFS4CLNT_LEASE_EXPIRED \<in> cl_state c then c
      else
        let c = set_cl NFS4CLNT_LEASE_EXPIRED c;
            c = set_cl NFS4CLNT_PURGE_STATE c;
            c = clear_cl NFS4CLNT_LEASE_CONFIRM c
        in nfs4_schedule_state_manager k (nfs4_state_start_reclaim_nograce c))"

definition nfs41_handle_server_reboot :: "int \<Rightarrow> nfs4_clnt \<Rightarrow> nfs4_clnt" where
  "nfs41_handle_server_reboot k c =
     (if NFS4CLNT_LEASE_EXPIRED \<in> cl_state c then c
      else nfs4_schedule_state_manager k
             (nfs4_state_start_reclaim_reboot (set_cl NFS4CLNT_LEASE_EXPIRED c)))"

definition nfs41_handle_all_state_revoked :: "int \<Rightarrow> nfs4_clnt \<Rightarrow> nfs4_clnt" where
  "nfs41_handle_all_state_revoked k c = nfs4_reset_all_state k c"

definition nfs41_handle_some_state_revoked :: "int \<Rightarrow> nfs4_clnt \<Rightarrow> nfs4_clnt" where
  "nfs41_handle_some_state_revoked k c =
     nfs4_schedule_state_manager k (nfs4_state_start_reclaim_nograce c)"

definition nfs41_handle_recallable_state_revoked :: "mgr_env \<Rightarrow> nfs4_clnt \<Rightarrow> nfs4_clnt" where
  "nfs41_handle_recallable_state_revoked e c =
     nfs_test_expired_all_delegations (me_kthread e) (me_destroy_all_layouts e c)"

definition nfs41_handle_sequence_flag_errors :: "mgr_env \<Rightarrow> u32 \<Rightarrow> bool \<Rightarrow> nfs4_clnt \<Rightarrow> nfs4_clnt" where
  "nfs41_handle_sequence_flag_errors e flags recovery c =
     (let k = me_kthread e; when = (\<lambda>m f c. if flags AND m \<noteq> 0 then f c else c) in
      if flags = 0 then c
      else
        let c = (if recovery then c
                 else
                   let c = when SEQ4_STATUS_RESTART_RECLAIM_NEEDED (nfs41_handle_server_reboot k) c;
                       c = when SEQ4_STATUS_EXPIRED_ALL_STATE_REVOKED
                             (nfs41_handle_all_state_revoked k) c;
                       c = when (SEQ4_STATUS_EXPIRED_SOME_STATE_REVOKED OR SEQ4_STATUS_ADMIN_STATE_REVOKED)
                             (nfs41_handle_some_state_revoked k) c;
                       c = when SEQ4_STATUS_LEASE_MOVED (mynfs4_schedule_lease_moved_recovery k) c
                   in when SEQ4_STATUS_RECALLABLE_STATE_REVOKED
                        (nfs41_handle_recallable_state_revoked e) c)
        in if flags AND SEQ4_STATUS_BACKCHANNEL_FAULT \<noteq> 0 then nfs41_handle_backchannel_fault k c
           else when (SEQ4_STATUS_CB_PATH_DOWN OR SEQ4_STATUS_CB_PATH_DOWN_SESSION)
                  (nfs41_handle_cb_path_down k) c)"

section \<open>The session\<close>

definition nfs4_reset_session :: "mgr_env \<Rightarrow> nfs4_clnt \<Rightarrow> (nfs4_clnt \<times> int) option" where
  "nfs4_reset_session e c =
     (if \<not> cl_has_session c then Some (c, 0)
      else case nfs4_begin_drain_session e c of
             (c, status) \<Rightarrow>
               if status \<noteq> 0 then Some (c, status)
               else
                 let cred = nfs4_get_clid_cred c in
                 case me_destroy_session e cred c of
                   (c, status) \<Rightarrow>
                     if status \<in> {0, - NFS4ERR_BADSESSION, - NFS4ERR_DEADSESSION}
                     then case me_create_session e cred c of
                            (c, status) \<Rightarrow>
                              if status \<noteq> 0 then Some (nfs4_handle_reclaim_lease_error status c)
                              else Some (nfs41_finish_session_reset e c, status)
                     else if status \<in> {- NFS4ERR_BACK_CHAN_BUSY, - NFS4ERR_DELAY}
                     then Some (set_cl NFS4CLNT_SESSION_RESET c, 0)
                     else handle_error e status c)"

definition nfs4_bind_conn_to_session :: "mgr_env \<Rightarrow> nfs4_clnt \<Rightarrow> (nfs4_clnt \<times> int) option" where
  "nfs4_bind_conn_to_session e c =
     (if \<not> cl_has_session c then Some (c, 0)
      else case nfs4_begin_drain_session e c of
             (c, ret) \<Rightarrow>
               if ret \<noteq> 0 then Some (c, ret)
               else case me_bind_conn e (nfs4_get_clid_cred c) c of
                      (c, ret) \<Rightarrow>
                        let c = clear_cl NFS4CLNT_BIND_CONN_TO_SESSION c in
                        if ret = 0 then Some (c, 0)
                        else if ret = - NFS4ERR_DELAY
                        then Some (set_cl NFS4CLNT_BIND_CONN_TO_SESSION c, 0)
                        else handle_error e ret c)"

abbreviation IOMODE_READ :: int where
  "IOMODE_READ \<equiv> 1"

abbreviation IOMODE_RW :: int where
  "IOMODE_RW \<equiv> 2"

definition nfs4_layoutreturn_any_run :: "mgr_env \<Rightarrow> nfs4_clnt \<Rightarrow> nfs4_clnt" where
  "nfs4_layoutreturn_any_run e c =
     (let r = NFS4CLNT_RECALL_ANY_LAYOUT_READ \<in> cl_state c;
          c = clear_cl NFS4CLNT_RECALL_ANY_LAYOUT_READ c;
          w = NFS4CLNT_RECALL_ANY_LAYOUT_RW \<in> cl_state c;
          c = clear_cl NFS4CLNT_RECALL_ANY_LAYOUT_RW c;
          iomode = (if r then IOMODE_READ else 0) + (if w then IOMODE_RW else 0)
      in if iomode \<noteq> 0 then set_cl NFS4CLNT_RUN_MANAGER (me_layout_return_unused e iomode c) else c)"

section \<open>The state manager\<close>

datatype mgr_outcome = MgrContinue | MgrError int | MgrReturn

type_synonym mgr_result = "(nfs4_clnt \<times> mgr_outcome option) option"

definition mgr_then :: "mgr_result \<Rightarrow> (nfs4_clnt \<Rightarrow> mgr_result) \<Rightarrow> mgr_result" where
  "mgr_then m f = do { (c, out) \<leftarrow> m; case out of None \<Rightarrow> f c | Some _ \<Rightarrow> Some (c, out) }"

text \<open>\<open>if (status < 0) goto out_error; continue;\<close> and the variant that falls through.\<close>

definition mgr_status :: "int \<Rightarrow> mgr_outcome option" where
  "mgr_status status = Some (if status < 0 then MgrError status else MgrContinue)"

definition mgr_error :: "int \<Rightarrow> mgr_outcome option" where
  "mgr_error status = (if status < 0 then Some (MgrError status) else None)"

definition mgr_purge_state :: "mgr_env \<Rightarrow> nfs4_clnt \<Rightarrow> mgr_result" where
  "mgr_purge_state e c =
     (if NFS4CLNT_PURGE_STATE \<notin> cl_state c then Some (c, None)
      else case nfs4_purge_lease e c of (c, status) \<Rightarrow> Some (c, mgr_status status))"

definition mgr_lease_expired :: "mgr_env \<Rightarrow> nfs4_clnt \<Rightarrow> mgr_result" where
  "mgr_lease_expired e c =
     (if NFS4CLNT_LEASE_EXPIRED \<notin> cl_state c then Some (c, None)
      else case nfs4_reclaim_lease e c of (c, status) \<Rightarrow> Some (c, mgr_status status))"

definition mgr_reset_session :: "mgr_env \<Rightarrow> nfs4_clnt \<Rightarrow> mgr_result" where
  "mgr_reset_session e c =
     (if NFS4CLNT_SESSION_RESET \<notin> cl_state c then Some (c, None)
      else do {
        (c, status) \<leftarrow> nfs4_reset_session e (clear_cl NFS4CLNT_SESSION_RESET c);
        Some (c, if NFS4CLNT_LEASE_EXPIRED \<in> cl_state c then Some MgrContinue else mgr_error status)
      })"

definition mgr_bind_conn :: "mgr_env \<Rightarrow> nfs4_clnt \<Rightarrow> mgr_result" where
  "mgr_bind_conn e c =
     (if NFS4CLNT_BIND_CONN_TO_SESSION \<notin> cl_state c then Some (c, None)
      else do {
        (c, status) \<leftarrow> nfs4_bind_conn_to_session e (clear_cl NFS4CLNT_BIND_CONN_TO_SESSION c);
        Some (c, mgr_status status)
      })"

definition mgr_check_lease :: "mgr_env \<Rightarrow> nfs4_clnt \<Rightarrow> mgr_result" where
  "mgr_check_lease e c =
     (if NFS4CLNT_CHECK_LEASE \<notin> cl_state c then Some (c, None)
      else do {
        (c, status) \<leftarrow> nfs4_check_lease e (clear_cl NFS4CLNT_CHECK_LEASE c);
        Some (c, mgr_status status)
      })"

definition mgr_migration :: "mgr_env \<Rightarrow> nfs4_clnt \<Rightarrow> mgr_result" where
  "mgr_migration e c =
     (if NFS4CLNT_MOVED \<notin> cl_state c then Some (c, None)
      else do {
        (c, status) \<leftarrow> nfs4_handle_migration e (clear_cl NFS4CLNT_MOVED c);
        Some (c, mgr_error status)
      })"

definition mgr_lease_moved :: "mgr_env \<Rightarrow> nfs4_clnt \<Rightarrow> mgr_result" where
  "mgr_lease_moved e c =
     (if NFS4CLNT_LEASE_MOVED \<notin> cl_state c then Some (c, None)
      else do {
        (c, status) \<leftarrow> nfs4_handle_lease_moved e (clear_cl NFS4CLNT_LEASE_MOVED c);
        Some (c, mgr_error status)
      })"

definition mgr_reclaim_reboot :: "mgr_env \<Rightarrow> nfs4_clnt \<Rightarrow> mgr_result" where
  "mgr_reclaim_reboot e c =
     (if NFS4CLNT_RECLAIM_REBOOT \<notin> cl_state c then Some (c, None)
      else do {
        (c, status) \<leftarrow> nfs4_do_reclaim e (reboot_recovery_ops e) (reboot_recovery_ops e) c;
        let (c, status) = (if status = 0 then me_layout_handle_reboot e c else (c, status));
        if status = - EAGAIN then Some (c, Some MgrContinue)
        else if status < 0 then Some (c, Some (MgrError status))
        else do {
          c \<leftarrow> nfs4_state_end_reclaim_reboot e (reboot_recovery_ops e) c;
          Some (c, Some MgrContinue)
        }
      })"

definition mgr_delegation_expired :: "mgr_env \<Rightarrow> nfs4_clnt \<Rightarrow> mgr_result" where
  "mgr_delegation_expired e c =
     (if NFS4CLNT_DELEGATION_EXPIRED \<notin> cl_state c then Some (c, None)
      else case nfs4_begin_drain_session e (clear_cl NFS4CLNT_DELEGATION_EXPIRED c) of
             (c, status) \<Rightarrow>
               if status < 0 then Some (c, Some (MgrError status))
               else do {
                 (c, _) \<leftarrow> nfs_reap_expired_delegations (me_deleg e) c;
                 Some (c, Some MgrContinue)
               })"

definition mgr_reclaim_nograce :: "mgr_env \<Rightarrow> nfs4_clnt \<Rightarrow> mgr_result" where
  "mgr_reclaim_nograce e c =
     (if NFS4CLNT_RECLAIM_NOGRACE \<notin> cl_state c then Some (c, None)
      else do {
        (c, status) \<leftarrow> nfs4_do_reclaim e (reboot_recovery_ops e) (nograce_recovery_ops e) c;
        if status = - EAGAIN then Some (c, Some MgrContinue)
        else if status < 0 then Some (c, Some (MgrError status))
        else Some (clear_cl NFS4CLNT_RECLAIM_NOGRACE c, None)
      })"

text \<open>
  Nothing is left to recover: the manager stops draining and gives up its running bit, takes it
  again when it was asked to run meanwhile, and otherwise returns the delegations and layouts
  that were recalled.
\<close>

definition mgr_return_delegations :: "mgr_env \<Rightarrow> nfs4_clnt \<Rightarrow> nfs4_clnt option" where
  "mgr_return_delegations e c =
     (if NFS4CLNT_RECALL_RUNNING \<in> cl_state c then Some c
      else
        let c = set_cl NFS4CLNT_RECALL_RUNNING c in do {
          c \<leftarrow> (if NFS4CLNT_DELEGRETURN \<notin> cl_state c then Some c
               else do {
                 (c, _) \<leftarrow> nfs_client_return_marked_delegations (me_deleg e)
                            (se_open_recall (me_state e)) (se_lock_recall (me_state e))
                            (clear_cl NFS4CLNT_DELEGRETURN c);
                 Some (set_cl NFS4CLNT_RUN_MANAGER c)
               });
          Some (clear_cl NFS4CLNT_RECALL_RUNNING (nfs4_layoutreturn_any_run e c))
        })"

definition mgr_finish :: "mgr_env \<Rightarrow> nfs4_clnt \<Rightarrow> mgr_result" where
  "mgr_finish e c =
     (let c = nfs4_end_drain_session e c;
          c = nfs4_clear_state_manager_bit c;
          c = me_unlocked e c in
      if NFS4CLNT_RUN_MANAGER \<in> cl_state c \<and> NFS4CLNT_MANAGER_RUNNING \<notin> cl_state c
      then Some (set_cl NFS4CLNT_MANAGER_RUNNING c, Some MgrContinue)
      else map_option (\<lambda>c. (c, Some MgrReturn)) (mgr_return_delegations e c))"

definition nfs4_state_manager_body :: "mgr_env \<Rightarrow> nfs4_clnt \<Rightarrow> mgr_result" where
  "nfs4_state_manager_body e c =
     mgr_then (mgr_then (mgr_then (mgr_then (mgr_then (mgr_then (mgr_then (mgr_then (mgr_then (mgr_then
       (mgr_purge_state e (clear_cl NFS4CLNT_RUN_MANAGER c))
       (mgr_lease_expired e)) (mgr_reset_session e)) (mgr_bind_conn e)) (mgr_check_lease e))
       (mgr_migration e)) (mgr_lease_moved e)) (mgr_reclaim_reboot e)) (mgr_delegation_expired e))
       (mgr_reclaim_nograce e)) (mgr_finish e)"

definition mgr_out_drain :: "mgr_env \<Rightarrow> nfs4_clnt \<Rightarrow> nfs4_clnt" where
  "mgr_out_drain e c = nfs4_clear_state_manager_bit (nfs4_end_drain_session e c)"

partial_function (option) nfs4_state_manager :: "mgr_env \<Rightarrow> nfs4_clnt \<Rightarrow> nfs4_clnt option" where
  "nfs4_state_manager e c =
     (case nfs4_state_manager_body e c of
        None \<Rightarrow> None
      | Some (c, Some MgrReturn) \<Rightarrow> Some c
      | Some (c, Some (MgrError status)) \<Rightarrow> Some (mgr_out_drain e c)
      | Some (c, _) \<Rightarrow>
          if cl_count c > 1 \<and> \<not> me_signalled e c then nfs4_state_manager e c
          else Some (mgr_out_drain e c))"

definition mgr_may_run :: "mgr_env \<Rightarrow> nfs4_clnt \<Rightarrow> bool" where
  "mgr_may_run e c \<longleftrightarrow> cl_count c > 1 \<and> \<not> me_signalled e c \<and> NFS4CLNT_MANAGER_RUNNING \<notin> cl_state c"

definition nfs4_state_manager_exit :: "nfs4_clnt \<Rightarrow> nfs4_clnt" where
  "nfs4_state_manager_exit c = c\<lparr>cl_count := cl_count c - 1, cl_managers := cl_managers c - 1\<rparr>"

partial_function (option) nfs4_run_state_manager :: "mgr_env \<Rightarrow> nfs4_clnt \<Rightarrow> nfs4_clnt option" where
  "nfs4_run_state_manager e c =
     (case nfs4_state_manager e c of
        None \<Rightarrow> None
      | Some c \<Rightarrow>
          let avail = NFS4CLNT_MANAGER_AVAILABLE \<in> cl_state c \<and> NFS4CLNT_MANAGER_RUNNING \<notin> cl_state c;
              c = (if avail
                   then let c = me_wait_run e c
                        in if \<not> cl_swapper c then clear_cl NFS4CLNT_MANAGER_AVAILABLE c else c
                   else c) in
          if avail \<and> mgr_may_run e c
          then nfs4_run_state_manager e (set_cl NFS4CLNT_MANAGER_RUNNING c)
          else
            let c = (if avail then clear_cl NFS4CLNT_MANAGER_AVAILABLE c else c) in
            if NFS4CLNT_RUN_MANAGER \<in> cl_state c \<and> mgr_may_run e c
            then nfs4_run_state_manager e (set_cl NFS4CLNT_MANAGER_RUNNING c)
            else Some (nfs4_state_manager_exit c))"

section \<open>Waiting for recovery\<close>

definition nfs4_wait_clnt_recover :: "mgr_env \<Rightarrow> nfs4_clnt \<Rightarrow> nfs4_clnt \<times> int" where
  "nfs4_wait_clnt_recover e c =
     (case me_wait_manager e (c\<lparr>cl_count := cl_count c + 1\<rparr>) of
        (c, res) \<Rightarrow>
          (c\<lparr>cl_count := cl_count c - 1\<rparr>,
           if res \<noteq> 0 then res else if cl_cons_state c < 0 then cl_cons_state c else 0))"

fun nfs4_recover_lease_loop :: "mgr_env \<Rightarrow> nat \<Rightarrow> int \<Rightarrow> nfs4_clnt \<Rightarrow> nfs4_clnt \<times> int" where
  "nfs4_recover_lease_loop e 0 ret c = (c, ret)"
| "nfs4_recover_lease_loop e (Suc loop) ret c =
     (case nfs4_wait_clnt_recover e c of
        (c, ret) \<Rightarrow>
          if ret \<noteq> 0 then (c, ret)
          else if NFS4CLNT_LEASE_EXPIRED \<notin> cl_state c \<and> NFS4CLNT_CHECK_LEASE \<notin> cl_state c then (c, ret)
          else nfs4_recover_lease_loop e loop (- EIO) (nfs4_schedule_state_manager (me_kthread e) c))"

definition nfs4_client_recover_expired_lease :: "mgr_env \<Rightarrow> nfs4_clnt \<Rightarrow> nfs4_clnt \<times> int" where
  "nfs4_client_recover_expired_lease e c = nfs4_recover_lease_loop e 10 0 c"

section \<open>Lemmas on draining and scheduling\<close>

lemma begin_drain_simps [simp]:
  "cl_state (fst (nfs4_begin_drain_session e c)) = cl_state c"
  "cl_superblocks (fst (nfs4_begin_drain_session e c)) = cl_superblocks c"
  "sv_heap (fst (nfs4_begin_drain_session e c)) = sv_heap c"
  "cl_mig_gen (fst (nfs4_begin_drain_session e c)) = cl_mig_gen c"
  "cl_machine_cred (fst (nfs4_begin_drain_session e c)) = cl_machine_cred c"
  "cl_has_session (fst (nfs4_begin_drain_session e c)) = cl_has_session c"
  by (simp_all add: nfs4_begin_drain_session_def Let_def split: option.split prod.split)

lemma begin_drain_state: "nfs4_begin_drain_session e c = (c', r) \<Longrightarrow> cl_state c' = cl_state c"
  using begin_drain_simps(1) [of e c] by simp

lemma end_drain_state [simp]: "cl_state (nfs4_end_drain_session e c) = cl_state c"
  by (simp add: nfs4_end_drain_session_def Let_def split: option.split)

section \<open>Migration\<close>

text \<open>
  \<open>mig_frame\<close>: mounted servers and migration generations stay, and no server newly starts a
  transition.
\<close>

definition mig_frame :: "nfs4_clnt \<Rightarrow> nfs4_clnt \<Rightarrow> bool" where
  "mig_frame c c' \<longleftrightarrow>
     cl_superblocks c' = cl_superblocks c \<and> cl_mig_gen c' = cl_mig_gen c \<and>
     (\<forall>s. sv_mig_gen (sv_heap c' s) = sv_mig_gen (sv_heap c s) \<and>
          (mig_in_transition (sv_mig (sv_heap c' s)) \<longrightarrow> mig_in_transition (sv_mig (sv_heap c s))))"

definition migration_quiet :: "mgr_env \<Rightarrow> bool" where
  "migration_quiet e \<longleftrightarrow>
     (\<forall>s cred c. mig_frame c (fst (me_get_locations e s cred c))) \<and>
     (\<forall>s c. mig_frame c (fst (me_replace_transport e s c)))"

lemma mig_frame_refl [simp, intro]: "mig_frame c c"
  by (simp add: mig_frame_def)

lemma mig_frame_trans: "mig_frame a b \<Longrightarrow> mig_frame b c \<Longrightarrow> mig_frame a c"
  by (simp add: mig_frame_def)

lemma mig_frame_failed: "mig_frame c (nfs4_migration_failed s c)"
  by (simp add: mig_frame_def nfs4_migration_failed_def)

lemma try_migration_frame:
  assumes "migration_quiet e"
  shows "mig_frame c (fst (nfs4_try_migration e cred s c))"
proof -
  obtain c1 r n v where l: "me_get_locations e s cred c = (c1, r, n, v)" by (metis prod_cases4)
  obtain c2 r2 where d: "nfs4_begin_drain_session e c1 = (c2, r2)" by fastforce
  obtain c3 r3 where t: "me_replace_transport e s c2 = (c3, r3)" by fastforce
  have c1: "mig_frame c c1" using assms l by (metis fst_conv migration_quiet_def)
  have "mig_frame c1 c2" using begin_drain_simps [of e c1] d by (simp add: mig_frame_def)
  note c2 = mig_frame_trans [OF c1 this]
  have "mig_frame c2 c3" using assms t by (metis fst_conv migration_quiet_def)
  note c3 = mig_frame_trans [OF c2 this]
  show ?thesis
    using c1 c2 c3 mig_frame_trans [OF c1 mig_frame_failed] mig_frame_trans [OF c2 mig_frame_failed]
      mig_frame_trans [OF c3 mig_frame_failed]
    by (simp add: nfs4_try_migration_def Let_def l d t)
qed

text \<open>The servers a walk still has to visit.\<close>

definition mig_todo :: "nfs4_clnt \<Rightarrow> nat set" where
  "mig_todo c = {s \<in> set (cl_superblocks c). sv_mig_gen (sv_heap c s) \<noteq> cl_mig_gen c}"

definition mig_seen :: "nfs4_clnt \<Rightarrow> bool" where
  "mig_seen c \<longleftrightarrow> (\<forall>s \<in> set (cl_superblocks c). sv_mig_gen (sv_heap c s) = cl_mig_gen c \<longrightarrow>
      \<not> mig_in_transition (sv_mig (sv_heap c s)))"

lemma migration_scan_post:
  assumes "nfs4_migration_scan ss c = (c', r)" "set ss \<subseteq> set (cl_superblocks c)" "mig_seen c"
  shows "cl_superblocks c' = cl_superblocks c \<and> cl_mig_gen c' = cl_mig_gen c \<and> mig_seen c' \<and>
    mig_todo c' \<subseteq> mig_todo c \<and>
    (case r of None \<Rightarrow> mig_todo c' \<inter> set ss = {} | Some s \<Rightarrow> s \<in> mig_todo c - mig_todo c')"
  using assms
proof (induction ss arbitrary: c)
  case (Cons s ss)
  let ?c = "upd_sv s (\<lambda>x. x\<lparr>sv_mig_gen := cl_mig_gen c\<rparr>) c"
  let ?t = "upd_sv s (\<lambda>x. x\<lparr>sv_mig := (sv_mig x)\<lparr>mig_in_transition := False\<rparr>\<rparr>) ?c"
  consider (seen) "sv_mig_gen (sv_heap c s) = cl_mig_gen c" "nfs4_migration_scan ss c = (c', r)"
    | (calm) "sv_mig_gen (sv_heap c s) \<noteq> cl_mig_gen c" "\<not> mig_in_transition (sv_mig (sv_heap c s))"
        "nfs4_migration_scan ss ?c = (c', r)"
    | (pick) "sv_mig_gen (sv_heap c s) \<noteq> cl_mig_gen c" "c' = ?t" "r = Some s"
    using Cons.prems(1) by (auto simp: Let_def split: if_splits)
  then show ?case
  proof cases
    case seen
    then show ?thesis using Cons.IH [OF seen(2)] Cons.prems
      by (auto simp: mig_todo_def split: option.splits)
  next
    case calm
    have "mig_seen ?c" "mig_todo ?c = mig_todo c - {s}"
      using calm Cons.prems by (auto simp: mig_seen_def mig_todo_def split: if_splits)
    then show ?thesis using Cons.IH [OF calm(3)] Cons.prems calm(1)
      by (auto split: option.splits)
  next
    case pick
    then show ?thesis using Cons.prems by (auto simp: mig_seen_def mig_todo_def split: if_splits)
  qed
qed simp

lemma mig_frame_todo: "mig_frame c c' \<Longrightarrow> mig_todo c' = mig_todo c"
  by (simp add: mig_frame_def mig_todo_def)

lemma mig_frame_seen: "mig_frame c c' \<Longrightarrow> mig_seen c \<Longrightarrow> mig_seen c'"
  by (auto simp: mig_frame_def mig_seen_def)

lemma migration_loop_returns:
  assumes quiet: "migration_quiet e" and "mig_seen c"
  shows "\<exists>c' status. nfs4_migration_loop e cred c = Some (c', status) \<and> cl_superblocks c' = cl_superblocks c \<and>
    (status = 0 \<longrightarrow> mig_seen c' \<and> mig_todo c' = {})"
  using assms(2)
proof (induction "card (mig_todo c)" arbitrary: c rule: less_induct)
  case less
  obtain c1 r where scan: "nfs4_migration_scan (cl_superblocks c) c = (c1, r)" by fastforce
  note post = migration_scan_post [OF scan subset_refl less.prems]
  show ?case
  proof (cases r)
    case None
    then have "mig_todo c1 = {}" using post by (auto simp: mig_todo_def)
    then show ?thesis using post None
      by (subst nfs4_migration_loop.simps) (simp add: scan)
  next
    case (Some s)
    obtain c2 status where t: "nfs4_try_migration e cred s c1 = (c2, status)" by fastforce
    have fr: "mig_frame c1 c2" using try_migration_frame [OF quiet, of c1 cred s] t by simp
    have "mig_todo c2 \<subset> mig_todo c" using post Some mig_frame_todo [OF fr] by auto
    then have lt: "card (mig_todo c2) < card (mig_todo c)"
      by (rule psubset_card_mono [rotated]) (simp add: mig_todo_def)
    have seen: "mig_seen c2" using mig_frame_seen [OF fr] post by blast
    have sb: "cl_superblocks c2 = cl_superblocks c" using fr post by (simp add: mig_frame_def)
    have eq: "nfs4_migration_loop e cred c = (if status < 0 then Some (c2, status) else nfs4_migration_loop e cred c2)"
      by (subst nfs4_migration_loop.simps) (simp add: scan Some t)
    show ?thesis
    proof (cases "status < 0")
      case False
      then show ?thesis using eq less.hyps [OF lt seen] sb by simp
    qed (use eq sb in simp)
  qed
qed

section \<open>The time of the next renewal\<close>

lemma renewal_timeout:
  fixes L l j :: ulong
  assumes "unat L < 2 ^ 61" "unat (j - l) < 2 ^ 62"
  shows "sint ((2 * L) div 3 + l - j) = int (2 * unat L div 3) - int (unat (j - l))"
proof -
  have two: "unat (2 * L) = 2 * unat L" using assms(1) by (simp add: unat_word_ariths)
  have a: "unat ((2 * L) div 3) = 2 * unat L div 3" by (simp add: unat_div two)
  have lt: "unat ((2 * L) div 3) < 2 ^ 62" unfolding a using assms(1) by simp
  have "(2 * L) div 3 + l - j = (2 * L) div 3 - (j - l)" by (simp add: algebra_simps)
  then show ?thesis using sint_diff_small [OF lt assms(2)] unfolding a by (simp only:)
qed

text \<open>The flags that give the manager work, apart from the session reset.\<close>

definition mgr_work :: "nfs4_client_state set" where
  "mgr_work = {NFS4CLNT_PURGE_STATE, NFS4CLNT_LEASE_EXPIRED, NFS4CLNT_BIND_CONN_TO_SESSION, NFS4CLNT_CHECK_LEASE,
     NFS4CLNT_MOVED, NFS4CLNT_LEASE_MOVED, NFS4CLNT_RECLAIM_REBOOT, NFS4CLNT_DELEGATION_EXPIRED,
     NFS4CLNT_RECLAIM_NOGRACE, NFS4CLNT_DELEGRETURN, NFS4CLNT_RECALL_ANY_LAYOUT_READ,
     NFS4CLNT_RECALL_ANY_LAYOUT_RW}"

lemma mgr_then_simps [simp]:
  "mgr_then (Some (c, None)) f = f c" "mgr_then (Some (c, Some x)) f = Some (c, Some x)"
  by (simp_all add: mgr_then_def)

lemma return_delegations_idle:
  assumes "cl_state c \<inter> mgr_work = {}"
  shows "\<exists>c'. mgr_return_delegations e c = Some c' \<and> cl_state c' = cl_state c"
  using assms
  by (auto simp: mgr_return_delegations_def nfs4_layoutreturn_any_run_def mgr_work_def Let_def)

section \<open>Which flags starting a recovery raises\<close>

definition adds_flags :: "nfs4_client_state set \<Rightarrow> nfs4_clnt \<Rightarrow> nfs4_clnt \<Rightarrow> bool" where
  "adds_flags F c c' \<longleftrightarrow> cl_state c \<subseteq> cl_state c' \<and> cl_state c' \<subseteq> cl_state c \<union> F"

lemma adds_flags_refl [simp, intro]: "adds_flags F c c"
  by (simp add: adds_flags_def)

lemma adds_flags_trans: "adds_flags F a b \<Longrightarrow> adds_flags F b c \<Longrightarrow> adds_flags F a c"
  by (auto simp: adds_flags_def)

lemma fold_adds: "(\<And>x c. x \<in> set xs \<Longrightarrow> adds_flags F c (f x c)) \<Longrightarrow> adds_flags F c (fold f xs c)"
  by (rule fold_preorder [where R = "adds_flags F"], rule adds_flags_refl, erule (1) adds_flags_trans)

lemma helper_adds:
  assumes "\<And>st c. adds_flags F c (fst (mark st c))"
  shows "adds_flags F c (nfs4_state_mark_reclaim_helper mark c)"
proof -
  have st: "adds_flags F c (nfs4_reset_state mark st c)" for st c
    using assms [of c st] by (auto simp: nfs4_reset_state_def adds_flags_def split: prod.split)
  have so: "adds_flags F c (nfs4_reset_owner mark sp c)" for sp c
  proof -
    have "adds_flags F c (upd_so sp (\<lambda>x. x\<lparr>so_seqid := (so_seqid x)\<lparr>seqid_confirmed := False\<rparr>\<rparr>) c)"
      by (simp add: adds_flags_def)
    then show ?thesis unfolding nfs4_reset_owner_def Let_def
      by (rule adds_flags_trans) (rule fold_adds [OF st])
  qed
  show ?thesis unfolding nfs4_state_mark_reclaim_helper_def nfs4_reset_seqids_def
    by (rule fold_adds, rule fold_adds, rule so)
qed

lemma start_reclaim_nograce_adds:
  "adds_flags {NFS4CLNT_RECLAIM_NOGRACE, NFS4CLNT_DELEGATION_EXPIRED} c (nfs4_state_start_reclaim_nograce c)"
proof -
  let ?F = "{NFS4CLNT_RECLAIM_NOGRACE, NFS4CLNT_DELEGATION_EXPIRED}"
  have "adds_flags ?F c (nfs_mark_test_expired_all_delegations c)"
    unfolding nfs_mark_test_expired_all_delegations_def nfs_delegation_mark_test_expired_server_def
    by (rule fold_adds, rule fold_adds) (auto simp: adds_flags_def nfs_mark_test_expired_delegation_def Let_def)
  then show ?thesis unfolding nfs4_state_start_reclaim_nograce_def
    by (rule adds_flags_trans)
       (rule helper_adds, auto simp: adds_flags_def nfs4_state_mark_reclaim_nograce_def Let_def)
qed

section \<open>Properties\<close>

text \<open>
  C30: When the lease is renewed next. As long as the lease period and the time since the last
  renewal are far below the range of the clock, which may have wrapped around in between, the
  renewal work is queued for two thirds of the lease period after the last renewal, but never
  earlier than five seconds from now.
\<close>

theorem schedule_state_renewal_time:
  assumes "unat (cl_lease_time c) < 2 ^ 61" "unat (se_jiffies (me_state e) - cl_last_renewal c) < 2 ^ 62"
  shows "cl_renewd (nfs4_schedule_state_renewal e c) =
    Some (max (5 * me_HZ e)
           (int (2 * unat (cl_lease_time c) div 3) - int (unat (se_jiffies (me_state e) - cl_last_renewal c))))"
  by (simp only: nfs4_schedule_state_renewal_def Let_def renewal_timeout [OF assms]) (simp add: max_def)

theorem schedule_state_renewal_time_witness:
  "cl_renewd (nfs4_schedule_state_renewal ex_mgr_env (zero_clnt\<lparr>cl_last_renewal := - 500\<rparr>)) = Some 58500"
  using schedule_state_renewal_time [of "zero_clnt\<lparr>cl_last_renewal := - 500\<rparr>" ex_mgr_env]
  by (simp add: zero_defs ex_mgr_env_def ex_state_env_def)



text \<open>
  C39: A delayed session reset is left pending. When the server answers the DESTROY_SESSION of a
  session reset with a delay, \<open>nfs4_reset_session\<close> raises the reset flag again to retry; but with no
  other recovery to do the state manager then goes through to its end and returns with the reset
  flag still set, without a running manager and without a request to run one.
\<close>

theorem delayed_session_reset_pending:
  assumes work: "NFS4CLNT_SESSION_RESET \<in> cl_state c" "cl_state c \<inter> mgr_work = {}" "cl_has_session c"
    and drain: "nfs4_begin_drain_session e
      (clear_cl NFS4CLNT_SESSION_RESET (clear_cl NFS4CLNT_RUN_MANAGER c)) = (c1, 0)"
    and delay: "me_destroy_session e (nfs4_get_clid_cred c1) c1 = (c1, - NFS4ERR_DELAY)"
    and alone: "me_unlocked e = id" 
  shows "\<exists>c'. nfs4_state_manager e c = Some c' \<and> NFS4CLNT_SESSION_RESET \<in> cl_state c' \<and>
    NFS4CLNT_RUN_MANAGER \<notin> cl_state c' \<and> NFS4CLNT_MANAGER_RUNNING \<notin> cl_state c'"
proof -
  have st: "cl_state c1 = cl_state c - {NFS4CLNT_RUN_MANAGER} - {NFS4CLNT_SESSION_RESET}"
    using begin_drain_state [OF drain] by simp
  note w = work(2) [unfolded mgr_work_def]
  let ?c2 = "set_cl NFS4CLNT_SESSION_RESET c1"
  have reset: "nfs4_reset_session e (clear_cl NFS4CLNT_SESSION_RESET (clear_cl NFS4CLNT_RUN_MANAGER c)) = Some (?c2, 0)"
    using work(3) by (simp add: nfs4_reset_session_def drain delay Let_def)
  have body: "nfs4_state_manager_body e c = mgr_finish e ?c2"
    using w work(1) st
    by (simp add: nfs4_state_manager_body_def mgr_purge_state_def mgr_lease_expired_def mgr_reset_session_def
        reset mgr_error_def mgr_bind_conn_def mgr_check_lease_def mgr_migration_def mgr_lease_moved_def
        mgr_reclaim_reboot_def mgr_delegation_expired_def mgr_reclaim_nograce_def)
  let ?c3 = "nfs4_clear_state_manager_bit (nfs4_end_drain_session e ?c2)"
  have st3: "cl_state ?c3 = insert NFS4CLNT_SESSION_RESET (cl_state c - {NFS4CLNT_RUN_MANAGER, NFS4CLNT_MANAGER_RUNNING})"
    using st by (auto simp: nfs4_clear_state_manager_bit_def)
  have "cl_state ?c3 \<inter> mgr_work = {}" using work(2) unfolding st3 by (auto simp: mgr_work_def)
  then obtain c' where "mgr_return_delegations e ?c3 = Some c'" and c': "cl_state c' = cl_state ?c3"
    using return_delegations_idle by blast
  then have fin: "mgr_finish e ?c2 = Some (c', Some MgrReturn)"
    using st3 by (simp add: mgr_finish_def alone Let_def)
  show ?thesis
    by (subst nfs4_state_manager.simps) (simp add: body fin c' st3)
qed

theorem delayed_session_reset_pending_witness:
  "\<exists>c'. nfs4_state_manager ex_mgr_env
      (zero_clnt\<lparr>cl_state := {NFS4CLNT_MANAGER_RUNNING, NFS4CLNT_SESSION_RESET}\<rparr>) = Some c' \<and>
    NFS4CLNT_SESSION_RESET \<in> cl_state c' \<and> NFS4CLNT_RUN_MANAGER \<notin> cl_state c'"
proof -
  let ?c = "zero_clnt\<lparr>cl_state := {NFS4CLNT_MANAGER_RUNNING, NFS4CLNT_SESSION_RESET}\<rparr>"
  let ?r = "nfs4_begin_drain_session ex_mgr_env (clear_cl NFS4CLNT_SESSION_RESET (clear_cl NFS4CLNT_RUN_MANAGER ?c))"
  have "snd ?r = 0"
    by (simp add: nfs4_begin_drain_session_def zero_defs nfs4_drain_slot_tbl_def Let_def
        nfs4_init_slot_table_def zero_slot_table_def clear_cl_def)
  then have drain: "?r = (fst ?r, 0)" by (simp add: prod_eq_iff)
  have "NFS4CLNT_SESSION_RESET \<in> cl_state ?c" "cl_state ?c \<inter> mgr_work = {}" "cl_has_session ?c"
    by (simp_all add: mgr_work_def zero_defs)
  from delayed_session_reset_pending [OF this drain] show ?thesis
    by (auto simp: ex_mgr_env_def id_def)
qed

text \<open>
  A caller that waits for the lease sees a good one. \<open>nfs4_client_recover_expired_lease\<close> waits at
  most ten times for the state manager and reports success only when the client is usable and
  its lease is neither expired nor waiting to be checked; when the lease still is after the last
  wait it reports \<open>EIO\<close>.
\<close>

lemma client_recover_expired_lease_ok:
  assumes "nfs4_client_recover_expired_lease e c = (c', ret)"
  shows "(ret = 0 \<longrightarrow> NFS4CLNT_LEASE_EXPIRED \<notin> cl_state c' \<and> NFS4CLNT_CHECK_LEASE \<notin> cl_state c' \<and>
      0 \<le> cl_cons_state c') \<and>
    (ret \<noteq> 0 \<longrightarrow> ret = - EIO \<or> ret = cl_cons_state c' \<or> (\<exists>c. snd (me_wait_manager e c) = ret))"
proof -
  have "(ret = 0 \<longrightarrow> NFS4CLNT_LEASE_EXPIRED \<notin> cl_state c' \<and> NFS4CLNT_CHECK_LEASE \<notin> cl_state c' \<and>
      0 \<le> cl_cons_state c') \<and>
    (ret \<noteq> 0 \<longrightarrow> ret = - EIO \<or> ret = cl_cons_state c' \<or> (\<exists>c. snd (me_wait_manager e c) = ret))"
    if "nfs4_recover_lease_loop e n r0 c = (c', ret)" "n = 0 \<longrightarrow> r0 = - EIO" for n r0 c
    using that
  proof (induction n arbitrary: r0 c)
    case (Suc n)
    obtain c1 r1 where w: "nfs4_wait_clnt_recover e c = (c1, r1)" by fastforce
    have r1: "r1 = 0 \<longrightarrow> 0 \<le> cl_cons_state c1"
      "r1 \<noteq> 0 \<longrightarrow> r1 = cl_cons_state c1 \<or> (\<exists>c. snd (me_wait_manager e c) = r1)"
      using w by (auto simp: nfs4_wait_clnt_recover_def split: prod.splits if_splits) (metis snd_conv)+
    show ?case
    proof (cases "r1 \<noteq> 0 \<or> NFS4CLNT_LEASE_EXPIRED \<notin> cl_state c1 \<and> NFS4CLNT_CHECK_LEASE \<notin> cl_state c1")
      case True
      then have "c' = c1" "ret = r1" using Suc.prems(1) w by (auto split: if_splits)
      then show ?thesis using True r1 by auto
    next
      case False
      then show ?thesis using Suc.IH Suc.prems(1) w by (auto split: if_splits)
    qed
  qed simp
  from this [of 10 0 c] show ?thesis using assms by (simp add: nfs4_client_recover_expired_lease_def)
qed


lemma ex_establish:
  "nfs4_establish_lease ex_mgr_env zero_clnt = (fst (nfs4_establish_lease ex_mgr_env zero_clnt), 0)"
proof -
  obtain c1 where d: "nfs4_begin_drain_session ex_mgr_env zero_clnt = (c1, 0)" using ex_drain by metis
  have "cl_machine_cred zero_clnt = Some 0" by (simp add: zero_clnt_def)
  then have "cl_machine_cred c1 = Some 0" using begin_drain_simps(5) [of ex_mgr_env zero_clnt] d by simp
  moreover have "me_minor ex_mgr_env = 1" "me_exchange_id ex_mgr_env = (\<lambda>_ c. (c, 0))"
    "me_create_session ex_mgr_env = (\<lambda>_ c. (c, 0))" by (simp_all add: ex_mgr_env_def)
  ultimately have "snd (nfs4_establish_lease ex_mgr_env zero_clnt) = 0"
    by (simp add: nfs4_establish_lease_def d nfs4_get_clid_cred_def nfs4_get_machine_cred_def
        reboot_recovery_ops_def nfs41_reboot_recovery_ops_def nfs41_init_clientid_def Let_def)
  then show ?thesis by (simp add: prod_eq_iff)
qed


end
