(* ===== verification/Nfs4_Sequence.thy ===== *)
theory Nfs4_Sequence
  imports Nfs4_State_Manager
begin

text \<open>
  The SEQUENCE bookkeeping of a compound (\<open>src/mynfs/nfs4proc.c\<close>, \<open>do_renew_lease\<close> to
  \<open>mynfs4_setup_sequence\<close>): attaching a slot to a task before it is sent, and processing the reply,
  which decides about the slot's sequence number, the lease, recovery and whether the task is sent
  again. The slot table is that of the fore channel, or the client's own for minor version 0.

  The RPC layer's decision to let a task be sent again (\<open>rpc_restart_call_prepare\<close>,
  \<open>rpc_restart_call\<close>) and the lone SEQUENCE that \<open>nfs4_probe_sequence\<close> sends are parameters.
\<close>

section \<open>Data\<close>

record seq_env =
  sq_mgr :: mgr_env
  sq_restart_prepare :: bool
  sq_restart :: bool
  sq_probe :: "nat \<Rightarrow> u32 \<Rightarrow> nfs4_clnt \<Rightarrow> nfs4_clnt"

abbreviation sq_slot :: "seq_env \<Rightarrow> slot_env" where
  "sq_slot e \<equiv> me_slot (sq_mgr e)"

text \<open>The task around the SEQUENCE: its status, what is sent, and how often it was started again.\<close>

record rpc_call =
  rc_seq :: seq_task
  tk_status :: int
  tk_was_sent :: bool
  tk_lone_sequence :: bool
  tk_cred :: nat
  tk_restarts :: nat
  tk_delays :: nat

definition seq_tbl :: "nfs4_clnt \<Rightarrow> nfs4_slot_table" where
  "seq_tbl c =
     (if cl_has_session c then fc_slot_table (cl_session c)
      else case cl_slot_tbl c of Some tbl \<Rightarrow> tbl | None \<Rightarrow> zero_slot_table)"

definition upd_tbl :: "(nfs4_slot_table \<Rightarrow> nfs4_slot_table) \<Rightarrow> nfs4_clnt \<Rightarrow> nfs4_clnt" where
  "upd_tbl f c =
     (if cl_has_session c then c\<lparr>cl_session := (cl_session c)\<lparr>fc_slot_table := f (fc_slot_table (cl_session c))\<rparr>\<rparr>
      else c\<lparr>cl_slot_tbl := map_option f (cl_slot_tbl c)\<rparr>)"

definition zero_slot :: "u32 \<Rightarrow> nfs4_slot" where
  "zero_slot n = \<lparr>slot_generation = 0, slot_nr = n, seq_nr = 0, seq_nr_last_acked = 0,
     seq_nr_highest_sent = 0, privileged = False, seq_done = False\<rparr>"

definition the_slot :: "nfs4_clnt \<Rightarrow> u32 \<Rightarrow> nfs4_slot" where
  "the_slot c n = (case get_slot (seq_tbl c) n of Some s \<Rightarrow> s | None \<Rightarrow> zero_slot n)"

definition upd_sl :: "u32 \<Rightarrow> (nfs4_slot \<Rightarrow> nfs4_slot) \<Rightarrow> nfs4_clnt \<Rightarrow> nfs4_clnt" where
  "upd_sl n f = upd_tbl (upd_slot n f)"

definition set_sr_slot :: "u32 option \<Rightarrow> rpc_call \<Rightarrow> rpc_call" where
  "set_sr_slot s t = t\<lparr>rc_seq := (rc_seq t)\<lparr>sr_slot := s\<rparr>\<rparr>"

section \<open>The lease\<close>

definition do_renew_lease :: "ulong \<Rightarrow> nfs4_clnt \<Rightarrow> nfs4_clnt" where
  "do_renew_lease timestamp c =
     (if time_before (cl_last_renewal c) timestamp then c\<lparr>cl_last_renewal := timestamp\<rparr> else c)"

definition renew_lease :: "ulong \<Rightarrow> nfs4_clnt \<Rightarrow> nfs4_clnt" where
  "renew_lease timestamp c = (if \<not> cl_has_session c then do_renew_lease timestamp c else c)"

section \<open>Releasing slots\<close>

definition nfs4_init_sequence :: "bool \<Rightarrow> bool \<Rightarrow> seq_task \<Rightarrow> seq_task" where
  "nfs4_init_sequence cache_reply priv t =
     t\<lparr>sa_slot := None, sa_cache_this := cache_reply, sa_privileged := priv, sr_slot := None\<rparr>"

definition nfs40_sequence_free_slot :: "seq_env \<Rightarrow> rpc_call \<Rightarrow> nfs4_clnt \<Rightarrow> nfs4_clnt \<times> rpc_call" where
  "nfs40_sequence_free_slot e t c =
     (case sr_slot (rc_seq t) of
        None \<Rightarrow> (c, t)
      | Some n \<Rightarrow>
          (upd_tbl (\<lambda>tbl. case nfs41_wake_and_assign_slot (sq_slot e) tbl n of
                            (tbl, woke) \<Rightarrow> if woke then tbl else nfs4_free_slot tbl n) c,
           set_sr_slot None t))"

definition nfs40_sequence_done :: "seq_env \<Rightarrow> rpc_call \<Rightarrow> nfs4_clnt \<Rightarrow> nfs4_clnt \<times> rpc_call \<times> bool" where
  "nfs40_sequence_done e t c =
     (case (if sr_slot (rc_seq t) \<noteq> None then nfs40_sequence_free_slot e t c else (c, t)) of
        (c, t) \<Rightarrow> (c, t, True))"

text \<open>\<open>nfs41_release_slot\<close> on the table, with the decision to notify the server.\<close>

definition nfs41_release_slot_tbl :: "slot_env \<Rightarrow> u32 \<Rightarrow> nfs4_slot_table \<Rightarrow> nfs4_slot_table \<times> bool" where
  "nfs41_release_slot_tbl e n tbl =
     (let tbl = upd_slot n (\<lambda>s. s\<lparr>seq_nr := if seq_done s then seq_nr s + 1 else seq_nr s, seq_done := False\<rparr>) tbl;
          send = highest_used_slotid tbl > target_highest_slotid tbl in
      case nfs41_wake_and_assign_slot e tbl n of
        (tbl, woke) \<Rightarrow>
          if woke then (tbl, False)
          else
            let tbl = nfs4_free_slot tbl n
            in (tbl, send \<and> highest_used_slotid tbl = NFS4_NO_SLOT))"

definition nfs41_release_slot :: "seq_env \<Rightarrow> u32 option \<Rightarrow> nfs4_clnt \<Rightarrow> nfs4_clnt" where
  "nfs41_release_slot e slot c =
     (case slot of
        None \<Rightarrow> c
      | Some n \<Rightarrow>
          (case nfs41_release_slot_tbl (sq_slot e) n (seq_tbl c) of
             (tbl, send) \<Rightarrow>
               let c = upd_tbl (\<lambda>_. tbl) c
               in if send then nfs41_notify_server (me_kthread (sq_mgr e)) c else c))"

definition nfs41_sequence_free_slot :: "seq_env \<Rightarrow> rpc_call \<Rightarrow> nfs4_clnt \<Rightarrow> nfs4_clnt \<times> rpc_call" where
  "nfs41_sequence_free_slot e t c = (nfs41_release_slot e (sr_slot (rc_seq t)) c, set_sr_slot None t)"

section \<open>Processing a reply\<close>

definition nfs4_slot_sequence_record_sent :: "u32 \<Rightarrow> nfs4_slot \<Rightarrow> nfs4_slot" where
  "nfs4_slot_sequence_record_sent seqnr s =
     (if 0 < sint (seqnr - seq_nr_highest_sent s) then s\<lparr>seq_nr_highest_sent := seqnr\<rparr> else s)"

definition nfs4_slot_sequence_acked :: "u32 \<Rightarrow> nfs4_slot \<Rightarrow> nfs4_slot" where
  "nfs4_slot_sequence_acked seqnr s = (nfs4_slot_sequence_record_sent seqnr s)\<lparr>seq_nr_last_acked := seqnr\<rparr>"

text \<open>The ends of \<open>nfs41_sequence_process\<close>; the last result is its return value.\<close>

definition seq_session_recover ::
  "seq_env \<Rightarrow> int \<Rightarrow> rpc_call \<Rightarrow> nfs4_clnt \<Rightarrow> nfs4_clnt \<times> rpc_call \<times> bool" where
  "seq_session_recover e status t c =
     (let c = upd_tbl (\<lambda>tbl. tbl\<lparr>slot_tbl_draining := True\<rparr>) c;
          c = mynfs4_schedule_session_recovery (me_kthread (sq_mgr e)) c status
      in case nfs41_sequence_free_slot e t c of (c, t) \<Rightarrow> (c, t, True))"

definition seq_retry_nowait :: "seq_env \<Rightarrow> rpc_call \<Rightarrow> nfs4_clnt \<Rightarrow> nfs4_clnt \<times> rpc_call \<times> bool" where
  "seq_retry_nowait e t c =
     (if sq_restart_prepare e
      then case nfs41_sequence_free_slot e (t\<lparr>tk_restarts := tk_restarts t + 1\<rparr>) c of
             (c, t) \<Rightarrow> (c, t\<lparr>tk_status := 0\<rparr>, False)
      else (c, t, True))"

definition seq_out_retry :: "seq_env \<Rightarrow> rpc_call \<Rightarrow> nfs4_clnt \<Rightarrow> nfs4_clnt \<times> rpc_call \<times> bool" where
  "seq_out_retry e t c =
     (if \<not> sq_restart e then (c, t, True)
      else (c, t\<lparr>tk_restarts := tk_restarts t + 1, tk_delays := tk_delays t + 1\<rparr>, False))"

definition seq_ok :: "seq_env \<Rightarrow> u32 \<Rightarrow> rpc_call \<Rightarrow> nfs4_clnt \<Rightarrow> nfs4_clnt \<times> rpc_call \<times> bool" where
  "seq_ok e n t c =
     (let c = upd_sl n (\<lambda>s. (nfs4_slot_sequence_acked (seq_nr s) s)\<lparr>seq_done := True\<rparr>) c;
          c = do_renew_lease (sr_timestamp (rc_seq t)) c;
          c = nfs41_handle_sequence_flag_errors (sq_mgr e) (sr_status_flags (rc_seq t))
                (privileged (the_slot c n)) c;
          c = upd_tbl (\<lambda>tbl. nfs41_update_target_slotid (sq_slot e) tbl (the_slot c n) (rc_seq t)) c
      in (c, t, True))"

definition seq_misordered :: "seq_env \<Rightarrow> u32 \<Rightarrow> rpc_call \<Rightarrow> nfs4_clnt \<Rightarrow> nfs4_clnt \<times> rpc_call \<times> bool" where
  "seq_misordered e n t c =
     (let c = upd_sl n (\<lambda>s. nfs4_slot_sequence_record_sent (seq_nr s) s) c;
          slot = the_slot c n in
      if sint (seq_nr slot - seq_nr_last_acked slot) > 1
      then
        let c = upd_sl n (\<lambda>s. s\<lparr>seq_nr := seq_nr s - 1\<rparr>) c in
        if \<not> tk_lone_sequence t
        then seq_retry_nowait e (set_sr_slot None t) (sq_probe e (tk_cred t) n c)
        else seq_retry_nowait e t c
      else seq_out_retry e t (upd_sl n (\<lambda>s. s\<lparr>seq_nr := seq_nr_highest_sent s\<rparr>) c))"

definition nfs41_sequence_process ::
  "seq_env \<Rightarrow> rpc_call \<Rightarrow> nfs4_clnt \<Rightarrow> nfs4_clnt \<times> rpc_call \<times> bool" where
  "nfs41_sequence_process e t c =
     (case sr_slot (rc_seq t) of
        None \<Rightarrow> (c, t, True)
      | Some n \<Rightarrow>
          if \<not> tk_was_sent t \<or> seq_done (the_slot c n) then (c, t, True)
          else
            let status = (if tk_status t = - NFS4ERR_DEADSESSION then - NFS4ERR_DEADSESSION
                          else sr_status (rc_seq t));
                acked = upd_sl n (\<lambda>s. nfs4_slot_sequence_acked (seq_nr s) s);
                sent = upd_sl n (\<lambda>s. nfs4_slot_sequence_record_sent (seq_nr s) s) in
            if status = 0 then seq_ok e n t c
            else if status = 1 then (upd_sl n (\<lambda>s. s\<lparr>seq_done := True\<rparr>) (sent c), t, True)
            else if status = - NFS4ERR_DELAY then seq_out_retry e t c
            else if status = - NFS4ERR_RETRY_UNCACHED_REP \<or> status = - NFS4ERR_SEQ_FALSE_RETRY
            then seq_retry_nowait e t (upd_sl n (\<lambda>s. s\<lparr>seq_nr := seq_nr s + 1\<rparr>) (acked c))
            else if status = - NFS4ERR_BADSLOT
            then (if n < target_highest_slotid (seq_tbl c) then seq_session_recover e status t c
                  else seq_retry_nowait e t c)
            else if status = - NFS4ERR_SEQ_MISORDERED then seq_misordered e n t c
            else if status \<in> {- NFS4ERR_BADSESSION, - NFS4ERR_DEADSESSION, - NFS4ERR_CONN_NOT_BOUND_TO_SESSION}
            then seq_session_recover e status t c
            else (upd_sl n (\<lambda>s. s\<lparr>seq_done := True\<rparr>) c, t, True))"

definition mynfs41_sequence_done ::
  "seq_env \<Rightarrow> rpc_call \<Rightarrow> nfs4_clnt \<Rightarrow> nfs4_clnt \<times> rpc_call \<times> bool" where
  "mynfs41_sequence_done e t c =
     (case nfs41_sequence_process e t c of
        (c, t, ret) \<Rightarrow>
          if \<not> ret then (c, t, False)
          else if sr_slot (rc_seq t) \<noteq> None
          then case nfs41_sequence_free_slot e t c of (c, t) \<Rightarrow> (c, t, True)
          else (c, t, True))"

definition nfs4_sequence_process ::
  "seq_env \<Rightarrow> rpc_call \<Rightarrow> nfs4_clnt \<Rightarrow> nfs4_clnt \<times> rpc_call \<times> bool" where
  "nfs4_sequence_process e t c =
     (if sr_slot (rc_seq t) = None then (c, t, True)
      else if cl_has_session c then nfs41_sequence_process e t c
      else nfs40_sequence_done e t c)"

definition nfs4_sequence_free_slot :: "seq_env \<Rightarrow> rpc_call \<Rightarrow> nfs4_clnt \<Rightarrow> nfs4_clnt \<times> rpc_call" where
  "nfs4_sequence_free_slot e t c =
     (if sr_slot (rc_seq t) = None then (c, t)
      else if cl_has_session c then nfs41_sequence_free_slot e t c
      else nfs40_sequence_free_slot e t c)"

definition mynfs4_sequence_done ::
  "seq_env \<Rightarrow> rpc_call \<Rightarrow> nfs4_clnt \<Rightarrow> nfs4_clnt \<times> rpc_call \<times> bool" where
  "mynfs4_sequence_done e t c =
     (if sr_slot (rc_seq t) = None then (c, t, True)
      else if \<not> cl_has_session c then nfs40_sequence_done e t c
      else mynfs41_sequence_done e t c)"

section \<open>Setting up a call\<close>

definition nfs41_sequence_res_init :: "slot_env \<Rightarrow> seq_task \<Rightarrow> seq_task" where
  "nfs41_sequence_res_init e t = t\<lparr>sr_timestamp := jiffies e, sr_status_flags := 0, sr_status := 1\<rparr>"

definition nfs4_sequence_attach_slot ::
  "u32 option \<Rightarrow> seq_task \<Rightarrow> nfs4_slot_table \<Rightarrow> nfs4_slot_table \<times> seq_task" where
  "nfs4_sequence_attach_slot slot t tbl =
     (case slot of
        None \<Rightarrow> (tbl, t)
      | Some n \<Rightarrow> (upd_slot n (\<lambda>s. s\<lparr>privileged := sa_privileged t\<rparr>) tbl, t\<lparr>sa_slot := Some n, sr_slot := Some n\<rparr>))"

text \<open>
  A task that gets no slot joins the queue of the table. The queue is a list in the order of
  arrival; which entry is woken first, by priority, is the choice of \<open>rpc_first\<close>. The timeout that
  the queue entry also gets when no slot could be allocated is not part of the model.
\<close>

definition mynfs4_setup_sequence ::
  "slot_env \<Rightarrow> seq_task \<Rightarrow> nfs4_slot_table \<Rightarrow> nfs4_slot_table \<times> seq_task \<times> int" where
  "mynfs4_setup_sequence e t tbl =
     (let sleep = (\<lambda>tbl. (tbl\<lparr>slot_tbl_waitq := slot_tbl_waitq tbl @ [t]\<rparr>, t, - EAGAIN)) in
      if sr_slot t \<noteq> None then (tbl, nfs41_sequence_res_init e t, 0)
      else if nfs4_slot_tbl_draining tbl \<and> \<not> sa_privileged t then sleep tbl
      else case nfs4_alloc_slot e tbl of
             (tbl, Inl _) \<Rightarrow> sleep tbl
           | (tbl, Inr n) \<Rightarrow>
               (case nfs4_sequence_attach_slot (Some n) t tbl of
                  (tbl, t) \<Rightarrow> (tbl, nfs41_sequence_res_init e t, 0)))"

section \<open>What keeps the sequence numbers of a slot\<close>

text \<open>
  The sequence state of a slot: its number, the last one acknowledged, the highest one sent, and
  whether the number in use is done with. Only the processing of replies changes it; allocating,
  waking and resizing keep it.
\<close>

type_synonym slot_seq = "u32 \<times> u32 \<times> u32 \<times> bool"

definition seq_of :: "nfs4_slot \<Rightarrow> slot_seq" where
  "seq_of s = (seq_nr s, seq_nr_last_acked s, seq_nr_highest_sent s, seq_done s)"

definition slot_seq :: "nfs4_slot_table \<Rightarrow> u32 \<Rightarrow> slot_seq option" where
  "slot_seq tbl n = map_option seq_of (get_slot tbl n)"

definition seq_kept :: "u32 \<Rightarrow> nfs4_slot_table \<Rightarrow> nfs4_slot_table \<Rightarrow> bool" where
  "seq_kept n tbl tbl' \<longleftrightarrow> (\<forall>v. slot_seq tbl n = Some v \<longrightarrow> slot_seq tbl' n = Some v)"

lemma seq_kept_refl [simp, intro]: "seq_kept n tbl tbl"
  by (simp add: seq_kept_def)

lemma seq_kept_trans: "seq_kept n a b \<Longrightarrow> seq_kept n b c \<Longrightarrow> seq_kept n a c"
  by (simp add: seq_kept_def)

lemma slot_seq_cong: "slots tbl' = slots tbl \<Longrightarrow> slot_seq tbl' n = slot_seq tbl n"
  by (simp add: slot_seq_def get_slot_def)

lemma seq_kept_slots: "slots tbl' = slots tbl \<Longrightarrow> seq_kept n tbl tbl'"
  using slot_seq_cong [of tbl' tbl n] by (simp add: seq_kept_def)

lemma find_map_upd:
  assumes "\<And>s. slot_nr (f s) = slot_nr s"
  shows "List.find (\<lambda>s. slot_nr s = n) (map (\<lambda>s. if slot_nr s = m then f s else s) xs) =
    (if m = n then map_option f (List.find (\<lambda>s. slot_nr s = n) xs) else List.find (\<lambda>s. slot_nr s = n) xs)"
  by (induction xs) (auto simp: assms)

lemma get_slot_upd:
  assumes "\<And>s. slot_nr (f s) = slot_nr s"
  shows "get_slot (upd_slot m f tbl) n = (if m = n then map_option f (get_slot tbl n) else get_slot tbl n)"
  using find_map_upd [of f n m "slots tbl"] assms by (simp add: get_slot_def upd_slot_def)

lemma seq_kept_upd:
  assumes "\<And>s. slot_nr (f s) = slot_nr s" "\<And>s. seq_of (f s) = seq_of s"
  shows "seq_kept n tbl (upd_slot m f tbl)"
  using get_slot_upd [of f m tbl n] assms
  by (auto simp: seq_kept_def slot_seq_def option.map_comp comp_def)

lemma seq_kept_append:
  "slots tbl' = slots tbl @ ss \<Longrightarrow> seq_kept n tbl tbl'"
  by (auto simp: seq_kept_def slot_seq_def get_slot_def find_append)

lemma seq_kept_create: "seq_kept n tbl (fst (nfs4_create_slots e tbl m i))"
proof (induction e tbl m i rule: nfs4_create_slots.induct)
  case (1 e tbl m i)
  show ?case
  proof (cases "nfs4_new_slot e (max_slots tbl) i")
    case None
    then show ?thesis by (subst nfs4_create_slots.simps) simp
  next
    case (Some slot)
    let ?t = "tbl\<lparr>slots := slots tbl @ [slot], max_slots := max_slots tbl + 1\<rparr>"
    have "seq_kept n tbl ?t" by (rule seq_kept_append) simp
    then show ?thesis using "1.IH" [OF Some refl] seq_kept_trans Some
      by (subst nfs4_create_slots.simps) (auto simp: Let_def)
  qed
qed

lemma seq_kept_find_or_create: "seq_kept n tbl (fst (nfs4_find_or_create_slot e tbl m i))"
  by (simp add: nfs4_find_or_create_slot_def seq_kept_create split: option.split)

lemma seq_kept_lock: "seq_kept n tbl (nfs4_lock_slot tbl m)"
proof -
  define tbl1 where "tbl1 = (let t = tbl\<lparr>used_slots := insert m (used_slots tbl)\<rparr> in
    if m > highest_used_slotid t \<or> highest_used_slotid t = NFS4_NO_SLOT
    then t\<lparr>highest_used_slotid := m\<rparr> else t)"
  have "slots tbl1 = slots tbl" by (simp add: tbl1_def Let_def)
  then have "seq_kept n tbl tbl1" by (rule seq_kept_slots)
  moreover have "seq_kept n tbl1 (upd_slot m (\<lambda>s. s\<lparr>slot_generation := generation tbl1\<rparr>) tbl1)"
    by (rule seq_kept_upd) (simp_all add: seq_of_def)
  moreover have "nfs4_lock_slot tbl m = upd_slot m (\<lambda>s. s\<lparr>slot_generation := generation tbl1\<rparr>) tbl1"
    by (simp add: nfs4_lock_slot_def tbl1_def Let_def)
  ultimately show ?thesis using seq_kept_trans [of n tbl tbl1] by simp
qed

lemma seq_kept_alloc: "seq_kept n tbl (fst (nfs4_alloc_slot e tbl))"
proof -
  obtain tbl1 r where f: "nfs4_find_or_create_slot e tbl
      (find_first_zero_bit (used_slots tbl) (max_slotid tbl + 1)) 1 = (tbl1, r)" by fastforce
  have k: "seq_kept n tbl tbl1" using seq_kept_find_or_create f by (metis fst_conv)
  show ?thesis
    using k seq_kept_trans [OF k seq_kept_lock]
    by (auto simp: nfs4_alloc_slot_def Let_def f split: sum.split)
qed

lemma seq_kept_assign:
  "nfs41_assign_slot e tbl m t = Some (tbl', t') \<Longrightarrow> seq_kept n tbl tbl'"
  by (auto simp: nfs41_assign_slot_def seq_of_def intro!: seq_kept_upd split: if_splits)

lemma seq_kept_wake_unchecked: "seq_kept n tbl (fst (nfs41_wake_and_assign_slot_unchecked e tbl m))"
proof -
  have "seq_kept n tbl (tbl'\<lparr>slot_tbl_waitq := q, woken := w\<rparr>)"
    if "nfs41_assign_slot e tbl m t = Some (tbl', t')" for tbl' t t' q w
    by (rule seq_kept_trans [OF seq_kept_assign [OF that]], rule seq_kept_slots) simp
  then show ?thesis
    by (auto simp: nfs41_wake_and_assign_slot_unchecked_def Let_def split: option.split)
qed

lemma seq_kept_wake: "seq_kept n tbl (fst (nfs41_wake_and_assign_slot e tbl m))"
  by (simp add: nfs41_wake_and_assign_slot_def seq_kept_wake_unchecked)

lemma seq_kept_free: "seq_kept n tbl (nfs4_free_slot tbl m)"
  by (rule seq_kept_slots) simp

lemma seq_kept_try_wake: "seq_kept n tbl (fst (nfs41_try_wake_next_slot_table_entry e tbl))"
proof -
  obtain tbl1 r where a: "nfs4_alloc_slot e tbl = (tbl1, r)" by fastforce
  have k: "seq_kept n tbl tbl1" using seq_kept_alloc a by (metis fst_conv)
  show ?thesis
  proof (cases r)
    case (Inr m)
    obtain tbl2 b where w: "nfs41_wake_and_assign_slot_unchecked e tbl1 m = (tbl2, b)" by fastforce
    have "seq_kept n tbl1 tbl2" using seq_kept_wake_unchecked w by (metis fst_conv)
    with k have k2: "seq_kept n tbl tbl2" by (rule seq_kept_trans)
    show ?thesis using k2 seq_kept_trans [OF k2 seq_kept_free]
      by (simp add: nfs41_try_wake_next_slot_table_entry_def a Inr w)
  qed (simp add: nfs41_try_wake_next_slot_table_entry_def a k)
qed

lemma seq_kept_wake_table: "seq_kept n tbl (nfs41_wake_slot_table e tbl)"
proof (induction e tbl rule: nfs41_wake_slot_table.induct)
  case (1 e tbl)
  obtain tbl1 b where w: "nfs41_try_wake_next_slot_table_entry e tbl = (tbl1, b)" by fastforce
  have k: "seq_kept n tbl tbl1" using seq_kept_try_wake w by (metis fst_conv)
  show ?case using "1.IH" [OF w [symmetric]] seq_kept_trans [OF k] k
    by (simp add: nfs41_wake_slot_table.simps [of e tbl] w)
qed

lemma seq_kept_shrink:
  assumes ok: "slot_tbl_ok tbl" and n: "n < m"
  shows "seq_kept n tbl (nfs4_shrink_slot_table tbl m)"
proof (cases "max_slots tbl \<le> m")
  case False
  have "get_slot (nfs4_shrink_slot_table tbl m) n = Some s" if g: "get_slot tbl n = Some s" for s
  proof -
    obtain i where i: "i < length (slots tbl)" "slot_nr (slots tbl ! i) = n" "s = slots tbl ! i"
        "\<forall>j<i. slot_nr (slots tbl ! j) \<noteq> n"
      using g unfolding get_slot_def find_Some_iff by blast
    have "unat (max_slots tbl) < 2 ^ LENGTH(32)" by (rule unsigned_less)
    then have "i < 2 ^ LENGTH(32)" using i(1) slot_tbl_ok_length [OF ok] by simp
    moreover have "n = of_nat i" using i slot_nr_nth [OF ok i(1)] by simp
    ultimately have "unat n = i" by (simp add: unat_of_nat take_bit_nat_eq_self)
    then have "i < unat m" using n by (simp add: word_less_nat_alt)
    then show ?thesis using i False unfolding get_slot_def find_Some_iff
      by (auto simp: nfs4_shrink_slot_table_def intro!: exI [of _ i])
  qed
  then show ?thesis by (auto simp: seq_kept_def slot_seq_def)
qed (simp add: nfs4_shrink_slot_table_def)

lemma seq_kept_server:
  assumes ok: "slot_tbl_ok tbl" and n: "n \<in> used_slots tbl" and h: "h \<le> NFS4_MAX_SLOTID"
  shows "seq_kept n tbl (nfs41_set_server_slotid_locked tbl h)"
proof (cases "server_highest_slotid tbl = h \<or> h < highest_used_slotid tbl")
  case False
  have "h < NFS4_MAX_SLOT_TABLE" using h by (rule order_le_less_trans) simp
  then have "n < h + 1 \<longleftrightarrow> n \<le> h" by (rule u32_less_succ_iff)
  moreover have "n \<le> h" using used_le_highest [OF ok] n False by (meson le_less_trans not_less)
  ultimately have "seq_kept n tbl (nfs4_shrink_slot_table tbl (h + 1))" using seq_kept_shrink [OF ok] by blast
  then have "seq_kept n tbl ((nfs4_shrink_slot_table tbl (h + 1))\<lparr>server_highest_slotid := h\<rparr>)"
    by (rule seq_kept_trans) (rule seq_kept_slots, simp)
  then show ?thesis using False by (auto simp: nfs41_set_server_slotid_locked_def)
qed (auto simp: nfs41_set_server_slotid_locked_def)

lemma seq_kept_update_target:
  assumes ok: "slot_tbl_ok tbl" and n: "n \<in> used_slots tbl"
  shows "seq_kept n tbl (nfs41_update_target_slotid e tbl s t)"
proof -
  let ?t = "min (sr_target_highest_slotid t) NFS4_MAX_SLOTID"
  let ?h = "min (sr_highest_slotid t) NFS4_MAX_SLOTID"
  obtain tbl1 o1 where o: "nfs41_is_outlier_target_slotid tbl ?t = (tbl1, o1)" by fastforce
  then obtain d d2 where
    t1: "tbl1 = tbl\<lparr>d_target_highest_slotid := d, d2_target_highest_slotid := d2\<rparr>"
    by (auto simp: nfs41_is_outlier_target_slotid_def Let_def)
  then have ok1: "slot_tbl_ok tbl1" using ok by (simp add: slot_tbl_ok_def highest_ok_def)
  define tbl2 where "tbl2 = (if \<not> o1 then nfs41_set_target_slotid_locked tbl1 ?t else tbl1)"
  define tbl3 where
    "tbl3 = (if generation tbl2 = slot_generation s
             then nfs41_set_server_slotid_locked tbl2 ?h else tbl2)"
  have "slots tbl2 = slots tbl" by (simp add: tbl2_def t1 nfs41_set_target_slotid_locked_def)
  then have k2: "seq_kept n tbl tbl2" by (rule seq_kept_slots)
  have ok2: "slot_tbl_ok tbl2" unfolding tbl2_def
    using ok1 nfs41_set_target_slotid_locked_ok [OF ok1, of ?t] by simp
  have "n \<in> used_slots tbl2" using n by (simp add: tbl2_def t1)
  then have "seq_kept n tbl2 tbl3" using seq_kept_server [OF ok2, of n ?h] by (simp add: tbl3_def)
  with k2 have k3: "seq_kept n tbl tbl3" by (rule seq_kept_trans)
  have "seq_kept n tbl3 (nfs41_set_max_slotid_locked e tbl3 ?t)"
    unfolding nfs41_set_max_slotid_locked_def Let_def
    by (rule seq_kept_trans [OF _ seq_kept_wake_table], rule seq_kept_slots) simp
  with k3 have "seq_kept n tbl (nfs41_set_max_slotid_locked e tbl3 ?t)" by (rule seq_kept_trans)
  moreover have "nfs41_update_target_slotid e tbl s t = nfs41_set_max_slotid_locked e tbl3 ?t"
    by (simp only: nfs41_update_target_slotid_def Let_def o prod.case tbl2_def tbl3_def)
  ultimately show ?thesis by simp
qed

section \<open>Which operations leave the slot tables alone\<close>

definition tables :: "nfs4_clnt \<Rightarrow> nfs4_session \<times> bool \<times> nfs4_slot_table option" where
  "tables c = (cl_session c, cl_has_session c, cl_slot_tbl c)"

lemma tables_simps [simp]:
  "tables (upd_st i f c) = tables c" "tables (upd_so i f' c) = tables c" "tables (upd_lk i f'' c) = tables c"
  "tables (upd_dl i g c) = tables c" "tables (upd_sv i g' c) = tables c"
  "tables (set_cl fl c) = tables c" "tables (clear_cl fl c) = tables c"
  "tables (nfs4_schedule_state_manager k c) = tables c"
  by (simp_all add: tables_def)

lemma tables_seq_tbl: "tables c' = tables c \<Longrightarrow> seq_tbl c' = seq_tbl c \<and> cl_has_session c' = cl_has_session c"
  by (simp add: tables_def seq_tbl_def)

lemma tables_mark [simp]:
  "tables (fst (nfs4_state_mark_reclaim_reboot st c)) = tables c"
  "tables (fst (nfs4_state_mark_reclaim_nograce st c)) = tables c"
  by (simp_all add: nfs4_state_mark_reclaim_reboot_def nfs4_state_mark_reclaim_nograce_def Let_def)

lemma tables_helper:
  assumes "\<And>st c. tables (fst (mark st c)) = tables c"
  shows "tables (nfs4_state_mark_reclaim_helper mark c) = tables c"
proof -
  have "tables (nfs4_clear_open_lock l c) = tables c" for l c by (simp add: nfs4_clear_open_lock_def)
  then have co: "tables (nfs4_clear_open_state st c) = tables c" for st c
    by (simp add: nfs4_clear_open_state_def Let_def fold_keeps [where g = tables])
  have "tables (nfs4_reset_state mark st c) = tables c" for st c
    using assms [of st c] co by (cases "mark st c") (simp add: nfs4_reset_state_def)
  then have "tables (nfs4_reset_owner mark sp c) = tables c" for sp c
    by (simp add: nfs4_reset_owner_def Let_def fold_keeps [where g = tables])
  then show ?thesis
    by (simp add: nfs4_state_mark_reclaim_helper_def nfs4_reset_seqids_def fold_keeps [where g = tables])
qed

lemma tables_mark_delegations [simp]:
  "tables (nfs_delegation_mark_reclaim c) = tables c"
  "tables (nfs_mark_test_expired_all_delegations c) = tables c"
proof -
  have "tables (nfs_delegation_mark_reclaim_server s c) = tables c" for s c
    unfolding nfs_delegation_mark_reclaim_server_def by (rule fold_keeps [where g = tables]) simp
  then show "tables (nfs_delegation_mark_reclaim c) = tables c"
    unfolding nfs_delegation_mark_reclaim_def by (rule fold_keeps [where g = tables])
  have "tables (nfs_mark_test_expired_delegation s d c) = tables c" for s d c
    by (simp add: nfs_mark_test_expired_delegation_def Let_def)
  then have "tables (nfs_delegation_mark_test_expired_server s c) = tables c" for s c
    unfolding nfs_delegation_mark_test_expired_server_def by (rule fold_keeps [where g = tables])
  then show "tables (nfs_mark_test_expired_all_delegations c) = tables c"
    unfolding nfs_mark_test_expired_all_delegations_def by (rule fold_keeps [where g = tables])
qed

lemma tables_start_reclaim [simp]:
  "tables (nfs4_state_start_reclaim_reboot c) = tables c"
  "tables (nfs4_state_start_reclaim_nograce c) = tables c"
  by (simp_all add: nfs4_state_start_reclaim_reboot_def nfs4_state_start_reclaim_nograce_def tables_helper)

lemma tables_handlers:
  "tables (nfs41_handle_server_reboot k c) = tables c"
  "tables (nfs41_handle_all_state_revoked k c) = tables c"
  "tables (nfs41_handle_some_state_revoked k c) = tables c"
  "tables (mynfs4_schedule_lease_moved_recovery k c) = tables c"
  "tables (nfs41_handle_backchannel_fault k c) = tables c"
  "tables (nfs41_handle_cb_path_down k c) = tables c"
  by (simp_all add: nfs41_handle_server_reboot_def nfs41_handle_all_state_revoked_def
      nfs4_reset_all_state_def nfs41_handle_some_state_revoked_def Let_def
      mynfs4_schedule_lease_moved_recovery_def nfs41_handle_backchannel_fault_def
      nfs41_handle_cb_path_down_def)

lemma tables_when: "(\<And>c. tables (f c) = tables c) \<Longrightarrow> tables (if b then f c else c) = tables c"
  by simp

lemma tables_sequence_flags:
  assumes "\<And>c. tables (me_destroy_all_layouts e c) = tables c"
  shows "tables (nfs41_handle_sequence_flag_errors e flags recovery c) = tables c"
proof -
  have "tables (nfs41_handle_recallable_state_revoked e c) = tables c" for c
    using assms by (simp add: nfs41_handle_recallable_state_revoked_def nfs_test_expired_all_delegations_def)
  note keep = tables_handlers this tables_handlers [THEN tables_when] this [THEN tables_when]
  show ?thesis
    unfolding nfs41_handle_sequence_flag_errors_def Let_def
    by (simp only: keep if_cancel simp_thms cong: if_weak_cong split: if_split)
qed

section \<open>The sequence number after a reply\<close>

lemma seq_tbl_upd [simp]:
  "cl_has_session c \<Longrightarrow> seq_tbl (upd_tbl f c) = f (seq_tbl c)"
  "cl_has_session (upd_tbl f c) = cl_has_session c"
  "cl_has_session c \<Longrightarrow> seq_tbl (upd_sl n g c) = upd_slot n g (seq_tbl c)"
  "cl_has_session (upd_sl n g c) = cl_has_session c"
  by (simp_all add: seq_tbl_def upd_tbl_def upd_sl_def)

lemma tables_renew [simp]: "tables (do_renew_lease ts c) = tables c"
  by (simp add: do_renew_lease_def tables_def)

lemma slot_seq_upd:
  assumes "\<And>s. slot_nr (f s) = slot_nr s"
  shows "slot_seq (upd_slot n f tbl) n = map_option (seq_of \<circ> f) (get_slot tbl n)"
  using get_slot_upd [of f n tbl n] assms by (simp add: slot_seq_def option.map_comp)

lemma slot_seq_get:
  "slot_seq tbl n = Some v \<Longrightarrow> \<exists>s. get_slot tbl n = Some s \<and> seq_of s = v"
  by (auto simp: slot_seq_def)

lemma release_tbl_seq:
  assumes "slot_seq tbl n = Some (s, a, h, d)"
  shows "slot_seq (fst (nfs41_release_slot_tbl e n tbl)) n = Some (if d then s + 1 else s, a, h, False)"
proof -
  let ?f = "\<lambda>s. s\<lparr>seq_nr := if seq_done s then seq_nr s + 1 else seq_nr s, seq_done := False\<rparr>"
  define tbl1 where "tbl1 = upd_slot n ?f tbl"
  have one: "slot_seq tbl1 n = Some (if d then s + 1 else s, a, h, False)"
    using slot_seq_get [OF assms] slot_seq_upd [of ?f n tbl] by (auto simp: tbl1_def seq_of_def)
  obtain tbl2 woke where w: "nfs41_wake_and_assign_slot e tbl1 n = (tbl2, woke)" by fastforce
  have "seq_kept n tbl1 tbl2" using seq_kept_wake [of n tbl1 e n] w by simp
  moreover have "seq_kept n tbl2 (nfs4_free_slot tbl2 n)" by (rule seq_kept_free)
  ultimately have "slot_seq tbl2 n = slot_seq tbl1 n" "slot_seq (nfs4_free_slot tbl2 n) n = slot_seq tbl1 n"
    using one by (auto simp: seq_kept_def)
  then show ?thesis using one w by (simp add: nfs41_release_slot_tbl_def Let_def tbl1_def)
qed

lemma release_slot_seq:
  assumes "cl_has_session c" "slot_seq (seq_tbl c) n = Some (s, a, h, d)"
  shows "slot_seq (seq_tbl (nfs41_release_slot e (Some n) c)) n = Some (if d then s + 1 else s, a, h, False)"
proof -
  obtain tbl send where r: "nfs41_release_slot_tbl (sq_slot e) n (seq_tbl c) = (tbl, send)" by fastforce
  have "tables (nfs41_notify_server k c) = tables c" for k and c :: nfs4_clnt
    by (simp add: nfs41_notify_server_def)
  then have "tables (nfs41_release_slot e (Some n) c) = tables (upd_tbl (\<lambda>_. tbl) c)"
    using r by (simp add: nfs41_release_slot_def Let_def)
  then have "seq_tbl (nfs41_release_slot e (Some n) c) = seq_tbl (upd_tbl (\<lambda>_. tbl) c)"
    using tables_seq_tbl by blast
  then have "seq_tbl (nfs41_release_slot e (Some n) c) = tbl" using assms(1) by simp
  then show ?thesis using release_tbl_seq [OF assms(2), of "sq_slot e"] r by simp
qed

definition seq_high :: "u32 \<Rightarrow> u32 \<Rightarrow> u32" where
  "seq_high s h = (if 0 < sint (s - h) then s else h)"

definition reply_status :: "rpc_call \<Rightarrow> int" where
  "reply_status t =
     (if tk_status t = - NFS4ERR_DEADSESSION then - NFS4ERR_DEADSESSION else sr_status (rc_seq t))"

text \<open>A call in flight on slot \<open>n\<close> of the session, its sequence number not yet done with.\<close>

definition in_flight :: "rpc_call \<Rightarrow> u32 \<Rightarrow> nfs4_clnt \<Rightarrow> bool" where
  "in_flight t n c \<longleftrightarrow>
     cl_has_session c \<and> slot_tbl_ok (seq_tbl c) \<and> n \<in> used_slots (seq_tbl c) \<and>
     sr_slot (rc_seq t) = Some n \<and> tk_was_sent t"

lemma sequence_done_released:
  assumes p: "nfs41_sequence_process e t c = (c1, t1, True)" and t1: "sr_slot (rc_seq t1) = Some n"
    and c1: "cl_has_session c1" "slot_seq (seq_tbl c1) n = Some (s, a, h, d)"
  shows "\<exists>c' t'. mynfs41_sequence_done e t c = (c', t', True) \<and> sr_slot (rc_seq t') = None \<and>
    slot_seq (seq_tbl c') n = Some (if d then s + 1 else s, a, h, False)"
  using p t1 release_slot_seq [OF c1, of e]
  by (simp add: mynfs41_sequence_done_def nfs41_sequence_free_slot_def set_sr_slot_def)

lemma the_slot_seq:
  "slot_seq (seq_tbl c) n = Some (s, a, h, d) \<Longrightarrow>
   seq_nr (the_slot c n) = s \<and> seq_nr_last_acked (the_slot c n) = a \<and>
   seq_nr_highest_sent (the_slot c n) = h \<and> seq_done (the_slot c n) = d"
  by (auto simp: the_slot_def slot_seq_def seq_of_def)

lemma seq_sent_acked:
  "seq_of (nfs4_slot_sequence_record_sent k sl) =
     (seq_nr sl, seq_nr_last_acked sl, seq_high k (seq_nr_highest_sent sl), seq_done sl)"
  "seq_of (nfs4_slot_sequence_acked k sl) =
     (seq_nr sl, k, seq_high k (seq_nr_highest_sent sl), seq_done sl)"
  "slot_nr (nfs4_slot_sequence_record_sent k sl) = slot_nr sl"
  "slot_nr (nfs4_slot_sequence_acked k sl) = slot_nr sl"
  by (simp_all add: nfs4_slot_sequence_record_sent_def nfs4_slot_sequence_acked_def seq_of_def seq_high_def)

lemma slot_seq_upd_sl:
  assumes "cl_has_session c" "slot_seq (seq_tbl c) n = Some v" "\<And>sl. slot_nr (f sl) = slot_nr sl"
    "\<And>sl. seq_of sl = v \<Longrightarrow> seq_of (f sl) = w"
  shows "slot_seq (seq_tbl (upd_sl n f c)) n = Some w"
  using assms slot_seq_upd [of f n "seq_tbl c"] slot_seq_get [OF assms(2)] by auto

lemma seq_ok_seq:
  assumes fl: "in_flight t n c" and sq: "slot_seq (seq_tbl c) n = Some (s, a, h, d)"
    and lay: "\<And>c. tables (me_destroy_all_layouts (sq_mgr e) c) = tables c"
  shows "\<exists>c1. seq_ok e n t c = (c1, t, True) \<and> cl_has_session c1 \<and>
    slot_seq (seq_tbl c1) n = Some (s, s, seq_high s h, True)"
proof -
  let ?f = "\<lambda>s. (nfs4_slot_sequence_acked (seq_nr s) s)\<lparr>seq_done := True\<rparr>"
  define c1 where "c1 = upd_sl n ?f c"
  define c2 where "c2 = nfs41_handle_sequence_flag_errors (sq_mgr e) (sr_status_flags (rc_seq t))
    (privileged (the_slot (do_renew_lease (sr_timestamp (rc_seq t)) c1) n))
    (do_renew_lease (sr_timestamp (rc_seq t)) c1)"
  have sess: "cl_has_session c" and ok: "slot_tbl_ok (seq_tbl c)" and u: "n \<in> used_slots (seq_tbl c)"
    using fl by (simp_all add: in_flight_def)
  have nr: "slot_nr (?f sl) = slot_nr sl" for sl by (simp add: seq_sent_acked)
  have one: "slot_seq (seq_tbl c1) n = Some (s, s, seq_high s h, True)"
    unfolding c1_def using sess sq nr
    by (rule slot_seq_upd_sl) (auto simp: seq_of_def nfs4_slot_sequence_acked_def
        nfs4_slot_sequence_record_sent_def seq_high_def)
  have ok1: "slot_tbl_ok (seq_tbl c1)" "n \<in> used_slots (seq_tbl c1)"
    using ok u sess nr by (simp_all add: c1_def)
  have "tables c2 = tables c1" by (simp add: c2_def tables_sequence_flags [OF lay])
  then have t2: "seq_tbl c2 = seq_tbl c1" "cl_has_session c2"
    using tables_seq_tbl [of c2 c1] sess by (simp_all add: c1_def)
  let ?t3 = "nfs41_update_target_slotid (sq_slot e) (seq_tbl c1) (the_slot c2 n) (rc_seq t)"
  have "seq_kept n (seq_tbl c1) ?t3" using ok1 by (rule seq_kept_update_target)
  then have "slot_seq ?t3 n = Some (s, s, seq_high s h, True)" using one by (simp add: seq_kept_def)
  moreover have "seq_ok e n t c =
      (upd_tbl (\<lambda>tbl. nfs41_update_target_slotid (sq_slot e) tbl (the_slot c2 n) (rc_seq t)) c2, t, True)"
    by (simp only: seq_ok_def Let_def c1_def [symmetric] c2_def [symmetric])
  ultimately show ?thesis using t2 by simp
qed

definition other_status :: "int \<Rightarrow> bool" where
  "other_status st \<longleftrightarrow>
     st \<notin> {0, 1, - NFS4ERR_DELAY, - NFS4ERR_RETRY_UNCACHED_REP, - NFS4ERR_SEQ_FALSE_RETRY, - NFS4ERR_BADSLOT,
           - NFS4ERR_SEQ_MISORDERED, - NFS4ERR_BADSESSION, - NFS4ERR_DEADSESSION, - NFS4ERR_CONN_NOT_BOUND_TO_SESSION}"

lemma process_keeps_call:
  assumes fl: "in_flight t n c" and sq: "slot_seq (seq_tbl c) n = Some (s, a, h, False)"
    and lay: "\<And>c. tables (me_destroy_all_layouts (sq_mgr e) c) = tables c"
    and st: "reply_status t = 0 \<and> v = (s, s, seq_high s h, True) \<or>
      reply_status t = 1 \<and> v = (s, a, seq_high s h, True) \<or>
      reply_status t = - NFS4ERR_DELAY \<and> \<not> sq_restart e \<and> v = (s, a, h, False) \<or>
      other_status (reply_status t) \<and> v = (s, a, h, True)"
  shows "\<exists>c1. nfs41_sequence_process e t c = (c1, t, True) \<and> cl_has_session c1 \<and> slot_seq (seq_tbl c1) n = Some v"
proof -
  have sess: "cl_has_session c" and sl: "sr_slot (rc_seq t) = Some n" and ts: "tk_was_sent t"
    using fl by (simp_all add: in_flight_def)
  have nd: "\<not> seq_done (the_slot c n)" using the_slot_seq [OF sq] by simp
  note proc = nfs41_sequence_process_def sl ts nd Let_def reply_status_def [symmetric]
  let ?d = "upd_sl n (\<lambda>s. s\<lparr>seq_done := True\<rparr>)" and
    ?p = "upd_sl n (\<lambda>s. nfs4_slot_sequence_record_sent (seq_nr s) s)"
  have d: "slot_seq (seq_tbl (?d c)) n = Some (s, a, h, True)" if "cl_has_session c"
    "slot_seq (seq_tbl c) n = Some (s, a, h, False)" for c h
    using that by (rule slot_seq_upd_sl) (auto simp: seq_of_def)
  have "slot_seq (seq_tbl (?p c)) n = Some (s, a, seq_high s h, False)"
    using sess sq
    by (rule slot_seq_upd_sl) (auto simp: seq_of_def nfs4_slot_sequence_record_sent_def seq_high_def)
  then have pd: "slot_seq (seq_tbl (?d (?p c))) n = Some (s, a, seq_high s h, True)"
    using sess by (intro d) simp_all
  from st consider "reply_status t = 0" "v = (s, s, seq_high s h, True)"
    | "reply_status t = 1" "v = (s, a, seq_high s h, True)"
    | "reply_status t = - NFS4ERR_DELAY" "\<not> sq_restart e" "v = (s, a, h, False)"
    | "other_status (reply_status t)" "v = (s, a, h, True)" by blast
  then show ?thesis
  proof cases
    case 1 then show ?thesis using seq_ok_seq [OF fl sq lay] by (simp add: proc)
  next
    case 2 then show ?thesis using pd sess by (simp add: proc)
  next
    case 3 then show ?thesis using sess sq by (simp add: proc seq_out_retry_def)
  next
    case 4 then show ?thesis using sess d [OF sess sq] by (simp add: proc other_status_def)
  qed
qed

lemma process_releases:
  assumes fl: "in_flight t n c" and sq: "slot_seq (seq_tbl c) n = Some (s, a, h, False)"
    and st: "reply_status t \<in> {- NFS4ERR_RETRY_UNCACHED_REP, - NFS4ERR_SEQ_FALSE_RETRY} \<and>
        sq_restart_prepare e \<and> v = (s + 1, s, seq_high s h, False) \<and> \<not> r \<or>
      reply_status t \<in> {- NFS4ERR_BADSESSION, - NFS4ERR_DEADSESSION, - NFS4ERR_CONN_NOT_BOUND_TO_SESSION} \<and>
        v = (s, a, h, False) \<and> r"
  shows "\<exists>c1 t1. nfs41_sequence_process e t c = (c1, t1, r) \<and> sr_slot (rc_seq t1) = None \<and>
    slot_seq (seq_tbl c1) n = Some v"
proof -
  have sess: "cl_has_session c" and sl: "sr_slot (rc_seq t) = Some n" and ts: "tk_was_sent t"
    using fl by (simp_all add: in_flight_def)
  have nd: "\<not> seq_done (the_slot c n)" using the_slot_seq [OF sq] by simp
  note proc = nfs41_sequence_process_def sl ts nd Let_def reply_status_def [symmetric]
    nfs41_sequence_free_slot_def set_sr_slot_def
  define c1 where "c1 = upd_sl n (\<lambda>s. s\<lparr>seq_nr := seq_nr s + 1\<rparr>)
    (upd_sl n (\<lambda>s. nfs4_slot_sequence_acked (seq_nr s) s) c)"
  have ack: "slot_seq (seq_tbl (upd_sl n (\<lambda>s. nfs4_slot_sequence_acked (seq_nr s) s) c)) n =
      Some (s, s, seq_high s h, False)" using sess sq
    by (rule slot_seq_upd_sl) (auto simp: seq_of_def nfs4_slot_sequence_acked_def
        nfs4_slot_sequence_record_sent_def seq_high_def)
  have "slot_seq (seq_tbl c1) n = Some (s + 1, s, seq_high s h, False)"
    unfolding c1_def by (rule slot_seq_upd_sl [OF _ ack]) (auto simp: sess seq_of_def)
  moreover have "cl_has_session c1" using sess by (simp add: c1_def)
  ultimately have rel1: "slot_seq (seq_tbl (nfs41_release_slot e (Some n) c1)) n =
      Some (s + 1, s, seq_high s h, False)" using release_slot_seq [of c1 n "s + 1" s "seq_high s h" False e] by simp
  define c2 where "c2 = mynfs4_schedule_session_recovery (me_kthread (sq_mgr e))
    (upd_tbl (\<lambda>tbl. tbl\<lparr>slot_tbl_draining := True\<rparr>) c) (reply_status t)"
  have "tables c2 = tables (upd_tbl (\<lambda>tbl. tbl\<lparr>slot_tbl_draining := True\<rparr>) c)"
    by (simp add: c2_def mynfs4_schedule_session_recovery_def)
  then have t2: "seq_tbl c2 = (seq_tbl c)\<lparr>slot_tbl_draining := True\<rparr>" "cl_has_session c2"
    using tables_seq_tbl [of c2 "upd_tbl (\<lambda>tbl. tbl\<lparr>slot_tbl_draining := True\<rparr>) c"] sess by simp_all
  then have "slot_seq (seq_tbl c2) n = Some (s, a, h, False)"
    using sq slot_seq_cong [of "seq_tbl c2" "seq_tbl c"] by simp
  with t2(2) have rel2: "slot_seq (seq_tbl (nfs41_release_slot e (Some n) c2)) n = Some (s, a, h, False)"
    using release_slot_seq [of c2 n s a h False e] by simp
  from st show ?thesis
  proof (elim disjE conjE)
    assume "reply_status t \<in> {- NFS4ERR_RETRY_UNCACHED_REP, - NFS4ERR_SEQ_FALSE_RETRY}"
      "sq_restart_prepare e" "v = (s + 1, s, seq_high s h, False)" "\<not> r"
    then show ?thesis using rel1 by (auto simp: proc seq_retry_nowait_def c1_def)
  next
    assume "reply_status t \<in> {- NFS4ERR_BADSESSION, - NFS4ERR_DEADSESSION, - NFS4ERR_CONN_NOT_BOUND_TO_SESSION}"
      "v = (s, a, h, False)" "r"
    then show ?thesis using rel2 by (auto simp: proc seq_session_recover_def c2_def)
  qed
qed


definition ex_seq_env :: seq_env where
  "ex_seq_env = \<lparr>sq_mgr = ex_mgr_env, sq_restart_prepare = True, sq_restart = True, sq_probe = (\<lambda>_ _ c. c)\<rparr>"

definition ex_call :: rpc_call where
  "ex_call = \<lparr>rc_seq = (ex_task 7 False)\<lparr>sa_slot := Some 0, sr_slot := Some 0\<rparr>, tk_status = 0, tk_was_sent = True,
     tk_lone_sequence = False, tk_cred = 0, tk_restarts = 0, tk_delays = 0\<rparr>"

definition ex_seq_clnt :: nfs4_clnt where
  "ex_seq_clnt = zero_clnt\<lparr>cl_has_session := True, cl_session := (cl_session zero_clnt)\<lparr>fc_slot_table := ex_table\<rparr>\<rparr>"

lemma ex_seq_clnt_table: "seq_tbl ex_seq_clnt = ex_table" "cl_has_session ex_seq_clnt"
  by (simp_all add: ex_seq_clnt_def seq_tbl_def)

lemma ex_call_flight:
  "in_flight ex_call 0 ex_seq_clnt" "slot_seq (seq_tbl ex_seq_clnt) 0 = Some (1, 0, 1, False)"
  "reply_status ex_call = 0"
  using ex_table_ok
  by (simp_all add: in_flight_def ex_seq_clnt_table slot_seq_def get_slot_def seq_of_def reply_status_def
      ex_call_def ex_task_def) (simp_all add: ex_table_def ex_slot_def)


text \<open>
  C18: \<open>mynfs4_setup_sequence\<close> for a task without a slot, on a well-formed table. With result 0 the
  task got the lowest free slot: nobody else held it, it is the only slot newly in use, it carries
  the task's privilege, and the result is marked as not yet received; the table was not draining
  unless the task is privileged. Otherwise the result is \<open>-EAGAIN\<close>, no slot becomes used, and the
  task sleeps at the end of the queue, because the table is draining, or every slot is in use, or
  a slot could not be allocated.
\<close>

theorem setup_sequence_slot:
  assumes ok: "slot_tbl_ok tbl" and none: "sr_slot t = None"
    and r: "mynfs4_setup_sequence e t tbl = (tbl', t', ret)"
  shows "slot_tbl_ok tbl' \<and>
    (if ret = 0 then
       \<exists>n. sr_slot t' = Some n \<and> sa_slot t' = Some n \<and> sr_status t' = 1 \<and>
           n \<notin> used_slots tbl \<and> (\<forall>j < n. j \<in> used_slots tbl) \<and> used_slots tbl' = insert n (used_slots tbl) \<and>
           slot_tbl_waitq tbl' = slot_tbl_waitq tbl \<and>
           (\<exists>s. get_slot tbl' n = Some s \<and> privileged s = sa_privileged t) \<and>
           (nfs4_slot_tbl_draining tbl \<longrightarrow> sa_privileged t)
     else
       ret = - EAGAIN \<and> used_slots tbl' = used_slots tbl \<and> t' = t \<and>
       slot_tbl_waitq tbl' = slot_tbl_waitq tbl @ [t] \<and>
       (nfs4_slot_tbl_draining tbl \<and> \<not> sa_privileged t \<or> (\<forall>j \<le> max_slotid tbl. j \<in> used_slots tbl) \<or>
        (\<exists>m \<le> max_slotid tbl. \<not> kzalloc_ok e m)))"
proof -
  have q: "slot_tbl_ok (x\<lparr>slot_tbl_waitq := w\<rparr>) = slot_tbl_ok x" for x w
    by (simp add: slot_tbl_ok_def highest_ok_def)
  obtain tbl1 r1 where a: "nfs4_alloc_slot e tbl = (tbl1, r1)" by fastforce
  note spec = nfs4_alloc_slot_spec [OF ok a]
  have wq: "slot_tbl_waitq tbl1 = slot_tbl_waitq tbl" using nfs4_alloc_slot_waitq [of e tbl] a by simp
  show ?thesis
  proof (cases "nfs4_slot_tbl_draining tbl \<and> \<not> sa_privileged t")
    case True
    then show ?thesis using r none ok by (auto simp: mynfs4_setup_sequence_def Let_def q)
  next
    case False
    show ?thesis
    proof (cases r1)
      case (Inl err)
      then have "tbl' = tbl1\<lparr>slot_tbl_waitq := slot_tbl_waitq tbl1 @ [t]\<rparr> \<and> t' = t \<and> ret = - EAGAIN"
        using r none False by (auto simp: mynfs4_setup_sequence_def Let_def a)
      then show ?thesis using spec wq Inl by (auto simp: q alloc_slot_post_def)
    next
      case (Inr n)
      have "n < max_slots tbl1" using spec Inr by (simp add: alloc_slot_post_def)
      then obtain s where s: "get_slot tbl1 n = Some s" using get_slot_Some spec by blast
      have "tbl' = upd_slot n (\<lambda>s. s\<lparr>privileged := sa_privileged t\<rparr>) tbl1 \<and> ret = 0 \<and>
          t' = nfs41_sequence_res_init e (t\<lparr>sa_slot := Some n, sr_slot := Some n\<rparr>)"
        using r none False Inr by (auto simp: mynfs4_setup_sequence_def Let_def a nfs4_sequence_attach_slot_def)
      then show ?thesis using False spec wq Inr s
        by (simp add: alloc_slot_post_def nfs41_sequence_res_init_def get_slot_upd)
    qed
  qed
qed

theorem setup_sequence_slot_witness:
  "slot_tbl_ok (fst (mynfs4_setup_sequence ex_env (ex_task 9 True) ex_table))"
proof -
  have none: "sr_slot (ex_task 9 True) = None" by (simp add: ex_task_def)
  show ?thesis
    by (cases "mynfs4_setup_sequence ex_env (ex_task 9 True) ex_table")
      (simp add: setup_sequence_slot [OF ex_table_ok none])
qed

text \<open>
  C37: a slot that a finished request hands over to a waiting task keeps the privilege of the
  request before it. \<open>nfs41_assign_slot\<close> does not set \<open>privileged\<close>, and \<open>mynfs4_setup_sequence\<close> of the
  woken task, finding its slot already assigned, does not attach it again. After a privileged
  request an ordinary one therefore has its status flags handled as if by the state manager,
  which ignores all but the back channel's.
\<close>

theorem woken_task_keeps_privilege:
  assumes "get_slot tbl n = Some s" "privileged s" "\<not> sa_privileged t"
    and "nfs41_assign_slot e tbl n t = Some (tbl1, t1)"
  shows "\<exists>s'. mynfs4_setup_sequence e t1 tbl1 = (tbl1, nfs41_sequence_res_init e t1, 0) \<and>
    get_slot tbl1 n = Some s' \<and> privileged s' \<and> \<not> sa_privileged t1 \<and> sr_slot t1 = Some n"
  using assms
  by (auto simp: nfs41_assign_slot_def mynfs4_setup_sequence_def Let_def get_slot_upd split: if_splits)

definition ex_priv_table :: nfs4_slot_table where
  "ex_priv_table = (upd_slot 0 (\<lambda>s. s\<lparr>privileged := True\<rparr>) ex_table)\<lparr>slot_tbl_draining := False\<rparr>"

theorem woken_task_keeps_privilege_witness:
  "\<exists>s' tbl1 t1. nfs41_assign_slot ex_env ex_priv_table 0 (ex_task 8 False) = Some (tbl1, t1) \<and>
     get_slot tbl1 0 = Some s' \<and> privileged s' \<and> \<not> sa_privileged t1"
proof -
  let ?a = "nfs41_assign_slot ex_env ex_priv_table 0 (ex_task 8 False)"
  have g: "get_slot ex_priv_table 0 = Some ((ex_slot 0)\<lparr>privileged := True\<rparr>)"
    by (simp add: ex_priv_table_def upd_slot_def get_slot_def ex_table_def ex_slot_def)
  have "?a \<noteq> None" by (simp add: nfs41_assign_slot_def ex_priv_table_def nfs4_slot_tbl_draining_def)
  then obtain tbl1 t1 where "?a = Some (tbl1, t1)" by auto
  with woken_task_keeps_privilege [OF g _ _ this] show ?thesis by (auto simp: ex_task_def)
qed

end
