(* ===== verification/Nfs_Fs_Context.thy ===== *)
theory Nfs_Fs_Context
  imports Nfs_Prelude
begin

text \<open>
  The mount parameters of the client (\<open>src/mynfs/fs_context.c\<close> with \<open>struct nfs_fs_context\<close> of
  \<open>src/mynfs/internal.h\<close>): parsing one text option, parsing the binary mount data of versions 2/3
  and 4, splitting the device name, and validating the result before the superblock is made.

  The record \<open>nfs_fs_context\<close> holds the fields of the structure together with those of the VFS
  context around it that the code reads (\<open>fc_\<close>). Flag words are sets of flags; the words of the
  binary interface are decoded by the bits of \<open>nfs_mount.h\<close>. A string pointer is a \<open>string option\<close>,
  a user pointer to a string is the string it points to. An address is its family, its address as
  a number (0 is the ANY address) and its port.

  What the kernel provides is the environment \<open>fs_env\<close>: the option parser \<open>fs_parse\<close> and
  \<open>lookup_constant\<close>, address parsing, transport lookup, copying from user space, allocation, the
  version modules and the configuration.
\<close>

section \<open>Constants\<close>

type_synonym u16 = "16 word"

abbreviation (input) EFAULT :: int where
  "EFAULT \<equiv> 14"

abbreviation (input) ENAMETOOLONG :: int where
  "ENAMETOOLONG \<equiv> 36"

abbreviation (input) ENOPARAM :: int where
  "ENOPARAM \<equiv> 519"

abbreviation (input) AF_UNSPEC :: u16 where
  "AF_UNSPEC \<equiv> 0"

abbreviation (input) AF_INET :: u16 where
  "AF_INET \<equiv> 2"

abbreviation (input) AF_INET6 :: u16 where
  "AF_INET6 \<equiv> 10"

abbreviation (input) XPRT_TRANSPORT_TCP :: u16 where
  "XPRT_TRANSPORT_TCP \<equiv> 6"

abbreviation (input) XPRT_TRANSPORT_UDP :: u16 where
  "XPRT_TRANSPORT_UDP \<equiv> 17"

abbreviation (input) XPRT_TRANSPORT_RDMA :: u16 where
  "XPRT_TRANSPORT_RDMA \<equiv> 256"

abbreviation (input) XPRT_TRANSPORT_TCP_TLS :: u16 where
  "XPRT_TRANSPORT_TCP_TLS \<equiv> 258"

abbreviation (input) RPC_AUTH_UNIX :: u32 where
  "RPC_AUTH_UNIX \<equiv> 1"

abbreviation (input) RPC_AUTH_MAXFLAVOR :: u32 where
  "RPC_AUTH_MAXFLAVOR \<equiv> 8"

abbreviation (input) NFS_UNSPEC_PORT :: int where
  "NFS_UNSPEC_PORT \<equiv> - 1"

abbreviation (input) UINT_MAX :: u32 where
  "UINT_MAX \<equiv> - 1"

abbreviation (input) NFS_PORT :: int where
  "NFS_PORT \<equiv> 2049"

abbreviation (input) NFS_RDMA_PORT :: int where
  "NFS_RDMA_PORT \<equiv> 20049"

abbreviation (input) NFS2_FHSIZE :: nat where
  "NFS2_FHSIZE \<equiv> 32"

abbreviation (input) NFS3_FHSIZE :: nat where
  "NFS3_FHSIZE \<equiv> 64"

abbreviation (input) NFS_MAXFHSIZE :: nat where
  "NFS_MAXFHSIZE \<equiv> 128"

abbreviation (input) NFS4_MAXNAMLEN :: nat where
  "NFS4_MAXNAMLEN \<equiv> 255"

abbreviation (input) NFS_MAXPATHLEN :: nat where
  "NFS_MAXPATHLEN \<equiv> 1024"

abbreviation (input) PAGE_SIZE :: nat where
  "PAGE_SIZE \<equiv> 4096"

definition NFS_MAX_SECFLAVORS :: nat where
  "NFS_MAX_SECFLAVORS = 12"

definition NFS_MAX_CONNECTIONS :: u32 where
  "NFS_MAX_CONNECTIONS = 16"

definition NFS_MAX_TRANSPORTS :: u32 where
  "NFS_MAX_TRANSPORTS = 16"

definition NFS4_MAX_MINOR_VERSION :: u32 where
  "NFS4_MAX_MINOR_VERSION = 2"

definition NFS_DEFAULT_VERSION :: u32 where
  "NFS_DEFAULT_VERSION = 3"

section \<open>Data\<close>

datatype nfs_mount_flag =
    NFS_MOUNT_SOFT | NFS_MOUNT_INTR | NFS_MOUNT_SECURE | NFS_MOUNT_POSIX | NFS_MOUNT_NOCTO
  | NFS_MOUNT_NOAC | NFS_MOUNT_TCP | NFS_MOUNT_VER3 | NFS_MOUNT_KERBEROS | NFS_MOUNT_NONLM
  | NFS_MOUNT_BROKEN_SUID | NFS_MOUNT_NOACL | NFS_MOUNT_STRICTLOCK | NFS_MOUNT_SECFLAVOUR
  | NFS_MOUNT_NORDIRPLUS | NFS_MOUNT_UNSHARED
  | NFS_MOUNT_LOOKUP_CACHE_NONEG | NFS_MOUNT_LOOKUP_CACHE_NONE | NFS_MOUNT_NORESVPORT
  | NFS_MOUNT_LEGACY_INTERFACE | NFS_MOUNT_LOCAL_FLOCK | NFS_MOUNT_LOCAL_FCNTL
  | NFS_MOUNT_SOFTERR | NFS_MOUNT_SOFTREVAL | NFS_MOUNT_WRITE_EAGER | NFS_MOUNT_WRITE_WAIT
  | NFS_MOUNT_TRUNK_DISCOVERY | NFS_MOUNT_FORCE_RDIRPLUS

text \<open>The bits of \<open>nfs_mount.h\<close> that user space may set; the other flags have bits above them.\<close>

definition nfs_mount_bits :: "(nfs_mount_flag \<times> u32) list" where
  "nfs_mount_bits =
     [(NFS_MOUNT_SOFT, 0x0001), (NFS_MOUNT_INTR, 0x0002), (NFS_MOUNT_SECURE, 0x0004),
      (NFS_MOUNT_POSIX, 0x0008), (NFS_MOUNT_NOCTO, 0x0010), (NFS_MOUNT_NOAC, 0x0020),
      (NFS_MOUNT_TCP, 0x0040), (NFS_MOUNT_VER3, 0x0080), (NFS_MOUNT_KERBEROS, 0x0100),
      (NFS_MOUNT_NONLM, 0x0200), (NFS_MOUNT_BROKEN_SUID, 0x0400), (NFS_MOUNT_NOACL, 0x0800),
      (NFS_MOUNT_STRICTLOCK, 0x1000), (NFS_MOUNT_SECFLAVOUR, 0x2000), (NFS_MOUNT_NORDIRPLUS, 0x4000),
      (NFS_MOUNT_UNSHARED, 0x8000)]"

definition NFS_MOUNT_FLAGMASK :: u32 where
  "NFS_MOUNT_FLAGMASK = 0xFFFF"

definition NFS4_MOUNT_FLAGMASK :: u32 where
  "NFS4_MOUNT_FLAGMASK = 0x9033"

unbundle bit_operations_syntax

definition mount_flags_of :: "u32 \<Rightarrow> nfs_mount_flag set" where
  "mount_flags_of w = set (map fst (filter (\<lambda>(_, b). w AND b \<noteq> 0) nfs_mount_bits))"

datatype nfs_option = NFS_OPTION_FSCACHE | NFS_OPTION_MIGRATION

datatype nfs_lock_status = NFS_LOCK_NOT_SET | NFS_LOCK_LOCK | NFS_LOCK_NOLOCK

datatype rpc_xprtsec = RPC_XPRTSEC_NONE | RPC_XPRTSEC_TLS_ANON | RPC_XPRTSEC_TLS_X509

record sockaddr_storage =
  ss_family :: u16
  ss_addr :: nat
  ss_port :: u16

record nfs_fh =
  fh_size :: nat
  fh_data :: "8 word list"

record mount_server_parms =
  ms_address :: sockaddr_storage
  ms_addrlen :: nat
  ms_hostname :: "string option"
  ms_version :: u32
  ms_port :: int
  ms_protocol :: u16

record nfs_server_parms =
  ns_address :: sockaddr_storage
  ns_addrlen :: nat
  ns_hostname :: "string option"
  ns_export_path :: "string option"
  ns_port :: int
  ns_protocol :: u16
  ns_nconnect :: u16
  ns_max_connect :: u16

datatype fs_type = mynfs_fs_type | mynfs4_fs_type | other_fs_type

record nfs_fs_context =
  fc_source :: "string option"
  fc_security :: bool
  fc_root :: bool
  fc_fs_type :: fs_type
  ctx_internal :: bool
  skip_reconfig_option_check :: bool
  need_mount :: bool
  sloppy :: bool
  ctx_flags :: "nfs_mount_flag set"
  ctx_rsize :: u32
  ctx_wsize :: u32
  ctx_timeo :: u32
  ctx_retrans :: u32
  ctx_acregmin :: u32
  ctx_acregmax :: u32
  ctx_acdirmin :: u32
  ctx_acdirmax :: u32
  ctx_namlen :: u32
  ctx_options :: "nfs_option set"
  ctx_bsize :: u32
  auth_flavors :: "u32 list"
  selected_flavor :: u32
  xprtsec_policy :: rpc_xprtsec
  client_address :: "string option"
  ctx_version :: u32
  ctx_minorversion :: u32
  fscache_uniq :: "string option"
  protofamily :: u16
  mountfamily :: u16
  has_sec_mnt_opts :: bool
  lock_status :: nfs_lock_status
  mount_server :: mount_server_parms
  nfs_server_p :: nfs_server_parms
  ctx_mntfh :: nfs_fh
  ctx_nfs_mod :: "fs_type option"

abbreviation set_flags :: "nfs_mount_flag set \<Rightarrow> nfs_fs_context \<Rightarrow> nfs_fs_context" where
  "set_flags fs ctx \<equiv> ctx\<lparr>ctx_flags := ctx_flags ctx \<union> fs\<rparr>"

abbreviation clear_flags :: "nfs_mount_flag set \<Rightarrow> nfs_fs_context \<Rightarrow> nfs_fs_context" where
  "clear_flags fs ctx \<equiv> ctx\<lparr>ctx_flags := ctx_flags ctx - fs\<rparr>"

abbreviation upd_ns :: "(nfs_server_parms \<Rightarrow> nfs_server_parms) \<Rightarrow> nfs_fs_context \<Rightarrow> nfs_fs_context" where
  "upd_ns f ctx \<equiv> ctx\<lparr>nfs_server_p := f (nfs_server_p ctx)\<rparr>"

abbreviation upd_ms :: "(mount_server_parms \<Rightarrow> mount_server_parms) \<Rightarrow> nfs_fs_context \<Rightarrow> nfs_fs_context" where
  "upd_ms f ctx \<equiv> ctx\<lparr>mount_server := f (mount_server ctx)\<rparr>"

section \<open>The option tables\<close>

text \<open>The enumeration of the options, with its numbers in C.\<close>

type_synonym nfs_param = nat

abbreviation (input) Opt_ac :: nfs_param where
  "Opt_ac \<equiv> 0"

abbreviation (input) Opt_acdirmax :: nfs_param where
  "Opt_acdirmax \<equiv> 1"

abbreviation (input) Opt_acdirmin :: nfs_param where
  "Opt_acdirmin \<equiv> 2"

abbreviation (input) Opt_acl :: nfs_param where
  "Opt_acl \<equiv> 3"

abbreviation (input) Opt_acregmax :: nfs_param where
  "Opt_acregmax \<equiv> 4"

abbreviation (input) Opt_acregmin :: nfs_param where
  "Opt_acregmin \<equiv> 5"

abbreviation (input) Opt_actimeo :: nfs_param where
  "Opt_actimeo \<equiv> 6"

abbreviation (input) Opt_addr :: nfs_param where
  "Opt_addr \<equiv> 7"

abbreviation (input) Opt_bg :: nfs_param where
  "Opt_bg \<equiv> 8"

abbreviation (input) Opt_bsize :: nfs_param where
  "Opt_bsize \<equiv> 9"

abbreviation (input) Opt_clientaddr :: nfs_param where
  "Opt_clientaddr \<equiv> 10"

abbreviation (input) Opt_cto :: nfs_param where
  "Opt_cto \<equiv> 11"

abbreviation (input) Opt_fg :: nfs_param where
  "Opt_fg \<equiv> 12"

abbreviation (input) Opt_fscache :: nfs_param where
  "Opt_fscache \<equiv> 13"

abbreviation (input) Opt_fscache_flag :: nfs_param where
  "Opt_fscache_flag \<equiv> 14"

abbreviation (input) Opt_hard :: nfs_param where
  "Opt_hard \<equiv> 15"

abbreviation (input) Opt_intr :: nfs_param where
  "Opt_intr \<equiv> 16"

abbreviation (input) Opt_local_lock :: nfs_param where
  "Opt_local_lock \<equiv> 17"

abbreviation (input) Opt_lock :: nfs_param where
  "Opt_lock \<equiv> 18"

abbreviation (input) Opt_lookupcache :: nfs_param where
  "Opt_lookupcache \<equiv> 19"

abbreviation (input) Opt_migration :: nfs_param where
  "Opt_migration \<equiv> 20"

abbreviation (input) Opt_minorversion :: nfs_param where
  "Opt_minorversion \<equiv> 21"

abbreviation (input) Opt_mountaddr :: nfs_param where
  "Opt_mountaddr \<equiv> 22"

abbreviation (input) Opt_mounthost :: nfs_param where
  "Opt_mounthost \<equiv> 23"

abbreviation (input) Opt_mountport :: nfs_param where
  "Opt_mountport \<equiv> 24"

abbreviation (input) Opt_mountproto :: nfs_param where
  "Opt_mountproto \<equiv> 25"

abbreviation (input) Opt_mountvers :: nfs_param where
  "Opt_mountvers \<equiv> 26"

abbreviation (input) Opt_namelen :: nfs_param where
  "Opt_namelen \<equiv> 27"

abbreviation (input) Opt_nconnect :: nfs_param where
  "Opt_nconnect \<equiv> 28"

abbreviation (input) Opt_max_connect :: nfs_param where
  "Opt_max_connect \<equiv> 29"

abbreviation (input) Opt_port :: nfs_param where
  "Opt_port \<equiv> 30"

abbreviation (input) Opt_posix :: nfs_param where
  "Opt_posix \<equiv> 31"

abbreviation (input) Opt_proto :: nfs_param where
  "Opt_proto \<equiv> 32"

abbreviation (input) Opt_rdirplus :: nfs_param where
  "Opt_rdirplus \<equiv> 33"

abbreviation (input) Opt_rdirplus_none :: nfs_param where
  "Opt_rdirplus_none \<equiv> 34"

abbreviation (input) Opt_rdirplus_force :: nfs_param where
  "Opt_rdirplus_force \<equiv> 35"

abbreviation (input) Opt_rdma :: nfs_param where
  "Opt_rdma \<equiv> 36"

abbreviation (input) Opt_resvport :: nfs_param where
  "Opt_resvport \<equiv> 37"

abbreviation (input) Opt_retrans :: nfs_param where
  "Opt_retrans \<equiv> 38"

abbreviation (input) Opt_retry :: nfs_param where
  "Opt_retry \<equiv> 39"

abbreviation (input) Opt_rsize :: nfs_param where
  "Opt_rsize \<equiv> 40"

abbreviation (input) Opt_sec :: nfs_param where
  "Opt_sec \<equiv> 41"

abbreviation (input) Opt_sharecache :: nfs_param where
  "Opt_sharecache \<equiv> 42"

abbreviation (input) Opt_sloppy :: nfs_param where
  "Opt_sloppy \<equiv> 43"

abbreviation (input) Opt_soft :: nfs_param where
  "Opt_soft \<equiv> 44"

abbreviation (input) Opt_softerr :: nfs_param where
  "Opt_softerr \<equiv> 45"

abbreviation (input) Opt_softreval :: nfs_param where
  "Opt_softreval \<equiv> 46"

abbreviation (input) Opt_source :: nfs_param where
  "Opt_source \<equiv> 47"

abbreviation (input) Opt_tcp :: nfs_param where
  "Opt_tcp \<equiv> 48"

abbreviation (input) Opt_timeo :: nfs_param where
  "Opt_timeo \<equiv> 49"

abbreviation (input) Opt_trunkdiscovery :: nfs_param where
  "Opt_trunkdiscovery \<equiv> 50"

abbreviation (input) Opt_udp :: nfs_param where
  "Opt_udp \<equiv> 51"

abbreviation (input) Opt_v :: nfs_param where
  "Opt_v \<equiv> 52"

abbreviation (input) Opt_vers :: nfs_param where
  "Opt_vers \<equiv> 53"

abbreviation (input) Opt_wsize :: nfs_param where
  "Opt_wsize \<equiv> 54"

abbreviation (input) Opt_write :: nfs_param where
  "Opt_write \<equiv> 55"

abbreviation (input) Opt_xprtsec :: nfs_param where
  "Opt_xprtsec \<equiv> 56"

datatype fsparam_type = FS_flag | FS_flag_no | FS_u32 | FS_string | FS_enum "(string \<times> int) list"

text \<open>The constant tables; the numbers are those of the C enumerations.\<close>

definition nfs_param_enums_local_lock :: "(string \<times> int) list" where
  "nfs_param_enums_local_lock = [(''all'', 0), (''flock'', 1), (''posix'', 3), (''none'', 2)]"

definition nfs_param_enums_lookupcache :: "(string \<times> int) list" where
  "nfs_param_enums_lookupcache = [(''all'', 0), (''none'', 1), (''pos'', 2), (''positive'', 2)]"

definition nfs_param_enums_write :: "(string \<times> int) list" where
  "nfs_param_enums_write = [(''lazy'', 0), (''eager'', 1), (''wait'', 2)]"

definition nfs_fs_parameters :: "(fsparam_type \<times> string \<times> nfs_param) list" where
  "nfs_fs_parameters =
     [(FS_flag_no, ''ac'', Opt_ac), (FS_u32, ''acdirmax'', Opt_acdirmax), (FS_u32, ''acdirmin'', Opt_acdirmin),
      (FS_flag_no, ''acl'', Opt_acl), (FS_u32, ''acregmax'', Opt_acregmax), (FS_u32, ''acregmin'', Opt_acregmin),
      (FS_u32, ''actimeo'', Opt_actimeo), (FS_string, ''addr'', Opt_addr), (FS_flag, ''bg'', Opt_bg),
      (FS_u32, ''bsize'', Opt_bsize), (FS_string, ''clientaddr'', Opt_clientaddr), (FS_flag_no, ''cto'', Opt_cto),
      (FS_flag, ''fg'', Opt_fg), (FS_flag_no, ''fsc'', Opt_fscache_flag), (FS_string, ''fsc'', Opt_fscache),
      (FS_flag, ''hard'', Opt_hard), (FS_flag_no, ''intr'', Opt_intr),
      (FS_enum nfs_param_enums_local_lock, ''local_lock'', Opt_local_lock), (FS_flag_no, ''lock'', Opt_lock),
      (FS_enum nfs_param_enums_lookupcache, ''lookupcache'', Opt_lookupcache),
      (FS_flag_no, ''migration'', Opt_migration), (FS_u32, ''minorversion'', Opt_minorversion),
      (FS_string, ''mountaddr'', Opt_mountaddr), (FS_string, ''mounthost'', Opt_mounthost),
      (FS_u32, ''mountport'', Opt_mountport), (FS_string, ''mountproto'', Opt_mountproto),
      (FS_u32, ''mountvers'', Opt_mountvers), (FS_u32, ''namlen'', Opt_namelen), (FS_u32, ''nconnect'', Opt_nconnect),
      (FS_u32, ''max_connect'', Opt_max_connect), (FS_string, ''nfsvers'', Opt_vers), (FS_u32, ''port'', Opt_port),
      (FS_flag_no, ''posix'', Opt_posix), (FS_string, ''proto'', Opt_proto), (FS_flag_no, ''rdirplus'', Opt_rdirplus),
      (FS_string, ''rdirplus'', Opt_rdirplus), (FS_flag, ''rdma'', Opt_rdma), (FS_flag_no, ''resvport'', Opt_resvport),
      (FS_u32, ''retrans'', Opt_retrans), (FS_string, ''retry'', Opt_retry), (FS_u32, ''rsize'', Opt_rsize),
      (FS_string, ''sec'', Opt_sec), (FS_flag_no, ''sharecache'', Opt_sharecache), (FS_flag, ''sloppy'', Opt_sloppy),
      (FS_flag, ''soft'', Opt_soft), (FS_flag, ''softerr'', Opt_softerr), (FS_flag, ''softreval'', Opt_softreval),
      (FS_string, ''source'', Opt_source), (FS_flag, ''tcp'', Opt_tcp), (FS_u32, ''timeo'', Opt_timeo),
      (FS_flag_no, ''trunkdiscovery'', Opt_trunkdiscovery), (FS_flag, ''udp'', Opt_udp), (FS_flag, ''v2'', Opt_v),
      (FS_flag, ''v3'', Opt_v), (FS_flag, ''v4'', Opt_v), (FS_flag, ''v4.0'', Opt_v), (FS_flag, ''v4.1'', Opt_v),
      (FS_flag, ''v4.2'', Opt_v), (FS_string, ''vers'', Opt_vers), (FS_enum nfs_param_enums_write, ''write'', Opt_write),
      (FS_u32, ''wsize'', Opt_wsize), (FS_string, ''xprtsec'', Opt_xprtsec)]"

definition nfs_vers_tokens :: "(string \<times> int) list" where
  "nfs_vers_tokens = [(''2'', 0), (''3'', 1), (''4'', 2), (''4.0'', 3), (''4.1'', 4), (''4.2'', 5)]"

definition nfs_xprt_protocol_tokens :: "(string \<times> int) list" where
  "nfs_xprt_protocol_tokens =
     [(''rdma'', 0), (''rdma6'', 1), (''tcp'', 2), (''tcp6'', 3), (''udp'', 4), (''udp6'', 5)]"

definition nfs_secflavor_tokens :: "(string \<times> int) list" where
  "nfs_secflavor_tokens =
     [(''krb5'', 0), (''krb5i'', 1), (''krb5p'', 2), (''lkey'', 3), (''lkeyi'', 4), (''lkeyp'', 5), (''none'', 6),
      (''null'', 6), (''spkm3'', 7), (''spkm3i'', 8), (''spkm3p'', 9), (''sys'', 10)]"

definition nfs_xprtsec_policies :: "(string \<times> int) list" where
  "nfs_xprtsec_policies = [(''none'', 0), (''tls'', 1), (''mtls'', 2)]"

definition nfs_rdirplus_tokens :: "(string \<times> int) list" where
  "nfs_rdirplus_tokens = [(''none'', 34), (''force'', 35)]"

section \<open>The environment\<close>

record fs_parameter =
  pm_key :: string
  pm_string :: "string option"

record fs_parse_result =
  negated :: bool
  uint_32 :: u32

record fs_env =
  fe_fs_parse :: "(fsparam_type \<times> string \<times> nfs_param) list \<Rightarrow> fs_parameter \<Rightarrow> int + nfs_param \<times> fs_parse_result"
  fe_lookup_constant :: "(string \<times> int) list \<Rightarrow> string \<Rightarrow> int \<Rightarrow> int"
  fe_rpc_pton :: "string \<Rightarrow> (sockaddr_storage \<times> nat) option"
  fe_transport_ident :: "string \<Rightarrow> int"
  fe_rpc_set_port :: "int \<Rightarrow> sockaddr_storage \<Rightarrow> sockaddr_storage"
  fe_strndup_user :: "string \<Rightarrow> nat \<Rightarrow> int + string"
  fe_copy_from_user :: "nat \<Rightarrow> bool"
  fe_kmalloc :: "nat \<Rightarrow> bool"
  fe_context_option :: "string \<Rightarrow> nfs_fs_context \<Rightarrow> nfs_fs_context \<times> int"
  fe_generic :: "nfs_fs_context \<Rightarrow> nfs_fs_context \<times> int"
  fe_get_nfs_version :: "u32 \<Rightarrow> int + fs_type"
  fe_disable_udp :: bool
  fe_nfs_v4 :: bool
  fe_try_get_tree :: "nfs_fs_context \<Rightarrow> nfs_fs_context \<times> int"
  fe_get_tree_common :: "nfs_fs_context \<Rightarrow> nfs_fs_context \<times> int"

abbreviation lookup_constant :: "fs_env \<Rightarrow> (string \<times> int) list \<Rightarrow> string \<Rightarrow> int" where
  "lookup_constant e tbl s \<equiv> fe_lookup_constant e tbl s (- 1)"

section \<open>Addresses and transports\<close>

definition nfs_verify_server_address :: "sockaddr_storage \<Rightarrow> bool" where
  "nfs_verify_server_address a =
     (if ss_family a = AF_INET then ss_addr a \<noteq> 0
      else if ss_family a = AF_INET6 then ss_addr a \<noteq> 0
      else False)"

definition nfs_server_transport_udp_invalid :: "fs_env \<Rightarrow> nfs_fs_context \<Rightarrow> bool" where
  "nfs_server_transport_udp_invalid e ctx = (if fe_disable_udp e then True else ctx_version ctx = 4)"

definition nfs_validate_transport_protocol :: "fs_env \<Rightarrow> nfs_fs_context \<Rightarrow> nfs_fs_context \<times> int" where
  "nfs_validate_transport_protocol e ctx =
     (let proto = ns_protocol (nfs_server_p ctx) in
      if proto = XPRT_TRANSPORT_UDP \<and> nfs_server_transport_udp_invalid e ctx then (ctx, - EINVAL)
      else
        let ctx = (if proto \<in> {XPRT_TRANSPORT_UDP, XPRT_TRANSPORT_TCP, XPRT_TRANSPORT_RDMA} then ctx
                   else upd_ns (ns_protocol_update (\<lambda>_. XPRT_TRANSPORT_TCP)) ctx) in
        if xprtsec_policy ctx \<noteq> RPC_XPRTSEC_NONE
        then if ns_protocol (nfs_server_p ctx) = XPRT_TRANSPORT_TCP
             then (upd_ns (ns_protocol_update (\<lambda>_. XPRT_TRANSPORT_TCP_TLS)) ctx, 0)
             else (ctx, - EINVAL)
        else (ctx, 0))"

definition nfs_set_mount_transport_protocol :: "nfs_fs_context \<Rightarrow> nfs_fs_context" where
  "nfs_set_mount_transport_protocol ctx =
     (if ms_protocol (mount_server ctx) \<in> {XPRT_TRANSPORT_UDP, XPRT_TRANSPORT_TCP} then ctx
      else if ns_protocol (nfs_server_p ctx) = XPRT_TRANSPORT_UDP
      then upd_ms (ms_protocol_update (\<lambda>_. XPRT_TRANSPORT_UDP)) ctx
      else if ns_protocol (nfs_server_p ctx) \<in> {XPRT_TRANSPORT_TCP, XPRT_TRANSPORT_RDMA}
      then upd_ms (ms_protocol_update (\<lambda>_. XPRT_TRANSPORT_TCP)) ctx
      else ctx)"

definition nfs_set_port :: "fs_env \<Rightarrow> int \<Rightarrow> nfs_fs_context \<Rightarrow> nfs_fs_context" where
  "nfs_set_port e default_port ctx =
     (let port = (if ns_port (nfs_server_p ctx) = NFS_UNSPEC_PORT then default_port
                  else ns_port (nfs_server_p ctx))
      in upd_ns (\<lambda>ns. ns\<lparr>ns_port := port, ns_address := fe_rpc_set_port e port (ns_address ns)\<rparr>) ctx)"

section \<open>Parsing one option\<close>

definition nfs_auth_info_add :: "nfs_fs_context \<Rightarrow> u32 \<Rightarrow> nfs_fs_context \<times> int" where
  "nfs_auth_info_add ctx flavor =
     (if flavor \<in> set (auth_flavors ctx) then (ctx, 0)
      else if length (auth_flavors ctx) + 1 \<ge> NFS_MAX_SECFLAVORS then (ctx, - EINVAL)
      else (ctx\<lparr>auth_flavors := auth_flavors ctx @ [flavor]\<rparr>, 0))"

text \<open>The pseudoflavor of a \<open>sec=\<close> token: the switch over the numbers of \<open>nfs_secflavor_tokens\<close>.\<close>

definition nfs_pseudoflavor :: "int \<Rightarrow> u32 option" where
  "nfs_pseudoflavor opt =
     map_of [(6, 0), (10, RPC_AUTH_UNIX), (0, 390003), (1, 390004), (2, 390005), (3, 390006), (4, 390007),
             (5, 390008), (7, 390009), (8, 390010), (9, 390011)] opt"

fun strsep_tokens :: "char \<Rightarrow> string \<Rightarrow> string list" where
  "strsep_tokens d [] = [[]]"
| "strsep_tokens d (c # cs) =
     (if c = d then [] # strsep_tokens d cs
      else case strsep_tokens d cs of
             [] \<Rightarrow> [[c]]
           | t # ts \<Rightarrow> (c # t) # ts)"

fun nfs_parse_sec_tokens :: "fs_env \<Rightarrow> string list \<Rightarrow> nfs_fs_context \<Rightarrow> nfs_fs_context \<times> int" where
  "nfs_parse_sec_tokens e [] ctx = (ctx, 0)"
| "nfs_parse_sec_tokens e (p # ps) ctx =
     (if p = [] then nfs_parse_sec_tokens e ps ctx
      else case nfs_pseudoflavor (lookup_constant e nfs_secflavor_tokens p) of
             None \<Rightarrow> (ctx, - EINVAL)
           | Some flavor \<Rightarrow>
               (case nfs_auth_info_add ctx flavor of
                  (ctx, ret) \<Rightarrow> if ret < 0 then (ctx, ret) else nfs_parse_sec_tokens e ps ctx))"

definition nfs_parse_security_flavors :: "fs_env \<Rightarrow> string \<Rightarrow> nfs_fs_context \<Rightarrow> nfs_fs_context \<times> int" where
  "nfs_parse_security_flavors e string ctx = nfs_parse_sec_tokens e (strsep_tokens (CHR '':'') string) ctx"

definition nfs_parse_xprtsec_policy :: "fs_env \<Rightarrow> string \<Rightarrow> nfs_fs_context \<Rightarrow> nfs_fs_context \<times> int" where
  "nfs_parse_xprtsec_policy e string ctx =
     (let opt = lookup_constant e nfs_xprtsec_policies string in
      if opt = 0 then (ctx\<lparr>xprtsec_policy := RPC_XPRTSEC_NONE\<rparr>, 0)
      else if opt = 1 then (ctx\<lparr>xprtsec_policy := RPC_XPRTSEC_TLS_ANON\<rparr>, 0)
      else if opt = 2 then (ctx\<lparr>xprtsec_policy := RPC_XPRTSEC_TLS_X509\<rparr>, 0)
      else (ctx, - EINVAL))"

definition nfs_parse_version_string :: "fs_env \<Rightarrow> string \<Rightarrow> nfs_fs_context \<Rightarrow> nfs_fs_context \<times> int" where
  "nfs_parse_version_string e string ctx =
     (let ctx = clear_flags {NFS_MOUNT_VER3} ctx;
          opt = lookup_constant e nfs_vers_tokens string in
      if opt = 0 then (ctx\<lparr>ctx_version := 2\<rparr>, 0)
      else if opt = 1 then ((set_flags {NFS_MOUNT_VER3} ctx)\<lparr>ctx_version := 3\<rparr>, 0)
      else if opt = 2 then (ctx\<lparr>ctx_version := 4\<rparr>, 0)
      else if opt = 3 then (ctx\<lparr>ctx_version := 4, ctx_minorversion := 0\<rparr>, 0)
      else if opt = 4 then (ctx\<lparr>ctx_version := 4, ctx_minorversion := 1\<rparr>, 0)
      else if opt = 5 then (ctx\<lparr>ctx_version := 4, ctx_minorversion := 2\<rparr>, 0)
      else (ctx, - EINVAL))"

text \<open>
  The switch of \<open>nfs_fs_context_parse_param\<close>, in the groups of its comments. A group returns
  \<open>None\<close> for an option that is not its own.
\<close>

definition toggle :: "bool \<Rightarrow> nfs_mount_flag set \<Rightarrow> nfs_fs_context \<Rightarrow> nfs_fs_context" where
  "toggle b fs ctx = (if b then set_flags fs ctx else clear_flags fs ctx)"

definition parse_rdirplus :: "fs_env \<Rightarrow> bool \<Rightarrow> string option \<Rightarrow> nfs_fs_context \<Rightarrow> nfs_fs_context \<times> int" where
  "parse_rdirplus e neg string ctx =
     (let none = set_flags {NFS_MOUNT_NORDIRPLUS} (clear_flags {NFS_MOUNT_FORCE_RDIRPLUS} ctx);
          force = set_flags {NFS_MOUNT_FORCE_RDIRPLUS} (clear_flags {NFS_MOUNT_NORDIRPLUS} ctx) in
      if neg then (none, 0)
      else case string of
             None \<Rightarrow> (clear_flags {NFS_MOUNT_NORDIRPLUS, NFS_MOUNT_FORCE_RDIRPLUS} ctx, 0)
           | Some s \<Rightarrow>
               (let opt = lookup_constant e nfs_rdirplus_tokens s in
                if opt = int Opt_rdirplus_none then (none, 0)
                else if opt = int Opt_rdirplus_force then (force, 0)
                else (ctx, - EINVAL)))"

definition parse_boolean_param ::
  "fs_env \<Rightarrow> nfs_param \<Rightarrow> bool \<Rightarrow> fs_parameter \<Rightarrow> nfs_fs_context \<Rightarrow> (nfs_fs_context \<times> int) option" where
  "parse_boolean_param e opt neg param ctx =
     (if opt = Opt_soft
      then Some (clear_flags {NFS_MOUNT_SOFTERR} (set_flags {NFS_MOUNT_SOFT} ctx), 0)
      else if opt = Opt_softerr
      then Some (clear_flags {NFS_MOUNT_SOFT} (set_flags {NFS_MOUNT_SOFTERR, NFS_MOUNT_SOFTREVAL} ctx), 0)
      else if opt = Opt_hard
      then Some (clear_flags {NFS_MOUNT_SOFT, NFS_MOUNT_SOFTERR, NFS_MOUNT_SOFTREVAL} ctx, 0)
      else if opt = Opt_softreval then Some (toggle (\<not> neg) {NFS_MOUNT_SOFTREVAL} ctx, 0)
      else if opt = Opt_posix then Some (toggle (\<not> neg) {NFS_MOUNT_POSIX} ctx, 0)
      else if opt = Opt_cto then Some (toggle neg {NFS_MOUNT_NOCTO} ctx, 0)
      else if opt = Opt_trunkdiscovery then Some (toggle (\<not> neg) {NFS_MOUNT_TRUNK_DISCOVERY} ctx, 0)
      else if opt = Opt_ac then Some (toggle neg {NFS_MOUNT_NOAC} ctx, 0)
      else if opt = Opt_lock
      then Some (toggle neg {NFS_MOUNT_LOCAL_FLOCK, NFS_MOUNT_LOCAL_FCNTL}
                   (toggle neg {NFS_MOUNT_NONLM}
                      (ctx\<lparr>lock_status := if neg then NFS_LOCK_NOLOCK else NFS_LOCK_LOCK\<rparr>)), 0)
      else if opt = Opt_udp
      then Some (upd_ns (ns_protocol_update (\<lambda>_. XPRT_TRANSPORT_UDP)) (clear_flags {NFS_MOUNT_TCP} ctx), 0)
      else if opt = Opt_tcp \<or> opt = Opt_rdma
      then let ctx = set_flags {NFS_MOUNT_TCP} ctx;
               ret = fe_transport_ident e (pm_key param)
           in Some (if ret < 0 then (ctx, - EINVAL)
                    else (upd_ns (ns_protocol_update (\<lambda>_. word_of_int ret)) ctx, 0))
      else if opt = Opt_acl then Some (toggle neg {NFS_MOUNT_NOACL} ctx, 0)
      else if opt = Opt_rdirplus then Some (parse_rdirplus e neg (pm_string param) ctx)
      else if opt = Opt_sharecache then Some (toggle neg {NFS_MOUNT_UNSHARED} ctx, 0)
      else if opt = Opt_resvport then Some (toggle neg {NFS_MOUNT_NORESVPORT} ctx, 0)
      else if opt = Opt_fscache_flag
      then Some (ctx\<lparr>ctx_options := if neg then ctx_options ctx - {NFS_OPTION_FSCACHE}
                                    else insert NFS_OPTION_FSCACHE (ctx_options ctx),
                     fscache_uniq := None\<rparr>, 0)
      else if opt = Opt_fscache
      then Some (ctx\<lparr>ctx_options := insert NFS_OPTION_FSCACHE (ctx_options ctx), fscache_uniq := pm_string param\<rparr>, 0)
      else if opt = Opt_migration
      then Some (ctx\<lparr>ctx_options := if neg then ctx_options ctx - {NFS_OPTION_MIGRATION}
                                    else insert NFS_OPTION_MIGRATION (ctx_options ctx)\<rparr>, 0)
      else None)"

definition parse_numeric_param ::
  "nfs_param \<Rightarrow> u32 \<Rightarrow> nfs_fs_context \<Rightarrow> (nfs_fs_context \<times> int) option" where
  "parse_numeric_param opt v ctx =
     (let bound = (\<lambda>ok ctx'. Some (if ok then (ctx', 0) else (ctx, - EINVAL))) in
      if opt = Opt_port then bound (v \<le> 0xFFFF) (upd_ns (ns_port_update (\<lambda>_. uint v)) ctx)
      else if opt = Opt_rsize then Some (ctx\<lparr>ctx_rsize := v\<rparr>, 0)
      else if opt = Opt_wsize then Some (ctx\<lparr>ctx_wsize := v\<rparr>, 0)
      else if opt = Opt_bsize then Some (ctx\<lparr>ctx_bsize := v\<rparr>, 0)
      else if opt = Opt_timeo then bound (1 \<le> v \<and> v \<le> 0x7FFFFFFF) (ctx\<lparr>ctx_timeo := v\<rparr>)
      else if opt = Opt_retrans then bound (v \<le> 0x7FFFFFFF) (ctx\<lparr>ctx_retrans := v\<rparr>)
      else if opt = Opt_acregmin then Some (ctx\<lparr>ctx_acregmin := v\<rparr>, 0)
      else if opt = Opt_acregmax then Some (ctx\<lparr>ctx_acregmax := v\<rparr>, 0)
      else if opt = Opt_acdirmin then Some (ctx\<lparr>ctx_acdirmin := v\<rparr>, 0)
      else if opt = Opt_acdirmax then Some (ctx\<lparr>ctx_acdirmax := v\<rparr>, 0)
      else if opt = Opt_actimeo
      then Some (ctx\<lparr>ctx_acregmin := v, ctx_acregmax := v, ctx_acdirmin := v, ctx_acdirmax := v\<rparr>, 0)
      else if opt = Opt_namelen then Some (ctx\<lparr>ctx_namlen := v\<rparr>, 0)
      else if opt = Opt_mountport then bound (v \<le> 0xFFFF) (upd_ms (ms_port_update (\<lambda>_. uint v)) ctx)
      else if opt = Opt_mountvers then bound (1 \<le> v \<and> v \<le> 3) (upd_ms (ms_version_update (\<lambda>_. v)) ctx)
      else if opt = Opt_minorversion then bound (v \<le> NFS4_MAX_MINOR_VERSION) (ctx\<lparr>ctx_minorversion := v\<rparr>)
      else if opt = Opt_nconnect
      then bound (1 \<le> v \<and> v \<le> NFS_MAX_CONNECTIONS) (upd_ns (ns_nconnect_update (\<lambda>_. ucast v)) ctx)
      else if opt = Opt_max_connect
      then bound (1 \<le> v \<and> v \<le> NFS_MAX_TRANSPORTS) (upd_ns (ns_max_connect_update (\<lambda>_. ucast v)) ctx)
      else None)"

text \<open>\<open>proto=\<close> and \<open>mountproto=\<close>; the family is that of the token.\<close>

definition parse_proto :: "fs_env \<Rightarrow> string \<Rightarrow> nfs_fs_context \<Rightarrow> nfs_fs_context \<times> int" where
  "parse_proto e string ctx =
     (let opt = lookup_constant e nfs_xprt_protocol_tokens string;
          family = (if opt \<in> {1, 3, 5} then AF_INET6 else AF_INET) in
      if opt \<in> {4, 5}
      then ((upd_ns (ns_protocol_update (\<lambda>_. XPRT_TRANSPORT_UDP)) (clear_flags {NFS_MOUNT_TCP} ctx))
              \<lparr>protofamily := family\<rparr>, 0)
      else if opt \<in> {2, 3}
      then ((upd_ns (ns_protocol_update (\<lambda>_. XPRT_TRANSPORT_TCP)) (set_flags {NFS_MOUNT_TCP} ctx))
              \<lparr>protofamily := family\<rparr>, 0)
      else if opt \<in> {0, 1}
      then let ctx = set_flags {NFS_MOUNT_TCP} ctx; ret = fe_transport_ident e string
           in if ret < 0 then (ctx, - EINVAL)
              else ((upd_ns (ns_protocol_update (\<lambda>_. word_of_int ret)) ctx)\<lparr>protofamily := family\<rparr>, 0)
      else (ctx, - EINVAL))"

definition parse_mountproto :: "fs_env \<Rightarrow> string \<Rightarrow> nfs_fs_context \<Rightarrow> nfs_fs_context \<times> int" where
  "parse_mountproto e string ctx =
     (let opt = lookup_constant e nfs_xprt_protocol_tokens string;
          family = (if opt \<in> {3, 5} then AF_INET6 else AF_INET) in
      if opt \<in> {4, 5}
      then ((upd_ms (ms_protocol_update (\<lambda>_. XPRT_TRANSPORT_UDP)) ctx)\<lparr>mountfamily := family\<rparr>, 0)
      else if opt \<in> {2, 3}
      then ((upd_ms (ms_protocol_update (\<lambda>_. XPRT_TRANSPORT_TCP)) ctx)\<lparr>mountfamily := family\<rparr>, 0)
      else (ctx, - EINVAL))"

definition parse_enum_param :: "nfs_param \<Rightarrow> u32 \<Rightarrow> nfs_fs_context \<Rightarrow> (nfs_fs_context \<times> int) option" where
  "parse_enum_param opt v ctx =
     (let local = {NFS_MOUNT_LOCAL_FLOCK, NFS_MOUNT_LOCAL_FCNTL};
          noneg = {NFS_MOUNT_LOOKUP_CACHE_NONEG}; none = {NFS_MOUNT_LOOKUP_CACHE_NONE};
          eager = {NFS_MOUNT_WRITE_EAGER}; wait = {NFS_MOUNT_WRITE_WAIT} in
      if opt = Opt_lookupcache
      then Some (if v = 0 then (clear_flags (noneg \<union> none) ctx, 0)
                 else if v = 2 then (set_flags noneg (clear_flags none ctx), 0)
                 else if v = 1 then (set_flags (noneg \<union> none) ctx, 0)
                 else (ctx, - EINVAL))
      else if opt = Opt_local_lock
      then Some (if v = 0 then (set_flags local ctx, 0)
                 else if v = 1 then (set_flags {NFS_MOUNT_LOCAL_FLOCK} ctx, 0)
                 else if v = 3 then (set_flags {NFS_MOUNT_LOCAL_FCNTL} ctx, 0)
                 else if v = 2 then (clear_flags local ctx, 0)
                 else (ctx, - EINVAL))
      else if opt = Opt_write
      then Some (if v = 0 then (clear_flags (eager \<union> wait) ctx, 0)
                 else if v = 1 then (clear_flags wait (set_flags eager ctx), 0)
                 else if v = 2 then (set_flags (eager \<union> wait) ctx, 0)
                 else (ctx, - EINVAL))
      else None)"

definition parse_text_param ::
  "fs_env \<Rightarrow> nfs_param \<Rightarrow> fs_parameter \<Rightarrow> nfs_fs_context \<Rightarrow> (nfs_fs_context \<times> int) option" where
  "parse_text_param e opt param ctx =
     (let text = (case pm_string param of Some s \<Rightarrow> s | None \<Rightarrow> []);
          needed = (\<lambda>r. Some (if pm_string param = None then (ctx, - EINVAL) else r)) in
      if opt = Opt_v then Some (nfs_parse_version_string e (tl (pm_key param)) ctx)
      else if opt = Opt_vers then needed (nfs_parse_version_string e text ctx)
      else if opt = Opt_sec then Some (nfs_parse_security_flavors e text ctx)
      else if opt = Opt_xprtsec then Some (nfs_parse_xprtsec_policy e text ctx)
      else if opt = Opt_proto then needed (parse_proto e text ctx)
      else if opt = Opt_mountproto then needed (parse_mountproto e text ctx)
      else if opt = Opt_addr
      then Some (case fe_rpc_pton e text of
                   None \<Rightarrow> (ctx, - EINVAL)
                 | Some (a, len) \<Rightarrow> (upd_ns (\<lambda>ns. ns\<lparr>ns_address := a, ns_addrlen := len\<rparr>) ctx, 0))
      else if opt = Opt_clientaddr then Some (ctx\<lparr>client_address := pm_string param\<rparr>, 0)
      else if opt = Opt_mounthost then Some (upd_ms (ms_hostname_update (\<lambda>_. pm_string param)) ctx, 0)
      else if opt = Opt_mountaddr
      then Some (case fe_rpc_pton e text of
                   None \<Rightarrow> (ctx, - EINVAL)
                 | Some (a, len) \<Rightarrow> (upd_ms (\<lambda>ms. ms\<lparr>ms_address := a, ms_addrlen := len\<rparr>) ctx, 0))
      else None)"

definition nfs_fs_context_parse_param :: "fs_env \<Rightarrow> fs_parameter \<Rightarrow> nfs_fs_context \<Rightarrow> nfs_fs_context \<times> int" where
  "nfs_fs_context_parse_param e param ctx =
     (case fe_fs_parse e nfs_fs_parameters param of
        Inl err \<Rightarrow> (ctx, if err = - ENOPARAM \<and> sloppy ctx then 1 else err)
      | Inr (opt, result) \<Rightarrow>
          let ctx = (if fc_security ctx then ctx\<lparr>has_sec_mnt_opts := True\<rparr> else ctx) in
          if opt = Opt_source
          then if fc_source ctx \<noteq> None then (ctx, - EINVAL) else (ctx\<lparr>fc_source := pm_string param\<rparr>, 0)
          else if opt = Opt_sloppy then (ctx\<lparr>sloppy := True\<rparr>, 0)
          else case parse_boolean_param e opt (negated result) param ctx of
                 Some r \<Rightarrow> r
               | None \<Rightarrow>
                   (case parse_numeric_param opt (uint_32 result) ctx of
                      Some r \<Rightarrow> r
                    | None \<Rightarrow>
                        (case parse_text_param e opt param ctx of
                           Some r \<Rightarrow> r
                         | None \<Rightarrow>
                             (case parse_enum_param opt (uint_32 result) ctx of
                                Some r \<Rightarrow> r
                              | None \<Rightarrow> (ctx, 0)))))"

section \<open>The device name\<close>

text \<open>\<open>strchr\<close>: the text before the first occurrence, and the text after it.\<close>

fun split_at :: "char \<Rightarrow> string \<Rightarrow> (string \<times> string) option" where
  "split_at d [] = None"
| "split_at d (c # cs) =
     (if c = d then Some ([], cs)
      else case split_at d cs of None \<Rightarrow> None | Some (a, b) \<Rightarrow> Some (c # a, b))"

definition nfs_split_source :: "string \<Rightarrow> (string \<times> string) option" where
  "nfs_split_source dev_name =
     (if take 1 dev_name = ''[''
      then case split_at (CHR '']'') (tl dev_name) of
             None \<Rightarrow> None
           | Some (host, rest) \<Rightarrow> if take 1 rest = '':'' then Some (host, tl rest) else None
      else case split_at (CHR '':'') dev_name of
             None \<Rightarrow> None
           | Some (host, path) \<Rightarrow>
               Some (case split_at (CHR '','') host of None \<Rightarrow> host | Some (first, _) \<Rightarrow> first, path))"

definition nfs_parse_source :: "fs_env \<Rightarrow> nat \<Rightarrow> nat \<Rightarrow> nfs_fs_context \<Rightarrow> nfs_fs_context \<times> int" where
  "nfs_parse_source e maxnamlen maxpathlen ctx =
     (case fc_source ctx of
        None \<Rightarrow> (ctx, - EINVAL)
      | Some dev_name \<Rightarrow>
          if dev_name = [] then (ctx, - EINVAL)
          else case nfs_split_source dev_name of
                 None \<Rightarrow> (ctx, - EINVAL)
               | Some (host, path) \<Rightarrow>
                   if length host > maxnamlen then (ctx, - ENAMETOOLONG)
                   else if \<not> fe_kmalloc e 0 then (upd_ns (ns_hostname_update (\<lambda>_. None)) ctx, - ENOMEM)
                   else
                     let ctx = upd_ns (ns_hostname_update (\<lambda>_. Some host)) ctx in
                     if length path > maxpathlen then (ctx, - ENAMETOOLONG)
                     else if \<not> fe_kmalloc e 1
                     then (upd_ns (ns_export_path_update (\<lambda>_. None)) ctx, - ENOMEM)
                     else (upd_ns (ns_export_path_update (\<lambda>_. Some path)) ctx, 0))"

section \<open>Binary mount data\<close>

record nfs_mount_data =
  nd_version :: int
  nd_old_root :: "8 word list"
  nd_flags :: u32
  nd_rsize :: u32
  nd_wsize :: u32
  nd_timeo :: u32
  nd_retrans :: u32
  nd_acregmin :: u32
  nd_acregmax :: u32
  nd_acdirmin :: u32
  nd_acdirmax :: u32
  nd_addr :: sockaddr_storage
  nd_hostname :: string
  nd_namlen :: u32
  nd_bsize :: u32
  nd_root :: nfs_fh
  nd_pseudoflavor :: u32
  nd_context :: string

definition nd_has :: "nfs_mount_data \<Rightarrow> nfs_mount_flag \<Rightarrow> bool" where
  "nd_has data f \<longleftrightarrow> f \<in> mount_flags_of (nd_flags data)"

text \<open>The cases 1 to 5 of the version switch, which fall through to 6: what older structures lack.\<close>

definition nfs23_upgrade_data :: "nfs_mount_data \<Rightarrow> int + nfs_mount_data \<times> nfs_mount_flag set" where
  "nfs23_upgrade_data data =
     (let v = nd_version data;
          data = (if v = 1 then data\<lparr>nd_namlen := 0\<rparr> else data);
          data = (if v \<le> 2 then data\<lparr>nd_bsize := 0\<rparr> else data);
          extra = {NFS_MOUNT_LEGACY_INTERFACE} in
      if v \<le> 3 \<and> nd_has data NFS_MOUNT_VER3 then Inl (- EINVAL)
      else
        let data = (if v \<le> 3
                    then data\<lparr>nd_root := \<lparr>fh_size = NFS2_FHSIZE,
                                fh_data = nd_old_root data @ drop NFS2_FHSIZE (fh_data (nd_root data))\<rparr>\<rparr>
                    else data);
            extra = (if v \<le> 3 then insert NFS_MOUNT_SECFLAVOUR extra else extra) in
        if v \<le> 4 \<and> nd_has data NFS_MOUNT_SECFLAVOUR then Inl (- EINVAL)
        else Inr (if v \<le> 5 then data\<lparr>nd_context := []\<rparr> else data, extra))"

definition nfs23_mntfh :: "nfs_mount_data \<Rightarrow> nfs_fh" where
  "nfs23_mntfh data =
     (let size = (if nd_has data NFS_MOUNT_VER3 then fh_size (nd_root data) else NFS2_FHSIZE)
      in \<lparr>fh_size = size,
          fh_data = take size (fh_data (nd_root data)) @ replicate (NFS_MAXFHSIZE - size) 0\<rparr>)"

text \<open>The translation of the data to the context, up to the check of the address.\<close>

definition nfs23_translate :: "nfs_mount_data \<Rightarrow> nfs_mount_flag set \<Rightarrow> nfs_fs_context \<Rightarrow> nfs_fs_context" where
  "nfs23_translate data extra ctx =
     (let ctx = ctx\<lparr>ctx_flags := mount_flags_of (nd_flags data AND NFS_MOUNT_FLAGMASK) \<union> extra,
            ctx_rsize := nd_rsize data, ctx_wsize := nd_wsize data, ctx_timeo := nd_timeo data,
            ctx_retrans := nd_retrans data, ctx_acregmin := nd_acregmin data,
            ctx_acregmax := nd_acregmax data, ctx_acdirmin := nd_acdirmin data,
            ctx_acdirmax := nd_acdirmax data, need_mount := (fh_size (nd_root data) = 0)\<rparr>
      in if \<not> fc_root ctx
         then upd_ns (\<lambda>ns. ns\<lparr>ns_address := nd_addr data, ns_addrlen := 16,
                            ns_port := uint (ss_port (nd_addr data))\<rparr>) ctx
         else ctx)"

text \<open>The rest of case 6: host name, sizes, flavor, local locking and the SELinux context.\<close>

definition nfs23_finish :: "fs_env \<Rightarrow> nfs_mount_data \<Rightarrow> nfs_fs_context \<Rightarrow> nfs_fs_context \<times> int" where
  "nfs23_finish e data ctx =
     (let ctx = (if \<not> nd_has data NFS_MOUNT_TCP
                 then upd_ns (ns_protocol_update (\<lambda>_. XPRT_TRANSPORT_UDP)) ctx else ctx) in
      if \<not> fe_kmalloc e 0 then (upd_ns (ns_hostname_update (\<lambda>_. None)) ctx, - ENOMEM)
      else
        let ctx = upd_ns (ns_hostname_update (\<lambda>_. Some (nd_hostname data))) ctx;
            ctx = ctx\<lparr>ctx_namlen := nd_namlen data, ctx_bsize := nd_bsize data,
                      selected_flavor := if nd_has data NFS_MOUNT_SECFLAVOUR then nd_pseudoflavor data
                                         else RPC_AUTH_UNIX\<rparr>;
            ctx = toggle (nd_has data NFS_MOUNT_NONLM) {NFS_MOUNT_LOCAL_FLOCK, NFS_MOUNT_LOCAL_FCNTL} ctx
        in if nd_context data \<noteq> []
           then case fe_context_option e (nd_context data) ctx of
                  (ctx, ret) \<Rightarrow> (ctx, if ret < 0 then ret else 0)
           else (ctx, 0))"

definition nfs23_parse_monolithic ::
  "fs_env \<Rightarrow> nfs_mount_data option \<Rightarrow> nfs_fs_context \<Rightarrow> nfs_fs_context \<times> int" where
  "nfs23_parse_monolithic e data ctx =
     (case data of
        None \<Rightarrow> if fc_root ctx then (ctx\<lparr>skip_reconfig_option_check := True\<rparr>, 0) else (ctx, - EINVAL)
      | Some data \<Rightarrow>
          let ctx = ctx\<lparr>ctx_version := NFS_DEFAULT_VERSION\<rparr> in
          if nd_version data \<notin> {1..6} then fe_generic e ctx
          else case nfs23_upgrade_data data of
                 Inl err \<Rightarrow> (ctx, err)
               | Inr (data, extra) \<Rightarrow>
                   if nd_has data NFS_MOUNT_VER3 \<and> fh_size (nd_root data) > NFS3_FHSIZE then (ctx, - EINVAL)
                   else
                     let ctx = ctx\<lparr>ctx_mntfh := nfs23_mntfh data,
                                  ctx_version := if nd_has data NFS_MOUNT_VER3 then 3 else 2\<rparr> in
                     if \<not> nd_has data NFS_MOUNT_TCP \<and> sint (nd_retrans data) \<ge> 64 then (ctx, - EINVAL)
                     else
                       let ctx = nfs23_translate data extra ctx; sap = ns_address (nfs_server_p ctx) in
                       if ss_family sap \<noteq> AF_INET \<or> \<not> nfs_verify_server_address sap then (ctx, - EINVAL)
                       else case nfs23_finish e data ctx of
                              (ctx, ret) \<Rightarrow>
                                if ret < 0 then (ctx, ret)
                                else case nfs_validate_transport_protocol e ctx of
                                       (ctx, ret) \<Rightarrow>
                                         if ret \<noteq> 0 then (ctx, ret)
                                         else (ctx\<lparr>skip_reconfig_option_check := True\<rparr>, 0))"

text \<open>
  The data of version 4. A user pointer to one value is the value; \<open>auth_flavours\<close> is the first
  flavour. The structure of a 32-bit caller is converted field by field before it is read.
\<close>

record nfs4_mount_data =
  n4_version :: int
  n4_flags :: u32
  n4_rsize :: u32
  n4_wsize :: u32
  n4_timeo :: u32
  n4_retrans :: u32
  n4_acregmin :: u32
  n4_acregmax :: u32
  n4_acdirmin :: u32
  n4_acdirmax :: u32
  n4_client_addr :: string
  n4_mnt_path :: string
  n4_hostname :: string
  n4_host_addrlen :: nat
  n4_host_addr :: sockaddr_storage
  n4_proto :: u32
  n4_auth_flavourlen :: int
  n4_auth_flavours :: u32

definition nfs4_translate :: "nfs4_mount_data \<Rightarrow> nfs_fs_context \<Rightarrow> nfs_fs_context" where
  "nfs4_translate data ctx =
     upd_ns (ns_protocol_update (\<lambda>_. ucast (n4_proto data)))
       (ctx\<lparr>ctx_flags := mount_flags_of (n4_flags data AND NFS4_MOUNT_FLAGMASK),
          ctx_rsize := n4_rsize data, ctx_wsize := n4_wsize data, ctx_timeo := n4_timeo data,
          ctx_retrans := n4_retrans data, ctx_acregmin := n4_acregmin data,
          ctx_acregmax := n4_acregmax data, ctx_acdirmin := n4_acdirmin data,
          ctx_acdirmax := n4_acdirmax data\<rparr>)"

text \<open>The three strings, each copied with its own limit; the first that fails ends the mount.\<close>

definition nfs4_copy_strings :: "fs_env \<Rightarrow> nfs4_mount_data \<Rightarrow> nfs_fs_context \<Rightarrow> nfs_fs_context \<times> int" where
  "nfs4_copy_strings e data ctx =
     (case fe_strndup_user e (n4_hostname data) NFS4_MAXNAMLEN of
        Inl err \<Rightarrow> (ctx, err)
      | Inr host \<Rightarrow>
          let ctx = upd_ns (ns_hostname_update (\<lambda>_. Some host)) ctx in
          case fe_strndup_user e (n4_mnt_path data) NFS_MAXPATHLEN of
            Inl err \<Rightarrow> (ctx, err)
          | Inr path \<Rightarrow>
              let ctx = upd_ns (ns_export_path_update (\<lambda>_. Some path)) ctx in
              case fe_strndup_user e (n4_client_addr data) 16 of
                Inl err \<Rightarrow> (ctx, err)
              | Inr addr \<Rightarrow> (ctx\<lparr>client_address := Some addr\<rparr>, 0))"

definition nfs4_parse_monolithic ::
  "fs_env \<Rightarrow> nfs4_mount_data option \<Rightarrow> nfs_fs_context \<Rightarrow> nfs_fs_context \<times> int" where
  "nfs4_parse_monolithic e data ctx =
     (case data of
        None \<Rightarrow> if fc_root ctx then (ctx\<lparr>skip_reconfig_option_check := True\<rparr>, 0) else (ctx, - EINVAL)
      | Some data \<Rightarrow>
          let ctx = ctx\<lparr>ctx_version := 4\<rparr> in
          if n4_version data \<noteq> 1 then fe_generic e ctx
          else if n4_host_addrlen data > 16 \<or> n4_host_addrlen data = 0 then (ctx, - EINVAL)
          else
            let ctx = upd_ns (ns_addrlen_update (\<lambda>_. n4_host_addrlen data)) ctx in
            if \<not> fe_copy_from_user e 0 then (ctx, - EFAULT)
            else
              let ctx = upd_ns (ns_address_update (\<lambda>_. n4_host_addr data)) ctx in
              if \<not> nfs_verify_server_address (n4_host_addr data) then (ctx, - EINVAL)
              else
                let ctx = upd_ns (ns_port_update (\<lambda>_. uint (ss_port (n4_host_addr data)))) ctx in
                if n4_auth_flavourlen data > 1 then (ctx, - EINVAL)
                else if n4_auth_flavourlen data \<noteq> 0 \<and> \<not> fe_copy_from_user e 1 then (ctx, - EFAULT)
                else
                  let ctx = ctx\<lparr>selected_flavor := if n4_auth_flavourlen data \<noteq> 0 then n4_auth_flavours data
                                                   else RPC_AUTH_UNIX\<rparr> in
                  case nfs4_copy_strings e data ctx of
                    (ctx, ret) \<Rightarrow>
                      if ret \<noteq> 0 then (ctx, ret)
                      else case nfs_validate_transport_protocol e (nfs4_translate data ctx) of
                             (ctx, ret) \<Rightarrow>
                               if ret \<noteq> 0 then (ctx, ret)
                               else (ctx\<lparr>skip_reconfig_option_check := True\<rparr>, 0))"

datatype mount_data = Data23 "nfs_mount_data option" | Data4 "nfs4_mount_data option"

definition nfs_fs_context_parse_monolithic :: "fs_env \<Rightarrow> mount_data \<Rightarrow> nfs_fs_context \<Rightarrow> nfs_fs_context \<times> int" where
  "nfs_fs_context_parse_monolithic e data ctx =
     (case data of
        Data23 d \<Rightarrow> if fc_fs_type ctx = mynfs_fs_type then nfs23_parse_monolithic e d ctx else (ctx, - EINVAL)
      | Data4 d \<Rightarrow>
          if fc_fs_type ctx = mynfs4_fs_type \<and> fe_nfs_v4 e then nfs4_parse_monolithic e d ctx else (ctx, - EINVAL))"

section \<open>Validation and mounting\<close>

text \<open>The checks of \<open>nfs_fs_context_validate\<close> before the transport is looked at.\<close>

definition nfs_context_sane :: "nfs_fs_context \<Rightarrow> bool" where
  "nfs_context_sane ctx \<longleftrightarrow>
     fc_source ctx \<noteq> None \<and>
     \<not> (ctx_minorversion ctx \<noteq> 0 \<and> ctx_version ctx \<noteq> 4) \<and>
     \<not> (NFS_OPTION_MIGRATION \<in> ctx_options ctx \<and> (ctx_version ctx \<noteq> 4 \<or> ctx_minorversion ctx \<noteq> 0)) \<and>
     \<not> (protofamily ctx \<noteq> AF_UNSPEC \<and> protofamily ctx \<noteq> ss_family (ns_address (nfs_server_p ctx))) \<and>
     \<not> (mountfamily ctx \<noteq> AF_UNSPEC \<and>
        (if ms_addrlen (mount_server ctx) \<noteq> 0 then mountfamily ctx \<noteq> ss_family (ms_address (mount_server ctx))
         else mountfamily ctx \<noteq> ss_family (ns_address (nfs_server_p ctx)))) \<and>
     nfs_verify_server_address (ns_address (nfs_server_p ctx))"

text \<open>Loading the protocol module and correcting the file system type.\<close>

definition nfs_load_version :: "fs_env \<Rightarrow> nfs_fs_context \<Rightarrow> nfs_fs_context \<times> int" where
  "nfs_load_version e ctx =
     (case (case ctx_nfs_mod ctx of Some m \<Rightarrow> Inr m | None \<Rightarrow> fe_get_nfs_version e (ctx_version ctx)) of
        Inl err \<Rightarrow> (ctx, err)
      | Inr m \<Rightarrow> (ctx\<lparr>ctx_nfs_mod := Some m, fc_fs_type := m\<rparr>, 0))"

definition nfs_fs_context_validate :: "fs_env \<Rightarrow> nfs_fs_context \<Rightarrow> nfs_fs_context \<times> int" where
  "nfs_fs_context_validate e ctx =
     (if \<not> nfs_context_sane ctx then (ctx, - EINVAL)
      else case nfs_validate_transport_protocol e ctx of
             (ctx, ret) \<Rightarrow>
               if ret \<noteq> 0 then (ctx, ret)
               else if ctx_version ctx = 4 \<and> \<not> fe_nfs_v4 e then (ctx, - EPROTONOSUPPORT)
               else
                 let rdma = (ns_protocol (nfs_server_p ctx) = XPRT_TRANSPORT_RDMA);
                     v4 = (ctx_version ctx = 4);
                     port = (if rdma then NFS_RDMA_PORT else if v4 then NFS_PORT else 0);
                     ctx = (if v4
                            then clear_flags {NFS_MOUNT_NONLM, NFS_MOUNT_NOACL, NFS_MOUNT_VER3,
                                              NFS_MOUNT_LOCAL_FLOCK, NFS_MOUNT_LOCAL_FCNTL} ctx
                            else nfs_set_mount_transport_protocol ctx);
                     ctx = nfs_set_port e port ctx in
                 case nfs_parse_source e (if v4 then NFS4_MAXNAMLEN else PAGE_SIZE) NFS_MAXPATHLEN ctx of
                   (ctx, ret) \<Rightarrow> if ret < 0 then (ctx, ret) else nfs_load_version e ctx)"

definition nfs_get_tree :: "fs_env \<Rightarrow> nfs_fs_context \<Rightarrow> nfs_fs_context \<times> int" where
  "nfs_get_tree e ctx =
     (case nfs_fs_context_validate e ctx of
        (ctx, err) \<Rightarrow>
          if err \<noteq> 0 then (ctx, err)
          else if \<not> ctx_internal ctx then fe_try_get_tree e ctx
          else fe_get_tree_common e ctx)"

section \<open>Starting and copying a context\<close>

record mounted_server =
  nfss_flags :: "nfs_mount_flag set"
  nfss_rsize :: u32
  nfss_wsize :: u32
  nfss_retries :: u32
  nfss_flavor :: u32
  nfss_acregmin :: u32
  nfss_acregmax :: u32
  nfss_acdirmin :: u32
  nfss_acdirmax :: u32
  nfss_initval :: ulong
  nfss_port :: int
  nfss_address :: sockaddr_storage
  nfss_addrlen :: nat
  nfss_version :: u32
  nfss_minorversion :: u32
  nfss_mod :: fs_type

definition zero_address :: sockaddr_storage where
  "zero_address = \<lparr>ss_family = AF_UNSPEC, ss_addr = 0, ss_port = 0\<rparr>"

definition zero_context :: "fs_type \<Rightarrow> string option \<Rightarrow> bool \<Rightarrow> nfs_fs_context" where
  "zero_context ty src root =
     \<lparr>fc_source = src, fc_security = False, fc_root = root, fc_fs_type = ty, ctx_internal = False,
      skip_reconfig_option_check = False, need_mount = False, sloppy = False, ctx_flags = {},
      ctx_rsize = 0, ctx_wsize = 0, ctx_timeo = 0, ctx_retrans = 0, ctx_acregmin = 0, ctx_acregmax = 0,
      ctx_acdirmin = 0, ctx_acdirmax = 0, ctx_namlen = 0, ctx_options = {}, ctx_bsize = 0,
      auth_flavors = [], selected_flavor = 0, xprtsec_policy = RPC_XPRTSEC_NONE, client_address = None,
      ctx_version = 0, ctx_minorversion = 0, fscache_uniq = None, protofamily = AF_UNSPEC,
      mountfamily = AF_UNSPEC, has_sec_mnt_opts = False, lock_status = NFS_LOCK_NOT_SET,
      mount_server = \<lparr>ms_address = zero_address, ms_addrlen = 0, ms_hostname = None, ms_version = 0,
                      ms_port = 0, ms_protocol = 0\<rparr>,
      nfs_server_p = \<lparr>ns_address = zero_address, ns_addrlen = 0, ns_hostname = None, ns_export_path = None,
                      ns_port = 0, ns_protocol = 0, ns_nconnect = 0, ns_max_connect = 0\<rparr>,
      ctx_mntfh = \<lparr>fh_size = 0, fh_data = []\<rparr>, ctx_nfs_mod = None\<rparr>"

definition nfs_init_fs_context ::
  "nat \<Rightarrow> fs_type \<Rightarrow> string option \<Rightarrow> mounted_server option \<Rightarrow> nfs_fs_context" where
  "nfs_init_fs_context HZ ty src root =
     (let ctx = upd_ms (ms_port_update (\<lambda>_. NFS_UNSPEC_PORT)) (zero_context ty src (root \<noteq> None)) in
      case root of
        Some nfss \<Rightarrow>
          upd_ns (\<lambda>ns. ns\<lparr>ns_port := nfss_port nfss, ns_addrlen := nfss_addrlen nfss,
                         ns_address := nfss_address nfss\<rparr>)
            (ctx\<lparr>ctx_flags := nfss_flags nfss, ctx_rsize := nfss_rsize nfss, ctx_wsize := nfss_wsize nfss,
               ctx_retrans := nfss_retries nfss, selected_flavor := nfss_flavor nfss,
               ctx_acregmin := nfss_acregmin nfss div of_nat HZ, ctx_acregmax := nfss_acregmax nfss div of_nat HZ,
               ctx_acdirmin := nfss_acdirmin nfss div of_nat HZ, ctx_acdirmax := nfss_acdirmax nfss div of_nat HZ,
               ctx_timeo := ucast (10 * nfss_initval nfss div of_nat HZ), ctx_version := nfss_version nfss,
               ctx_minorversion := nfss_minorversion nfss, ctx_nfs_mod := Some (nfss_mod nfss)\<rparr>)
      | None \<Rightarrow>
          upd_ns (\<lambda>ns. ns\<lparr>ns_port := NFS_UNSPEC_PORT, ns_protocol := XPRT_TRANSPORT_TCP\<rparr>)
            (ctx\<lparr>ctx_timeo := UINT_MAX, ctx_retrans := UINT_MAX, ctx_acregmin := 3, ctx_acregmax := 60,
               ctx_acdirmin := 30, ctx_acdirmax := 60, selected_flavor := RPC_AUTH_MAXFLAVOR,
               ctx_minorversion := 0, need_mount := True, xprtsec_policy := RPC_XPRTSEC_NONE\<rparr>))"

definition nfs_fs_context_dup :: "nfs_fs_context \<Rightarrow> nfs_fs_context" where
  "nfs_fs_context_dup src =
     upd_ns (\<lambda>ns. ns\<lparr>ns_export_path := None, ns_hostname := None\<rparr>)
       (upd_ms (ms_hostname_update (\<lambda>_. None)) (src\<lparr>client_address := None, fscache_uniq := None\<rparr>))"

end
