(* ===== verification/Mount_Mynfs.thy ===== *)
theory Mount_Mynfs
  imports Nfs_Fs_Context
begin

text \<open>
  The mount helper (\<open>src/mynfs_utils/mount.mynfs.c\<close>) and its composition with the kernel's parser
  of the binary mount data: the command line, the options, the structures handed to \<open>mount(2)\<close>, and
  what the kernel's context holds afterwards.

  A C string is a \<open>string\<close>. The name service, the routing lookup of the own address, the clock and
  the result of \<open>mount(2)\<close> are the fields of \<open>mount_sys\<close>; \<open>getopt\<close> has already split the command
  line into options and operands.
\<close>

section \<open>The C library\<close>

definition strtok_tokens :: "char \<Rightarrow> string \<Rightarrow> string list" where
  "strtok_tokens d s = filter (\<lambda>t. t \<noteq> []) (strsep_tokens d s)"

definition is_digit :: "char \<Rightarrow> bool" where
  "is_digit c \<longleftrightarrow> 48 \<le> (of_char c :: nat) \<and> (of_char c :: nat) \<le> 57"

definition is_space :: "char \<Rightarrow> bool" where
  "is_space c \<longleftrightarrow> (of_char c :: nat) = 32 \<or> 9 \<le> (of_char c :: nat) \<and> (of_char c :: nat) \<le> 13"

definition digits_value :: "string \<Rightarrow> int" where
  "digits_value s = foldl (\<lambda>n c. 10 * n + (of_char c - 48)) 0 (takeWhile is_digit s)"

text \<open>\<open>atoi\<close> is \<open>(int) strtol(s, NULL, 10)\<close>: clamped to the range of \<open>long\<close>, then cut to 32 bits.\<close>

definition strtol :: "string \<Rightarrow> int" where
  "strtol s =
     (let s = dropWhile is_space s;
          v = (if take 1 s = ''-'' then - digits_value (tl s)
               else if take 1 s = ''+'' then digits_value (tl s)
               else digits_value s)
      in max (- (2 ^ 63)) (min (2 ^ 63 - 1) v))"

definition atoi :: "string \<Rightarrow> u32" where
  "atoi s = word_of_int (strtol s)"

section \<open>Constants\<close>

abbreviation (input) EX_SUCCESS :: int where
  "EX_SUCCESS \<equiv> 0"

abbreviation (input) EX_FAIL :: int where
  "EX_FAIL \<equiv> 32"

abbreviation (input) EX_USAGE :: int where
  "EX_USAGE \<equiv> 64"

definition MYNFS4_MOUNT_SOFT :: u32 where "MYNFS4_MOUNT_SOFT = 0x0001"
definition MYNFS4_MOUNT_INTR :: u32 where "MYNFS4_MOUNT_INTR = 0x0002"
definition MYNFS4_MOUNT_NOCTO :: u32 where "MYNFS4_MOUNT_NOCTO = 0x0010"
definition MYNFS4_MOUNT_NOAC :: u32 where "MYNFS4_MOUNT_NOAC = 0x0020"
definition MYNFS4_MOUNT_UNSHARED :: u32 where "MYNFS4_MOUNT_UNSHARED = 0x8000"
definition MYNFS_MOUNT_SOFT :: u32 where "MYNFS_MOUNT_SOFT = 0x0001"
definition MYNFS_MOUNT_INTR :: u32 where "MYNFS_MOUNT_INTR = 0x0002"
definition MYNFS_MOUNT_NOCTO :: u32 where "MYNFS_MOUNT_NOCTO = 0x0010"
definition MYNFS_MOUNT_NOAC :: u32 where "MYNFS_MOUNT_NOAC = 0x0020"
definition MYNFS_MOUNT_TCP :: u32 where "MYNFS_MOUNT_TCP = 0x0040"
definition MYNFS_MOUNT_VER3 :: u32 where "MYNFS_MOUNT_VER3 = 0x0080"
definition MYNFS_MOUNT_NONLM :: u32 where "MYNFS_MOUNT_NONLM = 0x0200"
definition MYNFS_MOUNT_BROKEN_SUID :: u32 where "MYNFS_MOUNT_BROKEN_SUID = 0x0400"

lemmas mynfs_flag_defs =
  MYNFS4_MOUNT_SOFT_def MYNFS4_MOUNT_INTR_def MYNFS4_MOUNT_NOCTO_def MYNFS4_MOUNT_NOAC_def
  MYNFS4_MOUNT_UNSHARED_def MYNFS_MOUNT_SOFT_def MYNFS_MOUNT_INTR_def MYNFS_MOUNT_NOCTO_def
  MYNFS_MOUNT_NOAC_def MYNFS_MOUNT_TCP_def MYNFS_MOUNT_VER3_def MYNFS_MOUNT_NONLM_def
  MYNFS_MOUNT_BROKEN_SUID_def

datatype ms_flag =
    MS_RDONLY | MS_NOSUID | MS_NODEV | MS_NOEXEC | MS_NOATIME | MS_NODIRATIME | MS_SYNCHRONOUS | MS_DIRSYNC

section \<open>The system\<close>

datatype mount_arg = Arg23 nfs_mount_data | Arg4 nfs4_mount_data

record mount_call =
  mc_spec :: string
  mc_node :: string
  mc_type :: string
  mc_flags :: "ms_flag set"
  mc_data :: mount_arg

text \<open>\<open>sy_mount k c\<close> is 0 when the \<open>k\<close>-th attempt succeeds and \<open>errno\<close> otherwise; \<open>sy_time k\<close> is the clock
  after it (\<open>sy_start\<close> before the first).\<close>

record mount_sys =
  sy_resolve :: "string \<Rightarrow> sockaddr_storage option"
  sy_my_addr :: "string option"
  sy_start :: int
  sy_time :: "nat \<Rightarrow> int"
  sy_mount :: "nat \<Rightarrow> mount_call \<Rightarrow> int"

section \<open>The device\<close>

definition parse_devname :: "string \<Rightarrow> (string \<times> string) option" where
  "parse_devname spec =
     (if take 1 spec = ''[''
      then case split_at (CHR '']'') spec of
             None \<Rightarrow> None
           | Some (host, rest) \<Rightarrow> Some (tl host, if take 1 rest = '':'' then tl rest else ''/'')
      else case split_at (CHR '':'') spec of
             None \<Rightarrow> None
           | Some (host, dir) \<Rightarrow> Some (host, if dir = [] then ''/'' else dir))"

definition fill_ipv4_sockaddr :: "mount_sys \<Rightarrow> string \<Rightarrow> sockaddr_storage option" where
  "fill_ipv4_sockaddr sy hostname = sy_resolve sy hostname"

definition get_my_ipv4addr :: "mount_sys \<Rightarrow> string \<Rightarrow> string" where
  "get_my_ipv4addr sy ip_addr = (case sy_my_addr sy of None \<Rightarrow> ip_addr | Some a \<Rightarrow> take 15 a)"

section \<open>Trying to mount\<close>

partial_function (option) mount_retry ::
  "(nat \<Rightarrow> int) \<Rightarrow> (nat \<Rightarrow> int) \<Rightarrow> bool \<Rightarrow> int \<Rightarrow> nat \<Rightarrow> (int \<times> nat) option" where
  "mount_retry mnt time bg timeout k =
     (if mnt k = 0 then Some (EX_SUCCESS, k)
      else if mnt k = EBUSY then Some (EX_FAIL, k)
      else if bg
      then if time k > timeout then Some (EX_FAIL, k) else mount_retry mnt time bg timeout (Suc k)
      else Some (EX_FAIL, k))"

section \<open>Options of a version 4 mount\<close>

record mount4_opts =
  o4_data :: nfs4_mount_data
  o4_port :: u16
  o4_ip_addr :: string
  o4_retry :: int
  o4_bg :: bool
  o4_soft :: bool
  o4_intr :: bool
  o4_nocto :: bool
  o4_noac :: bool
  o4_unshared :: bool

abbreviation upd_data4 :: "(nfs4_mount_data \<Rightarrow> nfs4_mount_data) \<Rightarrow> mount4_opts \<Rightarrow> mount4_opts" where
  "upd_data4 f st \<equiv> st\<lparr>o4_data := f (o4_data st)\<rparr>"

text \<open>An option \<open>key=value\<close>; unknown keys, and the keys the helper only skips, change nothing.\<close>

definition nfs4_value_option :: "string \<Rightarrow> string \<Rightarrow> mount4_opts \<Rightarrow> mount4_opts" where
  "nfs4_value_option opt value st =
     (let val = atoi value in
      if opt = ''rsize'' then upd_data4 (n4_rsize_update (\<lambda>_. val)) st
      else if opt = ''wsize'' then upd_data4 (n4_wsize_update (\<lambda>_. val)) st
      else if opt = ''timeo'' then upd_data4 (n4_timeo_update (\<lambda>_. val)) st
      else if opt = ''retrans'' then upd_data4 (n4_retrans_update (\<lambda>_. val)) st
      else if opt = ''acregmin'' then upd_data4 (n4_acregmin_update (\<lambda>_. val)) st
      else if opt = ''acregmax'' then upd_data4 (n4_acregmax_update (\<lambda>_. val)) st
      else if opt = ''acdirmin'' then upd_data4 (n4_acdirmin_update (\<lambda>_. val)) st
      else if opt = ''acdirmax'' then upd_data4 (n4_acdirmax_update (\<lambda>_. val)) st
      else if opt = ''actimeo''
      then upd_data4 (\<lambda>d. d\<lparr>n4_acregmin := val, n4_acregmax := val, n4_acdirmin := val, n4_acdirmax := val\<rparr>) st
      else if opt = ''retry'' then st\<lparr>o4_retry := sint val\<rparr>
      else if opt = ''port'' then st\<lparr>o4_port := ucast val\<rparr>
      else if opt = ''proto''
      then if take 3 value = ''tcp'' then upd_data4 (n4_proto_update (\<lambda>_. 6)) st
           else if take 3 value = ''udp'' then upd_data4 (n4_proto_update (\<lambda>_. 17)) st
           else st
      else if opt = ''clientaddr'' then st\<lparr>o4_ip_addr := take 15 value\<rparr>
      else st)"

definition nfs4_flag_option :: "string \<Rightarrow> mount4_opts \<Rightarrow> mount4_opts" where
  "nfs4_flag_option opt st =
     (let val = (take 2 opt \<noteq> ''no'');
          opt = (if take 2 opt = ''no'' then drop 2 opt else opt) in
      if opt = ''bg'' then st\<lparr>o4_bg := val\<rparr>
      else if opt = ''fg'' then st\<lparr>o4_bg := \<not> val\<rparr>
      else if opt = ''soft'' then st\<lparr>o4_soft := val\<rparr>
      else if opt = ''hard'' then st\<lparr>o4_soft := \<not> val\<rparr>
      else if opt = ''intr'' then st\<lparr>o4_intr := val\<rparr>
      else if opt = ''cto'' then st\<lparr>o4_nocto := \<not> val\<rparr>
      else if opt = ''ac'' then st\<lparr>o4_noac := \<not> val\<rparr>
      else if opt = ''sharecache'' then st\<lparr>o4_unshared := \<not> val\<rparr>
      else st)"

definition nfs4_option :: "string \<Rightarrow> mount4_opts \<Rightarrow> mount4_opts" where
  "nfs4_option opt st =
     (case split_at (CHR ''='') opt of
        Some (key, value) \<Rightarrow> nfs4_value_option key value st
      | None \<Rightarrow> nfs4_flag_option opt st)"

definition zero_data4 :: nfs4_mount_data where
  "zero_data4 =
     \<lparr>n4_version = 0, n4_flags = 0, n4_rsize = 0, n4_wsize = 0, n4_timeo = 0, n4_retrans = 0,
      n4_acregmin = 0, n4_acregmax = 0, n4_acdirmin = 0, n4_acdirmax = 0, n4_client_addr = [],
      n4_mnt_path = [], n4_hostname = [], n4_host_addrlen = 0, n4_host_addr = zero_address, n4_proto = 0,
      n4_auth_flavourlen = 0, n4_auth_flavours = 0\<rparr>"

definition nfs4_defaults :: "string \<Rightarrow> mount4_opts" where
  "nfs4_defaults ip_addr =
     \<lparr>o4_data = zero_data4\<lparr>n4_retrans := 3, n4_acregmin := 3, n4_acregmax := 60, n4_acdirmin := 30,
        n4_acdirmax := 60, n4_proto := 6\<rparr>,
      o4_port = 2049, o4_ip_addr = ip_addr, o4_retry = 2, o4_bg = False, o4_soft = False, o4_intr = True,
      o4_nocto = False, o4_noac = False, o4_unshared = False\<rparr>"

definition nfs4_flags_word :: "mount4_opts \<Rightarrow> u32" where
  "nfs4_flags_word st =
     (if o4_soft st then MYNFS4_MOUNT_SOFT else 0) OR (if o4_intr st then MYNFS4_MOUNT_INTR else 0) OR
     (if o4_nocto st then MYNFS4_MOUNT_NOCTO else 0) OR (if o4_noac st then MYNFS4_MOUNT_NOAC else 0) OR
     (if o4_unshared st then MYNFS4_MOUNT_UNSHARED else 0)"

definition nfs4_fill_data :: "mount4_opts \<Rightarrow> string \<Rightarrow> string \<Rightarrow> sockaddr_storage \<Rightarrow> nfs4_mount_data" where
  "nfs4_fill_data st hostname dirname server_addr =
     (o4_data st)\<lparr>n4_flags := nfs4_flags_word st, n4_auth_flavourlen := 0, n4_client_addr := o4_ip_addr st,
       n4_mnt_path := dirname, n4_hostname := hostname, n4_host_addr := server_addr\<lparr>ss_port := o4_port st\<rparr>,
       n4_host_addrlen := 16, n4_version := 1\<rparr>"

text \<open>
  The time limit of the loop. The product is an \<open>int\<close> of the helper, 32 bits wide; on overflow, which C
  leaves undefined, it is taken to wrap.
\<close>

definition retry_limit :: "int \<Rightarrow> int \<Rightarrow> int" where
  "retry_limit now retry = now + sint (60 * word_of_int retry :: u32)"

text \<open>
  \<open>nfs4mount\<close> up to its loop gives the data and the options, or the exit code; the loop then tries to
  mount. The exit code comes with the number of the attempt that ended it.
\<close>

definition nfs4mount_data :: "mount_sys \<Rightarrow> string \<Rightarrow> string \<Rightarrow> int + nfs4_mount_data \<times> mount4_opts" where
  "nfs4mount_data sy spec extra_opts =
     (if length spec \<ge> 1024 then Inl EX_FAIL
      else case parse_devname spec of
             None \<Rightarrow> Inl EX_FAIL
           | Some (hostname, dirname) \<Rightarrow>
               (case fill_ipv4_sockaddr sy hostname of
                  None \<Rightarrow> Inl EX_FAIL
                | Some server_addr \<Rightarrow>
                    let st = nfs4_defaults (get_my_ipv4addr sy ''127.0.0.1'');
                        st = fold nfs4_option (strtok_tokens (CHR '','') extra_opts) st
                    in Inr (nfs4_fill_data st hostname dirname server_addr, st)))"

definition nfs4mount ::
  "mount_sys \<Rightarrow> string \<Rightarrow> string \<Rightarrow> ms_flag set \<Rightarrow> string \<Rightarrow> (int \<times> nat) option" where
  "nfs4mount sy spec node flags extra_opts =
     (case nfs4mount_data sy spec extra_opts of
        Inl status \<Rightarrow> Some (status, 0)
      | Inr (data, st) \<Rightarrow>
          mount_retry
            (\<lambda>k. sy_mount sy k \<lparr>mc_spec = spec, mc_node = node, mc_type = ''mynfs4'', mc_flags = flags,
                               mc_data = Arg4 data\<rparr>)
            (sy_time sy) (o4_bg st) (retry_limit (sy_start sy) (o4_retry st)) 0)"

section \<open>Options of a version 3 mount\<close>

record mount3_opts =
  o3_data :: nfs_mount_data
  o3_port :: u16
  o3_mountport :: u32
  o3_ip_addr :: string
  o3_retry :: int
  o3_bg :: bool
  o3_soft :: bool
  o3_intr :: bool
  o3_nocto :: bool
  o3_noac :: bool
  o3_nonlm :: bool
  o3_use_tcp :: bool

abbreviation upd_data3 :: "(nfs_mount_data \<Rightarrow> nfs_mount_data) \<Rightarrow> mount3_opts \<Rightarrow> mount3_opts" where
  "upd_data3 f st \<equiv> st\<lparr>o3_data := f (o3_data st)\<rparr>"

definition nfs3_value_option :: "string \<Rightarrow> string \<Rightarrow> mount3_opts \<Rightarrow> mount3_opts" where
  "nfs3_value_option opt value st =
     (let val = atoi value in
      if opt = ''rsize'' then upd_data3 (nd_rsize_update (\<lambda>_. val)) st
      else if opt = ''wsize'' then upd_data3 (nd_wsize_update (\<lambda>_. val)) st
      else if opt = ''timeo'' then upd_data3 (nd_timeo_update (\<lambda>_. val)) st
      else if opt = ''retrans'' then upd_data3 (nd_retrans_update (\<lambda>_. val)) st
      else if opt = ''acregmin'' then upd_data3 (nd_acregmin_update (\<lambda>_. val)) st
      else if opt = ''acregmax'' then upd_data3 (nd_acregmax_update (\<lambda>_. val)) st
      else if opt = ''acdirmin'' then upd_data3 (nd_acdirmin_update (\<lambda>_. val)) st
      else if opt = ''acdirmax'' then upd_data3 (nd_acdirmax_update (\<lambda>_. val)) st
      else if opt = ''actimeo''
      then upd_data3 (\<lambda>d. d\<lparr>nd_acregmin := val, nd_acregmax := val, nd_acdirmin := val, nd_acdirmax := val\<rparr>) st
      else if opt = ''retry'' then st\<lparr>o3_retry := sint val\<rparr>
      else if opt = ''port'' then st\<lparr>o3_port := ucast val\<rparr>
      else if opt = ''mountport'' then st\<lparr>o3_mountport := val\<rparr>
      else if opt = ''clientaddr'' then st\<lparr>o3_ip_addr := take 15 value\<rparr>
      else if opt = ''proto'' \<or> opt = ''mountproto''
      then if take 3 value = ''tcp'' then st\<lparr>o3_use_tcp := True\<rparr>
           else if take 3 value = ''udp'' then st\<lparr>o3_use_tcp := False\<rparr>
           else st
      else st)"

definition nfs3_flag_option :: "string \<Rightarrow> mount3_opts \<Rightarrow> mount3_opts" where
  "nfs3_flag_option opt st =
     (let val = (take 2 opt \<noteq> ''no'');
          opt = (if take 2 opt = ''no'' then drop 2 opt else opt) in
      if opt = ''bg'' then st\<lparr>o3_bg := val\<rparr>
      else if opt = ''fg'' then st\<lparr>o3_bg := \<not> val\<rparr>
      else if opt = ''soft'' then st\<lparr>o3_soft := val\<rparr>
      else if opt = ''hard'' then st\<lparr>o3_soft := \<not> val\<rparr>
      else if opt = ''intr'' then st\<lparr>o3_intr := val\<rparr>
      else if opt = ''cto'' then st\<lparr>o3_nocto := \<not> val\<rparr>
      else if opt = ''ac'' then st\<lparr>o3_noac := \<not> val\<rparr>
      else if opt = ''nolock'' then st\<lparr>o3_nonlm := True\<rparr>
      else if opt = ''lock'' then st\<lparr>o3_nonlm := False\<rparr>
      else if opt = ''tcp'' then st\<lparr>o3_use_tcp := True\<rparr>
      else if opt = ''udp'' then st\<lparr>o3_use_tcp := False\<rparr>
      else st)"

definition nfs3_option :: "string \<Rightarrow> mount3_opts \<Rightarrow> mount3_opts" where
  "nfs3_option opt st =
     (case split_at (CHR ''='') opt of
        Some (key, value) \<Rightarrow> nfs3_value_option key value st
      | None \<Rightarrow> nfs3_flag_option opt st)"

definition zero_data3 :: nfs_mount_data where
  "zero_data3 =
     \<lparr>nd_version = 0, nd_old_root = replicate NFS2_FHSIZE 0, nd_flags = 0, nd_rsize = 0, nd_wsize = 0,
      nd_timeo = 0, nd_retrans = 0, nd_acregmin = 0, nd_acregmax = 0, nd_acdirmin = 0, nd_acdirmax = 0,
      nd_addr = zero_address, nd_hostname = [], nd_namlen = 0, nd_bsize = 0,
      nd_root = \<lparr>fh_size = 0, fh_data = replicate NFS3_FHSIZE 0\<rparr>, nd_pseudoflavor = 0, nd_context = []\<rparr>"

definition nfs3_defaults :: "string \<Rightarrow> mount3_opts" where
  "nfs3_defaults ip_addr =
     \<lparr>o3_data = zero_data3\<lparr>nd_retrans := 3, nd_acregmin := 3, nd_acregmax := 60, nd_acdirmin := 30,
        nd_acdirmax := 60, nd_version := 4\<rparr>,
      o3_port = 2049, o3_mountport = 0, o3_ip_addr = ip_addr, o3_retry = 2, o3_bg = False, o3_soft = False,
      o3_intr = True, o3_nocto = False, o3_noac = False, o3_nonlm = False, o3_use_tcp = True\<rparr>"

definition nfs3_flags_word :: "mount3_opts \<Rightarrow> u32" where
  "nfs3_flags_word st =
     (if o3_soft st then MYNFS_MOUNT_SOFT else 0) OR (if o3_intr st then MYNFS_MOUNT_INTR else 0) OR
     (if o3_nocto st then MYNFS_MOUNT_NOCTO else 0) OR (if o3_noac st then MYNFS_MOUNT_NOAC else 0) OR
     (if o3_nonlm st then MYNFS_MOUNT_NONLM else 0) OR (if o3_use_tcp st then MYNFS_MOUNT_TCP else 0) OR
     MYNFS_MOUNT_VER3 OR MYNFS_MOUNT_BROKEN_SUID"

definition nfs3_fill_data :: "mount3_opts \<Rightarrow> string \<Rightarrow> sockaddr_storage \<Rightarrow> nfs_mount_data" where
  "nfs3_fill_data st hostname server_addr =
     (o3_data st)\<lparr>nd_flags := nfs3_flags_word st, nd_addr := server_addr\<lparr>ss_port := o3_port st\<rparr>,
       nd_hostname := take 255 hostname\<rparr>"

definition nfsmount_data :: "mount_sys \<Rightarrow> string \<Rightarrow> string \<Rightarrow> int + nfs_mount_data \<times> mount3_opts" where
  "nfsmount_data sy spec extra_opts =
     (if length spec \<ge> 1024 then Inl EX_FAIL
      else case parse_devname spec of
             None \<Rightarrow> Inl EX_FAIL
           | Some (hostname, dirname) \<Rightarrow>
               (case fill_ipv4_sockaddr sy hostname of
                  None \<Rightarrow> Inl EX_FAIL
                | Some server_addr \<Rightarrow>
                    let st = nfs3_defaults (get_my_ipv4addr sy ''127.0.0.1'');
                        st = fold nfs3_option (strtok_tokens (CHR '','') extra_opts) st
                    in Inr (nfs3_fill_data st hostname server_addr, st)))"

definition nfsmount ::
  "mount_sys \<Rightarrow> string \<Rightarrow> string \<Rightarrow> ms_flag set \<Rightarrow> string \<Rightarrow> (int \<times> nat) option" where
  "nfsmount sy spec node flags extra_opts =
     (case nfsmount_data sy spec extra_opts of
        Inl status \<Rightarrow> Some (status, 0)
      | Inr (data, st) \<Rightarrow>
          mount_retry
            (\<lambda>k. sy_mount sy k \<lparr>mc_spec = spec, mc_node = node, mc_type = ''mynfs'', mc_flags = flags,
                               mc_data = Arg23 data\<rparr>)
            (sy_time sy) (o3_bg st) (retry_limit (sy_start sy) (o3_retry st)) 0)"

section \<open>The command\<close>

definition main_flag :: "string \<Rightarrow> ms_flag set \<Rightarrow> ms_flag set" where
  "main_flag opt flags =
     (if split_at (CHR ''='') opt \<noteq> None then flags
      else if opt = ''ro'' then insert MS_RDONLY flags
      else if opt = ''rw'' then flags - {MS_RDONLY}
      else if opt = ''nosuid'' then insert MS_NOSUID flags
      else if opt = ''suid'' then flags - {MS_NOSUID}
      else if opt = ''nodev'' then insert MS_NODEV flags
      else if opt = ''dev'' then flags - {MS_NODEV}
      else if opt = ''noexec'' then insert MS_NOEXEC flags
      else if opt = ''exec'' then flags - {MS_NOEXEC}
      else if opt = ''noatime'' then insert MS_NOATIME flags
      else if opt = ''atime'' then flags - {MS_NOATIME}
      else if opt = ''nodiratime'' then insert MS_NODIRATIME flags
      else if opt = ''diratime'' then flags - {MS_NODIRATIME}
      else if opt = ''sync'' then insert MS_SYNCHRONOUS flags
      else if opt = ''dirsync'' then insert MS_DIRSYNC flags
      else flags)"

definition main_version :: "string \<Rightarrow> nat \<Rightarrow> nat" where
  "main_version opt nfs_version =
     (case split_at (CHR ''='') opt of
        Some (key, val) \<Rightarrow>
          if key = ''vers'' \<or> key = ''nfsvers'' then if val = ''3'' \<or> val = ''2'' then 3 else 4
          else nfs_version
      | None \<Rightarrow>
          if opt = ''v3'' \<or> opt = ''v2'' then 3
          else if opt \<in> {''v4'', ''v4.0'', ''v4.1'', ''v4.2''} then 4
          else nfs_version)"

text \<open>
  \<open>args\<close> are the options of \<open>getopt\<close> with their arguments, in order, and \<open>operands\<close> the rest. A usage
  error, \<open>-h\<close> and \<open>-V\<close> exit with \<open>EX_USAGE\<close>.
\<close>

definition main_extra_opts :: "(char \<times> string) list \<Rightarrow> string" where
  "main_extra_opts args = fold (\<lambda>(c, arg) opts. if c = CHR ''o'' then arg else opts) args []"

definition mount_main :: "mount_sys \<Rightarrow> (char \<times> string) list \<Rightarrow> string list \<Rightarrow> (int \<times> nat) option" where
  "mount_main sy args operands =
     (if \<exists>(c, _) \<in> set args. c \<notin> set ''fnosv'' then Some (EX_USAGE, 0)
      else if length operands \<noteq> 2 then Some (EX_USAGE, 0)
      else
        let extra_opts = main_extra_opts args;
            opts = strtok_tokens (CHR '','') extra_opts;
            spec = operands ! 0; node = operands ! 1;
            flags = fold main_flag opts {} in
        if \<exists>(c, _) \<in> set args. c = CHR ''f'' then Some (EX_SUCCESS, 0)
        else if fold main_version opts 4 = 4 then nfs4mount sy spec node flags extra_opts
        else nfsmount sy spec node flags extra_opts)"

section \<open>The unmount helper\<close>

datatype umount_flag = MNT_FORCE | MNT_DETACH

definition umount_flags :: "(char \<times> string) list \<Rightarrow> umount_flag set" where
  "umount_flags args =
     fold (\<lambda>(c, _) flags. if c = CHR ''f'' then insert MNT_FORCE flags
                          else if c = CHR ''l'' then insert MNT_DETACH flags else flags) args {}"

definition umount_main ::
  "(string \<Rightarrow> umount_flag set \<Rightarrow> int) \<Rightarrow> (char \<times> string) list \<Rightarrow> string list \<Rightarrow> int" where
  "umount_main umount2 args operands =
     (if \<exists>(c, _) \<in> set args. c \<notin> set ''flrv'' then EX_USAGE
      else if length operands \<noteq> 1 then EX_USAGE
      else if umount2 (hd operands) (umount_flags args) \<noteq> 0 then EX_FAIL else EX_SUCCESS)"

section \<open>From the command to the kernel\<close>

text \<open>
  What \<open>mount(2)\<close> does with the call: it finds the file system type by its name, starts a context
  with the device as its source, hands it the data and, when that succeeds, validates it.
\<close>

definition kernel_mount :: "fs_env \<Rightarrow> nat \<Rightarrow> mount_call \<Rightarrow> nfs_fs_context \<times> int" where
  "kernel_mount e HZ call =
     (let ty = (if mc_type call = ''mynfs'' then mynfs_fs_type
                else if mc_type call = ''mynfs4'' then mynfs4_fs_type else other_fs_type);
          ctx = nfs_init_fs_context HZ ty (Some (mc_spec call)) None;
          data = (case mc_data call of Arg23 d \<Rightarrow> Data23 (Some d) | Arg4 d \<Rightarrow> Data4 (Some d)) in
      case nfs_fs_context_parse_monolithic e data ctx of
        (ctx, ret) \<Rightarrow> if ret \<noteq> 0 then (ctx, ret) else nfs_fs_context_validate e ctx)"

section \<open>Lemmas\<close>

lemma split_at_append: "d \<notin> set a \<Longrightarrow> split_at d (a @ d # b) = Some (a, b)"
  by (induction a) auto

lemma split_at_Some: "split_at d s = Some (a, b) \<Longrightarrow> s = a @ d # b \<and> d \<notin> set a"
  by (induction d s arbitrary: a rule: split_at.induct) (auto split: if_splits option.splits)

lemma split_at_None: "split_at d s = None \<longleftrightarrow> d \<notin> set s"
  by (induction d s rule: split_at.induct) (auto split: option.split)

lemma word_disj_zero_iff: "(a OR b :: u32) = 0 \<longleftrightarrow> a = 0 \<and> b = 0"
  by (auto simp: bit_eq_iff bit_or_iff)

lemma mount_flags_or: "mount_flags_of (a OR b) = mount_flags_of a \<union> mount_flags_of b"
  by (auto simp: mount_flags_of_def word_disj_zero_iff bit.conj_disj_distrib2)

lemma mount_flags_zero [simp]: "mount_flags_of 0 = {}"
  by (simp add: mount_flags_of_def)

lemma mount_flags_one:
  "mount_flags_of 0x0001 = {NFS_MOUNT_SOFT}" "mount_flags_of 0x0002 = {NFS_MOUNT_INTR}"
  "mount_flags_of 0x0010 = {NFS_MOUNT_NOCTO}" "mount_flags_of 0x0020 = {NFS_MOUNT_NOAC}"
  "mount_flags_of 0x0040 = {NFS_MOUNT_TCP}" "mount_flags_of 0x0080 = {NFS_MOUNT_VER3}"
  "mount_flags_of 0x0200 = {NFS_MOUNT_NONLM}" "mount_flags_of 0x0400 = {NFS_MOUNT_BROKEN_SUID}"
  "mount_flags_of 0x8000 = {NFS_MOUNT_UNSHARED}"
  by (simp_all add: mount_flags_of_def nfs_mount_bits_def)

definition only_if :: "bool \<Rightarrow> 'a \<Rightarrow> 'a set" where
  "only_if b x = (if b then {x} else {})"

lemma mount4_flags:
  "mount_flags_of (nfs4_flags_word st AND NFS4_MOUNT_FLAGMASK) =
     only_if (o4_soft st) NFS_MOUNT_SOFT \<union> only_if (o4_intr st) NFS_MOUNT_INTR \<union>
     only_if (o4_nocto st) NFS_MOUNT_NOCTO \<union> only_if (o4_noac st) NFS_MOUNT_NOAC \<union>
     only_if (o4_unshared st) NFS_MOUNT_UNSHARED"
proof -
  have "mount_flags_of ((if b then 0x0001 else 0) AND 0x9033) = only_if b NFS_MOUNT_SOFT"
    "mount_flags_of ((if b then 0x0002 else 0) AND 0x9033) = only_if b NFS_MOUNT_INTR"
    "mount_flags_of ((if b then 0x0010 else 0) AND 0x9033) = only_if b NFS_MOUNT_NOCTO"
    "mount_flags_of ((if b then 0x0020 else 0) AND 0x9033) = only_if b NFS_MOUNT_NOAC"
    "mount_flags_of ((if b then 0x8000 else 0) AND 0x9033) = only_if b NFS_MOUNT_UNSHARED" for b
    by (simp_all add: only_if_def mount_flags_one)
  then show ?thesis
    unfolding nfs4_flags_word_def bit.conj_disj_distrib2 mount_flags_or mynfs_flag_defs NFS4_MOUNT_FLAGMASK_def
    by (simp only: Un_assoc)
qed

text \<open>
  What a list of options asks for, said without the helper's parser: the last option that gives a
  value wins over the earlier ones and over the default.
\<close>

definition last_opt :: "(string \<Rightarrow> 'a option) \<Rightarrow> string list \<Rightarrow> 'a \<Rightarrow> 'a" where
  "last_opt f opts d = last (d # List.map_filter f opts)"

definition text_opt :: "string set \<Rightarrow> string \<Rightarrow> string option" where
  "text_opt keys opt =
     (case split_at (CHR ''='') opt of
        Some (key, val) \<Rightarrow> if key \<in> keys then Some val else None
      | None \<Rightarrow> None)"

definition num_opt :: "string set \<Rightarrow> string \<Rightarrow> u32 option" where
  "num_opt keys opt = map_option atoi (text_opt keys opt)"

definition flag_opt :: "string set \<Rightarrow> string set \<Rightarrow> string \<Rightarrow> bool option" where
  "flag_opt on off opt = (if opt \<in> on then Some True else if opt \<in> off then Some False else None)"

definition proto_opt :: "string \<Rightarrow> u32 option" where
  "proto_opt opt =
     (case text_opt {''proto''} opt of
        Some val \<Rightarrow> if take 3 val = ''tcp'' then Some 6 else if take 3 val = ''udp'' then Some 17 else None
      | None \<Rightarrow> None)"

lemma fold_last_opt:
  assumes "\<And>opt st. g (step opt st) = (case f opt of None \<Rightarrow> g st | Some v \<Rightarrow> v)"
  shows "g (fold step opts st) = last_opt f opts (g st)"
proof (induction opts arbitrary: st)
  case (Cons opt opts)
  then show ?case using assms [of opt st]
    by (auto simp: last_opt_def map_filter_simps split: option.split)
qed (simp add: last_opt_def map_filter_simps)

lemma no_prefix: "take 2 opt = ''no'' \<Longrightarrow> \<exists>x. opt = ''no'' @ x"
  by (metis append_take_drop_id)

lemma value_option_flags [simp]:
  "o4_soft (nfs4_value_option key val st) = o4_soft st" "o4_intr (nfs4_value_option key val st) = o4_intr st"
  "o4_nocto (nfs4_value_option key val st) = o4_nocto st" "o4_noac (nfs4_value_option key val st) = o4_noac st"
  "o4_unshared (nfs4_value_option key val st) = o4_unshared st" "o4_bg (nfs4_value_option key val st) = o4_bg st"
  by (simp_all add: nfs4_value_option_def Let_def)

lemma flag_option_values [simp]:
  "o4_data (nfs4_flag_option opt st) = o4_data st" "o4_port (nfs4_flag_option opt st) = o4_port st"
  "o4_ip_addr (nfs4_flag_option opt st) = o4_ip_addr st" "o4_retry (nfs4_flag_option opt st) = o4_retry st"
  by (simp_all add: nfs4_flag_option_def Let_def)

lemma value_option_fields:
  fixes st :: mount4_opts and key val :: string
  defines "st' \<equiv> nfs4_value_option key val st"
  shows "n4_rsize (o4_data st') = (if key = ''rsize'' then atoi val else n4_rsize (o4_data st))"
    "n4_wsize (o4_data st') = (if key = ''wsize'' then atoi val else n4_wsize (o4_data st))"
    "n4_timeo (o4_data st') = (if key = ''timeo'' then atoi val else n4_timeo (o4_data st))"
    "n4_retrans (o4_data st') = (if key = ''retrans'' then atoi val else n4_retrans (o4_data st))"
    "n4_acregmin (o4_data st') = (if key \<in> {''acregmin'', ''actimeo''} then atoi val else n4_acregmin (o4_data st))"
    "n4_acregmax (o4_data st') = (if key \<in> {''acregmax'', ''actimeo''} then atoi val else n4_acregmax (o4_data st))"
    "n4_acdirmin (o4_data st') = (if key \<in> {''acdirmin'', ''actimeo''} then atoi val else n4_acdirmin (o4_data st))"
    "n4_acdirmax (o4_data st') = (if key \<in> {''acdirmax'', ''actimeo''} then atoi val else n4_acdirmax (o4_data st))"
    "o4_port st' = (if key = ''port'' then ucast (atoi val) else o4_port st)"
    "o4_retry st' = (if key = ''retry'' then sint (atoi val) else o4_retry st)"
    "o4_ip_addr st' = (if key = ''clientaddr'' then take 15 val else o4_ip_addr st)"
    "n4_proto (o4_data st') =
       (if key = ''proto'' \<and> take 3 val = ''tcp'' then 6 else if key = ''proto'' \<and> take 3 val = ''udp'' then 17
        else n4_proto (o4_data st))"
  by (simp_all add: st'_def nfs4_value_option_def Let_def)

lemma nfs4_option_num:
  "n4_rsize (o4_data (nfs4_option opt st)) = (case num_opt {''rsize''} opt of None \<Rightarrow> n4_rsize (o4_data st) | Some v \<Rightarrow> v)"
  "n4_wsize (o4_data (nfs4_option opt st)) = (case num_opt {''wsize''} opt of None \<Rightarrow> n4_wsize (o4_data st) | Some v \<Rightarrow> v)"
  "n4_timeo (o4_data (nfs4_option opt st)) = (case num_opt {''timeo''} opt of None \<Rightarrow> n4_timeo (o4_data st) | Some v \<Rightarrow> v)"
  "n4_retrans (o4_data (nfs4_option opt st)) =
     (case num_opt {''retrans''} opt of None \<Rightarrow> n4_retrans (o4_data st) | Some v \<Rightarrow> v)"
  "n4_acregmin (o4_data (nfs4_option opt st)) =
     (case num_opt {''acregmin'', ''actimeo''} opt of None \<Rightarrow> n4_acregmin (o4_data st) | Some v \<Rightarrow> v)"
  "n4_acregmax (o4_data (nfs4_option opt st)) =
     (case num_opt {''acregmax'', ''actimeo''} opt of None \<Rightarrow> n4_acregmax (o4_data st) | Some v \<Rightarrow> v)"
  "n4_acdirmin (o4_data (nfs4_option opt st)) =
     (case num_opt {''acdirmin'', ''actimeo''} opt of None \<Rightarrow> n4_acdirmin (o4_data st) | Some v \<Rightarrow> v)"
  "n4_acdirmax (o4_data (nfs4_option opt st)) =
     (case num_opt {''acdirmax'', ''actimeo''} opt of None \<Rightarrow> n4_acdirmax (o4_data st) | Some v \<Rightarrow> v)"
  by (cases "split_at (CHR ''='') opt"; simp add: nfs4_option_def num_opt_def text_opt_def value_option_fields split: prod.split)+

lemma nfs4_option_text:
  "o4_port (nfs4_option opt st) =
     (case map_option ucast (num_opt {''port''} opt) of None \<Rightarrow> o4_port st | Some v \<Rightarrow> v)"
  "o4_retry (nfs4_option opt st) = (case map_option sint (num_opt {''retry''} opt) of None \<Rightarrow> o4_retry st | Some v \<Rightarrow> v)"
  "o4_ip_addr (nfs4_option opt st) =
     (case map_option (take 15) (text_opt {''clientaddr''} opt) of None \<Rightarrow> o4_ip_addr st | Some v \<Rightarrow> v)"
  "n4_proto (o4_data (nfs4_option opt st)) = (case proto_opt opt of None \<Rightarrow> n4_proto (o4_data st) | Some v \<Rightarrow> v)"
  by (cases "split_at (CHR ''='') opt"; simp add: nfs4_option_def num_opt_def text_opt_def proto_opt_def
      value_option_fields split: prod.split)+

lemma flag_option_fields:
  fixes st :: mount4_opts and opt :: string
  defines "st' \<equiv> nfs4_flag_option opt st"
  shows "o4_soft st' = (case flag_opt {''soft'', ''nohard''} {''hard'', ''nosoft''} opt of None \<Rightarrow> o4_soft st | Some b \<Rightarrow> b)"
    "o4_intr st' = (case flag_opt {''intr''} {''nointr''} opt of None \<Rightarrow> o4_intr st | Some b \<Rightarrow> b)"
    "o4_nocto st' = (case flag_opt {''nocto''} {''cto''} opt of None \<Rightarrow> o4_nocto st | Some b \<Rightarrow> b)"
    "o4_noac st' = (case flag_opt {''noac''} {''ac''} opt of None \<Rightarrow> o4_noac st | Some b \<Rightarrow> b)"
    "o4_unshared st' = (case flag_opt {''nosharecache''} {''sharecache''} opt of None \<Rightarrow> o4_unshared st | Some b \<Rightarrow> b)"
    "o4_bg st' = (case flag_opt {''bg'', ''nofg''} {''fg'', ''nobg''} opt of None \<Rightarrow> o4_bg st | Some b \<Rightarrow> b)"
proof -
  consider x where "opt = ''no'' @ x" | "take 2 opt \<noteq> ''no''" using no_prefix by blast
  note cs = this
  show "o4_soft st' = (case flag_opt {''soft'', ''nohard''} {''hard'', ''nosoft''} opt of None \<Rightarrow> o4_soft st | Some b \<Rightarrow> b)"
    "o4_intr st' = (case flag_opt {''intr''} {''nointr''} opt of None \<Rightarrow> o4_intr st | Some b \<Rightarrow> b)"
    "o4_nocto st' = (case flag_opt {''nocto''} {''cto''} opt of None \<Rightarrow> o4_nocto st | Some b \<Rightarrow> b)"
    "o4_noac st' = (case flag_opt {''noac''} {''ac''} opt of None \<Rightarrow> o4_noac st | Some b \<Rightarrow> b)"
    "o4_unshared st' = (case flag_opt {''nosharecache''} {''sharecache''} opt of None \<Rightarrow> o4_unshared st | Some b \<Rightarrow> b)"
    "o4_bg st' = (case flag_opt {''bg'', ''nofg''} {''fg'', ''nobg''} opt of None \<Rightarrow> o4_bg st | Some b \<Rightarrow> b)"
    by (rule cs; (simp add: st'_def nfs4_flag_option_def flag_opt_def Let_def; fail) | auto simp: st'_def nfs4_flag_option_def flag_opt_def Let_def)+
qed

lemma flag_opt_equals: "CHR ''='' \<in> set opt \<Longrightarrow> \<forall>x \<in> on \<union> off. CHR ''='' \<notin> set x \<Longrightarrow> flag_opt on off opt = None"
  by (auto simp: flag_opt_def)

lemma nfs4_option_flag:
  "o4_soft (nfs4_option opt st) =
     (case flag_opt {''soft'', ''nohard''} {''hard'', ''nosoft''} opt of None \<Rightarrow> o4_soft st | Some b \<Rightarrow> b)"
  "o4_intr (nfs4_option opt st) = (case flag_opt {''intr''} {''nointr''} opt of None \<Rightarrow> o4_intr st | Some b \<Rightarrow> b)"
  "o4_nocto (nfs4_option opt st) = (case flag_opt {''nocto''} {''cto''} opt of None \<Rightarrow> o4_nocto st | Some b \<Rightarrow> b)"
  "o4_noac (nfs4_option opt st) = (case flag_opt {''noac''} {''ac''} opt of None \<Rightarrow> o4_noac st | Some b \<Rightarrow> b)"
  "o4_unshared (nfs4_option opt st) =
     (case flag_opt {''nosharecache''} {''sharecache''} opt of None \<Rightarrow> o4_unshared st | Some b \<Rightarrow> b)"
  "o4_bg (nfs4_option opt st) =
     (case flag_opt {''bg'', ''nofg''} {''fg'', ''nobg''} opt of None \<Rightarrow> o4_bg st | Some b \<Rightarrow> b)"
proof -
  have eq: "CHR ''='' \<in> set opt" if "split_at (CHR ''='') opt = Some p" for p
    using that split_at_None [of "CHR ''=''" opt] by auto
  show "o4_soft (nfs4_option opt st) =
     (case flag_opt {''soft'', ''nohard''} {''hard'', ''nosoft''} opt of None \<Rightarrow> o4_soft st | Some b \<Rightarrow> b)"
  "o4_intr (nfs4_option opt st) = (case flag_opt {''intr''} {''nointr''} opt of None \<Rightarrow> o4_intr st | Some b \<Rightarrow> b)"
  "o4_nocto (nfs4_option opt st) = (case flag_opt {''nocto''} {''cto''} opt of None \<Rightarrow> o4_nocto st | Some b \<Rightarrow> b)"
  "o4_noac (nfs4_option opt st) = (case flag_opt {''noac''} {''ac''} opt of None \<Rightarrow> o4_noac st | Some b \<Rightarrow> b)"
  "o4_unshared (nfs4_option opt st) =
     (case flag_opt {''nosharecache''} {''sharecache''} opt of None \<Rightarrow> o4_unshared st | Some b \<Rightarrow> b)"
  "o4_bg (nfs4_option opt st) =
     (case flag_opt {''bg'', ''nofg''} {''fg'', ''nobg''} opt of None \<Rightarrow> o4_bg st | Some b \<Rightarrow> b)"
    by (cases "split_at (CHR ''='') opt"; simp add: nfs4_option_def flag_option_fields flag_opt_equals [OF eq] split: prod.split)+
qed

lemma nfs4_options_last:
  fixes opts :: "string list" and st :: mount4_opts
  defines "st' \<equiv> fold nfs4_option opts st"
  shows "n4_rsize (o4_data st') = last_opt (num_opt {''rsize''}) opts (n4_rsize (o4_data st))"
    "n4_wsize (o4_data st') = last_opt (num_opt {''wsize''}) opts (n4_wsize (o4_data st))"
    "n4_timeo (o4_data st') = last_opt (num_opt {''timeo''}) opts (n4_timeo (o4_data st))"
    "n4_retrans (o4_data st') = last_opt (num_opt {''retrans''}) opts (n4_retrans (o4_data st))"
    "n4_acregmin (o4_data st') = last_opt (num_opt {''acregmin'', ''actimeo''}) opts (n4_acregmin (o4_data st))"
    "n4_acregmax (o4_data st') = last_opt (num_opt {''acregmax'', ''actimeo''}) opts (n4_acregmax (o4_data st))"
    "n4_acdirmin (o4_data st') = last_opt (num_opt {''acdirmin'', ''actimeo''}) opts (n4_acdirmin (o4_data st))"
    "n4_acdirmax (o4_data st') = last_opt (num_opt {''acdirmax'', ''actimeo''}) opts (n4_acdirmax (o4_data st))"
    "n4_proto (o4_data st') = last_opt proto_opt opts (n4_proto (o4_data st))"
    "o4_port st' = last_opt (\<lambda>opt. map_option ucast (num_opt {''port''} opt)) opts (o4_port st)"
    "o4_retry st' = last_opt (\<lambda>opt. map_option sint (num_opt {''retry''} opt)) opts (o4_retry st)"
    "o4_ip_addr st' = last_opt (\<lambda>opt. map_option (take 15) (text_opt {''clientaddr''} opt)) opts (o4_ip_addr st)"
    "o4_soft st' = last_opt (flag_opt {''soft'', ''nohard''} {''hard'', ''nosoft''}) opts (o4_soft st)"
    "o4_intr st' = last_opt (flag_opt {''intr''} {''nointr''}) opts (o4_intr st)"
    "o4_nocto st' = last_opt (flag_opt {''nocto''} {''cto''}) opts (o4_nocto st)"
    "o4_noac st' = last_opt (flag_opt {''noac''} {''ac''}) opts (o4_noac st)"
    "o4_unshared st' = last_opt (flag_opt {''nosharecache''} {''sharecache''}) opts (o4_unshared st)"
    "o4_bg st' = last_opt (flag_opt {''bg'', ''nofg''} {''fg'', ''nobg''}) opts (o4_bg st)"
  unfolding st'_def
  by (rule fold_last_opt [where g = "\<lambda>st. n4_rsize (o4_data st)"], rule nfs4_option_num)
     (rule fold_last_opt [where g = "\<lambda>st. n4_wsize (o4_data st)"], rule nfs4_option_num,
      rule fold_last_opt [where g = "\<lambda>st. n4_timeo (o4_data st)"], rule nfs4_option_num,
      rule fold_last_opt [where g = "\<lambda>st. n4_retrans (o4_data st)"], rule nfs4_option_num,
      rule fold_last_opt [where g = "\<lambda>st. n4_acregmin (o4_data st)"], rule nfs4_option_num,
      rule fold_last_opt [where g = "\<lambda>st. n4_acregmax (o4_data st)"], rule nfs4_option_num,
      rule fold_last_opt [where g = "\<lambda>st. n4_acdirmin (o4_data st)"], rule nfs4_option_num,
      rule fold_last_opt [where g = "\<lambda>st. n4_acdirmax (o4_data st)"], rule nfs4_option_num,
      rule fold_last_opt [where g = "\<lambda>st. n4_proto (o4_data st)"], rule nfs4_option_text,
      rule fold_last_opt [where g = o4_port], rule nfs4_option_text,
      rule fold_last_opt [where g = o4_retry], rule nfs4_option_text,
      rule fold_last_opt [where g = o4_ip_addr], rule nfs4_option_text,
      rule fold_last_opt [where g = o4_soft], rule nfs4_option_flag,
      rule fold_last_opt [where g = o4_intr], rule nfs4_option_flag,
      rule fold_last_opt [where g = o4_nocto], rule nfs4_option_flag,
      rule fold_last_opt [where g = o4_noac], rule nfs4_option_flag,
      rule fold_last_opt [where g = o4_unshared], rule nfs4_option_flag,
      rule fold_last_opt [where g = o4_bg], rule nfs4_option_flag)

definition opts4_ok :: "mount4_opts \<Rightarrow> bool" where
  "opts4_ok st \<longleftrightarrow> length (o4_ip_addr st) \<le> 15 \<and> n4_proto (o4_data st) \<in> {6, 17}"

lemma opts4_if: "opts4_ok x \<Longrightarrow> opts4_ok y \<Longrightarrow> opts4_ok (if b then x else y)"
  by simp

lemma nfs4_option_ok:
  assumes "opts4_ok st"
  shows "opts4_ok (nfs4_option opt st)"
proof -
  have "opts4_ok (nfs4_value_option key value st)" for key "value"
    unfolding nfs4_value_option_def Let_def using assms
    by (intro opts4_if) (simp_all add: opts4_ok_def)
  moreover have "opts4_ok (nfs4_flag_option opt st)"
    unfolding nfs4_flag_option_def Let_def using assms
    by (intro opts4_if) (simp_all add: opts4_ok_def)
  ultimately show ?thesis by (auto simp: nfs4_option_def split: option.split)
qed

lemma nfs4_options_ok: "opts4_ok st \<Longrightarrow> opts4_ok (fold nfs4_option opts st)"
  by (induction opts arbitrary: st) (simp_all add: nfs4_option_ok)

lemma nfs4mount_data_eq:
  assumes "nfs4mount_data sy spec extra_opts = Inr (data, st)"
  shows "\<exists>host dir addr. parse_devname spec = Some (host, dir) \<and> sy_resolve sy host = Some addr \<and>
    length spec < 1024 \<and> data = nfs4_fill_data st host dir addr \<and> opts4_ok st \<and>
    st = fold nfs4_option (strtok_tokens (CHR '','') extra_opts) (nfs4_defaults (get_my_ipv4addr sy ''127.0.0.1''))"
proof -
  have "length (get_my_ipv4addr sy ''127.0.0.1'') \<le> 15" by (simp add: get_my_ipv4addr_def split: option.split)
  then have "opts4_ok (nfs4_defaults (get_my_ipv4addr sy ''127.0.0.1''))"
    by (simp add: opts4_ok_def nfs4_defaults_def)
  from nfs4_options_ok [OF this] show ?thesis using assms
    by (auto simp: nfs4mount_data_def fill_ipv4_sockaddr_def Let_def split: if_splits option.splits)
qed

lemma split_at_length: "split_at d s = Some (a, b) \<Longrightarrow> length s = Suc (length a + length b)"
  by (drule split_at_Some) simp

lemma parse_devname_dir:
  "parse_devname spec = Some (host, dir) \<Longrightarrow> dir \<noteq> ''/'' \<Longrightarrow> length dir < length spec"
  by (auto simp: parse_devname_def dest!: split_at_length split: option.splits if_splits)

text \<open>What the code relies on of \<open>strndup_user\<close>: a string that fits with its terminator is copied.\<close>

definition strndup_user_ok :: "fs_env \<Rightarrow> bool" where
  "strndup_user_ok e \<longleftrightarrow> (\<forall>s n. length s < n \<longrightarrow> fe_strndup_user e s n = Inr s)"

section \<open>Properties\<close>

text \<open>
  C5: what a version 4 mount command asks for is what the kernel's context holds. When the helper
  has built the mount data for a server address other than the ANY address and over TCP, the
  kernel accepts it, and host name and path arrive as the device name gives them; the own address,
  the port, the sizes, the timeouts and the five flags are each what the last option with their name
  says, or the default when no option does.
\<close>

theorem mount4_reaches_kernel:
  assumes d: "nfs4mount_data sy spec extra_opts = Inr (data, st)"
    and name: "parse_devname spec = Some (host, dir)" "length host < NFS4_MAXNAMLEN"
    and addr: "sy_resolve sy host = Some addr" "ss_family addr = AF_INET" "ss_addr addr \<noteq> 0"
    and env: "strndup_user_ok e" "fe_copy_from_user e 0"
    and tcp: "last_opt proto_opt (strtok_tokens (CHR '','') extra_opts) 6 \<noteq> 17"
  shows "let opts = strtok_tokens (CHR '','') extra_opts;
      port = last_opt (\<lambda>opt. map_option ucast (num_opt {''port''} opt)) opts 2049 in
    \<exists>ctx. nfs4_parse_monolithic e (Some data) (nfs_init_fs_context HZ ty src None) = (ctx, 0) \<and>
    ctx_version ctx = 4 \<and>
    ns_hostname (nfs_server_p ctx) = Some host \<and> ns_export_path (nfs_server_p ctx) = Some dir \<and>
    client_address ctx = Some (last_opt (\<lambda>opt. map_option (take 15) (text_opt {''clientaddr''} opt)) opts
                                 (get_my_ipv4addr sy ''127.0.0.1'')) \<and>
    ns_address (nfs_server_p ctx) = addr\<lparr>ss_port := port\<rparr> \<and>
    ns_port (nfs_server_p ctx) = uint port \<and> ns_protocol (nfs_server_p ctx) = XPRT_TRANSPORT_TCP \<and>
    ctx_rsize ctx = last_opt (num_opt {''rsize''}) opts 0 \<and>
    ctx_wsize ctx = last_opt (num_opt {''wsize''}) opts 0 \<and>
    ctx_timeo ctx = last_opt (num_opt {''timeo''}) opts 0 \<and>
    ctx_retrans ctx = last_opt (num_opt {''retrans''}) opts 3 \<and>
    ctx_acregmin ctx = last_opt (num_opt {''acregmin'', ''actimeo''}) opts 3 \<and>
    ctx_acregmax ctx = last_opt (num_opt {''acregmax'', ''actimeo''}) opts 60 \<and>
    ctx_acdirmin ctx = last_opt (num_opt {''acdirmin'', ''actimeo''}) opts 30 \<and>
    ctx_acdirmax ctx = last_opt (num_opt {''acdirmax'', ''actimeo''}) opts 60 \<and>
    ctx_flags ctx =
      only_if (last_opt (flag_opt {''soft'', ''nohard''} {''hard'', ''nosoft''}) opts False) NFS_MOUNT_SOFT \<union>
      only_if (last_opt (flag_opt {''intr''} {''nointr''}) opts True) NFS_MOUNT_INTR \<union>
      only_if (last_opt (flag_opt {''nocto''} {''cto''}) opts False) NFS_MOUNT_NOCTO \<union>
      only_if (last_opt (flag_opt {''noac''} {''ac''}) opts False) NFS_MOUNT_NOAC \<union>
      only_if (last_opt (flag_opt {''nosharecache''} {''sharecache''}) opts False) NFS_MOUNT_UNSHARED"
proof -
  let ?opts = "strtok_tokens (CHR '','') extra_opts" and ?ip = "get_my_ipv4addr sy ''127.0.0.1''"
  have data: "data = nfs4_fill_data st host dir addr" and ok: "opts4_ok st" and len: "length spec < 1024"
    and st: "st = fold nfs4_option ?opts (nfs4_defaults ?ip)"
    using nfs4mount_data_eq [OF d] name(1) addr(1) by auto
  note last = nfs4_options_last [of ?opts "nfs4_defaults ?ip", folded st, unfolded nfs4_defaults_def zero_data4_def,
      simplified]
  have dir: "length dir < NFS_MAXPATHLEN"
    using parse_devname_dir [OF name(1)] len by (cases "dir = ''/''") auto
  have proto: "n4_proto (o4_data st) = 6" using ok tcp last(9) by (simp add: opts4_ok_def)
  have ip: "length (o4_ip_addr st) < 16" using ok by (simp add: opts4_ok_def)
  have dup: "fe_strndup_user e host NFS4_MAXNAMLEN = Inr host" "fe_strndup_user e dir NFS_MAXPATHLEN = Inr dir"
    "fe_strndup_user e (o4_ip_addr st) 16 = Inr (o4_ip_addr st)"
    using env(1) name(2) dir ip unfolding strndup_user_ok_def by blast+
  show ?thesis
    using mount4_flags [of st] unfolding Let_def last [symmetric]
    by (simp add: nfs4_parse_monolithic_def data nfs4_fill_data_def nfs4_copy_strings_def dup env(2)
        nfs_verify_server_address_def addr(2,3) nfs4_translate_def proto nfs_validate_transport_protocol_def
        nfs_init_fs_context_def zero_context_def Let_def)
qed

definition ex_fs_env :: fs_env where
  "ex_fs_env =
     \<lparr>fe_fs_parse = (\<lambda>_ _. Inl (- ENOPARAM)),
      fe_lookup_constant = (\<lambda>tbl s d. case map_of tbl s of Some v \<Rightarrow> v | None \<Rightarrow> d),
      fe_rpc_pton = (\<lambda>_. None), fe_transport_ident = (\<lambda>_. 6),
      fe_rpc_set_port = (\<lambda>port a. a\<lparr>ss_port := word_of_int port\<rparr>),
      fe_strndup_user = (\<lambda>s n. if length s < n then Inr s else Inl (- EINVAL)),
      fe_copy_from_user = (\<lambda>_. True), fe_kmalloc = (\<lambda>_. True), fe_context_option = (\<lambda>_ ctx. (ctx, 0)),
      fe_generic = (\<lambda>ctx. (ctx, - EINVAL)),
      fe_get_nfs_version = (\<lambda>v. if v = 4 then Inr mynfs4_fs_type else Inr mynfs_fs_type),
      fe_disable_udp = False, fe_nfs_v4 = True, fe_try_get_tree = (\<lambda>ctx. (ctx, 0)),
      fe_get_tree_common = (\<lambda>ctx. (ctx, 0))\<rparr>"

definition ex_sys :: mount_sys where
  "ex_sys = \<lparr>sy_resolve = (\<lambda>_. Some \<lparr>ss_family = AF_INET, ss_addr = 167772161, ss_port = 0\<rparr>),
             sy_my_addr = Some ''10.0.0.2'', sy_start = 0, sy_time = int, sy_mount = (\<lambda>_ _. EIO)\<rparr>"

definition ex_mount4 :: "mount4_opts" where
  "ex_mount4 = (let st = nfs4_defaults ''10.0.0.2'' in (upd_data4 (n4_rsize_update (\<lambda>_. 4096)) st)\<lparr>o4_soft := True\<rparr>)"

lemma atoi_4096: "atoi ''4096'' = 4096"
  by (simp add: atoi_def strtol_def is_space_def digits_value_def is_digit_def)

lemma ex_mount4_data:
  "nfs4mount_data ex_sys ''srv:/x'' ''soft,rsize=4096'' =
     Inr (nfs4_fill_data ex_mount4 ''srv'' ''/x'' \<lparr>ss_family = AF_INET, ss_addr = 167772161, ss_port = 0\<rparr>, ex_mount4)"
  by (simp add: nfs4mount_data_def parse_devname_def fill_ipv4_sockaddr_def ex_sys_def get_my_ipv4addr_def
      strtok_tokens_def nfs4_option_def nfs4_flag_option_def nfs4_value_option_def Let_def atoi_4096 ex_mount4_def
      nfs4_defaults_def)

theorem mount4_reaches_kernel_witness:
  "\<exists>ctx. nfs4_parse_monolithic ex_fs_env (Some (nfs4_fill_data ex_mount4 ''srv'' ''/x'' \<lparr>ss_family = AF_INET, ss_addr = 167772161, ss_port = 0\<rparr>))
     (nfs_init_fs_context 1000 mynfs4_fs_type (Some ''srv:/x'') None) = (ctx, 0) \<and>
     ctx_rsize ctx = 4096 \<and> NFS_MOUNT_SOFT \<in> ctx_flags ctx"
proof -
  have name: "parse_devname ''srv:/x'' = Some (''srv'', ''/x'')" by (simp add: parse_devname_def)
  have toks: "strtok_tokens (CHR '','') ''soft,rsize=4096'' = [''soft'', ''rsize=4096'']"
    by (simp add: strtok_tokens_def)
  have tcp: "last_opt proto_opt [''soft'', ''rsize=4096''] 6 \<noteq> 17"
    "last_opt (num_opt {''rsize''}) [''soft'', ''rsize=4096''] 0 = 4096"
    "last_opt (flag_opt {''soft'', ''nohard''} {''hard'', ''nosoft''}) [''soft'', ''rsize=4096''] False"
    by (simp_all add: last_opt_def map_filter_simps proto_opt_def num_opt_def text_opt_def flag_opt_def atoi_4096)
  from mount4_reaches_kernel [OF ex_mount4_data name, of _ ex_fs_env 1000 mynfs4_fs_type "Some ''srv:/x''"] tcp
  show ?thesis
    by (auto simp: toks ex_sys_def strndup_user_ok_def ex_fs_env_def Let_def only_if_def)
qed

lemma minorversion_simps [simp]:
  "ctx_minorversion (fst (nfs_validate_transport_protocol e ctx)) = ctx_minorversion ctx"
  "ctx_minorversion (fst (nfs4_copy_strings e data ctx)) = ctx_minorversion ctx"
  "ctx_minorversion (nfs4_translate data ctx) = ctx_minorversion ctx"
  "ctx_minorversion (nfs_set_mount_transport_protocol ctx) = ctx_minorversion ctx"
  "ctx_minorversion (nfs_set_port e port ctx) = ctx_minorversion ctx"
  "ctx_minorversion (fst (nfs_parse_source e m n ctx)) = ctx_minorversion ctx"
  "ctx_minorversion (fst (nfs_load_version e ctx)) = ctx_minorversion ctx"
  by (simp_all add: nfs_validate_transport_protocol_def nfs4_copy_strings_def nfs4_translate_def
      nfs_set_mount_transport_protocol_def nfs_set_port_def nfs_parse_source_def nfs_load_version_def Let_def
      split: sum.split option.split prod.split)

lemma nfs4_parse_minorversion:
  assumes "n4_version data = 1"
  shows "ctx_minorversion (fst (nfs4_parse_monolithic e (Some data) ctx)) = ctx_minorversion ctx"
proof -
  have then_validate: "ctx_minorversion (fst (case r of (ctx, ret) \<Rightarrow>
      if ret \<noteq> 0 then (ctx, ret)
      else case nfs_validate_transport_protocol e (nfs4_translate data ctx) of
             (ctx, ret) \<Rightarrow> if ret \<noteq> 0 then (ctx, ret) else (ctx\<lparr>skip_reconfig_option_check := True\<rparr>, 0))) =
      ctx_minorversion (fst r)" for r
  proof -
    obtain c1 r1 where v: "nfs_validate_transport_protocol e (nfs4_translate data (fst r)) = (c1, r1)"
      by fastforce
    have "ctx_minorversion c1 = ctx_minorversion (fst r)"
      using arg_cong [OF v, of "\<lambda>p. ctx_minorversion (fst p)"] by simp
    then show ?thesis using v by (cases r) simp
  qed
  show ?thesis using assms
    by (simp add: nfs4_parse_monolithic_def Let_def then_validate del: split_paired_All)
qed

lemma validate_minorversion:
  "ctx_minorversion (fst (nfs_fs_context_validate e ctx)) = ctx_minorversion ctx"
proof -
  obtain c1 r1 where v: "nfs_validate_transport_protocol e ctx = (c1, r1)" by fastforce
  have c1: "ctx_minorversion c1 = ctx_minorversion ctx" using arg_cong [OF v, of "\<lambda>p. ctx_minorversion (fst p)"] by simp
  have "ctx_minorversion (fst (case nfs_parse_source e m n c2 of
      (ctx, ret) \<Rightarrow> if ret < 0 then (ctx, ret) else nfs_load_version e ctx)) = ctx_minorversion c2" for m n c2
  proof -
    obtain c3 r3 where p: "nfs_parse_source e m n c2 = (c3, r3)" by fastforce
    have "ctx_minorversion c3 = ctx_minorversion c2" using arg_cong [OF p, of "\<lambda>p. ctx_minorversion (fst p)"] by simp
    then show ?thesis using p by simp
  qed
  then show ?thesis using c1 by (simp add: nfs_fs_context_validate_def v Let_def)
qed

text \<open>
  C32: the minor version that the options of a version 4 mount name (\<open>vers=4.1\<close>, \<open>vers=4.2\<close>, \<open>v4.2\<close>) is
  lost: whatever the options, the context that the kernel makes of the helper's data has minor
  version 0.
\<close>

theorem mount4_minorversion_lost:
  assumes "nfs4mount_data sy spec extra_opts = Inr (data, st)"
    and "kernel_mount e HZ \<lparr>mc_spec = spec, mc_node = node, mc_type = ''mynfs4'', mc_flags = flags,
                            mc_data = Arg4 data\<rparr> = (ctx, ret)"
  shows "ctx_minorversion ctx = 0"
proof -
  have "n4_version data = 1" using nfs4mount_data_eq [OF assms(1)] by (auto simp: nfs4_fill_data_def)
  note parse = nfs4_parse_minorversion [OF this, of e "nfs_init_fs_context HZ mynfs4_fs_type (Some spec) None"]
  obtain c1 r1 where p: "nfs_fs_context_parse_monolithic e (Data4 (Some data))
      (nfs_init_fs_context HZ mynfs4_fs_type (Some spec) None) = (c1, r1)" by fastforce
  have "ctx_minorversion c1 = 0"
    using parse p by (auto simp: nfs_fs_context_parse_monolithic_def nfs_init_fs_context_def zero_context_def
        Let_def split: if_splits)
  moreover have "(ctx, ret) = (if r1 \<noteq> 0 then (c1, r1) else nfs_fs_context_validate e c1)"
    using assms(2) p by (simp add: kernel_mount_def Let_def)
  ultimately show ?thesis using validate_minorversion [of e c1] by (metis fst_conv)
qed

theorem mount4_minorversion_lost_witness:
  "ctx_minorversion (fst (kernel_mount ex_fs_env 1000
     \<lparr>mc_spec = ''srv:/x'', mc_node = ''/mnt'', mc_type = ''mynfs4'', mc_flags = {},
      mc_data = Arg4 (nfs4_fill_data (nfs4_defaults ''10.0.0.2'') ''srv'' ''/x''
        \<lparr>ss_family = AF_INET, ss_addr = 167772161, ss_port = 0\<rparr>)\<rparr>)) = 0"
proof -
  have "nfs4mount_data ex_sys ''srv:/x'' ''vers=4.2'' =
      Inr (nfs4_fill_data (nfs4_defaults ''10.0.0.2'') ''srv'' ''/x''
             \<lparr>ss_family = AF_INET, ss_addr = 167772161, ss_port = 0\<rparr>, nfs4_defaults ''10.0.0.2'')"
    by (simp add: nfs4mount_data_def parse_devname_def fill_ipv4_sockaddr_def ex_sys_def get_my_ipv4addr_def
        strtok_tokens_def nfs4_option_def nfs4_value_option_def Let_def)
  from mount4_minorversion_lost [OF this prod.collapse [symmetric]] show ?thesis .
qed

text \<open>
  C6: the helper and the kernel read the device name the same way. Where the kernel accepts it,
  the helper does too; its host is the kernel's, which only cuts a list of hosts at its first
  comma, and its directory is the kernel's path, except that the helper turns an empty path after
  an unbracketed host into \<open>/\<close>. What the helper accepts and the kernel does not is a bracketed host
  with no colon after the bracket.
\<close>

theorem parse_devname_agrees:
  "(\<forall>host path. nfs_split_source spec = Some (host, path) \<longrightarrow>
      (\<exists>h d. parse_devname spec = Some (h, d) \<and>
         host = (if take 1 spec = ''['' then h else takeWhile (\<lambda>c. c \<noteq> CHR '','') h) \<and>
         d = (if take 1 spec \<noteq> ''['' \<and> path = [] then ''/'' else path))) \<and>
   (nfs_split_source spec = None \<longrightarrow>
      parse_devname spec = None \<or>
      take 1 spec = ''['' \<and> (\<exists>h rest. spec = ''['' @ h @ CHR '']'' # rest \<and> take 1 rest \<noteq> '':''))"
proof -
  have cut: "(case split_at (CHR '','') h of None \<Rightarrow> h | Some (first, _) \<Rightarrow> first) =
      takeWhile (\<lambda>c. c \<noteq> CHR '','') h" for h
    by (induction h) (auto split: option.split)
  show ?thesis
  proof (cases "take 1 spec = ''[''")
    case True
    then obtain s where s: "spec = CHR ''['' # s" by (cases spec) auto
    show ?thesis
    proof (cases "split_at (CHR '']'') s")
      case None
      then show ?thesis by (simp add: nfs_split_source_def parse_devname_def s)
    next
      case (Some p)
      obtain h rest where p: "p = (h, rest)" by fastforce
      then have "s = h @ CHR '']'' # rest" using Some split_at_Some by blast
      then show ?thesis using Some p by (auto simp: nfs_split_source_def parse_devname_def s)
    qed
  next
    case False
    then show ?thesis
      by (auto simp: nfs_split_source_def parse_devname_def cut split: option.split)
  qed
qed

theorem parse_devname_agrees_witness:
  "nfs_split_source ''srv:/x'' = Some (''srv'', ''/x'') \<and> (\<exists>d. parse_devname ''srv:/x'' = Some (''srv'', d) \<and> d = ''/x'')"
proof -
  have "nfs_split_source ''srv:/x'' = Some (''srv'', ''/x'')" by (simp add: nfs_split_source_def)
  then show ?thesis using parse_devname_agrees [of "''srv:/x''"] by (auto simp: parse_devname_def)
qed

lemma mount_retry_exact:
  assumes "timeout < time n" "i \<le> n"
  shows "\<exists>k. i \<le> k \<and> k \<le> n \<and> mount_retry mnt time bg timeout i = Some (if mnt k = 0 then EX_SUCCESS else EX_FAIL, k) \<and>
    (mnt k = 0 \<or> mnt k = EBUSY \<or> \<not> bg \<or> timeout < time k) \<and>
    (\<forall>j. i \<le> j \<and> j < k \<longrightarrow> bg \<and> mnt j \<noteq> 0 \<and> mnt j \<noteq> EBUSY \<and> time j \<le> timeout)"
  using assms(2)
proof (induction i rule: inc_induct)
  case base
  then show ?case using assms(1) by (auto simp: mount_retry.simps [of mnt time bg timeout n])
next
  case (step i)
  show ?case
  proof (cases "mnt i = 0 \<or> mnt i = EBUSY \<or> \<not> bg \<or> timeout < time i")
    case True
    then show ?thesis using step.hyps by (intro exI [of _ i]) (auto simp: mount_retry.simps [of mnt time bg timeout i])
  next
    case False
    then have "mount_retry mnt time bg timeout i = mount_retry mnt time bg timeout (Suc i)"
      by (subst mount_retry.simps) simp
    moreover have "j = i \<or> Suc i \<le> j" if "i \<le> j" for j using that by auto
    ultimately show ?thesis using step.IH False by (metis Suc_leD not_less)
  qed
qed

text \<open>
  C24: trying to mount ends, and when. Once the mount data of a version 4 mount is built, the helper
  ends at the first attempt that succeeds, fails with \<open>EBUSY\<close>, is made in the foreground, or comes
  after the time limit; before it, it is in the background and goes on, whatever the other errors
  are. If the clock passes the limit at some time there is such an attempt no later, and the exit
  code says whether it succeeded. Background and limit are what the options \<open>bg\<close>, \<open>fg\<close> and \<open>retry=\<close> say,
  by default the foreground and two minutes.
\<close>

theorem mount_retry_ends:
  fixes sy :: mount_sys and spec extra_opts node :: string and flags :: "ms_flag set" and data :: nfs4_mount_data
  assumes "nfs4mount_data sy spec extra_opts = Inr (data, st)"
    and "retry_limit (sy_start sy) (last_opt (\<lambda>opt. map_option sint (num_opt {''retry''} opt))
           (strtok_tokens (CHR '','') extra_opts) 2) < sy_time sy n"
  shows "let opts = strtok_tokens (CHR '','') extra_opts;
      bg = last_opt (flag_opt {''bg'', ''nofg''} {''fg'', ''nobg''}) opts False;
      limit = retry_limit (sy_start sy) (last_opt (\<lambda>opt. map_option sint (num_opt {''retry''} opt)) opts 2);
      mnt = (\<lambda>k. sy_mount sy k \<lparr>mc_spec = spec, mc_node = node, mc_type = ''mynfs4'', mc_flags = flags,
                                 mc_data = Arg4 data\<rparr>) in
    \<exists>k \<le> n. nfs4mount sy spec node flags extra_opts = Some (if mnt k = 0 then EX_SUCCESS else EX_FAIL, k) \<and>
      (mnt k = 0 \<or> mnt k = EBUSY \<or> \<not> bg \<or> limit < sy_time sy k) \<and>
      (\<forall>j < k. bg \<and> mnt j \<noteq> 0 \<and> mnt j \<noteq> EBUSY \<and> sy_time sy j \<le> limit)"
proof -
  let ?opts = "strtok_tokens (CHR '','') extra_opts" and ?ip = "get_my_ipv4addr sy ''127.0.0.1''"
  have st: "st = fold nfs4_option ?opts (nfs4_defaults ?ip)" using nfs4mount_data_eq [OF assms(1)] by blast
  note last = nfs4_options_last(11,18) [of ?opts "nfs4_defaults ?ip", folded st, unfolded nfs4_defaults_def, simplified]
  show ?thesis
    using mount_retry_exact [of _ "sy_time sy" n 0, OF assms(2) [folded last] le0]
    unfolding Let_def nfs4mount_def assms(1) last [symmetric] by simp
qed

theorem mount_retry_ends_witness:
  "\<exists>k \<le> 1. nfs4mount ex_sys ''srv:/x'' ''/mnt'' {} ''bg,retry=0'' = Some (EX_FAIL, k)"
proof -
  have toks: "strtok_tokens (CHR '','') ''bg,retry=0'' = [''bg'', ''retry=0'']" by (simp add: strtok_tokens_def)
  have zero: "atoi ''0'' = 0" by (simp add: atoi_def strtol_def is_space_def digits_value_def is_digit_def)
  have "nfs4mount_data ex_sys ''srv:/x'' ''bg,retry=0'' \<noteq> Inl x" for x
    by (simp add: nfs4mount_data_def parse_devname_def fill_ipv4_sockaddr_def ex_sys_def Let_def)
  then obtain data st where d: "nfs4mount_data ex_sys ''srv:/x'' ''bg,retry=0'' = Inr (data, st)"
    by (metis sum.exhaust surj_pair)
  from mount_retry_ends [OF d, of 1 "''/mnt''" "{}"] show ?thesis
    by (auto simp: toks Let_def ex_sys_def retry_limit_def last_opt_def map_filter_simps num_opt_def text_opt_def zero)
qed

lemma nfs3_nonlm_if: "\<not> o3_nonlm x \<Longrightarrow> \<not> o3_nonlm y \<Longrightarrow> \<not> o3_nonlm (if b then x else y)"
  by simp

lemma nfs3_option_nonlm:
  assumes "\<not> o3_nonlm st" "opt \<noteq> ''nonolock''"
  shows "\<not> o3_nonlm (nfs3_option opt st)"
proof -
  have val: "\<not> o3_nonlm (nfs3_value_option key value st)" for key "value"
    unfolding nfs3_value_option_def Let_def using assms(1) by (intro nfs3_nonlm_if) simp_all
  have "opt = take 2 opt @ drop 2 opt" by simp
  then have "(if take 2 opt = ''no'' then drop 2 opt else opt) \<noteq> ''nolock''"
    using assms(2) by (metis append_Cons append_Nil take_Suc_Cons numeral_2_eq_2 take_Nil take0)
  then have "\<not> o3_nonlm (nfs3_flag_option opt st)"
    using assms(1) unfolding nfs3_flag_option_def Let_def by (simp only: if_False) simp
  then show ?thesis using val by (auto simp: nfs3_option_def split: option.split)
qed

lemma nfs3_options_nonlm:
  "\<not> o3_nonlm st \<Longrightarrow> ''nonolock'' \<notin> set opts \<Longrightarrow> \<not> o3_nonlm (fold nfs3_option opts st)"
proof (induction opts arbitrary: st)
  case (Cons opt opts)
  then show ?case using nfs3_option_nonlm [of st opt] by auto
qed simp

lemma mount3_flags:
  "mount_flags_of (nfs3_flags_word st) =
     only_if (o3_soft st) NFS_MOUNT_SOFT \<union> only_if (o3_intr st) NFS_MOUNT_INTR \<union>
     only_if (o3_nocto st) NFS_MOUNT_NOCTO \<union> only_if (o3_noac st) NFS_MOUNT_NOAC \<union>
     only_if (o3_nonlm st) NFS_MOUNT_NONLM \<union> only_if (o3_use_tcp st) NFS_MOUNT_TCP \<union>
     {NFS_MOUNT_VER3, NFS_MOUNT_BROKEN_SUID}"
proof -
  have one: "mount_flags_of (if b then w else 0) = only_if b f" if "mount_flags_of w = {f}" for b w f
    using that by (simp add: only_if_def)
  show ?thesis
    unfolding nfs3_flags_word_def mount_flags_or mynfs_flag_defs
      one [OF mount_flags_one(1)] one [OF mount_flags_one(2)] one [OF mount_flags_one(3)]
      one [OF mount_flags_one(4)] one [OF mount_flags_one(5)] one [OF mount_flags_one(8)]
      one [OF mount_flags_one(7)] mount_flags_one(6) mount_flags_one(8)
    by (simp add: Un_assoc insert_commute)
qed

text \<open>
  C33: \<open>nolock\<close> does not work. The helper strips the leading \<open>no\<close> of an option before it compares
  it, so \<open>nolock\<close> is taken for \<open>lock\<close>; with no option string does a version 3 mount ask for local
  locking, unless it names the nonsensical option \<open>nonolock\<close>.
\<close>

lemma mount3_nolock_lost:
  assumes "nfsmount_data sy spec extra_opts = Inr (data, st)"
    and "''nonolock'' \<notin> set (strtok_tokens (CHR '','') extra_opts)"
  shows "NFS_MOUNT_NONLM \<notin> mount_flags_of (nd_flags data)"
proof -
  have "\<not> o3_nonlm (nfs3_defaults ip)" for ip by (simp add: nfs3_defaults_def)
  then have "\<not> o3_nonlm st" and "nd_flags data = nfs3_flags_word st"
    using assms nfs3_options_nonlm
    by (auto simp: nfsmount_data_def nfs3_fill_data_def Let_def split: if_splits option.splits)
  then show ?thesis using mount3_flags [of st] by (simp add: only_if_def)
qed

end
