(* ===== verification/Nfs_Mount_Options.thy ===== *)
theory Nfs_Mount_Options
  imports Nfs_Fs_Context
begin

text \<open>
  What the parser of text options keeps true of the mount context: values within their ranges,
  flags that exclude or imply each other, no security flavor twice and never more than fit.
\<close>

section \<open>Well-formed contexts\<close>

definition flags_ok :: "nfs_mount_flag set \<Rightarrow> bool" where
  "flags_ok fs \<longleftrightarrow>
     \<not> (NFS_MOUNT_SOFT \<in> fs \<and> NFS_MOUNT_SOFTERR \<in> fs) \<and>
     \<not> (NFS_MOUNT_NORDIRPLUS \<in> fs \<and> NFS_MOUNT_FORCE_RDIRPLUS \<in> fs) \<and>
     (NFS_MOUNT_LOOKUP_CACHE_NONE \<in> fs \<longrightarrow> NFS_MOUNT_LOOKUP_CACHE_NONEG \<in> fs) \<and>
     (NFS_MOUNT_WRITE_WAIT \<in> fs \<longrightarrow> NFS_MOUNT_WRITE_EAGER \<in> fs)"

definition ranges_ok :: "nfs_fs_context \<Rightarrow> bool" where
  "ranges_ok ctx \<longleftrightarrow>
     (ns_port (nfs_server_p ctx) = NFS_UNSPEC_PORT \<or> ns_port (nfs_server_p ctx) \<in> {0..0xFFFF}) \<and>
     (ms_port (mount_server ctx) = NFS_UNSPEC_PORT \<or> ms_port (mount_server ctx) \<in> {0..0xFFFF}) \<and>
     ns_nconnect (nfs_server_p ctx) \<le> 16 \<and> ns_max_connect (nfs_server_p ctx) \<le> 16 \<and>
     ctx_minorversion ctx \<le> NFS4_MAX_MINOR_VERSION \<and> ms_version (mount_server ctx) \<le> 3 \<and>
     ctx_version ctx \<in> {0, 2, 3, 4} \<and> (ctx_timeo ctx = UINT_MAX \<or> ctx_timeo ctx \<in> {1..0x7FFFFFFF}) \<and>
     (ctx_retrans ctx = UINT_MAX \<or> ctx_retrans ctx \<le> 0x7FFFFFFF)"

definition flavors_ok :: "u32 list \<Rightarrow> bool" where
  "flavors_ok fl \<longleftrightarrow> distinct fl \<and> length fl < NFS_MAX_SECFLAVORS"

definition lock_ok :: "nfs_fs_context \<Rightarrow> bool" where
  "lock_ok ctx \<longleftrightarrow>
     (NFS_MOUNT_NONLM \<in> ctx_flags ctx \<longleftrightarrow> lock_status ctx = NFS_LOCK_NOLOCK) \<and>
     (NFS_MOUNT_VER3 \<in> ctx_flags ctx \<longrightarrow> ctx_version ctx = 3)"

definition context_ok :: "nfs_fs_context \<Rightarrow> bool" where
  "context_ok ctx \<longleftrightarrow> flags_ok (ctx_flags ctx) \<and> ranges_ok ctx \<and> flavors_ok (auth_flavors ctx) \<and> lock_ok ctx"

lemmas context_ok_defs = context_ok_def flags_ok_def ranges_ok_def flavors_ok_def lock_ok_def

section \<open>Every option keeps them\<close>

lemma context_ok_if: "context_ok (fst x) \<Longrightarrow> context_ok (fst y) \<Longrightarrow> context_ok (fst (if b then x else y))"
  by simp

lemma auth_info_add_ok: "context_ok ctx \<Longrightarrow> context_ok (fst (nfs_auth_info_add ctx f))"
  by (auto simp: nfs_auth_info_add_def context_ok_defs)

lemma parse_sec_tokens_ok: "context_ok ctx \<Longrightarrow> context_ok (fst (nfs_parse_sec_tokens e ps ctx))"
proof (induction e ps ctx rule: nfs_parse_sec_tokens.induct)
  case (2 e p ps ctx)
  show ?case
  proof (cases "p = []")
    case True
    then show ?thesis using "2.IH"(1) "2.prems" by simp
  next
    case False
    show ?thesis
    proof (cases "nfs_pseudoflavor (lookup_constant e nfs_secflavor_tokens p)")
      case (Some flavor)
      obtain ctx1 ret where a: "nfs_auth_info_add ctx flavor = (ctx1, ret)" by fastforce
      then have ok: "context_ok ctx1" using auth_info_add_ok [OF "2.prems", of flavor] by simp
      show ?thesis using "2.IH"(2) [OF False Some a [symmetric]] ok a Some False
        by (cases "ret < 0") simp_all
    qed (use False "2.prems" in simp)
  qed
qed simp

lemma context_ok_flags:
  assumes "context_ok ctx" "flags_ok fs"
    and "NFS_MOUNT_NONLM \<in> fs \<longleftrightarrow> NFS_MOUNT_NONLM \<in> ctx_flags ctx"
    and "NFS_MOUNT_VER3 \<in> fs \<Longrightarrow> NFS_MOUNT_VER3 \<in> ctx_flags ctx"
  shows "context_ok (ctx\<lparr>ctx_flags := fs\<rparr>)"
  using assms unfolding context_ok_def lock_ok_def ranges_ok_def by simp

lemma context_flags_ok: "context_ok ctx \<Longrightarrow> flags_ok (ctx_flags ctx)"
  by (simp add: context_ok_def)

definition plain_flags :: "nfs_mount_flag set" where
  "plain_flags =
     {NFS_MOUNT_SOFTREVAL, NFS_MOUNT_POSIX, NFS_MOUNT_NOCTO, NFS_MOUNT_TRUNK_DISCOVERY, NFS_MOUNT_NOAC,
      NFS_MOUNT_NOACL, NFS_MOUNT_UNSHARED, NFS_MOUNT_NORESVPORT, NFS_MOUNT_TCP, NFS_MOUNT_LOCAL_FLOCK,
      NFS_MOUNT_LOCAL_FCNTL}"

lemma flags_ok_plain:
  assumes "flags_ok fs" "gs \<subseteq> plain_flags"
  shows "flags_ok (fs \<union> gs)" "flags_ok (fs - gs)"
proof -
  have "f \<notin> gs" if "f \<in> {NFS_MOUNT_SOFT, NFS_MOUNT_SOFTERR, NFS_MOUNT_NORDIRPLUS, NFS_MOUNT_FORCE_RDIRPLUS,
      NFS_MOUNT_LOOKUP_CACHE_NONE, NFS_MOUNT_LOOKUP_CACHE_NONEG, NFS_MOUNT_WRITE_WAIT, NFS_MOUNT_WRITE_EAGER}" for f
    using assms(2) that by (auto simp: plain_flags_def)
  then show "flags_ok (fs \<union> gs)" "flags_ok (fs - gs)" using assms(1) by (simp_all add: flags_ok_def)
qed

lemma toggle_ok:
  assumes "context_ok ctx" "gs \<subseteq> plain_flags"
  shows "context_ok (toggle b gs ctx)"
proof -
  have "NFS_MOUNT_NONLM \<notin> gs" "NFS_MOUNT_VER3 \<notin> gs" using assms(2) by (auto simp: plain_flags_def)
  then show ?thesis
    using flags_ok_plain [OF context_flags_ok [OF assms(1)] assms(2)] assms(1)
    by (auto simp: toggle_def intro!: context_ok_flags)
qed

definition result_ok :: "(nfs_fs_context \<times> int) option \<Rightarrow> bool" where
  "result_ok r \<longleftrightarrow> (case r of None \<Rightarrow> True | Some p \<Rightarrow> context_ok (fst p))"

lemma result_ok_simps [simp]: "result_ok None" "result_ok (Some p) = context_ok (fst p)"
  by (simp_all add: result_ok_def)

lemma result_ok_if: "result_ok x \<Longrightarrow> result_ok y \<Longrightarrow> result_ok (if b then x else y)"
  by simp

lemma numeric_param_ok:
  assumes "context_ok ctx"
  shows "result_ok (parse_numeric_param opt v ctx)"
proof -
  have port: "v \<le> 0xFFFF \<Longrightarrow> uint v \<le> 0xFFFF" by (simp add: word_le_def)
  have "unat (ucast v :: u16) \<le> unat v" by (simp add: unsigned_ucast_eq)
  then have conn: "v \<le> 16 \<Longrightarrow> (ucast v :: u16) \<le> 16" by (simp add: word_le_nat_alt)
  show ?thesis
    unfolding parse_numeric_param_def Let_def using assms port conn
    by (intro result_ok_if)
      (simp_all add: context_ok_defs NFS_MAX_CONNECTIONS_def NFS_MAX_TRANSPORTS_def)
qed

lemma context_ok_other [simp]:
  "context_ok (ctx\<lparr>ctx_options := x1\<rparr>) = context_ok ctx" "context_ok (ctx\<lparr>fscache_uniq := x2\<rparr>) = context_ok ctx"
  "context_ok (ctx\<lparr>has_sec_mnt_opts := x3\<rparr>) = context_ok ctx" "context_ok (ctx\<lparr>client_address := x4\<rparr>) = context_ok ctx"
  "context_ok (ctx\<lparr>xprtsec_policy := x5\<rparr>) = context_ok ctx" "context_ok (ctx\<lparr>protofamily := x6\<rparr>) = context_ok ctx"
  "context_ok (ctx\<lparr>mountfamily := x7\<rparr>) = context_ok ctx" "context_ok (ctx\<lparr>fc_source := x8\<rparr>) = context_ok ctx"
  "context_ok (ctx\<lparr>sloppy := x9\<rparr>) = context_ok ctx"
  "context_ok (upd_ns (ns_protocol_update f1) ctx) = context_ok ctx"
  "context_ok (upd_ns (\<lambda>ns. ns\<lparr>ns_address := a, ns_addrlen := n\<rparr>) ctx) = context_ok ctx"
  "context_ok (upd_ms (ms_protocol_update f2) ctx) = context_ok ctx"
  "context_ok (upd_ms (ms_hostname_update f3) ctx) = context_ok ctx"
  "context_ok (upd_ms (\<lambda>ms. ms\<lparr>ms_address := a, ms_addrlen := n\<rparr>) ctx) = context_ok ctx"
  by (simp_all add: context_ok_def ranges_ok_def lock_ok_def)

lemma tcp_flag_ok:
  "context_ok ctx \<Longrightarrow> context_ok (set_flags {NFS_MOUNT_TCP} ctx)"
  "context_ok ctx \<Longrightarrow> context_ok (clear_flags {NFS_MOUNT_TCP} ctx)"
  using toggle_ok [of ctx "{NFS_MOUNT_TCP}" True] toggle_ok [of ctx "{NFS_MOUNT_TCP}" False]
  by (simp_all add: toggle_def plain_flags_def)

lemma soft_flags_ok:
  assumes "context_ok ctx"
  shows "context_ok (clear_flags {NFS_MOUNT_SOFTERR} (set_flags {NFS_MOUNT_SOFT} ctx))"
    "context_ok (clear_flags {NFS_MOUNT_SOFT} (set_flags {NFS_MOUNT_SOFTERR, NFS_MOUNT_SOFTREVAL} ctx))"
    "context_ok (clear_flags {NFS_MOUNT_SOFT, NFS_MOUNT_SOFTERR, NFS_MOUNT_SOFTREVAL} ctx)"
  using context_flags_ok [OF assms] assms
  by (auto intro!: context_ok_flags simp: flags_ok_def)

lemma lock_flag_ok:
  assumes "context_ok ctx"
  shows "context_ok (toggle neg {NFS_MOUNT_LOCAL_FLOCK, NFS_MOUNT_LOCAL_FCNTL} (toggle neg {NFS_MOUNT_NONLM}
    (ctx\<lparr>lock_status := if neg then NFS_LOCK_NOLOCK else NFS_LOCK_LOCK\<rparr>)))"
proof (rule toggle_ok)
  show "context_ok (toggle neg {NFS_MOUNT_NONLM} (ctx\<lparr>lock_status := if neg then NFS_LOCK_NOLOCK else NFS_LOCK_LOCK\<rparr>))"
    using assms by (simp add: toggle_def context_ok_def flags_ok_def ranges_ok_def lock_ok_def)
qed (simp add: plain_flags_def)

lemma rdirplus_ok:
  assumes "context_ok ctx"
  shows "context_ok (fst (parse_rdirplus e neg string ctx))"
proof -
  have "context_ok (set_flags {NFS_MOUNT_NORDIRPLUS} (clear_flags {NFS_MOUNT_FORCE_RDIRPLUS} ctx))"
    "context_ok (set_flags {NFS_MOUNT_FORCE_RDIRPLUS} (clear_flags {NFS_MOUNT_NORDIRPLUS} ctx))"
    "context_ok (clear_flags {NFS_MOUNT_NORDIRPLUS, NFS_MOUNT_FORCE_RDIRPLUS} ctx)"
    using context_flags_ok [OF assms] assms by (auto intro!: context_ok_flags simp: flags_ok_def)
  then show ?thesis using assms by (simp add: parse_rdirplus_def Let_def split: option.split)
qed

lemma boolean_param_ok:
  assumes "context_ok ctx"
  shows "result_ok (parse_boolean_param e opt neg param ctx)"
proof -
  have "context_ok (toggle b {f} ctx)" if "f \<in> plain_flags" for b f using toggle_ok [OF assms] that by simp
  then have "context_ok (toggle b {NFS_MOUNT_SOFTREVAL} ctx)" "context_ok (toggle b {NFS_MOUNT_POSIX} ctx)"
    "context_ok (toggle b {NFS_MOUNT_NOCTO} ctx)" "context_ok (toggle b {NFS_MOUNT_TRUNK_DISCOVERY} ctx)"
    "context_ok (toggle b {NFS_MOUNT_NOAC} ctx)" "context_ok (toggle b {NFS_MOUNT_NOACL} ctx)"
    "context_ok (toggle b {NFS_MOUNT_UNSHARED} ctx)" "context_ok (toggle b {NFS_MOUNT_NORESVPORT} ctx)" for b
    by (simp_all add: plain_flags_def)
  then show ?thesis
    unfolding parse_boolean_param_def Let_def
    by (intro result_ok_if)
      (simp_all only: result_ok_simps fst_conv context_ok_other soft_flags_ok [OF assms] lock_flag_ok [OF assms]
        rdirplus_ok [OF assms] tcp_flag_ok [OF assms] assms context_ok_if)
qed

lemma enum_param_ok:
  assumes "context_ok ctx"
  shows "result_ok (parse_enum_param opt v ctx)"
proof -
  have "context_ok (set_flags {NFS_MOUNT_LOCAL_FLOCK, NFS_MOUNT_LOCAL_FCNTL} ctx)"
    "context_ok (set_flags {NFS_MOUNT_LOCAL_FLOCK} ctx)" "context_ok (set_flags {NFS_MOUNT_LOCAL_FCNTL} ctx)"
    "context_ok (clear_flags {NFS_MOUNT_LOCAL_FLOCK, NFS_MOUNT_LOCAL_FCNTL} ctx)"
    using context_flags_ok [OF assms] assms by (auto intro!: context_ok_flags simp: flags_ok_def)
  moreover have "context_ok (clear_flags ({NFS_MOUNT_LOOKUP_CACHE_NONEG} \<union> {NFS_MOUNT_LOOKUP_CACHE_NONE}) ctx)"
    "context_ok (set_flags {NFS_MOUNT_LOOKUP_CACHE_NONEG} (clear_flags {NFS_MOUNT_LOOKUP_CACHE_NONE} ctx))"
    "context_ok (set_flags ({NFS_MOUNT_LOOKUP_CACHE_NONEG} \<union> {NFS_MOUNT_LOOKUP_CACHE_NONE}) ctx)"
    "context_ok (clear_flags ({NFS_MOUNT_WRITE_EAGER} \<union> {NFS_MOUNT_WRITE_WAIT}) ctx)"
    "context_ok (clear_flags {NFS_MOUNT_WRITE_WAIT} (set_flags {NFS_MOUNT_WRITE_EAGER} ctx))"
    "context_ok (set_flags ({NFS_MOUNT_WRITE_EAGER} \<union> {NFS_MOUNT_WRITE_WAIT}) ctx)"
    using context_flags_ok [OF assms] assms by (auto intro!: context_ok_flags simp: flags_ok_def)
  ultimately show ?thesis
    unfolding parse_enum_param_def Let_def
    by (intro result_ok_if) (simp_all only: result_ok_simps fst_conv assms context_ok_if)
qed

lemma version_string_ok:
  assumes "context_ok ctx"
  shows "context_ok (fst (nfs_parse_version_string e string ctx))"
proof -
  have c: "context_ok (clear_flags {NFS_MOUNT_VER3} ctx)"
    using assms context_flags_ok [OF assms] by (auto intro!: context_ok_flags simp: flags_ok_def)
  let ?c = "clear_flags {NFS_MOUNT_VER3} ctx"
  have "context_ok (?c\<lparr>ctx_version := 2\<rparr>)" "context_ok (?c\<lparr>ctx_version := 4\<rparr>)"
    "context_ok ((set_flags {NFS_MOUNT_VER3} ?c)\<lparr>ctx_version := 3\<rparr>)"
    "context_ok (?c\<lparr>ctx_version := 4, ctx_minorversion := 0\<rparr>)"
    "context_ok (?c\<lparr>ctx_version := 4, ctx_minorversion := 1\<rparr>)"
    "context_ok (?c\<lparr>ctx_version := 4, ctx_minorversion := 2\<rparr>)"
    using c by (simp_all add: context_ok_def ranges_ok_def lock_ok_def flags_ok_def NFS4_MAX_MINOR_VERSION_def)
  then show ?thesis
    unfolding nfs_parse_version_string_def Let_def by (intro context_ok_if) (simp_all only: fst_conv c)
qed

lemma text_param_ok:
  assumes "context_ok ctx"
  shows "result_ok (parse_text_param e opt param ctx)"
proof -
  have proto: "context_ok (fst (parse_proto e s ctx))" for s
    unfolding parse_proto_def Let_def
    by (intro context_ok_if) (simp_all only: fst_conv context_ok_other tcp_flag_ok [OF assms] assms)
  have mountproto: "context_ok (fst (parse_mountproto e s ctx))" for s
    unfolding parse_mountproto_def Let_def
    by (intro context_ok_if) (simp_all only: fst_conv context_ok_other assms)
  have xprtsec: "context_ok (fst (nfs_parse_xprtsec_policy e s ctx))" for s
    unfolding nfs_parse_xprtsec_policy_def Let_def
    by (intro context_ok_if) (simp_all only: fst_conv context_ok_other assms)
  have sec: "context_ok (fst (nfs_parse_security_flavors e s ctx))" for s
    by (simp add: nfs_parse_security_flavors_def parse_sec_tokens_ok assms)
  have addr: "context_ok (fst (case r of None \<Rightarrow> (ctx, - EINVAL)
        | Some (a, len) \<Rightarrow> (upd_ns (\<lambda>ns. ns\<lparr>ns_address := a, ns_addrlen := len\<rparr>) ctx, 0)))"
    "context_ok (fst (case r of None \<Rightarrow> (ctx, - EINVAL)
        | Some (a, len) \<Rightarrow> (upd_ms (\<lambda>ms. ms\<lparr>ms_address := a, ms_addrlen := len\<rparr>) ctx, 0)))" for r
    by (auto simp only: fst_conv context_ok_other assms split: option.split prod.split)
  show ?thesis
    unfolding parse_text_param_def Let_def
    by (intro result_ok_if)
      (simp_all only: result_ok_simps fst_conv context_ok_other assms context_ok_if proto mountproto xprtsec sec
        addr version_string_ok [OF assms])
qed

lemma result_ok_case:
  "result_ok r \<Longrightarrow> context_ok (fst y) \<Longrightarrow> context_ok (fst (case r of Some x \<Rightarrow> x | None \<Rightarrow> y))"
  by (cases r) simp_all

lemma parse_param_ok:
  assumes "context_ok ctx"
  shows "context_ok (fst (nfs_fs_context_parse_param e param ctx))"
proof (cases "fe_fs_parse e nfs_fs_parameters param")
  case (Inl err)
  then show ?thesis using assms by (simp add: nfs_fs_context_parse_param_def)
next
  case (Inr p)
  obtain opt result where p: "p = (opt, result)" by fastforce
  have sec: "context_ok (if fc_security ctx then ctx\<lparr>has_sec_mnt_opts := True\<rparr> else ctx)" using assms by simp
  show ?thesis
    unfolding nfs_fs_context_parse_param_def Inr p sum.case prod.case Let_def
    by (intro context_ok_if result_ok_case boolean_param_ok numeric_param_ok text_param_ok enum_param_ok sec)
      (simp_all only: fst_conv context_ok_other sec)
qed

section \<open>Properties\<close>

text \<open>
  C7: the parser of text options keeps the mount context well formed, from the defaults on and
  through any sequence of options, those that are refused included: ports, connection counts, minor
  version, time-out and retries stay in range; \<open>soft\<close> and \<open>softerr\<close>, and the two settings of
  \<open>rdirplus\<close>, exclude each other; caching no entry implies caching no negative one and waiting for
  writes implies writing eagerly; the security flavors are distinct and fit their array; local
  locking agrees with the lock status and the version 3 flag with the version.
\<close>

theorem parse_params_context_ok:
  "context_ok (fold (\<lambda>param ctx. fst (nfs_fs_context_parse_param e param ctx)) params
     (nfs_init_fs_context HZ ty src None))"
proof -
  have "context_ok (nfs_init_fs_context HZ ty src None)"
    by (simp add: nfs_init_fs_context_def zero_context_def context_ok_defs NFS4_MAX_MINOR_VERSION_def
        NFS_MAX_SECFLAVORS_def Let_def)
  then show ?thesis
    by (induction params rule: rev_induct) (simp_all add: parse_param_ok)
qed

end
