(* ===== verification/Pnfs_Range.thy ===== *)
theory Pnfs_Range
  imports Nfs4_Stateid
begin

text \<open>
  Byte ranges of pNFS layouts: the inline functions of \<open>src/mynfs/pnfs.h\<close> and the comparisons of
  \<open>pnfs.c\<close>. Offsets and lengths are unsigned 64-bit words, so every sum and difference wraps as in
  C. A length of \<open>NFS4_MAX_UINT64\<close>, or any length that reaches the end of the number range, stands
  for \<open>up to the end of the file\<close>; \<open>range_bytes\<close> is the set of bytes a range denotes, against which
  the comparisons are judged.
\<close>

section \<open>Ranges\<close>

abbreviation NFS4_MAX_UINT64 :: u64 where
  "NFS4_MAX_UINT64 \<equiv> 0xFFFFFFFFFFFFFFFF"

text \<open>\<open>enum pnfs_iomode\<close>; zero is used where no mode has been set.\<close>

abbreviation IOMODE_READ :: u32 where
  "IOMODE_READ \<equiv> 1"

abbreviation IOMODE_RW :: u32 where
  "IOMODE_RW \<equiv> 2"

abbreviation IOMODE_ANY :: u32 where
  "IOMODE_ANY \<equiv> 3"

record pnfs_layout_range =
  iomode :: u32
  offset :: u64
  rlength :: u64

definition whole_range :: "u32 \<Rightarrow> pnfs_layout_range" where
  "whole_range m = \<lparr>iomode = m, offset = 0, rlength = NFS4_MAX_UINT64\<rparr>"

definition pnfs_calc_offset_end :: "u64 \<Rightarrow> u64 \<Rightarrow> u64" where
  "pnfs_calc_offset_end off len =
     (if len = NFS4_MAX_UINT64 \<or> NFS4_MAX_UINT64 - off \<le> len then NFS4_MAX_UINT64
      else off + len - 1)"

definition pnfs_calc_offset_length :: "u64 \<Rightarrow> u64 \<Rightarrow> u64" where
  "pnfs_calc_offset_length off end1 =
     (if end1 = NFS4_MAX_UINT64 \<or> end1 \<le> off then NFS4_MAX_UINT64 else 1 + end1 - off)"

definition pnfs_end_offset :: "u64 \<Rightarrow> u64 \<Rightarrow> u64" where
  "pnfs_end_offset start len =
     (if NFS4_MAX_UINT64 - start \<le> len then NFS4_MAX_UINT64 else start + len)"

definition pnfs_is_range_intersecting :: "u64 \<Rightarrow> u64 \<Rightarrow> u64 \<Rightarrow> u64 \<Rightarrow> bool" where
  "pnfs_is_range_intersecting start1 end1 start2 end2 \<longleftrightarrow>
     (end1 = NFS4_MAX_UINT64 \<or> start2 < end1) \<and> (end2 = NFS4_MAX_UINT64 \<or> start1 < end2)"

definition pnfs_lseg_range_intersecting :: "pnfs_layout_range \<Rightarrow> pnfs_layout_range \<Rightarrow> bool" where
  "pnfs_lseg_range_intersecting l1 l2 =
     (let end1 = pnfs_end_offset (offset l1) (rlength l1);
          end2 = pnfs_end_offset (offset l2) (rlength l2)
      in pnfs_is_range_intersecting (offset l1) end1 (offset l2) end2)"

definition pnfs_lseg_range_contained :: "pnfs_layout_range \<Rightarrow> pnfs_layout_range \<Rightarrow> bool" where
  "pnfs_lseg_range_contained l1 l2 =
     (let start1 = offset l1;
          end1 = pnfs_end_offset start1 (rlength l1);
          start2 = offset l2;
          end2 = pnfs_end_offset start2 (rlength l2)
      in start1 \<le> start2 \<and> end2 \<le> end1)"

definition pnfs_should_free_range :: "pnfs_layout_range \<Rightarrow> pnfs_layout_range \<Rightarrow> bool" where
  "pnfs_should_free_range lseg_range recall_range \<longleftrightarrow>
     (iomode recall_range = IOMODE_ANY \<or> iomode lseg_range = iomode recall_range) \<and>
     pnfs_lseg_range_intersecting lseg_range recall_range"

text \<open>The order of the segments of a layout: \<open>s64\<close> differences of unsigned words.\<close>

definition pnfs_lseg_range_cmp :: "pnfs_layout_range \<Rightarrow> pnfs_layout_range \<Rightarrow> int" where
  "pnfs_lseg_range_cmp l1 l2 =
     (let d = sint (offset l1 - offset l2) in
      if d \<noteq> 0 then d
      else let d = sint (rlength l2 - rlength l1) in
           if d \<noteq> 0 then d
           else of_bool (iomode l1 = IOMODE_READ) - of_bool (iomode l2 = IOMODE_READ))"

definition pnfs_lseg_range_is_after :: "pnfs_layout_range \<Rightarrow> pnfs_layout_range \<Rightarrow> bool" where
  "pnfs_lseg_range_is_after l1 l2 \<longleftrightarrow> 0 < pnfs_lseg_range_cmp l1 l2"

definition pnfs_lseg_range_match ::
  "pnfs_layout_range \<Rightarrow> pnfs_layout_range \<Rightarrow> bool \<Rightarrow> bool" where
  "pnfs_lseg_range_match ls_range rng strict_iomode =
     (if iomode rng = IOMODE_RW \<and> iomode ls_range \<noteq> IOMODE_RW \<or>
         iomode rng \<noteq> iomode ls_range \<and> strict_iomode \<or>
         \<not> pnfs_lseg_range_intersecting ls_range rng
      then False
      else pnfs_lseg_range_contained ls_range (rng\<lparr>rlength := 1\<rparr>))"

definition pnfs_sanity_check_layout_range :: "pnfs_layout_range \<Rightarrow> bool" where
  "pnfs_sanity_check_layout_range r =
     (if iomode r \<noteq> IOMODE_READ \<and> iomode r \<noteq> IOMODE_RW then False
      else if offset r = NFS4_MAX_UINT64 then False
      else if rlength r = 0 then False
      else if rlength r \<noteq> NFS4_MAX_UINT64 \<and> NFS4_MAX_UINT64 - offset r < rlength r then False
      else True)"

text \<open>Sequence numbers of layout stateids.\<close>

definition pnfs_seqid_is_newer :: "u32 \<Rightarrow> u32 \<Rightarrow> bool" where
  "pnfs_seqid_is_newer s1 s2 \<longleftrightarrow> 0 < sint (s1 - s2)"

lemma pnfs_seqid_is_newer_after: "pnfs_seqid_is_newer s1 s2 = s32_after s1 s2"
  by (simp add: pnfs_seqid_is_newer_def s32_after_def)

section \<open>The bytes of a range\<close>

definition range_bytes :: "pnfs_layout_range \<Rightarrow> nat set" where
  "range_bytes r =
     {b. unat (offset r) \<le> b \<and>
         (2 ^ 64 - 1 \<le> unat (offset r) + unat (rlength r) \<or> b < unat (offset r) + unat (rlength r))}"

lemma unat_u64_less: "unat (x :: u64) < 18446744073709551616"
  using unsigned_less [of x] by simp

lemma unat_max_minus: "unat (NFS4_MAX_UINT64 - x) = 18446744073709551615 - unat (x :: u64)"
proof -
  have "x \<le> NFS4_MAX_UINT64" using unat_u64_less [of x] by (simp add: word_le_nat_alt)
  then show ?thesis by (simp add: unat_sub)
qed

lemma pnfs_end_offset_unat:
  "unat (pnfs_end_offset s l) = min 18446744073709551615 (unat s + unat l)"
proof (cases "NFS4_MAX_UINT64 - s \<le> l")
  case True
  then show ?thesis
    using unat_u64_less [of s] by (simp add: pnfs_end_offset_def word_le_nat_alt unat_max_minus)
next
  case False
  then have less: "unat s + unat l < 18446744073709551615"
    using unat_u64_less [of s] by (simp add: word_le_nat_alt unat_max_minus)
  then have "unat (s + l) = unat s + unat l"
    by (simp add: unat_word_ariths)
  then show ?thesis using False less by (simp add: pnfs_end_offset_def)
qed

lemma eq_max_unat: "x = NFS4_MAX_UINT64 \<longleftrightarrow> unat (x :: u64) = 18446744073709551615"
  by (simp add: word_unat_eq_iff)

lemma range_bytes_end:
  "range_bytes r =
     {b. unat (offset r) \<le> b \<and>
         (pnfs_end_offset (offset r) (rlength r) = NFS4_MAX_UINT64 \<or>
          b < unat (pnfs_end_offset (offset r) (rlength r)))}"
  by (auto simp: range_bytes_def eq_max_unat pnfs_end_offset_unat min_def)

lemma offset_in_range_bytes: "rlength r \<noteq> 0 \<Longrightarrow> unat (offset r) \<in> range_bytes r"
  by (simp add: range_bytes_def unat_gt_0)

lemma intersecting_bytes:
  assumes "rlength l1 \<noteq> 0" "rlength l2 \<noteq> 0"
  shows "pnfs_lseg_range_intersecting l1 l2 \<longleftrightarrow> range_bytes l1 \<inter> range_bytes l2 \<noteq> {}"
proof
  assume i: "pnfs_lseg_range_intersecting l1 l2"
  have "max (unat (offset l1)) (unat (offset l2)) \<in> range_bytes l1 \<inter> range_bytes l2"
    using i offset_in_range_bytes [OF assms(1)] offset_in_range_bytes [OF assms(2)]
    by (auto simp: range_bytes_end pnfs_lseg_range_intersecting_def pnfs_is_range_intersecting_def Let_def
        word_less_nat_alt max_def)
  then show "range_bytes l1 \<inter> range_bytes l2 \<noteq> {}" by blast
next
  assume "range_bytes l1 \<inter> range_bytes l2 \<noteq> {}"
  then show "pnfs_lseg_range_intersecting l1 l2"
    by (auto simp: range_bytes_end pnfs_lseg_range_intersecting_def pnfs_is_range_intersecting_def Let_def
        word_less_nat_alt)
qed

lemma contained_bytes:
  assumes "rlength l2 \<noteq> 0"
  shows "pnfs_lseg_range_contained l1 l2 \<longleftrightarrow> range_bytes l2 \<subseteq> range_bytes l1"
proof
  assume "pnfs_lseg_range_contained l1 l2"
  then show "range_bytes l2 \<subseteq> range_bytes l1"
    using unat_u64_less [of "pnfs_end_offset (offset l1) (rlength l1)"]
    by (auto simp: range_bytes_end pnfs_lseg_range_contained_def Let_def word_le_nat_alt eq_max_unat)
next
  assume sub: "range_bytes l2 \<subseteq> range_bytes l1"
  let ?e1 = "pnfs_end_offset (offset l1) (rlength l1)"
  let ?e2 = "pnfs_end_offset (offset l2) (rlength l2)"
  have "unat (offset l1) \<le> unat (offset l2)"
    using sub offset_in_range_bytes [OF assms] by (auto simp: range_bytes_def)
  moreover have "unat ?e2 \<le> unat ?e1"
  proof (rule ccontr)
    assume less: "\<not> unat ?e2 \<le> unat ?e1"
    then have "unat ?e1 \<noteq> 18446744073709551615" using unat_u64_less [of ?e2] by simp
    then have "max (unat ?e1) (unat (offset l2)) \<notin> range_bytes l1"
      by (simp add: range_bytes_end eq_max_unat)
    moreover have "max (unat ?e1) (unat (offset l2)) \<in> range_bytes l2"
      using less offset_in_range_bytes [OF assms] by (auto simp: range_bytes_end max_def)
    ultimately show False using sub by blast
  qed
  ultimately show "pnfs_lseg_range_contained l1 l2"
    by (simp add: pnfs_lseg_range_contained_def Let_def word_le_nat_alt)
qed

section \<open>The order of segments\<close>

text \<open>
  The order the comments of \<open>pnfs_lseg_range_cmp\<close> describe: by offset, then the longer first, then
  read/write before read-only.
\<close>

definition range_after :: "pnfs_layout_range \<Rightarrow> pnfs_layout_range \<Rightarrow> bool" where
  "range_after l1 l2 \<longleftrightarrow>
     offset l2 < offset l1 \<or>
     offset l1 = offset l2 \<and>
       (rlength l1 < rlength l2 \<or>
        rlength l1 = rlength l2 \<and> iomode l1 = IOMODE_READ \<and> iomode l2 \<noteq> IOMODE_READ)"

lemma uint_u64: "0 \<le> uint (x :: u64)" "uint (x :: u64) < 18446744073709551616"
  using unsigned_less [of x] by simp_all

lemma sint_u64: "sint (x :: u64) = (if uint x < 2 ^ 63 then uint x else uint x - 2 ^ 64)"
proof -
  have "sint x = (uint x + 9223372036854775808) mod 18446744073709551616 - 9223372036854775808"
    using int_word_sint [of "uint x", where 'a = 64] by simp
  moreover have "(u + 9223372036854775808) mod 18446744073709551616 =
      (if u < 9223372036854775808 then u + 9223372036854775808 else u - 9223372036854775808)"
    if "0 \<le> u" "u < 18446744073709551616" for u :: int
  proof (cases "u < 9223372036854775808")
    case False
    have "u + 9223372036854775808 = (u - 9223372036854775808) + 18446744073709551616" by simp
    then have "(u + 9223372036854775808) mod 18446744073709551616 =
        (u - 9223372036854775808) mod 18446744073709551616"
      by (metis mod_add_self2)
    then show ?thesis using that False by simp
  qed (use that in simp)
  ultimately show ?thesis using uint_u64 [of x] by simp
qed

lemma sint_diff_u64:
  assumes "\<bar>uint a - uint b\<bar> < 2 ^ 63"
  shows "sint (a - b :: u64) = uint a - uint b"
proof -
  have u: "uint (a - b) = (uint a - uint b) mod 18446744073709551616"
    by (simp add: uint_word_ariths(2))
  show ?thesis
  proof (cases "uint b \<le> uint a")
    case True
    then have "uint (a - b) = uint a - uint b" using assms u by simp
    then show ?thesis using assms True by (simp add: sint_u64)
  next
    case False
    have "(uint a - uint b) mod 18446744073709551616 =
        (uint a - uint b + 18446744073709551616) mod 18446744073709551616"
      by simp
    also have "\<dots> = uint a - uint b + 18446744073709551616"
      by (rule mod_pos_pos_trivial) (use False assms in simp_all)
    finally have "uint (a - b) = uint a - uint b + 18446744073709551616" using u by simp
    then show ?thesis using assms False by (simp add: sint_u64)
  qed
qed

lemma range_match_bytes:
  assumes "rlength ls \<noteq> 0" "rlength r \<noteq> 0"
  shows "pnfs_lseg_range_match ls r strict \<longleftrightarrow>
    \<not> (iomode r = IOMODE_RW \<and> iomode ls \<noteq> IOMODE_RW) \<and> (strict \<longrightarrow> iomode r = iomode ls) \<and>
    unat (offset r) \<in> range_bytes ls"
proof -
  have first: "pnfs_lseg_range_contained ls (r\<lparr>rlength := 1\<rparr>) \<longleftrightarrow>
      unat (offset r) \<in> range_bytes ls"
  proof -
    have "pnfs_lseg_range_contained ls (r\<lparr>rlength := 1\<rparr>) \<longleftrightarrow>
        unat (offset ls) \<le> unat (offset r) \<and>
        min 18446744073709551615 (unat (offset r) + 1) \<le>
          min 18446744073709551615 (unat (offset ls) + unat (rlength ls))"
      by (simp add: pnfs_lseg_range_contained_def Let_def word_le_nat_alt pnfs_end_offset_unat)
    then show ?thesis
      using unat_u64_less [of "offset r"] by (auto simp: range_bytes_def min_def split: if_splits)
  qed
  have "pnfs_lseg_range_intersecting ls r" if "unat (offset r) \<in> range_bytes ls"
    using that offset_in_range_bytes [OF assms(2)] by (auto simp: intersecting_bytes [OF assms])
  then show ?thesis by (auto simp: pnfs_lseg_range_match_def first)
qed

section \<open>Properties\<close>



text \<open>
  C33: The segments of a layout are ordered by offset, then longest first, then read/write before
  read-only, as long as offsets and lengths differ by less than \<open>2 ^ 63\<close>; but of two segments at one
  offset of which one extends to the end of the file (length \<open>NFS4_MAX_UINT64\<close>) and the other is
  shorter than \<open>2 ^ 63\<close> bytes, the whole-file segment sorts after the short one: the difference of
  the lengths overflows \<open>s64\<close>, and the order is the opposite of the one the comments state.
\<close>
theorem pnfs_lseg_range_cmp_order:
  "(\<bar>uint (offset l1) - uint (offset l2)\<bar> < 2 ^ 63 \<longrightarrow>
    \<bar>uint (rlength l1) - uint (rlength l2)\<bar> < 2 ^ 63 \<longrightarrow>
      pnfs_lseg_range_is_after l1 l2 = range_after l1 l2) \<and>
   (offset l1 = offset l2 \<longrightarrow> rlength l1 = NFS4_MAX_UINT64 \<longrightarrow> uint (rlength l2) < 2 ^ 63 - 1 \<longrightarrow>
      pnfs_lseg_range_is_after l1 l2 \<and> \<not> range_after l1 l2)"
proof (intro conjI impI)
  assume o: "\<bar>uint (offset l1) - uint (offset l2)\<bar> < 2 ^ 63"
    and l: "\<bar>uint (rlength l1) - uint (rlength l2)\<bar> < 2 ^ 63"
  have "sint (rlength l2 - rlength l1) = uint (rlength l2) - uint (rlength l1)"
    by (rule sint_diff_u64) (use l in simp)
  then show "pnfs_lseg_range_is_after l1 l2 = range_after l1 l2"
    using sint_diff_u64 [OF o]
    by (auto simp: pnfs_lseg_range_is_after_def pnfs_lseg_range_cmp_def Let_def range_after_def
        word_less_def word_uint_eq_iff)
next
  assume o: "offset l1 = offset l2" and m: "rlength l1 = NFS4_MAX_UINT64"
    and l: "uint (rlength l2) < 2 ^ 63 - 1"
  have d: "rlength l2 - rlength l1 = rlength l2 + 1" using m by simp
  have "uint (rlength l2 + 1) = uint (rlength l2) + 1"
    using l uint_u64 [of "rlength l2"] by (simp add: uint_word_ariths(1))
  then have "sint (rlength l2 + 1) = uint (rlength l2) + 1" using l by (simp add: sint_u64)
  then have "sint (rlength l2 - rlength l1) = uint (rlength l2) + 1" by (simp only: d)
  then have "0 < sint (rlength l2 - rlength l1)" using uint_u64(1) [of "rlength l2"] by linarith
  then show "pnfs_lseg_range_is_after l1 l2"
    using o by (simp add: pnfs_lseg_range_is_after_def pnfs_lseg_range_cmp_def Let_def)
  show "\<not> range_after l1 l2"
    using o m l uint_u64(2) [of "rlength l2"] by (auto simp: range_after_def word_less_def)
qed

theorem pnfs_lseg_range_cmp_order_witness:
  "pnfs_lseg_range_is_after
     \<lparr>iomode = IOMODE_RW, offset = 0, rlength = NFS4_MAX_UINT64\<rparr>
     \<lparr>iomode = IOMODE_RW, offset = 0, rlength = 4096\<rparr>"
  using pnfs_lseg_range_cmp_order
    [of "\<lparr>iomode = IOMODE_RW, offset = 0, rlength = NFS4_MAX_UINT64\<rparr>"
        "\<lparr>iomode = IOMODE_RW, offset = 0, rlength = 4096\<rparr>"]
  by simp

end
