(* ===== verification/Pnfs_Layout.thy ===== *)
theory Pnfs_Layout
  imports Pnfs_Range
begin

text \<open>
  The layout cache of one file, \<open>src/mynfs/pnfs.c\<close>: the layout header with its segments, their
  reference counts, and the functions that insert, find, recall, return and destroy them under the
  inode's lock. A \<open>struct pnfs_layout_segment *\<close> is a number and the header holds the segments'
  contents (\<open>lsegs\<close>); \<open>plh_segs\<close> and \<open>plh_return_segs\<close> are the two lists a segment may be on. A
  list a caller passes for the segments it will free is a list of numbers next to the header, and
  \<open>lseg_dst\<close> says which list a pointer \<open>tmp_list\<close> points to. Segments handed to the layout driver's
  \<open>free_lseg\<close> are appended to \<open>freed_lsegs\<close>; the segments whose I/O the driver is asked to cancel, the
  LAYOUTRETURN calls and the wake-ups are recorded in the same way. Credentials are numbers.

  The layout driver, the allocator and the clock are parameters: \<open>pe_allocs\<close> holds the outcome of
  the next allocations of a LAYOUTRETURN request (an allocation past the end of the list
  succeeds). The call itself is asynchronous: what its completion does to the layout is
  \<open>pnfs_layoutreturn_free_lsegs\<close> or \<open>pnfs_layoutreturn_retry_later\<close>. The commits of dirty pages that
  some functions start, the list of layouts of the server and credentials' reference counts are
  left out.
\<close>

section \<open>Data\<close>

datatype (plugins only: code) lseg_flag =
  NFS_LSEG_VALID | NFS_LSEG_ROC | NFS_LSEG_LAYOUTCOMMIT | NFS_LSEG_LAYOUTRETURN | NFS_LSEG_UNAVAILABLE

datatype (plugins only: code) layout_flag =
    NFS_LAYOUT_RO_FAILED | NFS_LAYOUT_RW_FAILED | NFS_LAYOUT_BULK_RECALL | NFS_LAYOUT_RETURN
  | NFS_LAYOUT_RETURN_LOCK | NFS_LAYOUT_RETURN_REQUESTED | NFS_LAYOUT_INVALID_STID
  | NFS_LAYOUT_FIRST_LAYOUTGET | NFS_LAYOUT_INODE_FREEING | NFS_LAYOUT_HASHED | NFS_LAYOUT_DRAIN

record pnfs_layout_segment =
  pls_refcount :: nat
  pls_flags :: "lseg_flag set"
  pls_range :: pnfs_layout_range
  pls_seq :: u32

record layoutreturn_req =
  lr_stateid :: nfs4_stateid
  lr_cred :: nat
  lr_range :: pnfs_layout_range

record pnfs_layout_hdr =
  plh_refcount :: nat
  plh_segs :: "nat list"
  plh_return_segs :: "nat list"
  plh_outstanding :: nat
  plh_block_lgets :: nat
  plh_flags :: "layout_flag set"
  plh_stateid :: nfs4_stateid
  plh_barrier :: u32
  plh_return_seq :: u32
  plh_return_iomode :: u32
  plh_retry_timestamp :: ulong
  plh_lwb :: int
  plh_lc_cred :: nat
  lsegs :: "nat \<Rightarrow> pnfs_layout_segment"
  ino_layoutcommit :: bool
  freed_lsegs :: "nat list"
  canceled_io :: "nat list"
  sent_layoutreturns :: "layoutreturn_req list"
  return_wakes :: nat
  lo_detached :: bool

record pnfs_env =
  pe_jiffies :: ulong
  pe_hz :: ulong
  pe_allocs :: "bool list"
  pe_cred_differs :: "nat \<Rightarrow> nat \<Rightarrow> bool"

datatype lseg_dst = To_free | To_return

type_synonym layout_st = "nat list \<times> pnfs_layout_hdr"

section \<open>Flags and reference counts\<close>

definition set_lo :: "layout_flag \<Rightarrow> pnfs_layout_hdr \<Rightarrow> pnfs_layout_hdr" where
  "set_lo f lo = lo\<lparr>plh_flags := insert f (plh_flags lo)\<rparr>"

definition clear_lo :: "layout_flag \<Rightarrow> pnfs_layout_hdr \<Rightarrow> pnfs_layout_hdr" where
  "clear_lo f lo = lo\<lparr>plh_flags := plh_flags lo - {f}\<rparr>"

definition upd_lseg ::
  "nat \<Rightarrow> (pnfs_layout_segment \<Rightarrow> pnfs_layout_segment) \<Rightarrow> pnfs_layout_hdr \<Rightarrow> pnfs_layout_hdr" where
  "upd_lseg s f lo = lo\<lparr>lsegs := (lsegs lo)(s := f (lsegs lo s))\<rparr>"

definition set_lseg :: "lseg_flag \<Rightarrow> nat \<Rightarrow> pnfs_layout_hdr \<Rightarrow> pnfs_layout_hdr" where
  "set_lseg f s = upd_lseg s (\<lambda>l. l\<lparr>pls_flags := insert f (pls_flags l)\<rparr>)"

definition clear_lseg :: "lseg_flag \<Rightarrow> nat \<Rightarrow> pnfs_layout_hdr \<Rightarrow> pnfs_layout_hdr" where
  "clear_lseg f s = upd_lseg s (\<lambda>l. l\<lparr>pls_flags := pls_flags l - {f}\<rparr>)"

definition test_lseg :: "lseg_flag \<Rightarrow> nat \<Rightarrow> pnfs_layout_hdr \<Rightarrow> bool" where
  "test_lseg f s lo \<longleftrightarrow> f \<in> pls_flags (lsegs lo s)"

definition pnfs_get_layout_hdr :: "pnfs_layout_hdr \<Rightarrow> pnfs_layout_hdr" where
  "pnfs_get_layout_hdr lo = lo\<lparr>plh_refcount := plh_refcount lo + 1\<rparr>"

definition pnfs_get_lseg :: "nat \<Rightarrow> pnfs_layout_hdr \<Rightarrow> pnfs_layout_hdr" where
  "pnfs_get_lseg s = upd_lseg s (\<lambda>l. l\<lparr>pls_refcount := pls_refcount l + 1\<rparr>)"

definition pnfs_layout_is_valid :: "pnfs_layout_hdr \<Rightarrow> bool" where
  "pnfs_layout_is_valid lo \<longleftrightarrow> NFS_LAYOUT_INVALID_STID \<notin> plh_flags lo"

section \<open>What is to be returned\<close>

definition pnfs_barrier_update :: "pnfs_layout_hdr \<Rightarrow> u32 \<Rightarrow> pnfs_layout_hdr" where
  "pnfs_barrier_update lo newseq =
     (if pnfs_seqid_is_newer newseq (plh_barrier lo) \<or> plh_barrier lo = 0
      then lo\<lparr>plh_barrier := newseq\<rparr> else lo)"

definition pnfs_set_plh_return_info :: "pnfs_layout_hdr \<Rightarrow> u32 \<Rightarrow> u32 \<Rightarrow> pnfs_layout_hdr" where
  "pnfs_set_plh_return_info lo mode seq =
     (let mode = (if plh_return_iomode lo \<noteq> 0 \<and> plh_return_iomode lo \<noteq> mode then IOMODE_ANY
                  else mode);
          lo = set_lo NFS_LAYOUT_RETURN_REQUESTED (lo\<lparr>plh_return_iomode := mode\<rparr>);
          seq = (if seq = 0 then seqid (plh_stateid lo) else seq);
          lo = (if plh_return_seq lo = 0 \<or> pnfs_seqid_is_newer seq (plh_return_seq lo)
                then lo\<lparr>plh_return_seq := seq\<rparr> else lo)
      in pnfs_barrier_update lo seq)"

definition pnfs_clear_layoutreturn_info :: "pnfs_layout_hdr \<Rightarrow> pnfs_layout_hdr" where
  "pnfs_clear_layoutreturn_info lo =
     (let lo = clear_lo NFS_LAYOUT_RETURN_REQUESTED
                 (lo\<lparr>plh_return_iomode := 0, plh_return_seq := 0\<rparr>)
      in fold (\<lambda>s lo. if test_lseg NFS_LSEG_LAYOUTRETURN s lo
                      then pnfs_set_plh_return_info lo (iomode (pls_range (lsegs lo s))) 0
                      else lo)
           (plh_segs lo) lo)"

definition pnfs_clear_layoutreturn_waitbit :: "pnfs_layout_hdr \<Rightarrow> pnfs_layout_hdr" where
  "pnfs_clear_layoutreturn_waitbit lo =
     (let lo = clear_lo NFS_LAYOUT_RETURN_LOCK (clear_lo NFS_LAYOUT_RETURN lo)
      in lo\<lparr>return_wakes := return_wakes lo + 1\<rparr>)"

section \<open>Dropping segments\<close>

definition pnfs_layout_remove_lseg :: "nat \<Rightarrow> pnfs_layout_hdr \<Rightarrow> pnfs_layout_hdr" where
  "pnfs_layout_remove_lseg s lo =
     (let lo = lo\<lparr>plh_segs := removeAll s (plh_segs lo), plh_refcount := plh_refcount lo - 1\<rparr> in
      if test_lseg NFS_LSEG_LAYOUTRETURN s lo then lo
      else if plh_segs lo = [] \<and> NFS_LAYOUT_RETURN_REQUESTED \<notin> plh_flags lo \<and>
              NFS_LAYOUT_RETURN \<notin> plh_flags lo
      then let lo = (if plh_outstanding lo = 0 then set_lo NFS_LAYOUT_INVALID_STID lo else lo)
           in clear_lo NFS_LAYOUT_BULK_RECALL lo
      else lo)"

definition list_add_dst :: "lseg_dst \<Rightarrow> nat \<Rightarrow> layout_st \<Rightarrow> layout_st" where
  "list_add_dst dst s = (\<lambda>(free, lo).
     case dst of To_free \<Rightarrow> (s # free, lo)
               | To_return \<Rightarrow> (free, lo\<lparr>plh_return_segs := s # plh_return_segs lo\<rparr>))"

definition pnfs_lseg_dec_and_remove_zero :: "lseg_dst \<Rightarrow> nat \<Rightarrow> layout_st \<Rightarrow> layout_st \<times> bool" where
  "pnfs_lseg_dec_and_remove_zero dst s = (\<lambda>(free, lo).
     let lo = upd_lseg s (\<lambda>l. l\<lparr>pls_refcount := pls_refcount l - 1\<rparr>) lo in
     if pls_refcount (lsegs lo s) \<noteq> 0 then ((free, lo), False)
     else (list_add_dst dst s (free, pnfs_layout_remove_lseg s lo), True))"

definition pnfs_clear_lseg_state :: "lseg_dst \<Rightarrow> nat \<Rightarrow> layout_st \<Rightarrow> layout_st" where
  "pnfs_clear_lseg_state dst s = (\<lambda>(free, lo).
     let lo = clear_lseg NFS_LSEG_LAYOUTRETURN s (clear_lseg NFS_LSEG_ROC s lo);
         (free, lo) = (if test_lseg NFS_LSEG_VALID s lo
                       then fst (pnfs_lseg_dec_and_remove_zero dst s (free, clear_lseg NFS_LSEG_VALID s lo))
                       else (free, lo))
     in if test_lseg NFS_LSEG_LAYOUTCOMMIT s lo
        then fst (pnfs_lseg_dec_and_remove_zero dst s (free, clear_lseg NFS_LSEG_LAYOUTCOMMIT s lo))
        else (free, lo))"

definition mark_lseg_invalid :: "lseg_dst \<Rightarrow> nat \<Rightarrow> layout_st \<Rightarrow> layout_st \<times> bool" where
  "mark_lseg_invalid dst s = (\<lambda>(free, lo).
     if test_lseg NFS_LSEG_VALID s lo
     then pnfs_lseg_dec_and_remove_zero dst s (free, clear_lseg NFS_LSEG_VALID s lo)
     else ((free, lo), False))"

definition pnfs_match_lseg_recall ::
  "pnfs_layout_segment \<Rightarrow> pnfs_layout_range option \<Rightarrow> u32 \<Rightarrow> bool" where
  "pnfs_match_lseg_recall lseg recall_range seq =
     (if seq \<noteq> 0 \<and> pnfs_seqid_is_newer (pls_seq lseg) seq then False
      else case recall_range of None \<Rightarrow> True
           | Some r \<Rightarrow> pnfs_should_free_range (pls_range lseg) r)"

definition pnfs_lseg_cancel_io :: "nat \<Rightarrow> pnfs_layout_hdr \<Rightarrow> pnfs_layout_hdr" where
  "pnfs_lseg_cancel_io s lo = lo\<lparr>canceled_io := canceled_io lo @ [s]\<rparr>"

text \<open>The functions that walk over \<open>plh_segs\<close> return the number of matching segments still in use.\<close>

definition lsegs_invalid_step ::
  "pnfs_layout_range option \<Rightarrow> u32 \<Rightarrow> nat \<Rightarrow> layout_st \<times> nat \<Rightarrow> layout_st \<times> nat" where
  "lsegs_invalid_step r seq s = (\<lambda>((free, lo), n).
     if pnfs_match_lseg_recall (lsegs lo s) r seq
     then case mark_lseg_invalid To_free s (free, lo) of
            ((free, lo), True) \<Rightarrow> ((free, lo), n)
          | ((free, lo), False) \<Rightarrow> ((free, pnfs_lseg_cancel_io s lo), n + 1)
     else ((free, lo), n))"

definition pnfs_mark_matching_lsegs_invalid ::
  "pnfs_layout_range option \<Rightarrow> u32 \<Rightarrow> layout_st \<Rightarrow> layout_st \<times> nat" where
  "pnfs_mark_matching_lsegs_invalid r seq st =
     fold (lsegs_invalid_step r seq) (plh_segs (snd st)) (st, 0)"

definition lsegs_return_step ::
  "pnfs_layout_range \<Rightarrow> u32 \<Rightarrow> nat \<Rightarrow> layout_st \<times> lseg_dst \<times> nat \<Rightarrow> layout_st \<times> lseg_dst \<times> nat" where
  "lsegs_return_step r seq s = (\<lambda>((free, lo), dst, n).
     if pnfs_match_lseg_recall (lsegs lo s) (Some r) seq
     then let dst = (if test_lseg NFS_LSEG_LAYOUTRETURN s lo then To_return else dst) in
          case mark_lseg_invalid dst s (free, lo) of
            ((free, lo), True) \<Rightarrow> ((free, lo), dst, n)
          | ((free, lo), False) \<Rightarrow>
              ((free, pnfs_lseg_cancel_io s (set_lseg NFS_LSEG_LAYOUTRETURN s lo)), dst, n + 1)
     else ((free, lo), dst, n))"

definition pnfs_mark_matching_lsegs_return ::
  "lseg_dst \<Rightarrow> pnfs_layout_range \<Rightarrow> u32 \<Rightarrow> layout_st \<Rightarrow> layout_st \<times> int" where
  "pnfs_mark_matching_lsegs_return dst r seq st =
     (let dst = (if NFS_LAYOUT_RETURN_REQUESTED \<in> plh_flags (snd st) then To_return else dst);
          ((free, lo), _, remaining) =
            fold (lsegs_return_step r seq) (plh_segs (snd st)) (st, dst, 0)
      in if remaining \<noteq> 0 then ((free, pnfs_set_plh_return_info lo (iomode r) seq), - EBUSY)
         else if plh_return_segs lo \<noteq> []
         then ((free, pnfs_set_plh_return_info lo (iomode r) seq), 0)
         else ((free, lo), - ENOENT))"

definition pnfs_mark_layout_stateid_return ::
  "lseg_dst \<Rightarrow> u32 \<Rightarrow> u32 \<Rightarrow> layout_st \<Rightarrow> layout_st \<times> int" where
  "pnfs_mark_layout_stateid_return dst mode seq =
     pnfs_mark_matching_lsegs_return dst (whole_range mode) seq"

definition pnfs_free_returned_lsegs ::
  "pnfs_layout_range \<Rightarrow> u32 \<Rightarrow> layout_st \<Rightarrow> layout_st" where
  "pnfs_free_returned_lsegs r seq = (\<lambda>(free, lo).
     (free @ filter (\<lambda>s. pnfs_match_lseg_recall (lsegs lo s) (Some r) seq) (plh_return_segs lo),
      lo\<lparr>plh_return_segs :=
           filter (\<lambda>s. \<not> pnfs_match_lseg_recall (lsegs lo s) (Some r) seq) (plh_return_segs lo)\<rparr>))"

definition pnfs_reset_return_info :: "pnfs_layout_hdr \<Rightarrow> pnfs_layout_hdr" where
  "pnfs_reset_return_info lo =
     fold (\<lambda>s lo. pnfs_set_plh_return_info lo (iomode (pls_range (lsegs lo s))) 0)
       (plh_return_segs lo) lo"

definition pnfs_free_lseg_list :: "layout_st \<Rightarrow> pnfs_layout_hdr" where
  "pnfs_free_lseg_list = (\<lambda>(free, lo). lo\<lparr>freed_lsegs := freed_lsegs lo @ free\<rparr>)"

definition pnfs_mark_layout_stateid_invalid :: "layout_st \<Rightarrow> layout_st \<times> bool" where
  "pnfs_mark_layout_stateid_invalid = (\<lambda>(free, lo).
     if NFS_LAYOUT_INVALID_STID \<in> plh_flags lo then ((free, lo), plh_segs lo \<noteq> [])
     else
       let lo = (set_lo NFS_LAYOUT_INVALID_STID lo)\<lparr>ino_layoutcommit := False\<rparr>;
           (free, lo) = fold (pnfs_clear_lseg_state To_free) (plh_segs lo) (free, lo);
           lo = pnfs_clear_layoutreturn_info lo;
           (free, lo) = pnfs_free_returned_lsegs (whole_range IOMODE_ANY) 0 (free, lo);
           lo = set_lo NFS_LAYOUT_DRAIN lo;
           lo = (if NFS_LAYOUT_RETURN \<in> plh_flags lo \<and> NFS_LAYOUT_RETURN_LOCK \<notin> plh_flags lo
                 then pnfs_clear_layoutreturn_waitbit (set_lo NFS_LAYOUT_RETURN_LOCK lo)
                 else lo)
       in ((free, lo), plh_segs lo \<noteq> []))"

section \<open>The layout stateid\<close>

definition pnfs_set_layout_cred :: "pnfs_env \<Rightarrow> nat option \<Rightarrow> pnfs_layout_hdr \<Rightarrow> pnfs_layout_hdr" where
  "pnfs_set_layout_cred e cred lo =
     (case cred of None \<Rightarrow> lo
      | Some cr \<Rightarrow> if pe_cred_differs e (plh_lc_cred lo) cr then lo\<lparr>plh_lc_cred := cr\<rparr> else lo)"

definition pnfs_set_layout_stateid ::
  "pnfs_env \<Rightarrow> nfs4_stateid \<Rightarrow> nat option \<Rightarrow> bool \<Rightarrow> pnfs_layout_hdr \<Rightarrow> pnfs_layout_hdr" where
  "pnfs_set_layout_stateid e new cred update_barrier lo =
     (let oldseq = seqid (plh_stateid lo);
          newseq = seqid new
      in if \<not> pnfs_layout_is_valid lo
         then let lo = pnfs_set_layout_cred e cred lo;
                  lo = lo\<lparr>plh_stateid := new, plh_barrier := newseq\<rparr>;
                  lo = pnfs_clear_layoutreturn_info lo
              in clear_lo NFS_LAYOUT_INVALID_STID lo
         else let lo = (if pnfs_seqid_is_newer newseq oldseq then lo\<lparr>plh_stateid := new\<rparr> else lo)
              in if update_barrier then pnfs_barrier_update lo newseq
                 else if plh_outstanding lo = 1 then pnfs_barrier_update lo (seqid (plh_stateid lo))
                 else lo)"

definition pnfs_layout_stateid_blocked :: "pnfs_layout_hdr \<Rightarrow> nfs4_stateid \<Rightarrow> bool" where
  "pnfs_layout_stateid_blocked lo sid \<longleftrightarrow>
     plh_barrier lo \<noteq> 0 \<and> pnfs_seqid_is_newer (plh_barrier lo) (seqid sid)"

definition pnfs_layoutgets_blocked :: "pnfs_layout_hdr \<Rightarrow> bool" where
  "pnfs_layoutgets_blocked lo \<longleftrightarrow>
     plh_block_lgets lo \<noteq> 0 \<or> NFS_LAYOUT_BULK_RECALL \<in> plh_flags lo"

text \<open>\<open>nfs4_layout_refresh_old_stateid\<close>: the new stateid and range of the call, if it is to be resent.\<close>

definition nfs4_layout_refresh_old_stateid ::
  "nfs4_stateid \<Rightarrow> pnfs_layout_range \<Rightarrow> pnfs_layout_hdr \<Rightarrow>
   pnfs_layout_hdr \<times> (nfs4_stateid \<times> pnfs_layout_range) option" where
  "nfs4_layout_refresh_old_stateid dst dst_range lo =
     (if pnfs_layout_is_valid lo \<and> nfs4_stateid_match_other dst (plh_stateid lo)
      then if \<not> nfs4_stateid_is_newer (plh_stateid lo) dst
           then (lo, Some (nfs4_stateid_seqid_inc dst, dst_range))
           else case pnfs_mark_matching_lsegs_return To_free (whole_range IOMODE_ANY) 0 ([], lo) of
                  (st, err) \<Rightarrow>
                    let lo = pnfs_free_lseg_list st in
                    if err \<noteq> - EBUSY
                    then (lo, Some (dst\<lparr>seqid := seqid (plh_stateid lo)\<rparr>, whole_range IOMODE_ANY))
                    else (lo, None)
      else (lo, None))"

section \<open>Failed LAYOUTGETs\<close>

definition pnfs_iomode_to_fail_bit :: "u32 \<Rightarrow> layout_flag" where
  "pnfs_iomode_to_fail_bit m = (if m = IOMODE_RW then NFS_LAYOUT_RW_FAILED else NFS_LAYOUT_RO_FAILED)"

definition pnfs_layout_set_fail_bit ::
  "pnfs_env \<Rightarrow> layout_flag \<Rightarrow> pnfs_layout_hdr \<Rightarrow> pnfs_layout_hdr" where
  "pnfs_layout_set_fail_bit e b lo =
     (let lo = lo\<lparr>plh_retry_timestamp := pe_jiffies e\<rparr> in
      if b \<in> plh_flags lo then lo else pnfs_get_layout_hdr (set_lo b lo))"

definition pnfs_layout_clear_fail_bit :: "layout_flag \<Rightarrow> pnfs_layout_hdr \<Rightarrow> pnfs_layout_hdr" where
  "pnfs_layout_clear_fail_bit b lo =
     (if b \<in> plh_flags lo then (clear_lo b lo)\<lparr>plh_refcount := plh_refcount lo - 1\<rparr> else lo)"

definition pnfs_layout_io_set_failed :: "pnfs_env \<Rightarrow> u32 \<Rightarrow> pnfs_layout_hdr \<Rightarrow> pnfs_layout_hdr" where
  "pnfs_layout_io_set_failed e m lo =
     pnfs_free_lseg_list
       (fst (pnfs_mark_matching_lsegs_return To_free (whole_range m) 0
              ([], pnfs_layout_set_fail_bit e (pnfs_iomode_to_fail_bit m) lo)))"

definition pnfs_layout_io_test_failed ::
  "pnfs_env \<Rightarrow> u32 \<Rightarrow> pnfs_layout_hdr \<Rightarrow> pnfs_layout_hdr \<times> bool" where
  "pnfs_layout_io_test_failed e m lo =
     (let fail_bit = pnfs_iomode_to_fail_bit m in
      if fail_bit \<notin> plh_flags lo then (lo, False)
      else let en = pe_jiffies e;
               start = en - 120 * pe_hz e
           in if \<not> time_in_range (plh_retry_timestamp lo) start en
              then (pnfs_layout_clear_fail_bit fail_bit lo, False)
              else (lo, True))"

section \<open>Returning a layout\<close>

definition pnfs_clear_layoutcommit :: "layout_st \<Rightarrow> layout_st" where
  "pnfs_clear_layoutcommit = (\<lambda>(free, lo).
     if \<not> ino_layoutcommit lo then (free, lo)
     else fold (\<lambda>s (free, lo).
                  if test_lseg NFS_LSEG_LAYOUTCOMMIT s lo
                  then fst (pnfs_lseg_dec_and_remove_zero To_free s
                              (free, clear_lseg NFS_LSEG_LAYOUTCOMMIT s lo))
                  else (free, lo))
            (plh_segs lo) (free, lo\<lparr>ino_layoutcommit := False\<rparr>))"

definition pnfs_layoutreturn_retry_later_locked ::
  "nfs4_stateid \<Rightarrow> pnfs_layout_range \<Rightarrow> pnfs_layout_hdr \<Rightarrow> pnfs_layout_hdr" where
  "pnfs_layoutreturn_retry_later_locked arg_stateid r lo =
     (let seq = seqid arg_stateid in
      if pnfs_layout_is_valid lo \<and> nfs4_stateid_match_other (plh_stateid lo) arg_stateid
      then if \<exists>s \<in> set (plh_return_segs lo).
                \<not> (pnfs_seqid_is_newer (pls_seq (lsegs lo s)) seq \<or>
                   \<not> pnfs_should_free_range (pls_range (lsegs lo s)) r)
           then pnfs_set_plh_return_info lo (iomode r) seq
           else lo
      else lo)"

definition pnfs_layoutreturn_retry_later ::
  "nfs4_stateid \<Rightarrow> pnfs_layout_range \<Rightarrow> pnfs_layout_hdr \<Rightarrow> pnfs_layout_hdr" where
  "pnfs_layoutreturn_retry_later arg_stateid r lo =
     pnfs_clear_layoutreturn_waitbit (pnfs_layoutreturn_retry_later_locked arg_stateid r lo)"

definition pnfs_layoutreturn_free_lsegs ::
  "pnfs_env \<Rightarrow> nfs4_stateid \<Rightarrow> pnfs_layout_range \<Rightarrow> nfs4_stateid option \<Rightarrow> pnfs_layout_hdr \<Rightarrow>
   pnfs_layout_hdr" where
  "pnfs_layoutreturn_free_lsegs e arg_stateid r sid lo =
     (let st = (if \<not> nfs4_stateid_match_other (plh_stateid lo) arg_stateid then ([], lo)
                else case sid of
                       Some new \<Rightarrow>
                         if pnfs_layout_is_valid lo
                         then let seq = seqid arg_stateid;
                                  st = fst (pnfs_mark_matching_lsegs_invalid (Some r) seq ([], lo));
                                  (free, lo) = pnfs_free_returned_lsegs r seq st;
                                  lo = pnfs_set_layout_stateid e new None True lo
                              in (free, pnfs_reset_return_info lo)
                         else fst (pnfs_mark_layout_stateid_invalid ([], lo))
                     | None \<Rightarrow> fst (pnfs_mark_layout_stateid_invalid ([], lo)))
      in pnfs_free_lseg_list (fst st, pnfs_clear_layoutreturn_waitbit (snd st)))"

definition pnfs_prepare_layoutreturn ::
  "pnfs_layout_hdr \<Rightarrow> pnfs_layout_hdr \<times> (nfs4_stateid \<times> nat \<times> u32) option" where
  "pnfs_prepare_layoutreturn lo =
     (if plh_outstanding lo \<noteq> 0 \<and> plh_return_seq lo = 0 then (lo, None)
      else if NFS_LAYOUT_RETURN_LOCK \<in> plh_flags lo then (lo, None)
      else
        let lo = pnfs_get_layout_hdr (set_lo NFS_LAYOUT_RETURN (set_lo NFS_LAYOUT_RETURN_LOCK lo));
            sid = plh_stateid lo;
            cred = plh_lc_cred lo
        in if NFS_LAYOUT_RETURN_REQUESTED \<in> plh_flags lo
           then let sid = (if plh_return_seq lo \<noteq> 0 then sid\<lparr>seqid := plh_return_seq lo\<rparr> else sid);
                    mode = plh_return_iomode lo;
                    lo = pnfs_clear_layoutreturn_info lo
                in (pnfs_barrier_update lo (seqid sid), Some (sid, cred, mode))
           else (pnfs_barrier_update lo (seqid sid), Some (sid, cred, IOMODE_ANY)))"

text \<open>\<open>pnfs_layout_need_return\<close> compares with \<open>EBUSY\<close>, as the source does.\<close>

definition pnfs_layout_need_return :: "pnfs_layout_hdr \<Rightarrow> pnfs_layout_hdr \<times> bool" where
  "pnfs_layout_need_return lo =
     (if NFS_LAYOUT_RETURN_REQUESTED \<notin> plh_flags lo then (lo, False)
      else case pnfs_mark_layout_stateid_return To_return (plh_return_iomode lo) (plh_return_seq lo)
                  ([], lo) of
             ((free, lo), rv) \<Rightarrow> (lo, rv \<noteq> EBUSY))"

definition pnfs_drop_layout_hdr :: "pnfs_layout_hdr \<Rightarrow> pnfs_layout_hdr" where
  "pnfs_drop_layout_hdr lo =
     (let lo = lo\<lparr>plh_refcount := plh_refcount lo - 1\<rparr> in
      if plh_refcount lo = 0 then clear_lo NFS_LAYOUT_HASHED (lo\<lparr>lo_detached := True\<rparr>) else lo)"

text \<open>
  \<open>pnfs_send_layoutreturn\<close> drops the reference of \<open>pnfs_prepare_layoutreturn\<close> when it cannot allocate
  the request, which may send a LAYOUTRETURN again: the two functions call each other, and each
  failed allocation shortens the list of outcomes.
\<close>

fun pnfs_put_layout_hdr :: "bool list \<Rightarrow> pnfs_layout_hdr \<Rightarrow> pnfs_layout_hdr"
and pnfs_send_layoutreturn ::
  "bool list \<Rightarrow> nfs4_stateid \<Rightarrow> nat \<Rightarrow> u32 \<Rightarrow> pnfs_layout_hdr \<Rightarrow> pnfs_layout_hdr" where
  "pnfs_put_layout_hdr allocs lo =
     pnfs_drop_layout_hdr
       (case pnfs_layout_need_return lo of
          (lo, False) \<Rightarrow> lo
        | (lo, True) \<Rightarrow>
            (case pnfs_prepare_layoutreturn lo of
               (lo, None) \<Rightarrow> lo
             | (lo, Some (sid, cred, mode)) \<Rightarrow> pnfs_send_layoutreturn allocs sid cred mode lo))"
| "pnfs_send_layoutreturn (False # allocs) sid cred mode lo =
     pnfs_put_layout_hdr allocs (pnfs_clear_layoutreturn_waitbit lo)"
| "pnfs_send_layoutreturn (True # allocs) sid cred mode lo =
     lo\<lparr>sent_layoutreturns :=
          sent_layoutreturns lo @ [\<lparr>lr_stateid = sid, lr_cred = cred, lr_range = whole_range mode\<rparr>]\<rparr>"
| "pnfs_send_layoutreturn [] sid cred mode lo =
     lo\<lparr>sent_layoutreturns :=
          sent_layoutreturns lo @ [\<lparr>lr_stateid = sid, lr_cred = cred, lr_range = whole_range mode\<rparr>]\<rparr>"

declare pnfs_put_layout_hdr.simps [simp del]

section \<open>Segments\<close>

definition pnfs_cache_lseg_for_layoutreturn :: "nat \<Rightarrow> pnfs_layout_hdr \<Rightarrow> pnfs_layout_hdr \<times> bool" where
  "pnfs_cache_lseg_for_layoutreturn s lo =
     (let was = test_lseg NFS_LSEG_LAYOUTRETURN s lo;
          lo = clear_lseg NFS_LSEG_LAYOUTRETURN s lo
      in if was \<and> pnfs_layout_is_valid lo
         then let lo = pnfs_set_plh_return_info lo (iomode (pls_range (lsegs lo s))) 0
              in (lo\<lparr>plh_return_segs := plh_return_segs lo @ [s]\<rparr>, True)
         else (lo, False))"

definition mypnfs_put_lseg :: "pnfs_env \<Rightarrow> nat \<Rightarrow> pnfs_layout_hdr \<Rightarrow> pnfs_layout_hdr" where
  "mypnfs_put_lseg e s lo =
     (let lo = upd_lseg s (\<lambda>l. l\<lparr>pls_refcount := pls_refcount l - 1\<rparr>) lo in
      if pls_refcount (lsegs lo s) \<noteq> 0 then lo
      else let lo = pnfs_layout_remove_lseg s (pnfs_get_layout_hdr lo) in
           case pnfs_cache_lseg_for_layoutreturn s lo of
             (lo, cached) \<Rightarrow>
               pnfs_put_layout_hdr (pe_allocs e)
                 (if cached then lo else pnfs_free_lseg_list ([s], lo)))"

text \<open>
  \<open>generic_insert_point\<close> is the walk of \<open>mypnfs_generic_layout_insert_lseg\<close>: it stops at the valid
  segment before which the new one is to be linked. \<open>do_merge\<close> may make it drop valid segments on
  the way.
\<close>

fun generic_insert_point ::
  "(pnfs_layout_range \<Rightarrow> pnfs_layout_range \<Rightarrow> bool) \<Rightarrow>
   (pnfs_layout_segment \<Rightarrow> pnfs_layout_segment \<Rightarrow> bool) \<Rightarrow>
   pnfs_layout_segment \<Rightarrow> nat list \<Rightarrow> layout_st \<Rightarrow> layout_st \<times> nat option" where
  "generic_insert_point is_after do_merge lseg [] st = (st, None)"
| "generic_insert_point is_after do_merge lseg (lp # lps) st =
     (if \<not> test_lseg NFS_LSEG_VALID lp (snd st)
      then generic_insert_point is_after do_merge lseg lps st
      else if do_merge lseg (lsegs (snd st) lp)
      then generic_insert_point is_after do_merge lseg lps (fst (mark_lseg_invalid To_free lp st))
      else if is_after (pls_range lseg) (pls_range (lsegs (snd st) lp))
      then generic_insert_point is_after do_merge lseg lps st
      else (st, Some lp))"

fun insert_before :: "nat option \<Rightarrow> nat \<Rightarrow> nat list \<Rightarrow> nat list" where
  "insert_before at s [] = [s]"
| "insert_before at s (x # xs) = (if at = Some x then s # x # xs else x # insert_before at s xs)"

definition mypnfs_generic_layout_insert_lseg ::
  "(pnfs_layout_range \<Rightarrow> pnfs_layout_range \<Rightarrow> bool) \<Rightarrow>
   (pnfs_layout_segment \<Rightarrow> pnfs_layout_segment \<Rightarrow> bool) \<Rightarrow> nat \<Rightarrow> layout_st \<Rightarrow> layout_st" where
  "mypnfs_generic_layout_insert_lseg is_after do_merge s st =
     (case generic_insert_point is_after do_merge (lsegs (snd st) s) (plh_segs (snd st)) st of
        ((free, lo), at) \<Rightarrow>
          (free, pnfs_get_layout_hdr (lo\<lparr>plh_segs := insert_before at s (plh_segs lo)\<rparr>)))"

definition pnfs_lseg_no_merge :: "pnfs_layout_segment \<Rightarrow> pnfs_layout_segment \<Rightarrow> bool" where
  "pnfs_lseg_no_merge lseg old \<longleftrightarrow> False"

text \<open>A layout driver may bring its own insertion, \<open>add_lseg\<close>.\<close>

definition pnfs_layout_insert_lseg ::
  "(nat \<Rightarrow> layout_st \<Rightarrow> layout_st) option \<Rightarrow> nat \<Rightarrow> layout_st \<Rightarrow> layout_st" where
  "pnfs_layout_insert_lseg add_lseg s st =
     (case add_lseg of Some f \<Rightarrow> f s st
      | None \<Rightarrow> mypnfs_generic_layout_insert_lseg pnfs_lseg_range_is_after pnfs_lseg_no_merge s st)"

definition pnfs_find_lseg ::
  "pnfs_layout_range \<Rightarrow> bool \<Rightarrow> pnfs_layout_hdr \<Rightarrow> pnfs_layout_hdr \<times> nat option" where
  "pnfs_find_lseg r strict_iomode lo =
     (case List.find (\<lambda>s. test_lseg NFS_LSEG_VALID s lo \<and>
                          pnfs_lseg_range_match (pls_range (lsegs lo s)) r strict_iomode)
             (plh_segs lo) of
        Some s \<Rightarrow> (pnfs_get_lseg s lo, Some s)
      | None \<Rightarrow> (lo, None))"

definition pnfs_init_lseg ::
  "nat \<Rightarrow> pnfs_layout_range \<Rightarrow> nfs4_stateid \<Rightarrow> pnfs_layout_hdr \<Rightarrow> pnfs_layout_hdr" where
  "pnfs_init_lseg s r sid =
     upd_lseg s (\<lambda>l. l\<lparr>pls_refcount := 1, pls_flags := insert NFS_LSEG_VALID (pls_flags l),
                      pls_range := r, pls_seq := seqid sid\<rparr>)"

record layoutget_res =
  lg_range :: pnfs_layout_range
  lg_stateid :: nfs4_stateid
  lg_return_on_close :: bool

text \<open>
  \<open>alloc_lseg\<close> is the result of the driver's \<open>alloc_lseg\<close>: an error, or the new segment. The list
  \<open>free_me\<close> of the branch for a new stateid is not freed at \<open>out_forget\<close>, as in the source.
\<close>

definition pnfs_layout_process ::
  "pnfs_env \<Rightarrow> (nat \<Rightarrow> layout_st \<Rightarrow> layout_st) option \<Rightarrow> int + nat \<Rightarrow> layoutget_res \<Rightarrow> nat \<Rightarrow>
   pnfs_layout_hdr \<Rightarrow> pnfs_layout_hdr \<times> (int + nat)" where
  "pnfs_layout_process e add_lseg alloc_lseg res cred lo =
     (if \<not> pnfs_sanity_check_layout_range (lg_range res) then (lo, Inl (- EINVAL))
      else case alloc_lseg of Inl err \<Rightarrow> (lo, Inl err)
      | Inr s \<Rightarrow>
          let lo = pnfs_init_lseg s (lg_range res) (lg_stateid res) lo;
              forget = (\<lambda>lo. (lo\<lparr>freed_lsegs := freed_lsegs lo @ [s]\<rparr>, Inl (- EAGAIN)));
              install = (\<lambda>lo.
                let lo = pnfs_get_lseg s lo;
                    (free, lo) = pnfs_layout_insert_lseg add_lseg s ([], lo);
                    lo = (if lg_return_on_close res then set_lseg NFS_LSEG_ROC s lo else lo)
                in (pnfs_free_lseg_list (free, lo), Inr s))
          in if pnfs_layoutgets_blocked lo then forget lo
             else if NFS_LAYOUT_DRAIN \<in> plh_flags lo \<and> NFS_LAYOUT_FIRST_LAYOUTGET \<notin> plh_flags lo
             then forget lo
             else if nfs4_stateid_match_other (plh_stateid lo) (lg_stateid res)
             then if pnfs_layout_stateid_blocked lo (lg_stateid res)
                  then forget (if \<not> pnfs_layout_is_valid lo then lo\<lparr>plh_barrier := 0\<rparr> else lo)
                  else install (pnfs_set_layout_stateid e (lg_stateid res) (Some cred) False lo)
             else if pnfs_layout_is_valid lo
             then forget (snd (fst (pnfs_mark_matching_lsegs_return To_free (whole_range IOMODE_ANY) 0
                                      ([], lo))))
             else install (pnfs_set_layout_stateid e (lg_stateid res) (Some cred) True lo))"

section \<open>LAYOUTCOMMIT, LAYOUTGET in flight, and the end of a layout\<close>

definition mypnfs_set_layoutcommit :: "nat \<Rightarrow> int \<Rightarrow> pnfs_layout_hdr \<Rightarrow> pnfs_layout_hdr" where
  "mypnfs_set_layoutcommit s end_pos lo =
     (let lo = (if \<not> ino_layoutcommit lo then lo\<lparr>ino_layoutcommit := True, plh_lwb := end_pos\<rparr>
                else if plh_lwb lo < end_pos then lo\<lparr>plh_lwb := end_pos\<rparr>
                else lo)
      in if test_lseg NFS_LSEG_LAYOUTCOMMIT s lo then lo
         else pnfs_get_lseg s (set_lseg NFS_LSEG_LAYOUTCOMMIT s lo))"

text \<open>
  \<open>pnfs_list_write_lseg\<close> hands the references of the segments to be committed to the LAYOUTCOMMIT
  call, which drops them when it is done.
\<close>

definition pnfs_list_write_lseg :: "pnfs_layout_hdr \<Rightarrow> pnfs_layout_hdr \<times> nat list" where
  "pnfs_list_write_lseg lo =
     fold (\<lambda>s (lo, listp).
             if iomode (pls_range (lsegs lo s)) = IOMODE_RW \<and> test_lseg NFS_LSEG_LAYOUTCOMMIT s lo
             then (clear_lseg NFS_LSEG_LAYOUTCOMMIT s lo, s # listp)
             else (lo, listp))
       (plh_segs lo) (lo, [])"

definition nfs_layoutget_begin :: "pnfs_layout_hdr \<Rightarrow> pnfs_layout_hdr" where
  "nfs_layoutget_begin lo = lo\<lparr>plh_outstanding := plh_outstanding lo + 1\<rparr>"

definition nfs_layoutget_end :: "pnfs_layout_hdr \<Rightarrow> pnfs_layout_hdr" where
  "nfs_layoutget_end lo =
     (let lo = lo\<lparr>plh_outstanding := plh_outstanding lo - 1\<rparr> in
      if plh_outstanding lo = 0 then clear_lo NFS_LAYOUT_DRAIN lo else lo)"

definition pnfs_mark_layout_for_return ::
  "pnfs_env \<Rightarrow> pnfs_layout_range \<Rightarrow> pnfs_layout_hdr \<Rightarrow> pnfs_layout_hdr" where
  "pnfs_mark_layout_for_return e r lo =
     (if \<not> pnfs_layout_is_valid lo then lo
      else let lo = pnfs_set_plh_return_info lo (iomode r) 0 in
           case pnfs_mark_matching_lsegs_return To_return r 0 ([], lo) of
             ((_, lo), rv) \<Rightarrow>
               if rv \<noteq> - EBUSY
               then case pnfs_prepare_layoutreturn lo of
                      (lo, None) \<Rightarrow> lo
                    | (lo, Some (sid, cred, mode)) \<Rightarrow>
                        pnfs_send_layoutreturn (pe_allocs e) sid cred mode lo
               else lo)"

definition pnfs_destroy_layout :: "pnfs_env \<Rightarrow> pnfs_layout_hdr \<Rightarrow> pnfs_layout_hdr" where
  "pnfs_destroy_layout e lo =
     (case fst (pnfs_mark_layout_stateid_invalid ([], pnfs_get_layout_hdr lo)) of
        (free, lo) \<Rightarrow>
          let lo = pnfs_layout_clear_fail_bit NFS_LAYOUT_RO_FAILED lo;
              lo = pnfs_layout_clear_fail_bit NFS_LAYOUT_RW_FAILED lo
          in pnfs_put_layout_hdr (pe_allocs e) (pnfs_free_lseg_list (free, lo)))"

text \<open>A new header: the layout driver zeroes it.\<close>

definition alloc_init_layout_hdr :: "nat \<Rightarrow> pnfs_layout_hdr" where
  "alloc_init_layout_hdr cred =
     \<lparr>plh_refcount = 1, plh_segs = [], plh_return_segs = [], plh_outstanding = 0,
      plh_block_lgets = 0, plh_flags = {NFS_LAYOUT_INVALID_STID},
      plh_stateid = \<lparr>seqid = 0, other = 0, sid_type = NFS4_INVALID_STATEID_TYPE\<rparr>, plh_barrier = 0,
      plh_return_seq = 0, plh_return_iomode = 0, plh_retry_timestamp = 0, plh_lwb = 0,
      plh_lc_cred = cred,
      lsegs = (\<lambda>_. \<lparr>pls_refcount = 0, pls_flags = {}, pls_range = \<lparr>iomode = 0, offset = 0, rlength = 0\<rparr>,
                    pls_seq = 0\<rparr>),
      ino_layoutcommit = False, freed_lsegs = [], canceled_io = [], sent_layoutreturns = [],
      return_wakes = 0, lo_detached = False\<rparr>"

section \<open>The invariant\<close>

text \<open>
  A segment is on one list only, and once freed on none. A listed segment has a reference for each
  of its flags \<open>NFS_LSEG_VALID\<close> and \<open>NFS_LSEG_LAYOUTCOMMIT\<close>; one that waits to be returned or freed
  has none left. The header has a reference for each segment and for each failure flag; \<open>lo_slack\<close>
  counts the others. \<open>free\<close> is the list of segments the running function will free.
\<close>

definition lseg_need :: "pnfs_layout_segment \<Rightarrow> nat" where
  "lseg_need l = of_bool (NFS_LSEG_VALID \<in> pls_flags l) + of_bool (NFS_LSEG_LAYOUTCOMMIT \<in> pls_flags l)"

definition lo_fails :: "pnfs_layout_hdr \<Rightarrow> nat" where
  "lo_fails lo = of_bool (NFS_LAYOUT_RO_FAILED \<in> plh_flags lo) + of_bool (NFS_LAYOUT_RW_FAILED \<in> plh_flags lo)"

definition lo_slack :: "pnfs_layout_hdr \<Rightarrow> int" where
  "lo_slack lo = int (plh_refcount lo) - int (length (plh_segs lo)) - int (lo_fails lo)"

definition layout_ok :: "layout_st \<Rightarrow> bool" where
  "layout_ok = (\<lambda>(free, lo).
     distinct (plh_segs lo @ plh_return_segs lo @ free @ freed_lsegs lo) \<and>
     (\<forall>s \<in> set (plh_segs lo). 0 < pls_refcount (lsegs lo s) \<and>
                              lseg_need (lsegs lo s) \<le> pls_refcount (lsegs lo s)) \<and>
     (\<forall>s \<in> set (plh_return_segs lo) \<union> set free.
        pls_refcount (lsegs lo s) = 0 \<and> lseg_need (lsegs lo s) = 0) \<and>
     0 \<le> lo_slack lo)"

text \<open>What the invariant depends on.\<close>

definition core ::
  "pnfs_layout_hdr \<Rightarrow> nat list \<times> nat list \<times> nat list \<times> (nat \<Rightarrow> pnfs_layout_segment) \<times> nat \<times> nat" where
  "core lo = (plh_segs lo, plh_return_segs lo, freed_lsegs lo, lsegs lo, plh_refcount lo, lo_fails lo)"

lemma lo_slack_core: "core lo' = core lo \<Longrightarrow> lo_slack lo' = lo_slack lo"
  by (simp add: core_def lo_slack_def)

lemma layout_ok_core: "core lo' = core lo \<Longrightarrow> layout_ok (free, lo') = layout_ok (free, lo)"
  by (simp add: core_def layout_ok_def lo_slack_def)

lemma layout_ok_cong: "fst a = fst b \<Longrightarrow> core (snd a) = core (snd b) \<Longrightarrow> layout_ok a = layout_ok b"
  by (cases a; cases b) (simp add: core_def layout_ok_def lo_slack_def)

definition not_fail :: "layout_flag \<Rightarrow> bool" where
  "not_fail f \<longleftrightarrow> f \<noteq> NFS_LAYOUT_RO_FAILED \<and> f \<noteq> NFS_LAYOUT_RW_FAILED"

lemma core_set_lo [simp]: "not_fail f \<Longrightarrow> core (set_lo f lo) = core lo"
  and core_clear_lo [simp]: "not_fail f \<Longrightarrow> core (clear_lo f lo) = core lo"
  by (auto simp: core_def set_lo_def clear_lo_def lo_fails_def not_fail_def)

lemma not_fail_simps [simp]:
  "not_fail NFS_LAYOUT_BULK_RECALL" "not_fail NFS_LAYOUT_RETURN" "not_fail NFS_LAYOUT_RETURN_LOCK"
  "not_fail NFS_LAYOUT_RETURN_REQUESTED" "not_fail NFS_LAYOUT_INVALID_STID"
  "not_fail NFS_LAYOUT_FIRST_LAYOUTGET" "not_fail NFS_LAYOUT_HASHED" "not_fail NFS_LAYOUT_DRAIN"
  by (simp_all add: not_fail_def)

lemma core_fields [simp]:
  "core (lo\<lparr>plh_stateid := a\<rparr>) = core lo" "core (lo\<lparr>plh_barrier := b\<rparr>) = core lo"
  "core (lo\<lparr>plh_return_seq := b\<rparr>) = core lo" "core (lo\<lparr>plh_return_iomode := b\<rparr>) = core lo"
  "core (lo\<lparr>plh_lc_cred := n\<rparr>) = core lo" "core (lo\<lparr>ino_layoutcommit := t\<rparr>) = core lo"
  "core (lo\<lparr>canceled_io := ns\<rparr>) = core lo" "core (lo\<lparr>return_wakes := n\<rparr>) = core lo"
  "core (lo\<lparr>sent_layoutreturns := rs\<rparr>) = core lo" "core (lo\<lparr>plh_outstanding := n\<rparr>) = core lo"
  "core (lo\<lparr>plh_retry_timestamp := t'\<rparr>) = core lo" "core (lo\<lparr>plh_block_lgets := n\<rparr>) = core lo"
  "core (lo\<lparr>lo_detached := t\<rparr>) = core lo" "core (lo\<lparr>plh_lwb := w\<rparr>) = core lo"
  by (simp_all add: core_def lo_fails_def)

lemma core_cancel_io [simp]: "core (pnfs_lseg_cancel_io s lo) = core lo"
  by (simp add: pnfs_lseg_cancel_io_def)

lemma core_barrier_update [simp]: "core (pnfs_barrier_update lo q) = core lo"
  by (simp add: pnfs_barrier_update_def)

lemma core_set_return_info [simp]: "core (pnfs_set_plh_return_info lo m q) = core lo"
  by (simp add: pnfs_set_plh_return_info_def Let_def)

lemma core_clear_return_info [simp]: "core (pnfs_clear_layoutreturn_info lo) = core lo"
proof -
  have "core (fold (\<lambda>s lo. if test_lseg NFS_LSEG_LAYOUTRETURN s lo
                      then pnfs_set_plh_return_info lo (iomode (pls_range (lsegs lo s))) 0
                      else lo) xs lo) = core lo" for xs lo
    by (rule fold_keeps) simp
  then show ?thesis by (simp add: pnfs_clear_layoutreturn_info_def Let_def)
qed

lemma core_reset_return_info [simp]: "core (pnfs_reset_return_info lo) = core lo"
  unfolding pnfs_reset_return_info_def by (rule fold_keeps) simp

lemma core_clear_waitbit [simp]: "core (pnfs_clear_layoutreturn_waitbit lo) = core lo"
  by (simp add: pnfs_clear_layoutreturn_waitbit_def Let_def)

lemma core_set_stateid [simp]: "core (pnfs_set_layout_stateid e new cr b lo) = core lo"
  by (simp add: pnfs_set_layout_stateid_def Let_def pnfs_set_layout_cred_def split: option.split)

lemma core_segs: "core lo' = core lo \<Longrightarrow> plh_segs lo' = plh_segs lo"
  and core_ret: "core lo' = core lo \<Longrightarrow> plh_return_segs lo' = plh_return_segs lo"
  and core_lsegs: "core lo' = core lo \<Longrightarrow> lsegs lo' = lsegs lo"
  and core_freed: "core lo' = core lo \<Longrightarrow> freed_lsegs lo' = freed_lsegs lo"
  and core_refs: "core lo' = core lo \<Longrightarrow> plh_refcount lo' = plh_refcount lo"
  by (simp_all add: core_def)

section \<open>Dropping a reference to a segment\<close>

text \<open>
  \<open>seg_only s st st'\<close>: a function that went from \<open>st\<close> to \<open>st'\<close> touched no segment but \<open>s\<close>, which it
  may have taken off \<open>plh_segs\<close> but not lost, and whose range and sequence number it kept.
\<close>

definition seg_only :: "nat \<Rightarrow> layout_st \<Rightarrow> layout_st \<Rightarrow> bool" where
  "seg_only s st st' \<longleftrightarrow>
     (\<forall>t. t \<noteq> s \<longrightarrow> lsegs (snd st') t = lsegs (snd st) t) \<and>
     pls_range (lsegs (snd st') s) = pls_range (lsegs (snd st) s) \<and>
     pls_seq (lsegs (snd st') s) = pls_seq (lsegs (snd st) s) \<and>
     set (plh_segs (snd st')) \<subseteq> set (plh_segs (snd st)) \<and>
     set (plh_segs (snd st)) \<subseteq> insert s (set (plh_segs (snd st'))) \<and>
     set (plh_segs (snd st')) \<union> set (plh_return_segs (snd st')) \<union> set (fst st') =
       set (plh_segs (snd st)) \<union> set (plh_return_segs (snd st)) \<union> set (fst st) \<and>
     freed_lsegs (snd st') = freed_lsegs (snd st) \<and>
     lo_slack (snd st') = lo_slack (snd st)"

lemma seg_only_refl: "seg_only s st st"
  by (auto simp: seg_only_def)

lemma seg_only_trans: "seg_only s a b \<Longrightarrow> seg_only s b c \<Longrightarrow> seg_only s a c"
  by (auto simp: seg_only_def)

lemma seg_only_core: "core lo' = core lo \<Longrightarrow> seg_only s (free, lo) (free, lo')"
  by (auto simp: seg_only_def core_def lo_slack_def)

lemma upd_lseg_simps [simp]:
  "plh_segs (upd_lseg s f lo) = plh_segs lo" "plh_return_segs (upd_lseg s f lo) = plh_return_segs lo"
  "freed_lsegs (upd_lseg s f lo) = freed_lsegs lo" "plh_refcount (upd_lseg s f lo) = plh_refcount lo"
  "plh_flags (upd_lseg s f lo) = plh_flags lo" "plh_outstanding (upd_lseg s f lo) = plh_outstanding lo"
  "lsegs (upd_lseg s f lo) = (lsegs lo)(s := f (lsegs lo s))"
  "plh_stateid (upd_lseg s f lo) = plh_stateid lo" "lo_slack (upd_lseg s f lo) = lo_slack lo"
  "lo_fails (upd_lseg s f lo) = lo_fails lo"
  by (simp_all add: upd_lseg_def lo_slack_def lo_fails_def)

lemma clear_lseg_only: "seg_only s (free, lo) (free, clear_lseg f s lo)"
  by (auto simp: seg_only_def clear_lseg_def)

lemma set_lseg_only: "seg_only s (free, lo) (free, set_lseg f s lo)"
  by (auto simp: seg_only_def set_lseg_def)

lemma clear_lseg_ok: "layout_ok (free, lo) \<Longrightarrow> layout_ok (free, clear_lseg f s lo)"
  by (auto simp: layout_ok_def clear_lseg_def lseg_need_def lo_fails_def)

lemma set_lseg_ok:
  "layout_ok (free, lo) \<Longrightarrow> f \<noteq> NFS_LSEG_VALID \<Longrightarrow> f \<noteq> NFS_LSEG_LAYOUTCOMMIT \<Longrightarrow>
   layout_ok (free, set_lseg f s lo)"
  by (auto simp: layout_ok_def set_lseg_def lseg_need_def lo_fails_def)

lemma remove_lseg_core:
  "core (pnfs_layout_remove_lseg s lo) =
     core (lo\<lparr>plh_segs := removeAll s (plh_segs lo), plh_refcount := plh_refcount lo - 1\<rparr>)"
  by (simp add: pnfs_layout_remove_lseg_def Let_def)

lemma length_removeAll_distinct:
  "distinct xs \<Longrightarrow> s \<in> set xs \<Longrightarrow> Suc (length (removeAll s xs)) = length xs"
  by (induction xs) auto

lemma list_add_dst_core:
  "core lo' = core lo \<Longrightarrow>
   fst (list_add_dst dst s (free, lo')) = fst (list_add_dst dst s (free, lo)) \<and>
   core (snd (list_add_dst dst s (free, lo'))) = core (snd (list_add_dst dst s (free, lo)))"
  by (cases dst) (simp_all add: list_add_dst_def core_def lo_fails_def)

lemma dec_and_remove_zero_ok:
  assumes ok: "layout_ok (free, lo)" and s: "s \<in> set (plh_segs lo)"
    and need: "lseg_need (lsegs lo s) < pls_refcount (lsegs lo s)"
    and dec: "pnfs_lseg_dec_and_remove_zero dst s (free, lo) = (st', b)"
  shows "layout_ok st' \<and> seg_only s (free, lo) st' \<and>
         pls_flags (lsegs (snd st') s) = pls_flags (lsegs lo s) \<and>
         (b \<longleftrightarrow> s \<notin> set (plh_segs (snd st')))"
proof -
  let ?lo = "upd_lseg s (\<lambda>l. l\<lparr>pls_refcount := pls_refcount l - 1\<rparr>) lo"
  show ?thesis
  proof (cases "pls_refcount (lsegs lo s) = 1")
    case False
    then have "st' = (free, ?lo)" "b = False"
      using dec need by (auto simp: pnfs_lseg_dec_and_remove_zero_def Let_def)
    then show ?thesis using ok s need False
      by (auto simp: layout_ok_def seg_only_def lseg_need_def lo_fails_def)
  next
    case True
    let ?rm = "?lo\<lparr>plh_segs := removeAll s (plh_segs lo), plh_refcount := plh_refcount lo - 1\<rparr>"
    have st: "st' = list_add_dst dst s (free, pnfs_layout_remove_lseg s ?lo)" "b = True"
      using dec True by (auto simp: pnfs_lseg_dec_and_remove_zero_def Let_def)
    have c: "core (pnfs_layout_remove_lseg s ?lo) = core ?rm"
      by (simp add: remove_lseg_core)
    have dist: "distinct (plh_segs lo @ plh_return_segs lo @ free @ freed_lsegs lo)"
      using ok by (simp add: layout_ok_def)
    have len: "Suc (length (removeAll s (plh_segs lo))) = length (plh_segs lo)"
      using dist s by (intro length_removeAll_distinct) simp_all
    have need0: "lseg_need (lsegs lo s) = 0" using need True by simp
    have "0 \<le> lo_slack lo" using ok by (simp add: layout_ok_def)
    then have "length (plh_segs lo) \<le> plh_refcount lo" unfolding lo_slack_def by linarith
    then have "int (plh_refcount lo - 1) = int (plh_refcount lo) - 1"
      using len by linarith
    then have slack: "lo_slack ?rm = lo_slack lo"
      using len by (simp add: lo_slack_def lo_fails_def)
    have "layout_ok (list_add_dst dst s (free, ?rm))"
    proof -
      have "lseg_need ((lsegs lo s)\<lparr>pls_refcount := 0\<rparr>) = 0"
        using need0 by (simp add: lseg_need_def)
      then show ?thesis
        using ok s slack dist True
        by (cases dst) (auto simp: layout_ok_def list_add_dst_def lo_slack_def lo_fails_def
            distinct_removeAll)
    qed
    moreover have "layout_ok st' = layout_ok (list_add_dst dst s (free, ?rm))"
      unfolding st by (intro layout_ok_cong) (simp_all only: list_add_dst_core [OF c])
    moreover have "seg_only s (free, lo) st'"
    proof -
      have "lo_slack (snd st') = lo_slack lo"
        unfolding st using lo_slack_core [OF c] slack
        by (cases dst) (simp_all add: list_add_dst_def lo_slack_def lo_fails_def)
      then show ?thesis
        unfolding st using c s by (cases dst) (auto simp: list_add_dst_def seg_only_def core_def)
    qed
    moreover have "lsegs (snd st') = lsegs ?lo" "plh_segs (snd st') = removeAll s (plh_segs lo)"
      unfolding st using c by (cases dst; simp add: list_add_dst_def core_def)+
    ultimately show ?thesis using st by simp
  qed
qed

lemma lseg_need_clear:
  "f = NFS_LSEG_VALID \<or> f = NFS_LSEG_LAYOUTCOMMIT \<Longrightarrow> test_lseg f s lo \<Longrightarrow>
   lseg_need (lsegs (clear_lseg f s lo) s) + 1 = lseg_need (lsegs lo s)"
  by (auto simp: lseg_need_def clear_lseg_def test_lseg_def)

lemma clear_and_dec_ok:
  assumes ok: "layout_ok (free, lo)" and s: "s \<in> set (plh_segs lo)"
    and f: "f = NFS_LSEG_VALID \<or> f = NFS_LSEG_LAYOUTCOMMIT" and t: "test_lseg f s lo"
    and dec: "pnfs_lseg_dec_and_remove_zero dst s (free, clear_lseg f s lo) = (st', b)"
  shows "layout_ok st' \<and> seg_only s (free, lo) st' \<and>
         pls_flags (lsegs (snd st') s) = pls_flags (lsegs lo s) - {f} \<and>
         (b \<longleftrightarrow> s \<notin> set (plh_segs (snd st')))"
proof -
  have "lseg_need (lsegs lo s) \<le> pls_refcount (lsegs lo s)"
    using ok s by (simp add: layout_ok_def)
  then have "lseg_need (lsegs (clear_lseg f s lo) s) < pls_refcount (lsegs (clear_lseg f s lo) s)"
    using lseg_need_clear [OF f t] by (simp add: clear_lseg_def)
  moreover have "s \<in> set (plh_segs (clear_lseg f s lo))" using s by (simp add: clear_lseg_def)
  ultimately have d: "layout_ok st'" "seg_only s (free, clear_lseg f s lo) st'"
      "pls_flags (lsegs (snd st') s) = pls_flags (lsegs (clear_lseg f s lo) s)"
      "b \<longleftrightarrow> s \<notin> set (plh_segs (snd st'))"
    using dec_and_remove_zero_ok [OF clear_lseg_ok [OF ok] _ _ dec] by simp_all
  have "seg_only s (free, lo) st'" by (rule seg_only_trans [OF clear_lseg_only d(2)])
  then show ?thesis using d(1,3,4) by (simp add: clear_lseg_def)
qed

lemma mark_lseg_invalid_ok:
  assumes ok: "layout_ok (free, lo)" and s: "s \<in> set (plh_segs lo)"
    and m: "mark_lseg_invalid dst s (free, lo) = (st', b)"
  shows "layout_ok st' \<and> seg_only s (free, lo) st' \<and>
         pls_flags (lsegs (snd st') s) = pls_flags (lsegs lo s) - {NFS_LSEG_VALID} \<and>
         (b \<longleftrightarrow> s \<notin> set (plh_segs (snd st')))"
proof (cases "test_lseg NFS_LSEG_VALID s lo")
  case True
  then have d: "pnfs_lseg_dec_and_remove_zero dst s (free, clear_lseg NFS_LSEG_VALID s lo) = (st', b)"
    using m by (simp add: mark_lseg_invalid_def)
  show ?thesis by (rule clear_and_dec_ok [OF ok s _ True d]) simp
next
  case False
  then show ?thesis
    using m ok s by (auto simp: mark_lseg_invalid_def seg_only_refl test_lseg_def)
qed

lemma clear_lseg_state_ok:
  assumes ok: "layout_ok (free, lo)" and s: "s \<in> set (plh_segs lo)"
  shows "layout_ok (pnfs_clear_lseg_state dst s (free, lo)) \<and>
         seg_only s (free, lo) (pnfs_clear_lseg_state dst s (free, lo))"
proof -
  let ?l1 = "clear_lseg NFS_LSEG_LAYOUTRETURN s (clear_lseg NFS_LSEG_ROC s lo)"
  have l1: "layout_ok (free, ?l1)" "seg_only s (free, lo) (free, ?l1)" "s \<in> set (plh_segs ?l1)"
    using s clear_lseg_ok [OF clear_lseg_ok [OF ok]] seg_only_trans [OF clear_lseg_only clear_lseg_only]
    by (simp_all add: clear_lseg_def)
  obtain free2 l2 where st2: "(if test_lseg NFS_LSEG_VALID s ?l1
      then fst (pnfs_lseg_dec_and_remove_zero dst s (free, clear_lseg NFS_LSEG_VALID s ?l1))
      else (free, ?l1)) = (free2, l2)"
    by (meson surj_pair)
  have two: "layout_ok (free2, l2) \<and> seg_only s (free, ?l1) (free2, l2) \<and>
      (s \<notin> set (plh_segs l2) \<longrightarrow> lseg_need (lsegs l2 s) = 0)"
  proof (cases "test_lseg NFS_LSEG_VALID s ?l1")
    case True
    obtain b where d: "pnfs_lseg_dec_and_remove_zero dst s (free, clear_lseg NFS_LSEG_VALID s ?l1) =
        ((free2, l2), b)"
      using st2 True by (metis fst_conv surj_pair)
    have r: "layout_ok (free2, l2)" "seg_only s (free, ?l1) (free2, l2)"
      using clear_and_dec_ok [OF l1(1,3) _ True d] by simp_all
    moreover have "lseg_need (lsegs l2 s) = 0" if "s \<notin> set (plh_segs l2)"
    proof -
      have "s \<in> set (plh_return_segs l2) \<union> set free2"
        using r(2) that l1(3) by (auto simp: seg_only_def)
      then show ?thesis using r(1) by (simp add: layout_ok_def)
    qed
    ultimately show ?thesis by simp
  next
    case False
    then show ?thesis using st2 l1 by (simp add: seg_only_refl)
  qed
  have eq: "pnfs_clear_lseg_state dst s (free, lo) =
      (if test_lseg NFS_LSEG_LAYOUTCOMMIT s l2
       then fst (pnfs_lseg_dec_and_remove_zero dst s (free2, clear_lseg NFS_LSEG_LAYOUTCOMMIT s l2))
       else (free2, l2))"
    using st2 by (simp add: pnfs_clear_lseg_state_def Let_def)
  show ?thesis
  proof (cases "test_lseg NFS_LSEG_LAYOUTCOMMIT s l2")
    case True
    then have in2: "s \<in> set (plh_segs l2)"
      using two by (auto simp: lseg_need_def test_lseg_def)
    obtain st3 b where d: "pnfs_lseg_dec_and_remove_zero dst s
        (free2, clear_lseg NFS_LSEG_LAYOUTCOMMIT s l2) = (st3, b)"
      by (meson surj_pair)
    have "layout_ok st3 \<and> seg_only s (free2, l2) st3"
      using clear_and_dec_ok [OF conjunct1 [OF two] in2 _ True d] by simp
    then show ?thesis
      using eq True d two l1(2) seg_only_trans by (metis fst_conv)
  next
    case False
    then show ?thesis using eq two l1(2) seg_only_trans by metis
  qed
qed

section \<open>Walks over the segments\<close>

text \<open>
  The interface of a walk: what its step does to one segment of the list. A walk over distinct
  segments of the list then keeps the invariant and the count of the header's other references.
\<close>

locale seg_walk =
  fixes f :: "nat \<Rightarrow> 'a \<Rightarrow> 'a" and st_of :: "'a \<Rightarrow> layout_st"
  assumes step: "layout_ok (st_of a) \<Longrightarrow> s \<in> set (plh_segs (snd (st_of a))) \<Longrightarrow>
      layout_ok (st_of (f s a)) \<and> seg_only s (st_of a) (st_of (f s a))"
begin

lemma walk_ok:
  assumes ok: "layout_ok (st_of a)" and xs: "set xs \<subseteq> set (plh_segs (snd (st_of a)))" "distinct xs"
  shows "layout_ok (st_of (fold f xs a)) \<and> lo_slack (snd (st_of (fold f xs a))) = lo_slack (snd (st_of a))"
  using ok xs
proof (induction xs arbitrary: a)
  case (Cons s xs)
  have s: "layout_ok (st_of (f s a))" "seg_only s (st_of a) (st_of (f s a))"
    using step [of a s] Cons.prems by auto
  have "set xs \<subseteq> set (plh_segs (snd (st_of (f s a))))"
    using s(2) Cons.prems by (auto simp: seg_only_def)
  then show ?case using Cons.IH [OF s(1)] Cons.prems s(2) by (simp add: seg_only_def)
qed simp

lemma walk_all_ok:
  assumes ok: "layout_ok (st_of a)"
  shows "layout_ok (st_of (fold f (plh_segs (snd (st_of a))) a)) \<and>
    lo_slack (snd (st_of (fold f (plh_segs (snd (st_of a))) a))) = lo_slack (snd (st_of a))"
  by (rule walk_ok [OF ok]) (use ok in \<open>auto simp: layout_ok_def\<close>)

end

lemma segs_distinct: "layout_ok st \<Longrightarrow> distinct (plh_segs (snd st))"
  by (auto simp: layout_ok_def)

lemma return_step_ok:
  assumes ok: "layout_ok st" and s: "s \<in> set (plh_segs (snd st))"
    and step: "lsegs_return_step r seq s (st, dst, n) = (st', dst', n')"
  shows "layout_ok st' \<and> seg_only s st st' \<and>
    (if pnfs_match_lseg_recall (lsegs (snd st) s) (Some r) seq
     then NFS_LSEG_VALID \<notin> pls_flags (lsegs (snd st') s) \<and>
          (s \<in> set (plh_segs (snd st')) \<longrightarrow> NFS_LSEG_LAYOUTRETURN \<in> pls_flags (lsegs (snd st') s)) \<and>
          n' = n + of_bool (s \<in> set (plh_segs (snd st')))
     else st' = st \<and> n' = n)"
proof (cases "pnfs_match_lseg_recall (lsegs (snd st) s) (Some r) seq")
  case True
  obtain free lo where st: "st = (free, lo)" by (cases st)
  let ?dst = "if test_lseg NFS_LSEG_LAYOUTRETURN s lo then To_return else dst"
  obtain free1 lo1 b where m: "mark_lseg_invalid ?dst s (free, lo) = ((free1, lo1), b)"
    by (metis surj_pair)
  have m1: "layout_ok (free1, lo1)" "seg_only s (free, lo) (free1, lo1)"
      "NFS_LSEG_VALID \<notin> pls_flags (lsegs lo1 s)" "b \<longleftrightarrow> s \<notin> set (plh_segs lo1)"
    using mark_lseg_invalid_ok [OF ok [unfolded st] _ m] s st by auto
  show ?thesis
  proof (cases b)
    case b: True
    then have "st' = (free1, lo1)" "n' = n"
      using step True m st by (auto simp: lsegs_return_step_def Let_def)
    then show ?thesis using True m1 b st by simp
  next
    case b: False
    let ?lo = "pnfs_lseg_cancel_io s (set_lseg NFS_LSEG_LAYOUTRETURN s lo1)"
    have st': "st' = (free1, ?lo)" "n' = n + 1"
      using step True m b st by (auto simp: lsegs_return_step_def Let_def)
    have c: "core ?lo = core (set_lseg NFS_LSEG_LAYOUTRETURN s lo1)" by simp
    have "layout_ok (free1, ?lo)"
      using set_lseg_ok [OF m1(1), of NFS_LSEG_LAYOUTRETURN s] layout_ok_core [OF c] by simp
    moreover have "seg_only s (free, lo) (free1, ?lo)"
      using seg_only_trans [OF seg_only_trans [OF m1(2) set_lseg_only] seg_only_core [OF c]] .
    ultimately show ?thesis
      using True b m1(3,4) st st' core_lsegs [OF c] core_segs [OF c] by (simp add: set_lseg_def)
  qed
next
  case False
  then show ?thesis
    using step ok by (cases st) (auto simp: lsegs_return_step_def seg_only_refl)
qed

lemma match_recall_cong:
  "pls_range l' = pls_range l \<Longrightarrow> pls_seq l' = pls_seq l \<Longrightarrow>
   pnfs_match_lseg_recall l' r seq = pnfs_match_lseg_recall l r seq"
  by (simp add: pnfs_match_lseg_recall_def split: option.split)

text \<open>The whole walk of \<open>pnfs_mark_matching_lsegs_return\<close> from \<open>st\<close> to \<open>st'\<close>.\<close>

definition segs_recalled ::
  "(pnfs_layout_segment \<Rightarrow> bool) \<Rightarrow> nat list \<Rightarrow> layout_st \<Rightarrow> layout_st \<Rightarrow> bool" where
  "segs_recalled M xs st st' \<longleftrightarrow>
     (\<forall>t. pls_range (lsegs (snd st') t) = pls_range (lsegs (snd st) t) \<and>
          pls_seq (lsegs (snd st') t) = pls_seq (lsegs (snd st) t)) \<and>
     (\<forall>t. t \<notin> set xs \<or> \<not> M (lsegs (snd st) t) \<longrightarrow>
          lsegs (snd st') t = lsegs (snd st) t \<and>
          (t \<in> set (plh_segs (snd st')) \<longleftrightarrow> t \<in> set (plh_segs (snd st)))) \<and>
     (\<forall>t \<in> set xs. M (lsegs (snd st) t) \<longrightarrow>
          NFS_LSEG_VALID \<notin> pls_flags (lsegs (snd st') t) \<and>
          (t \<in> set (plh_segs (snd st')) \<longrightarrow> NFS_LSEG_LAYOUTRETURN \<in> pls_flags (lsegs (snd st') t))) \<and>
     set (plh_segs (snd st')) \<subseteq> set (plh_segs (snd st)) \<and>
     set (plh_segs (snd st')) \<union> set (plh_return_segs (snd st')) \<union> set (fst st') =
       set (plh_segs (snd st)) \<union> set (plh_return_segs (snd st)) \<union> set (fst st) \<and>
     freed_lsegs (snd st') = freed_lsegs (snd st) \<and> lo_slack (snd st') = lo_slack (snd st)"

lemma segs_recalled_sub: "segs_recalled M xs st st' \<Longrightarrow> set (plh_segs (snd st')) \<subseteq> set (plh_segs (snd st))"
  by (simp add: segs_recalled_def)

lemma seg_only_sub: "seg_only s st st' \<Longrightarrow> set (plh_segs (snd st')) \<subseteq> set (plh_segs (snd st))"
  by (simp add: seg_only_def)

lemma segs_recalled_Cons:
  assumes M: "\<And>l l'. pls_range l' = pls_range l \<Longrightarrow> pls_seq l' = pls_seq l \<Longrightarrow> M l' = M l"
    and s: "seg_only s st st1"
      "if M (lsegs (snd st) s)
       then NFS_LSEG_VALID \<notin> pls_flags (lsegs (snd st1) s) \<and>
            (s \<in> set (plh_segs (snd st1)) \<longrightarrow> NFS_LSEG_LAYOUTRETURN \<in> pls_flags (lsegs (snd st1) s))
       else st1 = st"
    and xs: "segs_recalled M xs st1 st'" "s \<notin> set xs"
  shows "segs_recalled M (s # xs) st st'"
proof -
  have rs: "pls_range (lsegs (snd st1) t) = pls_range (lsegs (snd st) t)"
      "pls_seq (lsegs (snd st1) t) = pls_seq (lsegs (snd st) t)" for t
    using s(1) by (cases "t = s"; simp add: seg_only_def)+
  have M1: "M (lsegs (snd st1) t) = M (lsegs (snd st) t)" for t using M rs by blast
  have same: "lsegs (snd st') t = lsegs (snd st) t \<and>
      (t \<in> set (plh_segs (snd st')) \<longleftrightarrow> t \<in> set (plh_segs (snd st)))"
    if t: "t \<notin> set (s # xs) \<or> \<not> M (lsegs (snd st) t)" for t
  proof -
    have "t \<notin> set xs \<or> \<not> M (lsegs (snd st1) t)" using t M1 by auto
    then have "lsegs (snd st') t = lsegs (snd st1) t \<and>
        (t \<in> set (plh_segs (snd st')) \<longleftrightarrow> t \<in> set (plh_segs (snd st1)))"
      using xs(1) by (simp only: segs_recalled_def)
    moreover have "lsegs (snd st1) t = lsegs (snd st) t \<and>
        (t \<in> set (plh_segs (snd st1)) \<longleftrightarrow> t \<in> set (plh_segs (snd st)))"
    proof (cases "t = s")
      case True
      then have "st1 = st" using t s(2) by auto
      then show ?thesis by simp
    next
      case False
      then show ?thesis using s(1) by (auto simp: seg_only_def)
    qed
    ultimately show ?thesis by simp
  qed
  have hit: "NFS_LSEG_VALID \<notin> pls_flags (lsegs (snd st') t) \<and>
      (t \<in> set (plh_segs (snd st')) \<longrightarrow> NFS_LSEG_LAYOUTRETURN \<in> pls_flags (lsegs (snd st') t))"
    if t: "t \<in> set (s # xs)" "M (lsegs (snd st) t)" for t
  proof (cases "t = s")
    case True
    have "lsegs (snd st') s = lsegs (snd st1) s"
        "s \<in> set (plh_segs (snd st')) \<longleftrightarrow> s \<in> set (plh_segs (snd st1))"
      using xs by (auto simp: segs_recalled_def)
    then show ?thesis using s(2) t True by simp
  next
    case False
    then show ?thesis using xs(1) t M1 by (auto simp: segs_recalled_def)
  qed
  have "set (plh_segs (snd st')) \<subseteq> set (plh_segs (snd st))"
    by (rule order_trans [OF segs_recalled_sub [OF xs(1)] seg_only_sub [OF s(1)]])
  then show ?thesis
    using same hit rs xs(1) s(1) unfolding segs_recalled_def seg_only_def by simp
qed

lemma return_walk_ok:
  assumes "layout_ok st" "set xs \<subseteq> set (plh_segs (snd st))" "distinct xs"
    "fold (lsegs_return_step r seq) xs (st, dst, n) = (st', dst', n')"
  shows "layout_ok st' \<and> segs_recalled (\<lambda>l. pnfs_match_lseg_recall l (Some r) seq) xs st st' \<and>
    n' = n + length (filter (\<lambda>t. pnfs_match_lseg_recall (lsegs (snd st) t) (Some r) seq \<and>
                                 t \<in> set (plh_segs (snd st'))) xs)"
  using assms
proof (induction xs arbitrary: st dst n)
  case Nil
  then show ?case by (auto simp: segs_recalled_def)
next
  case (Cons s xs)
  let ?M = "\<lambda>l. pnfs_match_lseg_recall l (Some r) seq"
  obtain st1 dst1 n1 where step: "lsegs_return_step r seq s (st, dst, n) = (st1, dst1, n1)"
    by (metis surj_pair)
  have s: "layout_ok st1" "seg_only s st st1"
      "if ?M (lsegs (snd st) s)
       then NFS_LSEG_VALID \<notin> pls_flags (lsegs (snd st1) s) \<and>
            (s \<in> set (plh_segs (snd st1)) \<longrightarrow> NFS_LSEG_LAYOUTRETURN \<in> pls_flags (lsegs (snd st1) s)) \<and>
            n1 = n + of_bool (s \<in> set (plh_segs (snd st1)))
       else st1 = st \<and> n1 = n"
    using return_step_ok [OF Cons.prems(1) _ step] Cons.prems(2) by auto
  have sub: "set xs \<subseteq> set (plh_segs (snd st1))"
    using s(2) Cons.prems by (auto simp: seg_only_def)
  have IH: "layout_ok st'" "segs_recalled ?M xs st1 st'"
      "n' = n1 + length (filter (\<lambda>t. ?M (lsegs (snd st1) t) \<and> t \<in> set (plh_segs (snd st'))) xs)"
    using Cons.IH [OF s(1) sub, of dst1 n1] Cons.prems step by simp_all
  have nx: "s \<notin> set xs" using Cons.prems by simp
  have eq: "filter (\<lambda>t. ?M (lsegs (snd st1) t) \<and> t \<in> set (plh_segs (snd st'))) xs =
      filter (\<lambda>t. ?M (lsegs (snd st) t) \<and> t \<in> set (plh_segs (snd st'))) xs"
    using s(2) nx by (intro filter_cong) (auto simp: seg_only_def)
  have in1: "s \<in> set (plh_segs (snd st')) \<longleftrightarrow> s \<in> set (plh_segs (snd st1))"
    using IH(2) nx by (auto simp: segs_recalled_def)
  have "segs_recalled ?M (s # xs) st st'"
  proof (rule segs_recalled_Cons [where M = ?M, OF match_recall_cong s(2) _ IH(2) nx])
    show "if ?M (lsegs (snd st) s)
       then NFS_LSEG_VALID \<notin> pls_flags (lsegs (snd st1) s) \<and>
            (s \<in> set (plh_segs (snd st1)) \<longrightarrow> NFS_LSEG_LAYOUTRETURN \<in> pls_flags (lsegs (snd st1) s))
       else st1 = st"
      using s(3) by (cases "?M (lsegs (snd st) s)") simp_all
  qed
  moreover have "n' = n + length (filter (\<lambda>t. ?M (lsegs (snd st) t) \<and> t \<in> set (plh_segs (snd st')))
      (s # xs))"
    using IH(3) s(3) in1 unfolding eq by (cases "?M (lsegs (snd st) s)") simp_all
  ultimately show ?case using IH(1) by blast
qed

lemma mark_return_ok:
  assumes ok: "layout_ok st"
    and m: "pnfs_mark_matching_lsegs_return dst r seq st = (st', rv)"
  shows "layout_ok st' \<and>
    segs_recalled (\<lambda>l. pnfs_match_lseg_recall l (Some r) seq) (plh_segs (snd st)) st st' \<and>
    rv = (if \<exists>t \<in> set (plh_segs (snd st')). pnfs_match_lseg_recall (lsegs (snd st') t) (Some r) seq
          then - EBUSY else if plh_return_segs (snd st') \<noteq> [] then 0 else - ENOENT) \<and>
    (rv \<noteq> - ENOENT \<longrightarrow> NFS_LAYOUT_RETURN_REQUESTED \<in> plh_flags (snd st'))"
proof -
  let ?M = "\<lambda>l. pnfs_match_lseg_recall l (Some r) seq"
  let ?d = "if NFS_LAYOUT_RETURN_REQUESTED \<in> plh_flags (snd st) then To_return else dst"
  obtain free lo d' n where w: "fold (lsegs_return_step r seq) (plh_segs (snd st)) (st, ?d, 0) =
      ((free, lo), d', n)"
    by (metis surj_pair)
  have W: "layout_ok (free, lo)" "segs_recalled ?M (plh_segs (snd st)) st (free, lo)"
      "n = length (filter (\<lambda>t. ?M (lsegs (snd st) t) \<and> t \<in> set (plh_segs lo)) (plh_segs (snd st)))"
    using return_walk_ok [OF ok _ segs_distinct [OF ok] w] by simp_all
  have sub1: "set (plh_segs lo) \<subseteq> set (plh_segs (snd st))"
    using segs_recalled_sub [OF W(2)] by simp
  have sub2: "?M (lsegs lo t) = ?M (lsegs (snd st) t)" for t
    by (rule match_recall_cong) (use W(2) in \<open>simp_all add: segs_recalled_def\<close>)
  have n0: "n \<noteq> 0 \<longleftrightarrow> (\<exists>t \<in> set (plh_segs lo). ?M (lsegs lo t))"
    unfolding W(3) length_0_conv filter_empty_conv sub2 using sub1 by blast
  have st': "(st', rv) =
      (if n \<noteq> 0 then ((free, pnfs_set_plh_return_info lo (iomode r) seq), - EBUSY)
       else if plh_return_segs lo \<noteq> [] then ((free, pnfs_set_plh_return_info lo (iomode r) seq), 0)
       else ((free, lo), - ENOENT))"
    using m w by (simp add: pnfs_mark_matching_lsegs_return_def Let_def)
  have c: "core (snd st') = core lo" "fst st' = free"
    using st' by (auto split: if_splits)
  have req: "NFS_LAYOUT_RETURN_REQUESTED \<in> plh_flags (pnfs_set_plh_return_info lo (iomode r) seq)"
    by (simp add: pnfs_set_plh_return_info_def Let_def pnfs_barrier_update_def set_lo_def)
  have "layout_ok st'" using layout_ok_cong [of st' "(free, lo)"] c W(1) by simp
  moreover have "segs_recalled ?M (plh_segs (snd st)) st st'"
    using W(2) c core_lsegs [OF c(1)] core_segs [OF c(1)] core_ret [OF c(1)] core_freed [OF c(1)]
      lo_slack_core [OF c(1)]
    by (simp add: segs_recalled_def)
  moreover have "rv = (if \<exists>t \<in> set (plh_segs (snd st')). ?M (lsegs (snd st') t)
          then - EBUSY else if plh_return_segs (snd st') \<noteq> [] then 0 else - ENOENT)"
    using st' n0 core_lsegs [OF c(1)] core_segs [OF c(1)] core_ret [OF c(1)]
    by (auto split: if_splits)
  moreover have "rv \<noteq> - ENOENT \<longrightarrow> NFS_LAYOUT_RETURN_REQUESTED \<in> plh_flags (snd st')"
    using st' req by (auto split: if_splits)
  ultimately show ?thesis by blast
qed

end
