(* ===== verification/Pnfs_Layout_Inv.thy ===== *)
theory Pnfs_Layout_Inv
  imports Pnfs_Layout
begin

text \<open>
  The life of a layout: every operation of \<open>Pnfs_Layout\<close> keeps its invariant, a step relation whose
  steps are the operations in any order, and the properties of recall, return and insertion.
\<close>

section \<open>Operations keep the invariant\<close>

lemma free_lseg_list_ok: "layout_ok st \<Longrightarrow> layout_ok ([], pnfs_free_lseg_list st)"
  by (cases st) (auto simp: layout_ok_def pnfs_free_lseg_list_def lo_slack_def lo_fails_def)

lemma free_lseg_list_slack [simp]: "lo_slack (pnfs_free_lseg_list st) = lo_slack (snd st)"
  by (cases st) (simp add: pnfs_free_lseg_list_def lo_slack_def lo_fails_def)

lemma free_returned_ok:
  assumes ok: "layout_ok (free, lo)"
  shows "layout_ok (pnfs_free_returned_lsegs r seq (free, lo))"
proof -
  let ?P = "\<lambda>s. pnfs_match_lseg_recall (lsegs lo s) (Some r) seq"
  have "distinct (plh_segs lo @ filter (\<lambda>s. \<not> ?P s) (plh_return_segs lo) @
      (free @ filter ?P (plh_return_segs lo)) @ freed_lsegs lo)"
    using ok by (auto simp: layout_ok_def)
  then show ?thesis
    using ok by (auto simp: pnfs_free_returned_lsegs_def layout_ok_def lo_slack_def lo_fails_def)
qed

lemma invalid_step_ok:
  assumes ok: "layout_ok (fst a)" and s: "s \<in> set (plh_segs (snd (fst a)))"
  shows "layout_ok (fst (lsegs_invalid_step r seq s a)) \<and>
         seg_only s (fst a) (fst (lsegs_invalid_step r seq s a))"
proof -
  obtain free lo n where a: "a = ((free, lo), n)" by (metis surj_pair)
  show ?thesis
  proof (cases "pnfs_match_lseg_recall (lsegs lo s) r seq")
    case True
    obtain free1 lo1 b where m: "mark_lseg_invalid To_free s (free, lo) = ((free1, lo1), b)"
      by (metis surj_pair)
    have m1: "layout_ok (free1, lo1)" "seg_only s (free, lo) (free1, lo1)"
      using mark_lseg_invalid_ok [OF ok [unfolded a fst_conv] _ m] s a by auto
    have c: "core (pnfs_lseg_cancel_io s lo1) = core lo1" by simp
    have "layout_ok (free1, pnfs_lseg_cancel_io s lo1)"
      using m1(1) layout_ok_core [OF c] by simp
    moreover have "seg_only s (free, lo) (free1, pnfs_lseg_cancel_io s lo1)"
      by (rule seg_only_trans [OF m1(2) seg_only_core [OF c]])
    ultimately show ?thesis
      using True m m1 a by (cases b) (simp_all add: lsegs_invalid_step_def)
  next
    case False
    then show ?thesis using ok a by (simp add: lsegs_invalid_step_def seg_only_refl)
  qed
qed

interpretation invalid_walk: seg_walk "lsegs_invalid_step r seq" fst for r seq
  by unfold_locales (rule invalid_step_ok)

interpretation clear_walk: seg_walk "pnfs_clear_lseg_state dst" "\<lambda>a. a" for dst
proof unfold_locales
  fix s :: nat and a :: layout_st
  assume "layout_ok a" "s \<in> set (plh_segs (snd a))"
  then show "layout_ok (pnfs_clear_lseg_state dst s a) \<and> seg_only s a (pnfs_clear_lseg_state dst s a)"
    using clear_lseg_state_ok [of "fst a" "snd a" s dst] by simp
qed

lemma mark_invalid_ok:
  "layout_ok st \<Longrightarrow> layout_ok (fst (pnfs_mark_matching_lsegs_invalid r seq st))"
  using invalid_walk.walk_all_ok [of "(st, 0)"] by (simp add: pnfs_mark_matching_lsegs_invalid_def)

lemma mark_stateid_invalid_ok:
  assumes ok: "layout_ok (free, lo)"
  shows "layout_ok (fst (pnfs_mark_layout_stateid_invalid (free, lo)))"
proof (cases "NFS_LAYOUT_INVALID_STID \<in> plh_flags lo")
  case True
  then show ?thesis using ok by (simp add: pnfs_mark_layout_stateid_invalid_def)
next
  case False
  let ?l1 = "(set_lo NFS_LAYOUT_INVALID_STID lo)\<lparr>ino_layoutcommit := False\<rparr>"
  have l1: "layout_ok (free, ?l1)" using ok layout_ok_core [of ?l1 lo free] by simp
  obtain free2 l2 where w: "fold (pnfs_clear_lseg_state To_free) (plh_segs ?l1) (free, ?l1) = (free2, l2)"
    by (metis surj_pair)
  have l2: "layout_ok (free2, l2)" using clear_walk.walk_all_ok [OF l1, of To_free] w by simp
  let ?l3 = "pnfs_clear_layoutreturn_info l2"
  have l3: "layout_ok (free2, ?l3)" using l2 layout_ok_core [of ?l3 l2 free2] by simp
  obtain free4 l4 where r: "pnfs_free_returned_lsegs (whole_range IOMODE_ANY) 0 (free2, ?l3) = (free4, l4)"
    by (metis surj_pair)
  have l4: "layout_ok (free4, l4)"
    using free_returned_ok [OF l3, of "whole_range IOMODE_ANY" 0] by (simp only: r)
  have "core (snd (fst (pnfs_mark_layout_stateid_invalid (free, lo)))) = core l4"
      "fst (fst (pnfs_mark_layout_stateid_invalid (free, lo))) = free4"
    using False w r by (simp_all add: pnfs_mark_layout_stateid_invalid_def Let_def)
  then show ?thesis using l4 by (subst layout_ok_cong [where b = "(free4, l4)"]) simp_all
qed

lemma mark_stateid_invalid_slack:
  assumes ok: "layout_ok (free, lo)"
  shows "lo_slack (snd (fst (pnfs_mark_layout_stateid_invalid (free, lo)))) = lo_slack lo"
proof (cases "NFS_LAYOUT_INVALID_STID \<in> plh_flags lo")
  case False
  let ?l1 = "(set_lo NFS_LAYOUT_INVALID_STID lo)\<lparr>ino_layoutcommit := False\<rparr>"
  have c1: "core ?l1 = core lo" by simp
  have l1: "layout_ok (free, ?l1)" using ok layout_ok_core [OF c1, of free] by simp
  obtain free2 l2 where w: "fold (pnfs_clear_lseg_state To_free) (plh_segs ?l1) (free, ?l1) = (free2, l2)"
    by (metis surj_pair)
  have s2: "lo_slack l2 = lo_slack lo"
    using clear_walk.walk_all_ok [OF l1, of To_free] w lo_slack_core [OF c1] by simp
  obtain free4 l4 where r: "pnfs_free_returned_lsegs (whole_range IOMODE_ANY) 0
      (free2, pnfs_clear_layoutreturn_info l2) = (free4, l4)"
    by (metis surj_pair)
  have "lo_slack l4 = lo_slack (pnfs_clear_layoutreturn_info l2)"
    using r by (auto simp: pnfs_free_returned_lsegs_def lo_slack_def lo_fails_def)
  moreover have "lo_slack (pnfs_clear_layoutreturn_info l2) = lo_slack l2"
    by (rule lo_slack_core) simp
  moreover have "core (snd (fst (pnfs_mark_layout_stateid_invalid (free, lo)))) = core l4"
    using False w r by (simp add: pnfs_mark_layout_stateid_invalid_def Let_def)
  ultimately show ?thesis using s2 lo_slack_core by metis
qed (simp add: pnfs_mark_layout_stateid_invalid_def)

lemma layoutreturn_free_lsegs_ok:
  assumes ok: "layout_ok ([], lo)"
  shows "layout_ok ([], pnfs_layoutreturn_free_lsegs e arg r sid lo)"
proof -
  have fin: "layout_ok ([], pnfs_free_lseg_list (fst st, pnfs_clear_layoutreturn_waitbit (snd st)))"
    if "layout_ok st" for st
    by (rule free_lseg_list_ok, subst layout_ok_cong [where b = st]) (use that in simp_all)
  let ?inv = "fst (pnfs_mark_layout_stateid_invalid ([], lo))"
  have inv: "layout_ok ?inv" using mark_stateid_invalid_ok [OF ok] .
  define st1 where "st1 = fst (pnfs_mark_matching_lsegs_invalid (Some r) (seqid arg) ([], lo))"
  have st1: "layout_ok st1" unfolding st1_def by (rule mark_invalid_ok [OF ok])
  obtain free lo2 where r: "pnfs_free_returned_lsegs r (seqid arg) st1 = (free, lo2)"
    by (metis surj_pair)
  have l2: "layout_ok (free, lo2)"
    using free_returned_ok [of "fst st1" "snd st1" r "seqid arg"] st1 r by simp
  have "layout_ok (free, pnfs_reset_return_info (pnfs_set_layout_stateid e new None True lo2))" for new
    by (subst layout_ok_cong [where b = "(free, lo2)"]) (use l2 in simp_all)
  then show ?thesis
    unfolding pnfs_layoutreturn_free_lsegs_def Let_def
    by (intro fin) (use ok inv r in \<open>simp add: st1_def [symmetric] split: option.split\<close>)
qed

lemma retry_later_ok:
  assumes "layout_ok ([], lo)"
  shows "layout_ok ([], pnfs_layoutreturn_retry_later sid r lo)"
proof -
  have "core (pnfs_layoutreturn_retry_later sid r lo) = core lo"
    by (simp add: pnfs_layoutreturn_retry_later_def pnfs_layoutreturn_retry_later_locked_def Let_def)
  then show ?thesis using assms layout_ok_core by blast
qed

section \<open>References to the header\<close>

lemma get_hdr_ok: "layout_ok (free, lo) \<Longrightarrow> layout_ok (free, pnfs_get_layout_hdr lo)"
  and get_hdr_slack: "lo_slack (pnfs_get_layout_hdr lo) = lo_slack lo + 1"
  by (auto simp: layout_ok_def pnfs_get_layout_hdr_def lo_slack_def lo_fails_def)

lemma prepare_ok:
  assumes ok: "layout_ok (free, lo)" and p: "pnfs_prepare_layoutreturn lo = (lo', req)"
  shows "layout_ok (free, lo') \<and> lo_slack lo' = lo_slack lo + of_bool (req \<noteq> None)"
proof (cases req)
  case None
  then have "lo' = lo" using p by (auto simp: pnfs_prepare_layoutreturn_def Let_def split: if_splits)
  then show ?thesis using ok None by simp
next
  case (Some x)
  have g: "core (pnfs_get_layout_hdr (set_lo f l)) = core (pnfs_get_layout_hdr l)" if "not_fail f" for f l
    using that by (auto simp: core_def pnfs_get_layout_hdr_def set_lo_def lo_fails_def not_fail_def)
  have c: "core lo' = core (pnfs_get_layout_hdr lo)"
    using p Some by (auto simp: pnfs_prepare_layoutreturn_def Let_def g split: if_splits)
  then show ?thesis
    using get_hdr_ok [OF ok] get_hdr_slack [of lo] layout_ok_core [OF c, of free] lo_slack_core [OF c]
      Some
    by simp
qed

lemma to_return_keeps_free:
  "fst (fst (pnfs_lseg_dec_and_remove_zero To_return s st)) = fst st"
  "fst (fst (mark_lseg_invalid To_return s st)) = fst st"
proof -
  show d: "fst (fst (pnfs_lseg_dec_and_remove_zero To_return s st)) = fst st" for st
    by (cases st) (simp add: pnfs_lseg_dec_and_remove_zero_def list_add_dst_def Let_def)
  show "fst (fst (mark_lseg_invalid To_return s st)) = fst st"
    using d by (cases st) (simp add: mark_lseg_invalid_def)
qed

lemma return_step_keeps_free:
  assumes step: "lsegs_return_step r seq s (st, To_return, n) = (st', dst', n')"
  shows "fst st' = fst st \<and> dst' = To_return"
proof -
  obtain free lo where st: "st = (free, lo)" by (cases st)
  obtain free1 lo1 b where m: "mark_lseg_invalid To_return s (free, lo) = ((free1, lo1), b)"
    by (metis surj_pair)
  have "free1 = free" using to_return_keeps_free(2) [of s "(free, lo)"] m by simp
  then show ?thesis
    using step m st by (cases b) (auto simp: lsegs_return_step_def Let_def split: if_splits)
qed

lemma return_walk_keeps_free:
  "fold (lsegs_return_step r seq) xs (st, To_return, n) = (st', dst', n') \<Longrightarrow> fst st' = fst st"
proof (induction xs arbitrary: st n)
  case (Cons s xs)
  obtain st1 d1 n1 where s: "lsegs_return_step r seq s (st, To_return, n) = (st1, d1, n1)"
    by (metis surj_pair)
  show ?case using Cons return_step_keeps_free [OF s] s by simp
qed simp

lemma mark_return_keeps_free:
  assumes "pnfs_mark_matching_lsegs_return To_return r seq st = (st', rv)"
  shows "fst st' = fst st"
proof -
  obtain free lo d n where w: "fold (lsegs_return_step r seq) (plh_segs (snd st)) (st, To_return, 0) =
      ((free, lo), d, n)"
    by (metis surj_pair)
  then show ?thesis
    using return_walk_keeps_free [OF w] assms
    by (auto simp: pnfs_mark_matching_lsegs_return_def Let_def split: if_splits)
qed

lemma need_return_ok:
  assumes ok: "layout_ok ([], lo)" and n: "pnfs_layout_need_return lo = (lo', b)"
  shows "layout_ok ([], lo') \<and> lo_slack lo' = lo_slack lo"
proof (cases "NFS_LAYOUT_RETURN_REQUESTED \<in> plh_flags lo")
  case True
  obtain free l rv where m: "pnfs_mark_matching_lsegs_return To_return
      (whole_range (plh_return_iomode lo)) (plh_return_seq lo) ([], lo) = ((free, l), rv)"
    by (metis surj_pair)
  have "free = []" using mark_return_keeps_free [OF m] by simp
  moreover have "lo' = l"
    using n True m by (simp add: pnfs_layout_need_return_def pnfs_mark_layout_stateid_return_def)
  ultimately show ?thesis using mark_return_ok [OF ok m] by (simp add: segs_recalled_def)
qed (use assms in \<open>simp add: pnfs_layout_need_return_def\<close>)

lemma drop_hdr_ok:
  assumes ok: "layout_ok ([], lo)" and slack: "0 < lo_slack lo"
  shows "layout_ok ([], pnfs_drop_layout_hdr lo) \<and> lo_slack (pnfs_drop_layout_hdr lo) = lo_slack lo - 1"
proof -
  let ?lo = "lo\<lparr>plh_refcount := plh_refcount lo - 1\<rparr>"
  have c: "core (pnfs_drop_layout_hdr lo) = core ?lo"
    by (simp add: pnfs_drop_layout_hdr_def Let_def)
  have "int (plh_refcount lo - 1) = int (plh_refcount lo) - 1"
    using slack unfolding lo_slack_def by linarith
  then have "lo_slack ?lo = lo_slack lo - 1" by (simp add: lo_slack_def lo_fails_def)
  moreover from this have "layout_ok ([], ?lo)"
    using ok slack by (simp add: layout_ok_def)
  ultimately show ?thesis using layout_ok_core [OF c] lo_slack_core [OF c] by simp
qed

lemma put_send_ok:
  "layout_ok ([], lo) \<Longrightarrow> 0 < lo_slack lo \<Longrightarrow>
     layout_ok ([], pnfs_put_layout_hdr allocs lo) \<and>
     lo_slack lo - 1 \<le> lo_slack (pnfs_put_layout_hdr allocs lo)"
  "layout_ok ([], lo) \<Longrightarrow> 0 < lo_slack lo \<Longrightarrow>
     layout_ok ([], pnfs_send_layoutreturn allocs sid cred mode lo) \<and>
     lo_slack lo - 1 \<le> lo_slack (pnfs_send_layoutreturn allocs sid cred mode lo)"
proof (induction allocs lo and allocs sid cred mode lo
    rule: pnfs_put_layout_hdr_pnfs_send_layoutreturn.induct)
  case (1 allocs lo)
  obtain l1 b where n: "pnfs_layout_need_return lo = (l1, b)" by (metis surj_pair)
  have l1: "layout_ok ([], l1)" "lo_slack l1 = lo_slack lo"
    using need_return_ok [OF "1.prems"(1) n] by simp_all
  obtain l2 req where p: "pnfs_prepare_layoutreturn l1 = (l2, req)" by (metis surj_pair)
  have l2: "layout_ok ([], l2)" "lo_slack l2 = lo_slack lo + of_bool (req \<noteq> None)"
    using prepare_ok [OF l1(1) p] l1(2) by simp_all
  show ?case
  proof (cases "b \<and> req \<noteq> None")
    case True
    then obtain sid cred mode where req: "req = Some (sid, cred, mode)" by (metis not_None_eq surj_pair)
    let ?l3 = "pnfs_send_layoutreturn allocs sid cred mode l2"
    have "layout_ok ([], ?l3) \<and> lo_slack l2 - 1 \<le> lo_slack ?l3"
      using "1.IH" [OF n [symmetric]] True p req l2 "1.prems"(2) by simp
    then have l3: "layout_ok ([], ?l3)" "0 < lo_slack ?l3" "lo_slack lo \<le> lo_slack ?l3"
      using l2(2) req "1.prems"(2) by simp_all
    have "pnfs_put_layout_hdr allocs lo = pnfs_drop_layout_hdr ?l3"
      using n p True req by (subst pnfs_put_layout_hdr.simps) simp
    then show ?thesis using drop_hdr_ok [OF l3(1,2)] l3(3) by simp
  next
    case False
    then have "pnfs_put_layout_hdr allocs lo = pnfs_drop_layout_hdr (if b then l2 else l1)"
      using n p by (subst pnfs_put_layout_hdr.simps) (auto split: bool.split option.split)
    moreover have "layout_ok ([], if b then l2 else l1)" "lo_slack (if b then l2 else l1) = lo_slack lo"
      using l1 l2 False by auto
    ultimately show ?thesis using drop_hdr_ok [of "if b then l2 else l1"] "1.prems"(2) by simp
  qed
next
  case (2 allocs sid cred mode lo)
  have c: "core (pnfs_clear_layoutreturn_waitbit lo) = core lo" by simp
  show ?case
    using 2 layout_ok_core [OF c, of "[]"] lo_slack_core [OF c] by simp
next
  case (3 allocs sid cred mode lo)
  let ?lo = "lo\<lparr>sent_layoutreturns := sent_layoutreturns lo @
      [\<lparr>lr_stateid = sid, lr_cred = cred, lr_range = whole_range mode\<rparr>]\<rparr>"
  have c: "core ?lo = core lo" by simp
  show ?case using 3 layout_ok_core [OF c, of "[]"] lo_slack_core [OF c] by simp
next
  case (4 sid cred mode lo)
  let ?lo = "lo\<lparr>sent_layoutreturns := sent_layoutreturns lo @
      [\<lparr>lr_stateid = sid, lr_cred = cred, lr_range = whole_range mode\<rparr>]\<rparr>"
  have c: "core ?lo = core lo" by simp
  show ?case using 4 layout_ok_core [OF c, of "[]"] lo_slack_core [OF c] by simp
qed

section \<open>The end of a layout\<close>

text \<open>
  Only \<open>pnfs_put_layout_hdr\<close> detaches the header from its inode, and only when it drops the last
  reference.
\<close>

named_theorems detached_simps

lemma detached_fields [detached_simps]:
  "lo_detached (set_lo f lo) = lo_detached lo" "lo_detached (clear_lo f lo) = lo_detached lo"
  "lo_detached (upd_lseg s g lo) = lo_detached lo" "lo_detached (set_lseg h s lo) = lo_detached lo"
  "lo_detached (clear_lseg h s lo) = lo_detached lo" "lo_detached (pnfs_get_lseg s lo) = lo_detached lo"
  "lo_detached (pnfs_get_layout_hdr lo) = lo_detached lo"
  "lo_detached (pnfs_lseg_cancel_io s lo) = lo_detached lo"
  "lo_detached (pnfs_free_lseg_list st) = lo_detached (snd st)"
  "lo_detached (pnfs_clear_layoutreturn_waitbit lo) = lo_detached lo"
  by (simp_all add: set_lo_def clear_lo_def upd_lseg_def set_lseg_def clear_lseg_def pnfs_get_lseg_def
      pnfs_get_layout_hdr_def pnfs_lseg_cancel_io_def pnfs_free_lseg_list_def
      pnfs_clear_layoutreturn_waitbit_def Let_def case_prod_beta)

lemma detached_return_info [detached_simps]:
  "lo_detached (pnfs_barrier_update lo q) = lo_detached lo"
  "lo_detached (pnfs_set_plh_return_info lo m q) = lo_detached lo"
  by (simp_all add: pnfs_barrier_update_def pnfs_set_plh_return_info_def Let_def detached_simps)

lemma detached_clear_info [detached_simps]:
  "lo_detached (pnfs_clear_layoutreturn_info lo) = lo_detached lo"
  "lo_detached (pnfs_reset_return_info lo) = lo_detached lo"
  unfolding pnfs_clear_layoutreturn_info_def pnfs_reset_return_info_def Let_def
  by (subst fold_keeps [where g = lo_detached]; simp add: detached_simps)+

lemma detached_stateid [detached_simps]:
  "lo_detached (pnfs_set_layout_stateid e new cr b lo) = lo_detached lo"
  by (simp add: pnfs_set_layout_stateid_def pnfs_set_layout_cred_def Let_def detached_simps
      split: option.split)

lemma detached_remove [detached_simps]:
  "lo_detached (pnfs_layout_remove_lseg s lo) = lo_detached lo"
  by (simp add: pnfs_layout_remove_lseg_def Let_def detached_simps)

lemma detached_dec [detached_simps]:
  "lo_detached (snd (fst (pnfs_lseg_dec_and_remove_zero dst s st))) = lo_detached (snd st)"
  by (cases st; cases dst)
     (simp_all add: pnfs_lseg_dec_and_remove_zero_def list_add_dst_def Let_def detached_simps)

lemma detached_mark [detached_simps]:
  "lo_detached (snd (fst (mark_lseg_invalid dst s st))) = lo_detached (snd st)"
  by (cases st) (simp add: mark_lseg_invalid_def detached_simps)

lemma detached_clear_state [detached_simps]:
  "lo_detached (snd (pnfs_clear_lseg_state dst s st)) = lo_detached (snd st)"
  by (cases st) (simp add: pnfs_clear_lseg_state_def Let_def case_prod_beta detached_simps)

lemma detached_return_step: "lo_detached (snd (fst (lsegs_return_step r seq s a))) = lo_detached (snd (fst a))"
proof -
  obtain free lo dst n where a: "a = ((free, lo), dst, n)" by (metis surj_pair)
  let ?d = "if test_lseg NFS_LSEG_LAYOUTRETURN s lo then To_return else dst"
  obtain st b where m: "mark_lseg_invalid ?d s (free, lo) = (st, b)" by (metis surj_pair)
  have "lo_detached (snd st) = lo_detached lo" using detached_mark [of ?d s "(free, lo)"] m by simp
  then show ?thesis
    using a m by (cases b; cases st) (simp_all add: lsegs_return_step_def Let_def detached_simps)
qed

lemma detached_invalid_step: "lo_detached (snd (fst (lsegs_invalid_step r seq s a))) = lo_detached (snd (fst a))"
proof -
  obtain free lo n where a: "a = ((free, lo), n)" by (metis surj_pair)
  obtain st b where m: "mark_lseg_invalid To_free s (free, lo) = (st, b)" by (metis surj_pair)
  have "lo_detached (snd st) = lo_detached lo" using detached_mark [of To_free s "(free, lo)"] m by simp
  then show ?thesis
    using a m by (cases b; cases st) (simp_all add: lsegs_invalid_step_def detached_simps)
qed

lemma detached_walks [detached_simps]:
  "lo_detached (snd (fst (pnfs_mark_matching_lsegs_return dst r seq st))) = lo_detached (snd st)"
  "lo_detached (snd (fst (pnfs_mark_matching_lsegs_invalid ro seq st))) = lo_detached (snd st)"
proof -
  have "lo_detached (snd (fst (fold (lsegs_return_step r seq) xs a))) = lo_detached (snd (fst a))" for xs a
    by (rule fold_keeps [where g = "\<lambda>a. lo_detached (snd (fst a))"]) (rule detached_return_step)
  then show "lo_detached (snd (fst (pnfs_mark_matching_lsegs_return dst r seq st))) = lo_detached (snd st)"
    by (simp add: pnfs_mark_matching_lsegs_return_def Let_def case_prod_beta detached_simps)
  show "lo_detached (snd (fst (pnfs_mark_matching_lsegs_invalid ro seq st))) = lo_detached (snd st)"
    unfolding pnfs_mark_matching_lsegs_invalid_def
    by (subst fold_keeps [where g = "\<lambda>a. lo_detached (snd (fst a))"]) (simp_all add: detached_invalid_step)
qed

lemma detached_free_returned [detached_simps]:
  "lo_detached (snd (pnfs_free_returned_lsegs r seq st)) = lo_detached (snd st)"
  by (cases st) (simp add: pnfs_free_returned_lsegs_def)

lemma detached_stateid_invalid [detached_simps]:
  "lo_detached (snd (fst (pnfs_mark_layout_stateid_invalid st))) = lo_detached (snd st)"
proof -
  have "lo_detached (snd (fold (pnfs_clear_lseg_state dst) xs a)) = lo_detached (snd a)" for dst xs a
    by (rule fold_keeps [where g = "\<lambda>a. lo_detached (snd a)"]) (rule detached_clear_state)
  then show ?thesis
    by (cases st) (simp add: pnfs_mark_layout_stateid_invalid_def Let_def case_prod_beta detached_simps)
qed

lemma detached_prepare [detached_simps]:
  "lo_detached (fst (pnfs_prepare_layoutreturn lo)) = lo_detached lo"
  by (simp add: pnfs_prepare_layoutreturn_def Let_def detached_simps)

lemma detached_need_return [detached_simps]:
  "lo_detached (fst (pnfs_layout_need_return lo)) = lo_detached lo"
  by (simp add: pnfs_layout_need_return_def pnfs_mark_layout_stateid_return_def case_prod_beta
      detached_simps)

lemma detached_fail_bits [detached_simps]:
  "lo_detached (pnfs_layout_set_fail_bit e b lo) = lo_detached lo"
  "lo_detached (pnfs_layout_clear_fail_bit b lo) = lo_detached lo"
  by (simp_all add: pnfs_layout_set_fail_bit_def pnfs_layout_clear_fail_bit_def Let_def detached_simps)

text \<open>A detached header has no reference left, hence no segment.\<close>

definition end_ok :: "pnfs_layout_hdr \<Rightarrow> bool" where
  "end_ok lo \<longleftrightarrow> (lo_detached lo \<longrightarrow> plh_refcount lo = 0)"

lemma end_ok_live: "\<not> lo_detached lo \<Longrightarrow> end_ok lo"
  by (simp add: end_ok_def)

lemma drop_hdr_end: "\<not> lo_detached lo \<Longrightarrow> end_ok (pnfs_drop_layout_hdr lo)"
  by (simp add: end_ok_def pnfs_drop_layout_hdr_def Let_def clear_lo_def)

lemma end_ok_slack: "end_ok lo \<Longrightarrow> 0 < lo_slack lo \<Longrightarrow> \<not> lo_detached lo"
  by (auto simp: end_ok_def lo_slack_def)

lemma put_send_end:
  "layout_ok ([], lo) \<Longrightarrow> 0 < lo_slack lo \<Longrightarrow> \<not> lo_detached lo \<Longrightarrow>
     end_ok (pnfs_put_layout_hdr allocs lo)"
  "layout_ok ([], lo) \<Longrightarrow> 0 < lo_slack lo \<Longrightarrow> \<not> lo_detached lo \<Longrightarrow>
     end_ok (pnfs_send_layoutreturn allocs sid cred mode lo)"
proof (induction allocs lo and allocs sid cred mode lo
    rule: pnfs_put_layout_hdr_pnfs_send_layoutreturn.induct)
  case (1 allocs lo)
  obtain l1 b where n: "pnfs_layout_need_return lo = (l1, b)" by (metis surj_pair)
  have l1: "layout_ok ([], l1)" "lo_slack l1 = lo_slack lo" "\<not> lo_detached l1"
    using need_return_ok [OF "1.prems"(1) n] detached_need_return [of lo] n "1.prems"(3) by simp_all
  obtain l2 req where p: "pnfs_prepare_layoutreturn l1 = (l2, req)" by (metis surj_pair)
  have l2: "layout_ok ([], l2)" "lo_slack l2 = lo_slack lo + of_bool (req \<noteq> None)" "\<not> lo_detached l2"
    using prepare_ok [OF l1(1) p] l1(2,3) detached_prepare [of l1] p by simp_all
  show ?case
  proof (cases "b \<and> req \<noteq> None")
    case True
    then obtain sid cred mode where req: "req = Some (sid, cred, mode)" by (metis not_None_eq surj_pair)
    let ?l3 = "pnfs_send_layoutreturn allocs sid cred mode l2"
    have "end_ok ?l3"
      using "1.IH" [OF n [symmetric]] True p req l2 "1.prems"(2) by simp
    moreover have "0 < lo_slack ?l3"
      using put_send_ok(2) [OF l2(1), of allocs sid cred mode] l2(2) req "1.prems"(2) by simp
    ultimately have "\<not> lo_detached ?l3" by (rule end_ok_slack)
    moreover have "pnfs_put_layout_hdr allocs lo = pnfs_drop_layout_hdr ?l3"
      using n p True req by (subst pnfs_put_layout_hdr.simps) simp
    ultimately show ?thesis using drop_hdr_end by simp
  next
    case False
    then have "pnfs_put_layout_hdr allocs lo = pnfs_drop_layout_hdr (if b then l2 else l1)"
      using n p by (subst pnfs_put_layout_hdr.simps) (auto split: bool.split option.split)
    then show ?thesis using drop_hdr_end l1(3) l2(3) by simp
  qed
next
  case (2 allocs sid cred mode lo)
  have c: "core (pnfs_clear_layoutreturn_waitbit lo) = core lo" by simp
  show ?case
    using 2 layout_ok_core [OF c, of "[]"] lo_slack_core [OF c] by (simp add: detached_simps)
qed (simp_all add: end_ok_def)

section \<open>References to segments\<close>

lemma get_lseg_ok: "layout_ok ([], lo) \<Longrightarrow> s \<in> set (plh_segs lo) \<Longrightarrow> layout_ok ([], pnfs_get_lseg s lo)"
  by (auto simp: layout_ok_def pnfs_get_lseg_def lseg_need_def)

lemma find_lseg_ok: "layout_ok ([], lo) \<Longrightarrow> layout_ok ([], fst (pnfs_find_lseg r strict lo))"
  by (auto simp: pnfs_find_lseg_def find_Some_iff intro!: get_lseg_ok split: option.split)

text \<open>
  \<open>ends_with_put e lo lo'\<close>: a function that went from \<open>lo\<close> to \<open>lo'\<close> kept the invariant up to a last
  drop of a reference it held.
\<close>

definition ends_with_put :: "pnfs_env \<Rightarrow> pnfs_layout_hdr \<Rightarrow> pnfs_layout_hdr \<Rightarrow> bool" where
  "ends_with_put e lo lo' \<longleftrightarrow>
     layout_ok ([], lo') \<and> lo_detached lo' = lo_detached lo \<or>
     (\<exists>l. lo' = pnfs_put_layout_hdr (pe_allocs e) l \<and> layout_ok ([], l) \<and> 0 < lo_slack l \<and>
          lo_detached l = lo_detached lo)"

lemma ends_with_put_ok: "ends_with_put e lo lo' \<Longrightarrow> layout_ok ([], lo')"
  unfolding ends_with_put_def using put_send_ok(1) by blast

lemma ends_with_put_end: "ends_with_put e lo lo' \<Longrightarrow> \<not> lo_detached lo \<Longrightarrow> end_ok lo'"
  unfolding ends_with_put_def using put_send_end(1) end_ok_live by blast

lemma detached_cache [detached_simps]:
  "lo_detached (fst (pnfs_cache_lseg_for_layoutreturn s lo)) = lo_detached lo"
  by (simp add: pnfs_cache_lseg_for_layoutreturn_def Let_def detached_simps)

lemma cache_lseg_ok:
  assumes ok: "layout_ok ([s], lo)" and c: "pnfs_cache_lseg_for_layoutreturn s lo = (lo', b)"
  shows "layout_ok ([], if b then lo' else pnfs_free_lseg_list ([s], lo')) \<and> lo_slack lo' = lo_slack lo"
proof -
  let ?l1 = "clear_lseg NFS_LSEG_LAYOUTRETURN s lo"
  have l1: "layout_ok ([s], ?l1)" by (rule clear_lseg_ok [OF ok])
  have slack1: "lo_slack ?l1 = lo_slack lo" by (simp add: clear_lseg_def)
  show ?thesis
  proof (cases b)
    case True
    let ?l2 = "pnfs_set_plh_return_info ?l1 (iomode (pls_range (lsegs ?l1 s))) 0"
    have l2: "layout_ok ([s], ?l2)" "lo_slack ?l2 = lo_slack lo"
      using l1 slack1 layout_ok_core [of ?l2 ?l1 "[s]"] lo_slack_core [of ?l2 ?l1] by simp_all
    have lo': "lo' = ?l2\<lparr>plh_return_segs := plh_return_segs ?l2 @ [s]\<rparr>"
      using c True by (auto simp: pnfs_cache_lseg_for_layoutreturn_def Let_def split: if_splits)
    have "layout_ok ([], ?l2\<lparr>plh_return_segs := plh_return_segs ?l2 @ [s]\<rparr>)"
      using l2(1) by (auto simp: layout_ok_def lo_slack_def lo_fails_def)
    then show ?thesis using True lo' l2(2) by (simp add: lo_slack_def lo_fails_def)
  next
    case False
    then have "lo' = ?l1"
      using c by (auto simp: pnfs_cache_lseg_for_layoutreturn_def Let_def split: if_splits)
    then show ?thesis using False free_lseg_list_ok [OF l1] slack1 by simp
  qed
qed

lemma put_lseg_put:
  assumes ok: "layout_ok ([], lo)" and s: "s \<in> set (plh_segs lo)"
    and need: "lseg_need (lsegs lo s) < pls_refcount (lsegs lo s)"
  shows "ends_with_put e lo (mypnfs_put_lseg e s lo)"
proof -
  let ?l1 = "upd_lseg s (\<lambda>l. l\<lparr>pls_refcount := pls_refcount l - 1\<rparr>) lo"
  obtain st' b where d: "pnfs_lseg_dec_and_remove_zero To_free s ([], lo) = (st', b)"
    by (metis surj_pair)
  have st': "layout_ok st'" "seg_only s ([], lo) st'"
    using dec_and_remove_zero_ok [OF ok s need d] by simp_all
  show ?thesis
  proof (cases "pls_refcount (lsegs lo s) = 1")
    case False
    then have "st' = ([], ?l1)" "mypnfs_put_lseg e s lo = ?l1"
      using d need by (auto simp: pnfs_lseg_dec_and_remove_zero_def mypnfs_put_lseg_def Let_def)
    then show ?thesis using st' by (simp add: ends_with_put_def detached_simps)
  next
    case True
    then have s': "st' = ([s], pnfs_layout_remove_lseg s ?l1)"
      using d by (auto simp: pnfs_lseg_dec_and_remove_zero_def list_add_dst_def Let_def)
    let ?l2 = "pnfs_layout_remove_lseg s (pnfs_get_layout_hdr ?l1)"
    let ?g = "pnfs_get_layout_hdr (pnfs_layout_remove_lseg s ?l1)"
    have "length (plh_segs lo) \<noteq> 0" using s by auto
    moreover have "0 \<le> lo_slack lo" using ok by (simp add: layout_ok_def)
    ultimately have pos: "0 < plh_refcount lo" unfolding lo_slack_def by linarith
    have c1: "core (pnfs_layout_remove_lseg s ?l1) =
        core (?l1\<lparr>plh_segs := removeAll s (plh_segs lo), plh_refcount := plh_refcount lo - 1\<rparr>)"
      by (simp add: remove_lseg_core)
    have c: "core ?l2 = core ?g"
      unfolding remove_lseg_core using c1 pos
      by (simp add: core_def pnfs_get_layout_hdr_def lo_fails_def)
    have l2: "layout_ok ([s], ?l2)"
      using get_hdr_ok [of "[s]" "pnfs_layout_remove_lseg s ?l1"] st'(1) s' layout_ok_core [OF c] by simp
    have slack: "lo_slack ?l2 = lo_slack lo + 1"
      using get_hdr_slack [of "pnfs_layout_remove_lseg s ?l1"] lo_slack_core [OF c] st'(2) s'
      by (simp add: seg_only_def)
    obtain l3 cd where cache: "pnfs_cache_lseg_for_layoutreturn s ?l2 = (l3, cd)" by (metis surj_pair)
    let ?l4 = "if cd then l3 else pnfs_free_lseg_list ([s], l3)"
    have l4: "layout_ok ([], ?l4)" "0 < lo_slack ?l4"
      using cache_lseg_ok [OF l2 cache] slack \<open>0 \<le> lo_slack lo\<close> by auto
    have "mypnfs_put_lseg e s lo = pnfs_put_layout_hdr (pe_allocs e) ?l4"
      using True cache by (simp add: mypnfs_put_lseg_def Let_def)
    moreover have "lo_detached l3 = lo_detached ?l2"
      using detached_cache [of s ?l2] by (simp only: cache fst_conv)
    then have "lo_detached ?l4 = lo_detached lo" by (simp add: detached_simps)
    ultimately show ?thesis unfolding ends_with_put_def using l4 by blast
  qed
qed

section \<open>Inserting a segment\<close>

lemma insert_point_ok:
  assumes "layout_ok st" "set lps \<subseteq> set (plh_segs (snd st))" "distinct lps" "s \<notin> set lps"
    "generic_insert_point is_after do_merge lseg lps st = (st', at)"
  shows "layout_ok st' \<and> lsegs (snd st') s = lsegs (snd st) s \<and>
    set (plh_segs (snd st')) \<union> set (plh_return_segs (snd st')) \<union> set (fst st') =
      set (plh_segs (snd st)) \<union> set (plh_return_segs (snd st)) \<union> set (fst st) \<and>
    freed_lsegs (snd st') = freed_lsegs (snd st)"
  using assms
proof (induction is_after do_merge lseg lps st rule: generic_insert_point.induct)
  case (2 is_after do_merge lseg lp lps st)
  have sub: "set lps \<subseteq> set (plh_segs (snd st))" "distinct lps" "s \<notin> set lps" "s \<noteq> lp"
    using "2.prems" by auto
  show ?case
  proof (cases "test_lseg NFS_LSEG_VALID lp (snd st) \<and> do_merge lseg (lsegs (snd st) lp)")
    case True
    obtain st1 b where m: "mark_lseg_invalid To_free lp st = (st1, b)" by (metis surj_pair)
    have st1: "layout_ok st1" "seg_only lp st st1"
      using mark_lseg_invalid_ok [of "fst st" "snd st" lp To_free st1 b] m "2.prems" by auto
    have "set lps \<subseteq> set (plh_segs (snd st1))"
      using st1(2) "2.prems" by (auto simp: seg_only_def)
    then have "layout_ok st' \<and> lsegs (snd st') s = lsegs (snd st1) s \<and>
        set (plh_segs (snd st')) \<union> set (plh_return_segs (snd st')) \<union> set (fst st') =
          set (plh_segs (snd st1)) \<union> set (plh_return_segs (snd st1)) \<union> set (fst st1) \<and>
        freed_lsegs (snd st') = freed_lsegs (snd st1)"
      using "2.IH"(2) True m st1(1) sub "2.prems"(5) by simp
    then show ?thesis using st1(2) sub(4) by (simp add: seg_only_def)
  next
    case False
    then show ?thesis
      using "2.IH"(1,3) "2.prems" sub by (auto split: if_splits)
  qed
qed auto

lemma set_insert_before [simp]: "set (insert_before at s xs) = insert s (set xs)"
  by (induction xs) auto

lemma distinct_insert_before: "distinct xs \<Longrightarrow> s \<notin> set xs \<Longrightarrow> distinct (insert_before at s xs)"
  by (induction xs) auto

lemma length_insert_before [simp]: "length (insert_before at s xs) = Suc (length xs)"
  by (induction xs) auto

lemma insert_lseg_ok:
  assumes ok: "layout_ok ([], lo)"
    and new: "s \<notin> set (plh_segs lo) \<union> set (plh_return_segs lo) \<union> set (freed_lsegs lo)"
    and ref: "0 < pls_refcount (lsegs lo s)" "lseg_need (lsegs lo s) \<le> pls_refcount (lsegs lo s)"
  shows "layout_ok (mypnfs_generic_layout_insert_lseg is_after do_merge s ([], lo)) \<and>
    s \<in> set (plh_segs (snd (mypnfs_generic_layout_insert_lseg is_after do_merge s ([], lo)))) \<and>
    lsegs (snd (mypnfs_generic_layout_insert_lseg is_after do_merge s ([], lo))) s = lsegs lo s"
proof -
  obtain free l at where w: "generic_insert_point is_after do_merge (lsegs lo s) (plh_segs lo) ([], lo) =
      ((free, l), at)"
    by (metis surj_pair)
  have W: "layout_ok (free, l)" "lsegs l s = lsegs lo s"
      "set (plh_segs l) \<union> set (plh_return_segs l) \<union> set free = set (plh_segs lo) \<union> set (plh_return_segs lo)"
      "freed_lsegs l = freed_lsegs lo"
    using insert_point_ok [OF ok _ _ _ w, of s] segs_distinct [OF ok] new by simp_all
  have "s \<notin> set (plh_segs l)" "s \<notin> set (plh_return_segs l)" "s \<notin> set free" "s \<notin> set (freed_lsegs l)"
    using new W(3,4) by auto
  then have "layout_ok (free, pnfs_get_layout_hdr (l\<lparr>plh_segs := insert_before at s (plh_segs l)\<rparr>))"
    using W(1,2) ref
    by (auto simp: layout_ok_def pnfs_get_layout_hdr_def lo_slack_def lo_fails_def distinct_insert_before)
  then show ?thesis
    using w W(2) by (simp add: mypnfs_generic_layout_insert_lseg_def pnfs_get_layout_hdr_def)
qed

text \<open>
  A layout driver's own \<open>add_lseg\<close> is the generic insertion with another order and another rule for
  merging, as that of the flexible file layout.
\<close>

definition driver_insert :: "(nat \<Rightarrow> layout_st \<Rightarrow> layout_st) option \<Rightarrow> bool" where
  "driver_insert f \<longleftrightarrow>
     f = None \<or> (\<exists>is_after do_merge. f = Some (mypnfs_generic_layout_insert_lseg is_after do_merge))"

lemma layout_insert_lseg_ok:
  assumes "driver_insert f" "layout_ok ([], lo)"
    "s \<notin> set (plh_segs lo) \<union> set (plh_return_segs lo) \<union> set (freed_lsegs lo)"
    "0 < pls_refcount (lsegs lo s)" "lseg_need (lsegs lo s) \<le> pls_refcount (lsegs lo s)"
  shows "layout_ok (pnfs_layout_insert_lseg f s ([], lo)) \<and>
    s \<in> set (plh_segs (snd (pnfs_layout_insert_lseg f s ([], lo)))) \<and>
    lsegs (snd (pnfs_layout_insert_lseg f s ([], lo))) s = lsegs lo s"
  using insert_lseg_ok [OF assms(2-5)] assms(1)
  by (auto simp: pnfs_layout_insert_lseg_def driver_insert_def)

definition fresh_lseg :: "nat \<Rightarrow> pnfs_layout_hdr \<Rightarrow> bool" where
  "fresh_lseg s lo \<longleftrightarrow>
     s \<notin> set (plh_segs lo) \<union> set (plh_return_segs lo) \<union> set (freed_lsegs lo) \<and>
     pls_flags (lsegs lo s) = {}"

lemma init_lseg_ok:
  "layout_ok ([], lo) \<Longrightarrow> fresh_lseg s lo \<Longrightarrow> layout_ok ([], pnfs_init_lseg s r sid lo)"
  by (auto simp: layout_ok_def fresh_lseg_def pnfs_init_lseg_def)

text \<open>The two ends of \<open>pnfs_layout_process\<close>.\<close>

definition process_forget :: "nat \<Rightarrow> pnfs_layout_hdr \<Rightarrow> pnfs_layout_hdr \<times> (int + nat)" where
  "process_forget s lo = (lo\<lparr>freed_lsegs := freed_lsegs lo @ [s]\<rparr>, Inl (- EAGAIN))"

definition process_install ::
  "(nat \<Rightarrow> layout_st \<Rightarrow> layout_st) option \<Rightarrow> bool \<Rightarrow> nat \<Rightarrow> pnfs_layout_hdr \<Rightarrow>
   pnfs_layout_hdr \<times> (int + nat)" where
  "process_install f roc s lo =
     (case pnfs_layout_insert_lseg f s ([], pnfs_get_lseg s lo) of
        (free, lo) \<Rightarrow> (pnfs_free_lseg_list (free, if roc then set_lseg NFS_LSEG_ROC s lo else lo), Inr s))"

lemma layout_process_eq:
  "pnfs_layout_process e f alloc res cred lo =
     (if \<not> pnfs_sanity_check_layout_range (lg_range res) then (lo, Inl (- EINVAL))
      else case alloc of Inl err \<Rightarrow> (lo, Inl err)
      | Inr s \<Rightarrow>
          let lo = pnfs_init_lseg s (lg_range res) (lg_stateid res) lo
          in if pnfs_layoutgets_blocked lo then process_forget s lo
             else if NFS_LAYOUT_DRAIN \<in> plh_flags lo \<and> NFS_LAYOUT_FIRST_LAYOUTGET \<notin> plh_flags lo
             then process_forget s lo
             else if nfs4_stateid_match_other (plh_stateid lo) (lg_stateid res)
             then if pnfs_layout_stateid_blocked lo (lg_stateid res)
                  then process_forget s (if \<not> pnfs_layout_is_valid lo then lo\<lparr>plh_barrier := 0\<rparr> else lo)
                  else process_install f (lg_return_on_close res) s
                         (pnfs_set_layout_stateid e (lg_stateid res) (Some cred) False lo)
             else if pnfs_layout_is_valid lo
             then process_forget s (snd (fst (pnfs_mark_matching_lsegs_return To_free
                                               (whole_range IOMODE_ANY) 0 ([], lo))))
             else process_install f (lg_return_on_close res) s
                    (pnfs_set_layout_stateid e (lg_stateid res) (Some cred) True lo))"
  by (simp only: pnfs_layout_process_def process_forget_def process_install_def Let_def case_prod_beta)

lemma process_forget_ok:
  assumes "layout_ok ([], lo)"
    "s \<notin> set (plh_segs lo) \<union> set (plh_return_segs lo) \<union> set (freed_lsegs lo)"
  shows "layout_ok ([], fst (process_forget s lo))"
  using assms by (auto simp: process_forget_def layout_ok_def lo_slack_def lo_fails_def)

lemma process_install_ok:
  assumes f: "driver_insert f" and ok: "layout_ok ([], lo)"
    and s: "s \<notin> set (plh_segs lo) \<union> set (plh_return_segs lo) \<union> set (freed_lsegs lo)"
    and l: "pls_refcount (lsegs lo s) = 1" "pls_flags (lsegs lo s) = {NFS_LSEG_VALID}"
  shows "layout_ok ([], fst (process_install f roc s lo)) \<and>
    snd (process_install f roc s lo) = Inr s \<and>
    s \<in> set (plh_segs (fst (process_install f roc s lo))) \<and>
    test_lseg NFS_LSEG_VALID s (fst (process_install f roc s lo)) \<and>
    pls_range (lsegs (fst (process_install f roc s lo)) s) = pls_range (lsegs lo s)"
proof -
  let ?l1 = "pnfs_get_lseg s lo"
  have l1: "layout_ok ([], ?l1)"
    using ok s by (auto simp: layout_ok_def pnfs_get_lseg_def)
  have ref: "0 < pls_refcount (lsegs ?l1 s)" "lseg_need (lsegs ?l1 s) \<le> pls_refcount (lsegs ?l1 s)"
    using l by (simp_all add: pnfs_get_lseg_def lseg_need_def)
  obtain free l2 where i: "pnfs_layout_insert_lseg f s ([], ?l1) = (free, l2)" by (metis surj_pair)
  have l2: "layout_ok (free, l2)" "s \<in> set (plh_segs l2)" "lsegs l2 s = lsegs ?l1 s"
    using layout_insert_lseg_ok [OF f l1 _ ref] s i by (simp_all add: pnfs_get_lseg_def)
  let ?l3 = "if roc then set_lseg NFS_LSEG_ROC s l2 else l2"
  have "layout_ok (free, ?l3)"
    using l2(1) set_lseg_ok [OF l2(1), of NFS_LSEG_ROC s] by simp
  then have "layout_ok ([], pnfs_free_lseg_list (free, ?l3))" by (rule free_lseg_list_ok)
  moreover have "process_install f roc s lo = (pnfs_free_lseg_list (free, ?l3), Inr s)"
    using i by (simp add: process_install_def)
  moreover have "s \<in> set (plh_segs ?l3)" "test_lseg NFS_LSEG_VALID s ?l3"
      "pls_range (lsegs ?l3 s) = pls_range (lsegs lo s)"
    using l2(2,3) l by (cases roc; simp add: set_lseg_def test_lseg_def pnfs_get_lseg_def)+
  ultimately show ?thesis by (simp add: pnfs_free_lseg_list_def test_lseg_def)
qed

lemma layout_process_ok:
  assumes f: "driver_insert f" and ok: "layout_ok ([], lo)"
    and fresh: "\<And>s. alloc = Inr s \<Longrightarrow> fresh_lseg s lo"
  shows "layout_ok ([], fst (pnfs_layout_process e f alloc res cred lo))"
proof (cases "pnfs_sanity_check_layout_range (lg_range res) \<and> \<not> isl alloc")
  case True
  then obtain s where s: "alloc = Inr s" by (cases alloc) auto
  let ?l1 = "pnfs_init_lseg s (lg_range res) (lg_stateid res) lo"
  have l1: "layout_ok ([], ?l1)" using init_lseg_ok [OF ok fresh [OF s]] .
  have ns: "s \<notin> set (plh_segs ?l1) \<union> set (plh_return_segs ?l1) \<union> set (freed_lsegs ?l1)"
    using fresh [OF s] by (simp add: fresh_lseg_def pnfs_init_lseg_def)
  have ls: "pls_refcount (lsegs ?l1 s) = 1" "pls_flags (lsegs ?l1 s) = {NFS_LSEG_VALID}"
    using fresh [OF s] by (simp_all add: fresh_lseg_def pnfs_init_lseg_def)
  have inst: "layout_ok ([], fst (process_install f roc s l))" if c: "core l = core ?l1" for roc l
    using process_install_ok [OF f, of l s roc] l1 ns ls layout_ok_core [OF c, of "[]"]
      core_segs [OF c] core_ret [OF c] core_freed [OF c] core_lsegs [OF c]
    by simp
  have forg: "layout_ok ([], fst (process_forget s l))" if c: "core l = core ?l1" for l
    using process_forget_ok [of l s] l1 ns layout_ok_core [OF c, of "[]"]
      core_segs [OF c] core_ret [OF c] core_freed [OF c]
    by simp
  obtain free l2 rv where m: "pnfs_mark_matching_lsegs_return To_free (whole_range IOMODE_ANY) 0
      ([], ?l1) = ((free, l2), rv)"
    by (metis surj_pair)
  have l2: "layout_ok (free, l2)" "set (plh_segs l2) \<union> set (plh_return_segs l2) \<union> set free =
      set (plh_segs ?l1) \<union> set (plh_return_segs ?l1)" "freed_lsegs l2 = freed_lsegs ?l1"
    using mark_return_ok [OF l1 m] by (simp_all add: segs_recalled_def)
  have "layout_ok ([], l2)" using l2(1) by (auto simp: layout_ok_def)
  then have "layout_ok ([], fst (process_forget s l2))"
    by (rule process_forget_ok) (use ns l2(2,3) in auto)
  then show ?thesis
    using True s m by (simp add: layout_process_eq Let_def inst forg)
qed (use ok in \<open>auto simp: layout_process_eq split: sum.splits\<close>)

section \<open>The life of a layout\<close>

lemma alloc_init_ok: "layout_ok ([], alloc_init_layout_hdr cred)"
  by (simp add: layout_ok_def alloc_init_layout_hdr_def lo_slack_def lo_fails_def)

lemma set_fail_bit_ok:
  assumes "layout_ok (free, lo)" "b = NFS_LAYOUT_RO_FAILED \<or> b = NFS_LAYOUT_RW_FAILED"
  shows "layout_ok (free, pnfs_layout_set_fail_bit e b lo)"
  using assms
  by (auto simp: layout_ok_def pnfs_layout_set_fail_bit_def Let_def pnfs_get_layout_hdr_def set_lo_def
      lo_slack_def lo_fails_def)

lemma clear_fail_bit_ok:
  assumes ok: "layout_ok (free, lo)" and b: "b = NFS_LAYOUT_RO_FAILED \<or> b = NFS_LAYOUT_RW_FAILED"
  shows "layout_ok (free, pnfs_layout_clear_fail_bit b lo) \<and>
    lo_slack (pnfs_layout_clear_fail_bit b lo) = lo_slack lo"
proof (cases "b \<in> plh_flags lo")
  case True
  then have f: "Suc (lo_fails (clear_lo b lo)) = lo_fails lo"
    using b by (auto simp: lo_fails_def clear_lo_def)
  have "0 \<le> lo_slack lo" using ok by (simp add: layout_ok_def)
  then have r: "int (plh_refcount lo - 1) = int (plh_refcount lo) - 1"
    using f unfolding lo_slack_def by linarith
  have "lo_slack ((clear_lo b lo)\<lparr>plh_refcount := plh_refcount lo - 1\<rparr>) =
      int (plh_refcount lo - 1) - int (length (plh_segs lo)) - int (lo_fails (clear_lo b lo))"
    by (simp add: lo_slack_def lo_fails_def clear_lo_def)
  also have "\<dots> = lo_slack lo" using r f unfolding lo_slack_def by linarith
  finally have "lo_slack (pnfs_layout_clear_fail_bit b lo) = lo_slack lo"
    using True by (simp add: pnfs_layout_clear_fail_bit_def)
  moreover from this have "layout_ok (free, pnfs_layout_clear_fail_bit b lo)"
    using ok True by (simp add: layout_ok_def pnfs_layout_clear_fail_bit_def clear_lo_def)
  ultimately show ?thesis by simp
qed (use ok in \<open>simp add: pnfs_layout_clear_fail_bit_def\<close>)

lemma io_set_failed_ok:
  assumes "layout_ok ([], lo)"
  shows "layout_ok ([], pnfs_layout_io_set_failed e m lo)"
proof -
  let ?lo = "pnfs_layout_set_fail_bit e (pnfs_iomode_to_fail_bit m) lo"
  have ok: "layout_ok ([], ?lo)"
    by (rule set_fail_bit_ok [OF assms]) (simp add: pnfs_iomode_to_fail_bit_def)
  obtain st rv where r: "pnfs_mark_matching_lsegs_return To_free (whole_range m) 0 ([], ?lo) = (st, rv)"
    by (metis surj_pair)
  show ?thesis
    using mark_return_ok [OF ok r] r free_lseg_list_ok by (simp add: pnfs_layout_io_set_failed_def)
qed

lemma io_test_failed_ok:
  assumes "layout_ok ([], lo)"
  shows "layout_ok ([], fst (pnfs_layout_io_test_failed e m lo))"
  using assms clear_fail_bit_ok [OF assms, of "pnfs_iomode_to_fail_bit m"]
  by (auto simp: pnfs_layout_io_test_failed_def Let_def pnfs_iomode_to_fail_bit_def)

lemma set_layoutcommit_ok:
  assumes "layout_ok ([], lo)" "s \<in> set (plh_segs lo)"
  shows "layout_ok ([], mypnfs_set_layoutcommit s p lo)"
  using assms
  by (auto simp: mypnfs_set_layoutcommit_def Let_def layout_ok_def pnfs_get_lseg_def set_lseg_def
      lseg_need_def test_lseg_def lo_slack_def lo_fails_def)

lemma list_write_lseg_ok:
  assumes "layout_ok ([], lo)"
  shows "layout_ok ([], fst (pnfs_list_write_lseg lo))"
proof -
  let ?f = "\<lambda>s (lo, listp).
      if iomode (pls_range (lsegs lo s)) = IOMODE_RW \<and> test_lseg NFS_LSEG_LAYOUTCOMMIT s lo
      then (clear_lseg NFS_LSEG_LAYOUTCOMMIT s lo, s # listp) else (lo, listp)"
  have "layout_ok ([], fst (fold ?f xs (lo, l)))" if "layout_ok ([], lo)" for xs lo l
    using that by (induction xs arbitrary: lo l) (auto intro: clear_lseg_ok)
  then show ?thesis using assms by (simp add: pnfs_list_write_lseg_def)
qed

lemma destroy_layout_put:
  assumes "layout_ok ([], lo)"
  shows "ends_with_put e lo (pnfs_destroy_layout e lo)"
proof -
  let ?g = "pnfs_get_layout_hdr lo"
  have g: "layout_ok ([], ?g)" using get_hdr_ok [OF assms] .
  obtain free l b where m: "pnfs_mark_layout_stateid_invalid ([], ?g) = ((free, l), b)"
    by (metis surj_pair)
  have l: "layout_ok (free, l)" using mark_stateid_invalid_ok [OF g] m by simp
  have slack: "0 < lo_slack l"
  proof -
    have "lo_slack l = lo_slack ?g"
      using mark_stateid_invalid_slack [OF g] m by simp
    then show ?thesis using get_hdr_slack [of lo] assms by (simp add: layout_ok_def)
  qed
  let ?c = "pnfs_layout_clear_fail_bit NFS_LAYOUT_RW_FAILED
      (pnfs_layout_clear_fail_bit NFS_LAYOUT_RO_FAILED l)"
  have c: "layout_ok (free, ?c)" "lo_slack ?c = lo_slack l"
    using clear_fail_bit_ok [OF conjunct1 [OF clear_fail_bit_ok [OF l, of NFS_LAYOUT_RO_FAILED]],
        of NFS_LAYOUT_RW_FAILED] clear_fail_bit_ok [OF l, of NFS_LAYOUT_RO_FAILED] by simp_all
  have "lo_detached l = lo_detached lo"
    using detached_stateid_invalid [of "([], ?g)"]
    by (simp only: m fst_conv snd_conv detached_fields)
  then have "lo_detached (pnfs_free_lseg_list (free, ?c)) = lo_detached lo" by (simp add: detached_simps)
  moreover have "layout_ok ([], pnfs_free_lseg_list (free, ?c))" by (rule free_lseg_list_ok [OF c(1)])
  moreover have "0 < lo_slack (pnfs_free_lseg_list (free, ?c))" using c(2) slack by simp
  moreover have "pnfs_destroy_layout e lo = pnfs_put_layout_hdr (pe_allocs e) (pnfs_free_lseg_list (free, ?c))"
    using m by (simp add: pnfs_destroy_layout_def Let_def)
  ultimately show ?thesis unfolding ends_with_put_def by blast
qed

lemma mark_for_return_ok:
  assumes ok: "layout_ok ([], lo)"
  shows "layout_ok ([], pnfs_mark_layout_for_return e r lo) \<and>
    (\<not> lo_detached lo \<longrightarrow> end_ok (pnfs_mark_layout_for_return e r lo))"
proof (cases "pnfs_layout_is_valid lo")
  case True
  let ?l1 = "pnfs_set_plh_return_info lo (iomode r) 0"
  have c1: "core ?l1 = core lo" by simp
  have l1: "layout_ok ([], ?l1)" using ok layout_ok_core [OF c1, of "[]"] by simp
  obtain free l2 rv where m: "pnfs_mark_matching_lsegs_return To_return r 0 ([], ?l1) = ((free, l2), rv)"
    by (metis surj_pair)
  have "free = []" using mark_return_keeps_free [OF m] by simp
  then have l2: "layout_ok ([], l2)" using mark_return_ok [OF l1 m] by simp
  obtain l3 req where p: "pnfs_prepare_layoutreturn l2 = (l3, req)" by (metis surj_pair)
  have l3: "layout_ok ([], l3)" "lo_slack l3 = lo_slack l2 + of_bool (req \<noteq> None)"
    using prepare_ok [OF l2 p] by simp_all
  have s2: "0 \<le> lo_slack l2" using l2 by (simp add: layout_ok_def)
  have d2: "lo_detached l2 = lo_detached lo"
    using detached_walks(1) [of To_return r 0 "([], ?l1)"]
    by (simp only: m fst_conv snd_conv detached_return_info)
  have d3: "lo_detached l3 = lo_detached lo" using detached_prepare [of l2] p d2 by simp
  show ?thesis
  proof (cases req)
    case None
    then show ?thesis
      using True m p l2 l3(1) d2 d3 by (simp add: pnfs_mark_layout_for_return_def Let_def end_ok_live)
  next
    case (Some x)
    obtain sid cred mode where x: "x = (sid, cred, mode)" by (metis surj_pair)
    have "0 < lo_slack l3" using l3(2) s2 Some by simp
    then have "layout_ok ([], pnfs_send_layoutreturn (pe_allocs e) sid cred mode l3)"
        "\<not> lo_detached lo \<longrightarrow> end_ok (pnfs_send_layoutreturn (pe_allocs e) sid cred mode l3)"
      using put_send_ok(2) [OF l3(1)] put_send_end(2) [OF l3(1)] d3 by simp_all
    then show ?thesis
      using True m p l2 d2 Some x by (simp add: pnfs_mark_layout_for_return_def Let_def end_ok_live)
  qed
qed (use ok in \<open>simp add: pnfs_mark_layout_for_return_def end_ok_live\<close>)

lemma recall_ok:
  assumes ok: "layout_ok ([], lo)"
  shows "layout_ok ([], pnfs_free_lseg_list (fst (pnfs_mark_matching_lsegs_return To_free r seq ([], lo))))"
proof -
  obtain st rv where m: "pnfs_mark_matching_lsegs_return To_free r seq ([], lo) = (st, rv)"
    by (metis surj_pair)
  show ?thesis using mark_return_ok [OF ok m] m free_lseg_list_ok by simp
qed

lemma refresh_ok:
  assumes ok: "layout_ok ([], lo)"
  shows "layout_ok ([], fst (nfs4_layout_refresh_old_stateid sid r lo))"
proof -
  obtain st rv where m: "pnfs_mark_matching_lsegs_return To_free (whole_range IOMODE_ANY) 0 ([], lo) = (st, rv)"
    by (metis surj_pair)
  have "layout_ok ([], pnfs_free_lseg_list st)"
    using recall_ok [OF ok, of "whole_range IOMODE_ANY" 0] m by simp
  then show ?thesis using ok m by (simp add: nfs4_layout_refresh_old_stateid_def Let_def)
qed

lemma layoutget_begin_end_ok:
  assumes "layout_ok ([], lo)"
  shows "layout_ok ([], nfs_layoutget_begin lo)" "layout_ok ([], nfs_layoutget_end lo)"
proof -
  have "core (nfs_layoutget_begin lo) = core lo" "core (nfs_layoutget_end lo) = core lo"
    by (simp_all add: nfs_layoutget_begin_def nfs_layoutget_end_def Let_def)
  then show "layout_ok ([], nfs_layoutget_begin lo)" "layout_ok ([], nfs_layoutget_end lo)"
    using assms layout_ok_core by blast+
qed

text \<open>
  The steps of a layout, each what one holder of the inode's lock does. A reference is dropped only
  by one who has it: a segment's by a holder beyond the flags that keep one, the header's by a
  holder beyond its segments and failure flags. The new segment of a LAYOUTGET reply is one the
  layout does not know yet.
\<close>

inductive layout_step :: "pnfs_env \<Rightarrow> pnfs_layout_hdr \<Rightarrow> pnfs_layout_hdr \<Rightarrow> bool" for e where
  step_process:
    "driver_insert f \<Longrightarrow> (\<And>s. alloc = Inr s \<Longrightarrow> fresh_lseg s lo) \<Longrightarrow>
     layout_step e lo (fst (pnfs_layout_process e f alloc res cred lo))"
| step_find: "layout_step e lo (fst (pnfs_find_lseg r strict lo))"
| step_put_lseg:
    "s \<in> set (plh_segs lo) \<Longrightarrow> lseg_need (lsegs lo s) < pls_refcount (lsegs lo s) \<Longrightarrow>
     layout_step e lo (mypnfs_put_lseg e s lo)"
| step_set_layoutcommit: "s \<in> set (plh_segs lo) \<Longrightarrow> layout_step e lo (mypnfs_set_layoutcommit s p lo)"
| step_layoutcommit: "layout_step e lo (fst (pnfs_list_write_lseg lo))"
| step_recall:
    "layout_step e lo (pnfs_free_lseg_list (fst (pnfs_mark_matching_lsegs_return To_free r seq ([], lo))))"
| step_error_return: "layout_step e lo (pnfs_mark_layout_for_return e r lo)"
| step_returned: "layout_step e lo (pnfs_layoutreturn_free_lsegs e arg r sid lo)"
| step_return_retry: "layout_step e lo (pnfs_layoutreturn_retry_later arg r lo)"
| step_old_stateid: "layout_step e lo (fst (nfs4_layout_refresh_old_stateid arg r lo))"
| step_get_hdr: "layout_step e lo (pnfs_get_layout_hdr lo)"
| step_put_hdr: "0 < lo_slack lo \<Longrightarrow> layout_step e lo (pnfs_put_layout_hdr (pe_allocs e) lo)"
| step_io_failed: "layout_step e lo (pnfs_layout_io_set_failed e m lo)"
| step_io_test: "layout_step e lo (fst (pnfs_layout_io_test_failed e m lo))"
| step_begin: "layout_step e lo (nfs_layoutget_begin lo)"
| step_end: "0 < plh_outstanding lo \<Longrightarrow> layout_step e lo (nfs_layoutget_end lo)"
| step_destroy: "layout_step e lo (pnfs_destroy_layout e lo)"

inductive layout_reach :: "pnfs_layout_hdr \<Rightarrow> bool" where
  reach_new: "layout_reach (alloc_init_layout_hdr cred)"
| reach_step: "layout_reach lo \<Longrightarrow> \<not> lo_detached lo \<Longrightarrow> layout_step e lo lo' \<Longrightarrow> layout_reach lo'"

lemma layout_step_ok: "layout_step e lo lo' \<Longrightarrow> layout_ok ([], lo) \<Longrightarrow> layout_ok ([], lo')"
proof (induction rule: layout_step.induct)
  case (step_put_hdr lo)
  then show ?case using put_send_ok(1) by blast
qed (simp_all only: layout_process_ok find_lseg_ok ends_with_put_ok [OF put_lseg_put] set_layoutcommit_ok
    list_write_lseg_ok recall_ok mark_for_return_ok layoutreturn_free_lsegs_ok retry_later_ok refresh_ok
    get_hdr_ok io_set_failed_ok io_test_failed_ok layoutget_begin_end_ok
    ends_with_put_ok [OF destroy_layout_put])

lemma detached_process [detached_simps]:
  assumes "driver_insert f"
  shows "lo_detached (fst (pnfs_layout_process e f alloc res cred lo)) = lo_detached lo"
proof -
  have point: "lo_detached (snd (fst (generic_insert_point ia dm l lps st))) = lo_detached (snd st)"
    for ia dm l lps st
    by (induction ia dm l lps st rule: generic_insert_point.induct) (simp_all add: detached_simps)
  have gen: "lo_detached (snd (mypnfs_generic_layout_insert_lseg ia dm s st)) = lo_detached (snd st)"
    for ia dm s st
    using point [of ia dm "lsegs (snd st) s" "plh_segs (snd st)" st]
    by (simp add: mypnfs_generic_layout_insert_lseg_def case_prod_beta detached_simps)
  have "lo_detached (snd (pnfs_layout_insert_lseg f s st)) = lo_detached (snd st)" for s st
    using assms by (cases st) (auto simp: pnfs_layout_insert_lseg_def driver_insert_def gen)
  then have inst: "lo_detached (fst (process_install f roc s l)) = lo_detached l" for roc s l
    by (simp add: process_install_def case_prod_beta detached_simps)
  have "lo_detached (fst (process_forget s l)) = lo_detached l" for s l
    by (simp add: process_forget_def)
  then show ?thesis
    using inst by (simp add: layout_process_eq Let_def pnfs_init_lseg_def detached_simps split: sum.split)
qed

lemma detached_live_steps [detached_simps]:
  "lo_detached (fst (pnfs_find_lseg r strict lo)) = lo_detached lo"
  "lo_detached (mypnfs_set_layoutcommit s p lo) = lo_detached lo"
  "lo_detached (fst (pnfs_list_write_lseg lo)) = lo_detached lo"
  "lo_detached (pnfs_layoutreturn_free_lsegs e arg r sid lo) = lo_detached lo"
  "lo_detached (pnfs_layoutreturn_retry_later arg r lo) = lo_detached lo"
  "lo_detached (fst (nfs4_layout_refresh_old_stateid arg r lo)) = lo_detached lo"
  "lo_detached (pnfs_layout_io_set_failed e m lo) = lo_detached lo"
  "lo_detached (fst (pnfs_layout_io_test_failed e m lo)) = lo_detached lo"
  "lo_detached (nfs_layoutget_begin lo) = lo_detached lo"
  "lo_detached (nfs_layoutget_end lo) = lo_detached lo"
proof -
  show "lo_detached (fst (pnfs_list_write_lseg lo)) = lo_detached lo"
    unfolding pnfs_list_write_lseg_def
    by (subst fold_keeps [where g = "\<lambda>a. lo_detached (fst a)"]) (simp_all add: case_prod_beta detached_simps)
qed (simp_all add: pnfs_find_lseg_def mypnfs_set_layoutcommit_def pnfs_layoutreturn_free_lsegs_def
    pnfs_layoutreturn_retry_later_def pnfs_layoutreturn_retry_later_locked_def
    nfs4_layout_refresh_old_stateid_def pnfs_layout_io_set_failed_def pnfs_layout_io_test_failed_def
    nfs_layoutget_begin_def nfs_layoutget_end_def Let_def case_prod_beta detached_simps
    split: option.split)

lemma layout_step_end:
  assumes "layout_step e lo lo'" "layout_ok ([], lo)" "\<not> lo_detached lo"
  shows "end_ok lo'"
  using assms
proof (induction rule: layout_step.induct)
  case (step_put_lseg s lo)
  then show ?case using ends_with_put_end [OF put_lseg_put] by blast
next
  case (step_put_hdr lo)
  then show ?case using put_send_end(1) by blast
next
  case (step_destroy lo)
  then show ?case using ends_with_put_end [OF destroy_layout_put] by blast
next
  case (step_error_return lo r)
  then show ?case using mark_for_return_ok by blast
qed (simp_all add: end_ok_live detached_simps)

lemma layout_reach_ok: "layout_reach lo \<Longrightarrow> layout_ok ([], lo) \<and> end_ok lo"
proof (induction rule: layout_reach.induct)
  case (reach_new cred)
  then show ?case using alloc_init_ok by (simp add: end_ok_def alloc_init_layout_hdr_def)
next
  case (reach_step lo e lo')
  then show ?case using layout_step_ok layout_step_end by blast
qed

section \<open>Lookup after a LAYOUTGET\<close>

lemma upd_lseg_block_lgets [simp]: "plh_block_lgets (upd_lseg s f lo) = plh_block_lgets lo"
  by (simp add: upd_lseg_def)

lemma layout_process_installed:
  assumes f: "driver_insert f" and ok: "layout_ok ([], lo)"
    and fresh: "\<And>s. alloc = Inr s \<Longrightarrow> fresh_lseg s lo"
    and p: "pnfs_layout_process e f alloc res cred lo = (lo', Inr s)"
  shows "s \<in> set (plh_segs lo') \<and> test_lseg NFS_LSEG_VALID s lo' \<and>
    pls_range (lsegs lo' s) = lg_range res \<and> pnfs_sanity_check_layout_range (lg_range res)"
proof -
  have alloc: "alloc = Inr s" and sane: "pnfs_sanity_check_layout_range (lg_range res)"
    using p by (auto simp: layout_process_eq process_forget_def process_install_def Let_def case_prod_beta
        split: if_splits sum.splits)
  let ?l1 = "pnfs_init_lseg s (lg_range res) (lg_stateid res) lo"
  obtain b where inst: "process_install f (lg_return_on_close res) s
      (pnfs_set_layout_stateid e (lg_stateid res) (Some cred) b ?l1) = (lo', Inr s)"
    using p alloc sane
    by (auto simp: layout_process_eq process_forget_def Let_def split: if_splits)
  let ?l2 = "pnfs_set_layout_stateid e (lg_stateid res) (Some cred) b ?l1"
  have c: "core ?l2 = core ?l1" by simp
  have l1: "layout_ok ([], ?l1)" using init_lseg_ok [OF ok fresh [OF alloc]] .
  have ns: "s \<notin> set (plh_segs ?l1) \<union> set (plh_return_segs ?l1) \<union> set (freed_lsegs ?l1)"
    using fresh [OF alloc] by (simp add: fresh_lseg_def pnfs_init_lseg_def)
  have ls: "pls_refcount (lsegs ?l1 s) = 1" "pls_flags (lsegs ?l1 s) = {NFS_LSEG_VALID}"
      "pls_range (lsegs ?l1 s) = lg_range res"
    using fresh [OF alloc] by (simp_all add: fresh_lseg_def pnfs_init_lseg_def)
  show ?thesis
    using process_install_ok [OF f, of ?l2 s "lg_return_on_close res"] l1 ns ls sane inst
      layout_ok_core [OF c, of "[]"] core_segs [OF c] core_ret [OF c] core_freed [OF c] core_lsegs [OF c]
    by simp
qed

lemma sane_length: "pnfs_sanity_check_layout_range r \<Longrightarrow> rlength r \<noteq> 0"
  by (simp add: pnfs_sanity_check_layout_range_def split: if_splits)

lemma find_lseg_Some:
  assumes "s \<in> set (plh_segs lo)" "test_lseg NFS_LSEG_VALID s lo"
    "pnfs_lseg_range_match (pls_range (lsegs lo s)) r strict"
  obtains t where "snd (pnfs_find_lseg r strict lo) = Some t" "t \<in> set (plh_segs lo)"
    "test_lseg NFS_LSEG_VALID t lo" "pnfs_lseg_range_match (pls_range (lsegs lo t)) r strict"
    "pls_refcount (lsegs (fst (pnfs_find_lseg r strict lo)) t) = pls_refcount (lsegs lo t) + 1"
proof -
  let ?P = "\<lambda>s. test_lseg NFS_LSEG_VALID s lo \<and> pnfs_lseg_range_match (pls_range (lsegs lo s)) r strict"
  have "List.find ?P (plh_segs lo) \<noteq> None" using assms by (auto simp: find_None_iff)
  then obtain t where t: "List.find ?P (plh_segs lo) = Some t" by blast
  then have "?P t \<and> t \<in> set (plh_segs lo)" by (auto simp: find_Some_iff)
  then show ?thesis using that t by (simp add: pnfs_find_lseg_def pnfs_get_lseg_def)
qed

section \<open>Properties\<close>

text \<open>Example data for the witnesses: a layout with one whole-file segment that nobody uses.\<close>

definition ex_range :: pnfs_layout_range where
  "ex_range = \<lparr>iomode = IOMODE_RW, offset = 0, rlength = NFS4_MAX_UINT64\<rparr>"

definition ex_sid :: "u32 \<Rightarrow> nfs4_stateid" where
  "ex_sid q = \<lparr>seqid = q, other = 7, sid_type = NFS4_LAYOUT_STATEID_TYPE\<rparr>"

definition ex_pnfs_env :: pnfs_env where
  "ex_pnfs_env = \<lparr>pe_jiffies = 0, pe_hz = 100, pe_allocs = [],
             pe_cred_differs = (\<lambda>a b. a \<noteq> b)\<rparr>"

definition ex_reply :: layoutget_res where
  "ex_reply = \<lparr>lg_range = ex_range, lg_stateid = ex_sid 1, lg_return_on_close = False\<rparr>"

definition ex_layout :: pnfs_layout_hdr where
  "ex_layout = (alloc_init_layout_hdr 0)
     \<lparr>plh_refcount := 2, plh_segs := [4], plh_flags := {}, plh_stateid := ex_sid 1, plh_barrier := 1,
      lsegs := (lsegs (alloc_init_layout_hdr 0))
        (4 := \<lparr>pls_refcount = 1, pls_flags = {NFS_LSEG_VALID}, pls_range = ex_range, pls_seq = 1\<rparr>)\<rparr>"

lemma ex_layout_ok: "layout_ok ([], ex_layout)"
  by (simp add: ex_layout_def layout_ok_def lo_slack_def lo_fails_def alloc_init_layout_hdr_def
      lseg_need_def)

lemma ex_layout_fresh: "fresh_lseg 3 (alloc_init_layout_hdr 0)"
  by (simp add: fresh_lseg_def alloc_init_layout_hdr_def)

text \<open>
  C1: In every state a layout can reach, by LAYOUTGET replies, lookups, drops, recalls, returns, errors
  and destruction in any order and with any failed allocation, each segment is on one list only and
  is freed at most once, a listed segment has a reference for each use, a segment that is to be
  returned is neither valid nor in use, the header has a reference for each of its segments, and
  once the header is detached from its inode no segment is left (the source's warning about
  unfreed layout segments never fires).
\<close>
theorem layout_segments_accounted:
  assumes "layout_reach lo"
  shows "distinct (plh_segs lo @ plh_return_segs lo @ freed_lsegs lo) \<and>
    (\<forall>s. s \<in> set (plh_segs lo) \<longrightarrow>
       0 < pls_refcount (lsegs lo s) \<and> lseg_need (lsegs lo s) \<le> pls_refcount (lsegs lo s)) \<and>
    (\<forall>s. s \<in> set (plh_return_segs lo) \<longrightarrow>
       pls_refcount (lsegs lo s) = 0 \<and> \<not> test_lseg NFS_LSEG_VALID s lo) \<and>
    length (plh_segs lo) + lo_fails lo \<le> plh_refcount lo \<and>
    (lo_detached lo \<longrightarrow> plh_segs lo = [])"
proof -
  have ok: "layout_ok ([], lo)" "end_ok lo" using layout_reach_ok [OF assms] by simp_all
  then have "length (plh_segs lo) + lo_fails lo \<le> plh_refcount lo"
    by (simp add: layout_ok_def lo_slack_def)
  then show ?thesis
    using ok by (auto simp: layout_ok_def end_ok_def lseg_need_def test_lseg_def)
qed

theorem layout_segments_accounted_witness:
  "distinct (plh_segs (fst (pnfs_layout_process ex_pnfs_env None (Inr 3) ex_reply 0 (alloc_init_layout_hdr 0))) @
     plh_return_segs (fst (pnfs_layout_process ex_pnfs_env None (Inr 3) ex_reply 0 (alloc_init_layout_hdr 0))) @
     freed_lsegs (fst (pnfs_layout_process ex_pnfs_env None (Inr 3) ex_reply 0 (alloc_init_layout_hdr 0))))"
proof -
  have "layout_step ex_pnfs_env (alloc_init_layout_hdr 0)
      (fst (pnfs_layout_process ex_pnfs_env None (Inr 3) ex_reply 0 (alloc_init_layout_hdr 0)))"
    by (rule layout_step.step_process) (auto simp: driver_insert_def ex_layout_fresh)
  then have "layout_reach (fst (pnfs_layout_process ex_pnfs_env None (Inr 3) ex_reply 0 (alloc_init_layout_hdr 0)))"
    by (rule layout_reach.reach_step [OF layout_reach.reach_new, rotated])
       (simp add: alloc_init_layout_hdr_def)
  then show ?thesis using layout_segments_accounted by blast
qed





text \<open>
  C34: \<open>pnfs_layout_need_return\<close> asks for a LAYOUTRETURN whenever one was requested, also while segments
  to be returned are in use: it compares the result of \<open>pnfs_mark_layout_stateid_return\<close>, which is
  \<open>-EBUSY\<close> then, with \<open>EBUSY\<close>.
\<close>
theorem need_return_ignores_busy:
  "snd (pnfs_layout_need_return lo) \<longleftrightarrow> NFS_LAYOUT_RETURN_REQUESTED \<in> plh_flags lo"
  by (simp add: pnfs_layout_need_return_def pnfs_mark_layout_stateid_return_def
      pnfs_mark_matching_lsegs_return_def Let_def case_prod_beta)

text \<open>
  C35: A LAYOUTGET reply with a new stateid drops the segments of the old one without freeing them: an
  unused segment is afterwards on no list and was never handed to the driver's \<open>free_lseg\<close>, because
  \<open>out_forget\<close> does not free the list \<open>free_me\<close>.
\<close>
theorem new_stateid_leaks_segments:
  assumes "pnfs_sanity_check_layout_range (lg_range res)" "\<not> pnfs_layoutgets_blocked lo"
    "NFS_LAYOUT_DRAIN \<notin> plh_flags lo" "pnfs_layout_is_valid lo"
    "\<not> nfs4_stateid_match_other (plh_stateid lo) (lg_stateid res)"
    "plh_segs lo = [t]" "plh_return_segs lo = []" "t \<notin> set (freed_lsegs lo)" "s \<noteq> t"
    "NFS_LAYOUT_RETURN_REQUESTED \<notin> plh_flags lo"
    "pls_refcount (lsegs lo t) = 1" "pls_flags (lsegs lo t) = {NFS_LSEG_VALID}"
    "rlength (pls_range (lsegs lo t)) \<noteq> 0"
  shows "t \<notin> set (plh_segs (fst (pnfs_layout_process e f (Inr s) res cred lo))) \<and>
    t \<notin> set (plh_return_segs (fst (pnfs_layout_process e f (Inr s) res cred lo))) \<and>
    t \<notin> set (freed_lsegs (fst (pnfs_layout_process e f (Inr s) res cred lo)))"
proof -
  let ?l1 = "pnfs_init_lseg s (lg_range res) (lg_stateid res) lo"
  let ?l2 = "clear_lseg NFS_LSEG_VALID t ?l1"
  let ?l3 = "pnfs_layout_remove_lseg t (upd_lseg t (\<lambda>l. l\<lparr>pls_refcount := pls_refcount l - 1\<rparr>) ?l2)"
  have "unat (offset (pls_range (lsegs lo t))) \<in> range_bytes (whole_range IOMODE_ANY)"
    by (simp add: range_bytes_def whole_range_def)
  then have "pnfs_lseg_range_intersecting (pls_range (lsegs lo t)) (whole_range IOMODE_ANY)"
    using offset_in_range_bytes [OF assms(13)] assms(13)
    by (subst intersecting_bytes) (auto simp: whole_range_def)
  then have hit: "pnfs_match_lseg_recall (lsegs ?l1 t) (Some (whole_range IOMODE_ANY)) 0"
    using assms(9) by (simp add: pnfs_init_lseg_def pnfs_match_lseg_recall_def pnfs_should_free_range_def
        whole_range_def)
  have step: "lsegs_return_step (whole_range IOMODE_ANY) 0 t (([], ?l1), To_free, 0) = (([t], ?l3), To_free, 0)"
    using hit assms(9,11,12)
    by (simp add: lsegs_return_step_def test_lseg_def pnfs_init_lseg_def mark_lseg_invalid_def
        pnfs_lseg_dec_and_remove_zero_def clear_lseg_def list_add_dst_def Let_def)
  have c: "core ?l3 = core ((upd_lseg t (\<lambda>l. l\<lparr>pls_refcount := pls_refcount l - 1\<rparr>) ?l2)
      \<lparr>plh_segs := removeAll t (plh_segs ?l2), plh_refcount := plh_refcount ?l2 - 1\<rparr>)"
    by (simp add: remove_lseg_core)
  have l3: "plh_segs ?l3 = []" "plh_return_segs ?l3 = []" "freed_lsegs ?l3 = freed_lsegs lo"
    using core_segs [OF c] core_ret [OF c] core_freed [OF c] assms(6,7)
    by (simp_all add: clear_lseg_def pnfs_init_lseg_def)
  have "pnfs_mark_matching_lsegs_return To_free (whole_range IOMODE_ANY) 0 ([], ?l1) =
      (([t], ?l3), - ENOENT)"
    using step l3 assms(6,10)
    by (simp add: pnfs_mark_matching_lsegs_return_def Let_def pnfs_init_lseg_def)
  then have "pnfs_layout_process e f (Inr s) res cred lo = process_forget s ?l3"
    using assms(1-5)
    by (simp add: layout_process_eq Let_def pnfs_layoutgets_blocked_def pnfs_layout_is_valid_def
        pnfs_init_lseg_def)
  then show ?thesis using l3 assms(8,9) by (simp add: process_forget_def)
qed

theorem new_stateid_leaks_segments_witness:
  "4 \<notin> set (freed_lsegs (fst (pnfs_layout_process ex_pnfs_env None (Inr 3)
     (ex_reply\<lparr>lg_stateid := \<lparr>seqid = 1, other = 8, sid_type = NFS4_LAYOUT_STATEID_TYPE\<rparr>\<rparr>) 0 ex_layout)))"
proof -
  let ?res = "ex_reply\<lparr>lg_stateid := \<lparr>seqid = 1, other = 8, sid_type = NFS4_LAYOUT_STATEID_TYPE\<rparr>\<rparr>"
  have "pnfs_sanity_check_layout_range (lg_range ?res)" "\<not> pnfs_layoutgets_blocked ex_layout"
      "NFS_LAYOUT_DRAIN \<notin> plh_flags ex_layout" "pnfs_layout_is_valid ex_layout"
      "\<not> nfs4_stateid_match_other (plh_stateid ex_layout) (lg_stateid ?res)"
      "plh_segs ex_layout = [4]" "plh_return_segs ex_layout = []" "4 \<notin> set (freed_lsegs ex_layout)"
      "NFS_LAYOUT_RETURN_REQUESTED \<notin> plh_flags ex_layout"
      "pls_refcount (lsegs ex_layout 4) = 1" "pls_flags (lsegs ex_layout 4) = {NFS_LSEG_VALID}"
      "rlength (pls_range (lsegs ex_layout 4)) \<noteq> 0"
    by (simp_all add: ex_layout_def ex_reply_def ex_range_def ex_sid_def alloc_init_layout_hdr_def
        pnfs_sanity_check_layout_range_def pnfs_layoutgets_blocked_def pnfs_layout_is_valid_def
        nfs4_stateid_match_other_def)
  then show ?thesis using new_stateid_leaks_segments [of ?res ex_layout 4 3 ex_pnfs_env None 0] by simp
qed

end
