(* ===== verification/Spec2Isabelle.thy ===== *)
theory Spec2Isabelle
  imports Nfs4_Slot_Table Nfs4_Sequence Mount_Mynfs Nfs_Mount_Options Pnfs_Layout_Inv
begin

text \<open>
  A verification of \<open>mynfs\<close>, the NFS client of Linux built as a loadable module
  (\<open>src/mynfs\<close>), and of its mount helper (\<open>src/mynfs_utils\<close>).

  \<^bold>\<open>The program.\<close> The module keeps, for every server it talks to, a client object with a lease.
  Every compound is sent on a slot of a session and carries the slot's sequence number. Opening a
  file gives an open state that belongs to an open owner; the server may add a delegation. Stateids
  name these on the wire. When the server restarts or the lease, the session or a delegation is
  lost, flags are set on the client and the state manager thread recovers: it establishes the lease,
  resets the session, reclaims open and lock state, and returns or tests delegations. A mount comes
  in as text options or as the binary data that the mount helper builds.

  \<^bold>\<open>Theories and sources.\<close>
  \<^item> \<open>Nfs_Prelude\<close>: machine integers, error codes, the kernel's bitmap searches, shared lemmas.
  \<^item> \<open>Nfs4_Slot_Table\<close> (\<open>nfs4session.c\<close>, \<open>nfs4session.h\<close>): the table of slots, allocating, freeing,
    waking waiting tasks, the target slot id, growing and shrinking. A table is a record; the bitmap
    of used slots is a set and the list of slots is in the order of their numbers.
  \<^item> \<open>Nfs4_Stateid\<close> (\<open>nfs4_fs.h\<close>, \<open>nfs4state.c\<close>): comparison of stateids on the circle of sequence
    numbers. \<open>Nfs4_Seqid\<close> (\<open>nfs4state.c\<close>): the queues that order OPEN, CLOSE and LOCK of an owner.
  \<^item> \<open>Nfs4_Client_Flags\<close>, \<open>Nfs4_Store\<close> (\<open>nfs4_fs.h\<close>, \<open>nfs4state.c\<close>, \<open>delegation.h\<close>): the recovery
    flags, and the heaps of the client: servers, inodes, owners, states, locks, delegations. A pointer
    is a number, a linked list a list of numbers, a flag word a set.
  \<^item> \<open>Nfs4_Open_State\<close> (\<open>nfs4proc.c\<close>, \<open>nfs4state.c\<close>): share counters, modes and stateids of an open
    state; \<open>Nfs4_Owner\<close> (\<open>nfs4state.c\<close>): the red-black tree of owners, its garbage collection, open
    states and lock states, and the stateid for a read or write.
  \<^item> \<open>Nfs4_Delegation\<close>, \<open>Nfs4_Delegation_Inv\<close> (\<open>delegation.c\<close>): granting, using, recalling, returning,
    reclaiming, testing and reaping delegations.
  \<^item> \<open>Nfs4_Reclaim\<close>, \<open>Nfs4_State_Manager\<close> (\<open>nfs4state.c\<close>, \<open>nfs4renewd.c\<close>, tables of \<open>nfs4proc.c\<close>):
    marking and reclaiming state, draining the slot tables, the lease, migration, SEQ4 status flags,
    the session, and the state manager itself.
  \<^item> \<open>Nfs4_Sequence\<close> (\<open>nfs4proc.c\<close>): attaching a slot to a call and processing the SEQUENCE result.
  \<^item> \<open>Nfs_Fs_Context\<close>, \<open>Nfs_Mount_Options\<close> (\<open>fs_context.c\<close>): text options, binary mount data,
    validation; \<open>Mount_Mynfs\<close> (\<open>mount.mynfs.c\<close>, \<open>umount.mynfs.c\<close>): the helpers, and their composition
    with the kernel's parser.
  \<^item> \<open>Pnfs_Range\<close> (\<open>pnfs.h\<close>, \<open>pnfs.c\<close>): 64-bit byte ranges; \<open>Pnfs_Layout\<close> (\<open>pnfs.c\<close>): the layout of a
    file, its segments and their references, LAYOUTGET replies, lookup, recall, return and
    destruction; \<open>Pnfs_Layout_Inv\<close>: its invariant, as a step relation, and its properties.

  \<^bold>\<open>How code corresponds.\<close> A structure is a record, an enumeration a datatype (or, for the mount
  options, the numbers of C), a function of the source a definition of the same name. State is
  passed and returned. A return code is an \<open>int\<close> as in C, a pointer or error a sum. Sequence numbers,
  slot numbers and jiffies are words of their width, so that wrap-around is part of every statement.
  What the kernel, the RPC layer or the server decides is a field of an environment record
  (\<open>slot_env\<close>, \<open>deleg_env\<close>, \<open>state_env\<close>, \<open>mgr_env\<close>, \<open>seq_env\<close>, \<open>fs_env\<close>, \<open>mount_sys\<close>, \<open>pnfs_env\<close>); what a theorem
  needs of it is a hypothesis of that theorem. Locks are not modelled: a critical section is one
  step, and where the code drops a lock and looks again the environment may change the state in
  between.

  \<^bold>\<open>Loops.\<close> A loop that the code restarts until nothing is left is a \<open>partial_function\<close> on options;
  its theorem shows that it returns, with a measure on what is still marked. There is no fuel.

  \<^bold>\<open>What the theorems show.\<close> Slots are exclusive and none leaks; the table stays well formed under
  every resize; replies move the sequence number exactly as their status says. Owners form a map,
  open states are unique per inode and owner, delegations hang where the lists and counters say.
  Reclaiming, reaping and migrating end and leave nothing marked. Stateids never go backwards. The
  mount helper's data reaches the kernel's context unchanged, both parse the device name alike, and
  the option parser keeps the context well formed. The segments of a layout are accounted for in
  every state it can reach, and its range arithmetic is exact on sets of bytes. Several theorems state where the code does not do
  what it means to; they are listed as findings of the development.

  \<^bold>\<open>Locales.\<close> The laws of a slot allocator (\<open>slot_allocator\<close>, \<open>Nfs4_Slot_Table\<close>), of a walk that marks
  state for recovery (\<open>reclaim_marker\<close>, \<open>Nfs4_Reclaim\<close>) and of a walk over the segments of a layout
  (\<open>seg_walk\<close>, \<open>Pnfs_Layout\<close>) are locales, interpreted on the definitions of the model.

  \<^bold>\<open>Not modelled.\<close> The encodings of the compounds (\<open>nfs4xdr.c\<close>, \<open>nfs42xdr.c\<close>, \<open>nfs3xdr.c\<close>,
  \<open>callback_xdr.c\<close>) write through the kernel's \<open>xdr_stream\<close>; the data path, the directory cache and
  the attribute cache work on pages, dentries and inodes of the VFS; name services are upcalls to
  user space; trace points and registration have no state. Of pNFS, the lists of layouts per server,
  the loop that sends LAYOUTGET, return on close, I/O scheduling and device ids are left out; they
  interleave waits, RPC calls and the page cache with the operations modelled here. The RPC calls of \<open>nfs4proc.c\<close> enter as
  parameters of the components that make them.
\<close>

end
